(* ===== verification/Prelude.thy ===== *)
theory Prelude
  imports Main "HOL-Library.Word" "HOL-Library.AList"
begin

text \<open>
  What every component shares: Go's 64-bit signed integers, Go maps as association lists with
  distinct keys, error results as sums, and the generic list facts the component proofs use.
  Nothing here models code of the repository.
\<close>

section \<open>Collections of facts\<close>

named_theorems gomap_simps "lookup laws of the Go map operations"
named_theorems go_bounds "range facts of 64-bit integers"

section \<open>Signed 64-bit integers\<close>

text \<open>
  Go's \<open>int\<close> and \<open>int64\<close> wrap around silently on amd64. An arithmetic result of the
  source that can leave the range is written \<open>int64 (a + b)\<close>.
\<close>

definition int64 :: "int \<Rightarrow> int" where
  "int64 x = (x + 2 ^ 63) mod 2 ^ 64 - 2 ^ 63"

lemma int64_id [simp]: "- (2 ^ 63) \<le> x \<Longrightarrow> x < 2 ^ 63 \<Longrightarrow> int64 x = x"
  by (simp add: int64_def)

lemma int64_lower [go_bounds]: "- (2 ^ 63) \<le> int64 x"
  by (simp add: int64_def)

lemma int64_upper [go_bounds]: "int64 x < 2 ^ 63"
proof -
  have "(x + 2 ^ 63) mod 2 ^ 64 < (2 ^ 64 :: int)" by simp
  then show ?thesis by (simp add: int64_def)
qed

lemma int64_wraps_once: "2 ^ 63 \<le> x \<Longrightarrow> x < 2 ^ 64 \<Longrightarrow> int64 x = x - 2 ^ 64"
proof -
  assume a: "2 ^ 63 \<le> x" "x < 2 ^ 64"
  have "(x + 2 ^ 63) mod 2 ^ 64 = (x - 2 ^ 63 + 2 ^ 64) mod (2 ^ 64 :: int)" by (simp add: add.commute)
  also have "\<dots> = (x - 2 ^ 63) mod 2 ^ 64" by (simp only: mod_add_self2)
  also have "\<dots> = x - 2 ^ 63" using a by (intro mod_pos_pos_trivial) auto
  finally show ?thesis by (simp add: int64_def)
qed

section \<open>Maps\<close>

text \<open>
  A Go map is an association list with distinct keys. The order of the list stands for the order
  of one iteration: Go leaves that order unspecified, so a result that depends on it is stated up
  to permutation or for every list with the same lookups.
\<close>

type_synonym ('k, 'v) gomap = "('k \<times> 'v) list"

abbreviation gm_keys :: "('k, 'v) gomap \<Rightarrow> 'k list" where
  "gm_keys m \<equiv> map fst m"

abbreviation gm_put :: "'k \<Rightarrow> 'v \<Rightarrow> ('k, 'v) gomap \<Rightarrow> ('k, 'v) gomap" where
  "gm_put k v m \<equiv> AList.update k v m"

abbreviation gm_del :: "'k \<Rightarrow> ('k, 'v) gomap \<Rightarrow> ('k, 'v) gomap" where
  "gm_del k m \<equiv> AList.delete k m"

definition wf_gomap :: "('k, 'v) gomap \<Rightarrow> bool" where
  "wf_gomap m \<longleftrightarrow> distinct (gm_keys m)"

lemma wf_gomap_Nil [simp, intro]: "wf_gomap []"
  by (simp add: wf_gomap_def)

lemma wf_gomap_put [simp, intro]: "wf_gomap m \<Longrightarrow> wf_gomap (gm_put k v m)"
  by (simp add: wf_gomap_def distinct_update)

lemma wf_gomap_del [simp, intro]: "wf_gomap m \<Longrightarrow> wf_gomap (gm_del k m)"
  by (simp add: wf_gomap_def distinct_delete)

lemma get_put [gomap_simps]: "map_of (gm_put k v m) = (map_of m)(k \<mapsto> v)"
  by (rule update_conv')

lemma get_del [gomap_simps]: "map_of (gm_del k m) = (map_of m)(k := None)"
  by (rule delete_conv')

lemma keys_iff_get: "k \<in> set (gm_keys m) \<longleftrightarrow> map_of m k \<noteq> None"
  by (metis dom_map_of_conv_image_fst domIff list.set_map)

lemma get_mem: "wf_gomap m \<Longrightarrow> (k, v) \<in> set m \<longleftrightarrow> map_of m k = Some v"
  by (simp add: wf_gomap_def)

lemma gm_del_absent: "k \<notin> set (gm_keys m) \<Longrightarrow> gm_del k m = m"
  by (induction m) auto

lemma gm_put_absent: "k \<notin> set (gm_keys m) \<Longrightarrow> gm_put k v m = m @ [(k, v)]"
  by (induction m) auto

lemma sum_gm_del:
  "wf_gomap m \<Longrightarrow> map_of m k = Some e \<Longrightarrow>
    sum_list (map (f \<circ> snd) m) = f e + sum_list (map (f \<circ> snd) (gm_del k m))"
  for f :: "'a \<Rightarrow> 'b :: comm_monoid_add"
proof (induction m)
  case (Cons x m)
  show ?case
  proof (cases "fst x = k")
    case True
    with Cons.prems have "k \<notin> set (gm_keys m)" by (auto simp: wf_gomap_def)
    with True Cons.prems show ?thesis by (simp add: gm_del_absent)
  next
    case False
    with Cons show ?thesis by (auto simp: wf_gomap_def ac_simps split: if_splits)
  qed
qed simp

lemma sum_gm_put_same:
  "wf_gomap m \<Longrightarrow> map_of m k = Some e \<Longrightarrow> f e' = f e \<Longrightarrow>
    sum_list (map (f \<circ> snd) (gm_put k e' m)) = sum_list (map (f \<circ> snd) m)"
  for f :: "'a \<Rightarrow> 'b :: comm_monoid_add"
  by (induction m) (auto simp: wf_gomap_def split: if_splits)

lemma length_gm_put: "map_of m k = Some e \<Longrightarrow> length (gm_put k v m) = length m"
  by (induction m) (auto split: if_splits)

lemma length_gm_del: "wf_gomap m \<Longrightarrow> map_of m k = Some e \<Longrightarrow> length m = Suc (length (gm_del k m))"
proof (induction m)
  case (Cons x m)
  show ?case
  proof (cases "fst x = k")
    case True
    with Cons.prems have "k \<notin> set (gm_keys m)" by (auto simp: wf_gomap_def)
    with True Cons.prems show ?thesis by (simp add: gm_del_absent)
  next
    case False
    with Cons show ?thesis by (auto simp: wf_gomap_def split: if_splits)
  qed
qed simp

lemma keys_gm_put: "set (gm_keys (gm_put k v m)) = insert k (set (gm_keys m))"
  by (auto simp: update_keys)

lemma keys_gm_del: "set (gm_keys (gm_del k m)) = set (gm_keys m) - {k}"
  by (simp add: delete_keys)

text \<open>Writing the same value under every key of a list, as the range loops do.\<close>

fun gm_put_all :: "'k list \<Rightarrow> 'v \<Rightarrow> ('k, 'v) gomap \<Rightarrow> ('k, 'v) gomap" where
  "gm_put_all [] v m = m"
| "gm_put_all (k # ks) v m = gm_put_all ks v (gm_put k v m)"

fun gm_del_all :: "'k list \<Rightarrow> ('k, 'v) gomap \<Rightarrow> ('k, 'v) gomap" where
  "gm_del_all [] m = m"
| "gm_del_all (k # ks) m = gm_del_all ks (gm_del k m)"

lemma get_put_all [gomap_simps]:
  "map_of (gm_put_all ks v m) k = (if k \<in> set ks then Some v else map_of m k)"
  by (induction ks arbitrary: m) (auto simp: gomap_simps)

lemma get_del_all [gomap_simps]:
  "map_of (gm_del_all ks m) k = (if k \<in> set ks then None else map_of m k)"
  by (induction ks arbitrary: m) (auto simp: gomap_simps)

lemma wf_gomap_put_all [simp, intro]: "wf_gomap m \<Longrightarrow> wf_gomap (gm_put_all ks v m)"
  by (induction ks arbitrary: m) auto

lemma wf_gomap_del_all [simp, intro]: "wf_gomap m \<Longrightarrow> wf_gomap (gm_del_all ks m)"
  by (induction ks arbitrary: m) auto

section \<open>Bytes and readers\<close>

type_synonym bytes = "8 word list"

text \<open>What reading an \<open>io.Reader\<close> to its end gives: the bytes, and whether it ended with an error.\<close>

record reader =
  rd_bytes :: bytes
  rd_fails :: bool

section \<open>Error results\<close>

text \<open>\<open>Inl e\<close> is a returned error, \<open>Inr v\<close> a result.\<close>

fun res_bind :: "'e + 'a \<Rightarrow> ('a \<Rightarrow> 'e + 'b) \<Rightarrow> 'e + 'b" where
  "res_bind (Inl e) f = Inl e"
| "res_bind (Inr a) f = f a"

lemma res_bind_Inr_iff: "res_bind r f = Inr b \<longleftrightarrow> (\<exists>a. r = Inr a \<and> f a = Inr b)"
  by (cases r) auto

fun is_ok :: "'e + 'a \<Rightarrow> bool" where
  "is_ok (Inl e) = False"
| "is_ok (Inr a) = True"

lemma is_ok_iff: "is_ok r \<longleftrightarrow> (\<exists>a. r = Inr a)"
  by (cases r) auto

section \<open>Lists\<close>

lemma sum_list_filter_split:
  "sum_list (map f xs) = sum_list (map f (filter P xs)) + sum_list (map f (filter (\<lambda>x. \<not> P x) xs))"
  for f :: "'a \<Rightarrow> 'b :: comm_monoid_add"
  by (induction xs) (auto simp: ac_simps)

lemma sum_list_remove1_member:
  "x \<in> set xs \<Longrightarrow> sum_list (map f xs) = f x + sum_list (map f (remove1 x xs))"
  for f :: "'a \<Rightarrow> 'b :: comm_monoid_add"
  by (induction xs) (auto simp: ac_simps)

lemma takeWhile_neq_append: "c \<notin> set xs \<Longrightarrow> takeWhile (\<lambda>x. x \<noteq> c) (xs @ c # ys) = xs"
  by (induction xs) auto

lemma dropWhile_neq_append: "c \<notin> set xs \<Longrightarrow> dropWhile (\<lambda>x. x \<noteq> c) (xs @ c # ys) = c # ys"
  by (induction xs) auto

lemma takeWhile_neq_all: "c \<notin> set xs \<Longrightarrow> takeWhile (\<lambda>x. x \<noteq> c) xs = xs"
  by (induction xs) auto

lemma list_all_filter: "list_all P (filter P xs)"
  by (induction xs) auto

end
