(* ===== verification/Go_Strings.thy ===== *)
theory Go_Strings
  imports Prelude "HOL-Library.Char_ord" "HOL-Library.List_Lexorder"
begin

text \<open>
  The part of Go's standard library the modelled code calls on strings: \<open>strings\<close>,
  \<open>path/filepath\<close>, \<open>strconv\<close> and \<open>net/url\<close>. A Go string is a sequence of bytes, and so is a
  HOL \<open>string\<close> (a list of 8-bit characters), hence \<open>length\<close> is Go's \<open>len\<close>.
  \<open>trim_space\<close> knows the UTF-8 encodings of every Unicode space. \<open>to_lower\<close> is exact on
  ASCII and on the two non-ASCII letters whose lower case is ASCII; other non-ASCII bytes are
  left alone, which no comparison with an ASCII constant can observe.
\<close>

section \<open>Package strings\<close>

definition has_prefix :: "string \<Rightarrow> string \<Rightarrow> bool" where
  "has_prefix s p \<longleftrightarrow> take (length p) s = p"

definition has_suffix :: "string \<Rightarrow> string \<Rightarrow> bool" where
  "has_suffix s p \<longleftrightarrow> drop (length s - length p) s = p"

definition trim_prefix :: "string \<Rightarrow> string \<Rightarrow> string" where
  "trim_prefix s p = (if has_prefix s p then drop (length p) s else s)"

definition trim_suffix :: "string \<Rightarrow> string \<Rightarrow> string" where
  "trim_suffix s p = (if has_suffix s p then take (length s - length p) s else s)"

definition cut_prefix :: "string \<Rightarrow> string \<Rightarrow> string option" where
  "cut_prefix s p = (if has_prefix s p then Some (drop (length p) s) else None)"

text \<open>\<open>strings.Index\<close>: the first occurrence, \<open>None\<close> for -1.\<close>

fun str_index :: "string \<Rightarrow> string \<Rightarrow> nat option" where
  "str_index [] sub = (if sub = [] then Some 0 else None)"
| "str_index (c # s) sub =
     (if has_prefix (c # s) sub then Some 0 else map_option Suc (str_index s sub))"

definition str_contains :: "string \<Rightarrow> string \<Rightarrow> bool" where
  "str_contains s sub \<longleftrightarrow> str_index s sub \<noteq> None"

definition contains_any :: "string \<Rightarrow> string \<Rightarrow> bool" where
  "contains_any s chars \<longleftrightarrow> list_ex (\<lambda>c. c \<in> set chars) s"

text \<open>\<open>strings.Cut\<close> at a one-byte separator.\<close>

definition cut_char :: "string \<Rightarrow> char \<Rightarrow> (string \<times> string) option" where
  "cut_char s c = (case dropWhile (\<lambda>x. x \<noteq> c) s of
      [] \<Rightarrow> None
    | _ # rest \<Rightarrow> Some (takeWhile (\<lambda>x. x \<noteq> c) s, rest))"

text \<open>\<open>strings.Split\<close> at a one-byte separator: never empty.\<close>

fun split_char :: "char \<Rightarrow> string \<Rightarrow> string list" where
  "split_char c [] = [[]]"
| "split_char c (x # xs) =
     (if x = c then [] # split_char c xs
      else (case split_char c xs of [] \<Rightarrow> [[x]] | y # ys \<Rightarrow> (x # y) # ys))"

fun str_join :: "string \<Rightarrow> string list \<Rightarrow> string" where
  "str_join sep [] = []"
| "str_join sep [s] = s"
| "str_join sep (s # t # ts) = s @ sep @ str_join sep (t # ts)"

text \<open>\<open>strings.Trim(s, c)\<close> for a one-byte cutset.\<close>

definition trim_char :: "char \<Rightarrow> string \<Rightarrow> string" where
  "trim_char c s = rev (dropWhile (\<lambda>x. x = c) (rev (dropWhile (\<lambda>x. x = c) s)))"

definition last_index_char :: "string \<Rightarrow> char \<Rightarrow> nat option" where
  "last_index_char s c =
     (if c \<in> set s then Some (length s - 1 - length (takeWhile (\<lambda>x. x \<noteq> c) (rev s))) else None)"

subsection \<open>White space\<close>

text \<open>The code points for which \<open>unicode.IsSpace\<close> holds, each as its UTF-8 encoding.\<close>

definition ascii_space :: "char \<Rightarrow> bool" where
  "ascii_space c \<longleftrightarrow> of_char c \<in> {9, 10, 11, 12, 13, 32 :: nat}"

definition wide_spaces :: "string list" where
  "wide_spaces = map (map (char_of :: nat \<Rightarrow> char))
     ([[194, 133], [194, 160], [225, 154, 128], [226, 128, 168], [226, 128, 169],
       [226, 128, 175], [226, 129, 159], [227, 128, 128]]
      @ map (\<lambda>k. [226, 128, k]) [128 ..< 139])"

text \<open>Length of the space a string starts with, 0 when there is none.\<close>

definition leading_space :: "string \<Rightarrow> nat" where
  "leading_space s = (case s of
      [] \<Rightarrow> 0
    | c # _ \<Rightarrow> if ascii_space c then 1
        else (case find (has_prefix s) wide_spaces of None \<Rightarrow> 0 | Some w \<Rightarrow> length w))"

definition trailing_space :: "string \<Rightarrow> nat" where
  "trailing_space s = (case rev s of
      [] \<Rightarrow> 0
    | c # _ \<Rightarrow> if ascii_space c then 1
        else (case find (has_suffix s) wide_spaces of None \<Rightarrow> 0 | Some w \<Rightarrow> length w))"

function trim_left_space :: "string \<Rightarrow> string" where
  "trim_left_space s =
     (if s = [] \<or> leading_space s = 0 then s else trim_left_space (drop (leading_space s) s))"
  by pat_completeness auto
termination by (relation "measure length") auto

function trim_right_space :: "string \<Rightarrow> string" where
  "trim_right_space s =
     (if s = [] \<or> trailing_space s = 0 then s
      else trim_right_space (take (length s - trailing_space s) s))"
  by pat_completeness auto
termination by (relation "measure length") auto

declare trim_left_space.simps [simp del] trim_right_space.simps [simp del]

definition trim_space :: "string \<Rightarrow> string" where
  "trim_space s = trim_right_space (trim_left_space s)"

subsection \<open>Case\<close>

definition lower_char :: "char \<Rightarrow> char" where
  "lower_char c = (if 65 \<le> (of_char c :: nat) \<and> (of_char c :: nat) \<le> 90
                   then char_of (of_char c + 32 :: nat) else c)"

fun to_lower :: "string \<Rightarrow> string" where
  "to_lower [] = []"
| "to_lower (c # s) =
     (if of_char c = (196 :: nat) \<and> s \<noteq> [] \<and> of_char (hd s) = (176 :: nat)
      then CHR ''i'' # to_lower (tl s)
      else if of_char c = (226 :: nat) \<and> length s \<ge> 2 \<and> of_char (hd s) = (132 :: nat)
              \<and> of_char (hd (tl s)) = (170 :: nat)
      then CHR ''k'' # to_lower (tl (tl s))
      else lower_char c # to_lower s)"

text \<open>\<open>strings.EqualFold\<close>, exact when one of the strings is ASCII: the long s and the Kelvin sign fold to letters.\<close>

fun fold_case :: "string \<Rightarrow> string" where
  "fold_case [] = []"
| "fold_case (c # s) =
     (if of_char c = (197 :: nat) \<and> s \<noteq> [] \<and> of_char (hd s) = (191 :: nat) then CHR ''s'' # fold_case (tl s)
      else if of_char c = (226 :: nat) \<and> length s \<ge> 2 \<and> of_char (hd s) = (132 :: nat) \<and> of_char (hd (tl s)) = (170 :: nat)
      then CHR ''k'' # fold_case (tl (tl s))
      else lower_char c # fold_case s)"

definition equal_fold :: "string \<Rightarrow> string \<Rightarrow> bool" where
  "equal_fold s t \<longleftrightarrow> fold_case s = fold_case t"

section \<open>Bytes\<close>

definition text_of :: "bytes \<Rightarrow> string" where
  "text_of bs = map (\<lambda>b. char_of (unat b)) bs"

definition bytes_of :: "string \<Rightarrow> bytes" where
  "bytes_of s = map (\<lambda>c. of_char c) s"

lemma text_of_bytes_of [simp]: "text_of (bytes_of s) = s"
proof -
  have "unat (of_char c :: 8 word) = of_char c" for c
  proof -
    have "(of_char c :: 8 word) = word_of_nat (of_char c)" by (simp add: of_char_def)
    moreover have "(of_char c :: nat) < 256" by simp
    ultimately show ?thesis by (simp add: unat_of_nat)
  qed
  then show ?thesis by (simp add: text_of_def bytes_of_def comp_def map_idI)
qed

section \<open>Package path/filepath\<close>

definition last_element :: "string \<Rightarrow> string" where
  "last_element s = rev (takeWhile (\<lambda>c. c \<noteq> CHR ''/'') (rev s))"

definition file_ext :: "string \<Rightarrow> string" where
  "file_ext s = (let b = last_element s in
     if CHR ''.'' \<in> set b then CHR ''.'' # rev (takeWhile (\<lambda>c. c \<noteq> CHR ''.'') (rev b)) else [])"

definition file_base :: "string \<Rightarrow> string" where
  "file_base s =
     (if s = [] then ''.''
      else let t = rev (dropWhile (\<lambda>c. c = CHR ''/'') (rev s)); b = last_element t
           in if b = [] then ''/'' else b)"

text \<open>\<open>filepath.Clean\<close> on the elements of a path; \<open>acc\<close> holds the kept elements, last first.\<close>

fun clean_elems :: "bool \<Rightarrow> string list \<Rightarrow> string list \<Rightarrow> string list" where
  "clean_elems rooted acc [] = rev acc"
| "clean_elems rooted acc (e # es) =
     (if e = [] \<or> e = ''.'' then clean_elems rooted acc es
      else if e = ''..'' then
        (case acc of
           [] \<Rightarrow> if rooted then clean_elems rooted [] es else clean_elems rooted [''..''] es
         | a # as \<Rightarrow> if a = ''..'' then clean_elems rooted (e # acc) es
                    else clean_elems rooted as es)
      else clean_elems rooted (e # acc) es)"

definition path_clean :: "string \<Rightarrow> string" where
  "path_clean s =
     (let rooted = has_prefix s ''/'';
          body = str_join ''/'' (clean_elems rooted [] (split_char CHR ''/'' s))
      in if rooted then ''/'' @ body else if body = [] then ''.'' else body)"

definition path_dir :: "string \<Rightarrow> string" where
  "path_dir s = path_clean (take (length s - length (last_element s)) s)"

definition path_join :: "string \<Rightarrow> string \<Rightarrow> string" where
  "path_join a b =
     (if a = [] \<and> b = [] then []
      else if a = [] then path_clean b
      else if b = [] then path_clean a else path_clean (a @ ''/'' @ b))"

section \<open>Package strconv\<close>

fun nat_digits :: "nat \<Rightarrow> string" where
  "nat_digits n = (if n < 10 then [char_of (48 + n)] else nat_digits (n div 10) @ [char_of (48 + n mod 10)])"

declare nat_digits.simps [simp del]

definition itoa :: "int \<Rightarrow> string" where
  "itoa i = (if i < 0 then ''-'' @ nat_digits (nat (- i)) else nat_digits (nat i))"

definition is_digit :: "char \<Rightarrow> bool" where
  "is_digit c \<longleftrightarrow> 48 \<le> (of_char c :: nat) \<and> (of_char c :: nat) \<le> 57"

fun digits_value :: "nat \<Rightarrow> string \<Rightarrow> nat option" where
  "digits_value acc [] = Some acc"
| "digits_value acc (c # cs) =
     (if is_digit c then digits_value (10 * acc + (of_char c - 48)) cs else None)"

text \<open>
  \<open>strconv.Atoi\<close> and \<open>strconv.ParseInt(s, 10, 64)\<close>: an optional sign, at least one digit, nothing
  else, and a value within 64 bits.
\<close>

definition parse_int :: "string \<Rightarrow> int option" where
  "parse_int s =
     (let neg = has_prefix s ''-'';
          ds = (if neg \<or> has_prefix s ''+'' then tl s else s)
      in if ds = [] then None
         else case digits_value 0 ds of
           None \<Rightarrow> None
         | Some n \<Rightarrow> let v = (if neg then - int n else int n)
                    in if - (2 ^ 63) \<le> v \<and> v < 2 ^ 63 then Some v else None)"

section \<open>Facts\<close>

subsection \<open>Prefixes and suffixes\<close>

lemma has_prefix_iff: "has_prefix s p \<longleftrightarrow> (\<exists>t. s = p @ t)"
  by (metis append_eq_conv_conj append_take_drop_id has_prefix_def)

lemma has_suffix_iff: "has_suffix s p \<longleftrightarrow> (\<exists>t. s = t @ p)"
proof
  assume "has_suffix s p"
  then show "\<exists>t. s = t @ p" by (metis append_take_drop_id has_suffix_def)
next
  assume "\<exists>t. s = t @ p"
  then show "has_suffix s p" by (auto simp: has_suffix_def)
qed

lemma has_prefix_append [simp]: "has_prefix (p @ s) p"
  by (auto simp: has_prefix_iff)

lemma has_suffix_append [simp]: "has_suffix (s @ p) p"
  by (auto simp: has_suffix_iff)

lemma has_prefix_Nil [simp]: "has_prefix s []"
  by (simp add: has_prefix_def)

lemma has_prefix_of_Nil [simp]: "has_prefix [] p \<longleftrightarrow> p = []"
  by (auto simp: has_prefix_def)

lemma has_prefix_Cons [simp]: "has_prefix (c # s) (d # p) \<longleftrightarrow> c = d \<and> has_prefix s p"
  by (auto simp: has_prefix_def)

lemma trim_prefix_append [simp]: "trim_prefix (p @ s) p = s"
  by (simp add: trim_prefix_def)

lemma trim_suffix_append [simp]: "trim_suffix (s @ p) p = s"
  by (simp add: trim_suffix_def)

lemma trim_prefix_unchanged: "\<not> has_prefix s p \<Longrightarrow> trim_prefix s p = s"
  by (simp add: trim_prefix_def)

lemma cut_prefix_append [simp]: "cut_prefix (p @ s) p = Some s"
  by (simp add: cut_prefix_def)

subsection \<open>Split and join\<close>

lemma split_char_not_Nil [simp]: "split_char c s \<noteq> []"
  by (induction s) (auto split: list.splits)

lemma split_char_clean: "l \<in> set (split_char c s) \<Longrightarrow> c \<notin> set l"
  by (induction s arbitrary: l) (auto split: list.splits if_splits)

lemma join_split: "str_join [c] (split_char c s) = s"
proof (induction s)
  case Nil
  then show ?case by simp
next
  case (Cons x xs)
  obtain y ys where y: "split_char c xs = y # ys"
    by (cases "split_char c xs") auto
  with Cons.IH have IH: "str_join [c] (y # ys) = xs" by simp
  show ?case
  proof (cases "x = c")
    case True
    with IH y show ?thesis by simp
  next
    case False
    with IH y show ?thesis by (cases ys) auto
  qed
qed

lemma split_char_free: "c \<notin> set s \<Longrightarrow> split_char c s = [s]"
  by (induction s) auto

lemma split_char_append: "c \<notin> set s \<Longrightarrow> split_char c (s @ c # t) = s # split_char c t"
  by (induction s) auto

lemma split_join:
  "ls \<noteq> [] \<Longrightarrow> (\<And>l. l \<in> set ls \<Longrightarrow> c \<notin> set l) \<Longrightarrow> split_char c (str_join [c] ls) = ls"
proof (induction "[c]" ls rule: str_join.induct)
  case 1
  then show ?case by simp
next
  case (2 s)
  then show ?case by (simp add: split_char_free)
next
  case (3 s t ts)
  then show ?case by (simp add: split_char_append)
qed

lemma split_length_count: "length (split_char c s) = Suc (count_list s c)"
  by (induction s) (auto split: list.splits)

subsection \<open>Numbers\<close>

lemma of_char_digit: "n < 10 \<Longrightarrow> (of_char (char_of (48 + n :: nat)) :: nat) = 48 + n"
  by simp

lemma digit_is_digit: "n < 10 \<Longrightarrow> is_digit (char_of (48 + n :: nat))"
  by (simp add: is_digit_def)

lemma digits_value_append:
  "digits_value a (xs @ ys) = (case digits_value a xs of None \<Rightarrow> None | Some b \<Rightarrow> digits_value b ys)"
  by (induction xs arbitrary: a) auto

lemma nat_digits_not_Nil [simp]: "nat_digits n \<noteq> []"
  by (subst nat_digits.simps) simp

lemma nat_digits_are_digits: "c \<in> set (nat_digits n) \<Longrightarrow> is_digit c"
proof (induction n rule: nat_digits.induct)
  case (1 n)
  show ?case
  proof (cases "n < 10")
    case True
    with "1.prems" have "c = char_of (48 + n)" by (simp add: nat_digits.simps)
    with True show ?thesis by (simp only: digit_is_digit)
  next
    case False
    with "1.prems" have "c \<in> set (nat_digits (n div 10)) \<or> c = char_of (48 + n mod 10)"
      by (subst (asm) nat_digits.simps) auto
    then show ?thesis
    proof
      assume "c \<in> set (nat_digits (n div 10))"
      with "1.IH" False show ?thesis by simp
    next
      assume "c = char_of (48 + n mod 10)"
      then show ?thesis by (simp only: digit_is_digit mod_less_divisor zero_less_numeral)
    qed
  qed
qed

lemma digits_value_nat_digits: "digits_value 0 (nat_digits n) = Some n"
proof (induction n rule: nat_digits.induct)
  case (1 n)
  show ?case
  proof (cases "n < 10")
    case True
    then show ?thesis by (simp add: nat_digits.simps is_digit_def)
  next
    case False
    with "1.IH" have IH: "digits_value 0 (nat_digits (n div 10)) = Some (n div 10)" by simp
    have m: "n mod 10 < 10" by simp
    from False have "nat_digits n = nat_digits (n div 10) @ [char_of (48 + n mod 10)]"
      by (simp add: nat_digits.simps [of n])
    then show ?thesis
      using m by (simp add: digits_value_append IH digit_is_digit del: of_char_of)
        (simp add: mult.commute)
  qed
qed

lemma digit_not_sign: "is_digit c \<Longrightarrow> c \<noteq> CHR ''-'' \<and> c \<noteq> CHR ''+''"
  by (auto simp: is_digit_def)

lemma nat_digits_hd: "\<exists>c cs. nat_digits n = c # cs \<and> is_digit c"
  by (metis list.set_intros(1) nat_digits_are_digits nat_digits_not_Nil neq_Nil_conv)

lemma parse_itoa: "0 \<le> i \<Longrightarrow> i < 2 ^ 63 \<Longrightarrow> parse_int (itoa i) = Some i"
proof -
  assume i: "0 \<le> i" "i < 2 ^ 63"
  obtain c cs where c: "nat_digits (nat i) = c # cs" "is_digit c"
    using nat_digits_hd by blast
  then have "c \<noteq> CHR ''-''" "c \<noteq> CHR ''+''" using digit_not_sign by auto
  with c i show ?thesis
    using digits_value_nat_digits [of "nat i"] by (simp add: parse_int_def itoa_def Let_def)
qed

lemma itoa_inj: "0 \<le> i \<Longrightarrow> 0 \<le> j \<Longrightarrow> itoa i = itoa j \<Longrightarrow> i = j"
proof -
  assume a: "0 \<le> i" "0 \<le> j" "itoa i = itoa j"
  then have "nat_digits (nat i) = nat_digits (nat j)" by (simp add: itoa_def)
  then have "nat i = nat j" by (metis digits_value_nat_digits option.inject)
  with a show ?thesis by simp
qed

subsection \<open>Strings without white space\<close>

text \<open>\<open>plain_char\<close>: an ASCII byte that is not white space. Trimming never touches it.\<close>

definition plain_char :: "char \<Rightarrow> bool" where
  "plain_char c \<longleftrightarrow> (of_char c :: nat) < 128 \<and> \<not> ascii_space c"

lemma wide_space_shape: "w \<in> set wide_spaces \<Longrightarrow> w \<noteq> [] \<and> 128 \<le> (of_char (hd w) :: nat) \<and> 128 \<le> (of_char (last w) :: nat)"
  by (auto simp: wide_spaces_def upt_rec)

lemma leading_space_plain: "plain_char c \<Longrightarrow> leading_space (c # s) = 0"
proof -
  assume c: "plain_char c"
  have "\<not> has_prefix (c # s) w" if "w \<in> set wide_spaces" for w
  proof
    assume "has_prefix (c # s) w"
    then have "w = [] \<or> hd w = c" by (cases w) auto
    with wide_space_shape [OF that] c show False by (auto simp: plain_char_def)
  qed
  then have "find (has_prefix (c # s)) wide_spaces = None"
    by (simp add: find_None_iff)
  with c show ?thesis by (simp add: leading_space_def plain_char_def)
qed

lemma trailing_space_plain: "plain_char c \<Longrightarrow> trailing_space (s @ [c]) = 0"
proof -
  assume c: "plain_char c"
  have "\<not> has_suffix (s @ [c]) w" if "w \<in> set wide_spaces" for w
  proof
    assume "has_suffix (s @ [c]) w"
    then obtain t where t: "s @ [c] = t @ w" by (auto simp: has_suffix_iff)
    from wide_space_shape [OF that] have "w \<noteq> []" by simp
    with t have "last w = c" by (metis last_appendR last_snoc)
    with wide_space_shape [OF that] c show False by (auto simp: plain_char_def)
  qed
  then have "find (has_suffix (s @ [c])) wide_spaces = None"
    by (simp add: find_None_iff)
  with c show ?thesis by (simp add: trailing_space_def plain_char_def)
qed

lemma trim_space_Nil [simp]: "trim_space [] = []"
  by (simp add: trim_space_def trim_left_space.simps trim_right_space.simps)

lemma trim_space_plain: "plain_char (hd s) \<Longrightarrow> plain_char (last s) \<Longrightarrow> trim_space s = s"
proof (cases "s = []")
  case False
  assume "plain_char (hd s)" "plain_char (last s)"
  with False have "leading_space s = 0" "trailing_space s = 0"
    using leading_space_plain [of "hd s" "tl s"] trailing_space_plain [of "last s" "butlast s"] by auto
  then show ?thesis
    by (simp add: trim_space_def trim_left_space.simps trim_right_space.simps)
qed simp

lemma trim_space_plain_all: "list_all plain_char s \<Longrightarrow> trim_space s = s"
  by (cases "s = []") (auto simp: list_all_iff intro: trim_space_plain)

subsection \<open>Trimming and searching\<close>

text \<open>What trimming takes away at either end consists of \<open>space_byte\<close>s.\<close>

definition space_byte :: "char \<Rightarrow> bool" where
  "space_byte c \<longleftrightarrow> ascii_space c \<or> 128 \<le> (of_char c :: nat)"

lemma wide_space_bytes: "w \<in> set wide_spaces \<Longrightarrow> list_all space_byte w"
  by (auto simp: wide_spaces_def upt_rec space_byte_def)

lemma leading_space_bytes: "list_all space_byte (take (leading_space s) s)"
proof (cases s)
  case (Cons c t)
  show ?thesis
  proof (cases "ascii_space c")
    case True
    with Cons show ?thesis by (simp add: leading_space_def space_byte_def)
  next
    case False
    show ?thesis
    proof (cases "find (has_prefix s) wide_spaces")
      case None
      with Cons False show ?thesis by (simp add: leading_space_def)
    next
      case (Some w)
      then have "w \<in> set wide_spaces" "has_prefix s w" by (auto simp: find_Some_iff)
      with Cons False Some wide_space_bytes [of w] show ?thesis by (simp add: leading_space_def has_prefix_def)
    qed
  qed
qed (simp add: leading_space_def)

lemma trailing_space_bytes: "list_all space_byte (drop (length s - trailing_space s) s)"
proof (cases "rev s")
  case (Cons c t)
  then have s: "s = rev t @ [c]" by (metis rev.simps(2) rev_rev_ident)
  show ?thesis
  proof (cases "ascii_space c")
    case True
    with s show ?thesis by (simp add: trailing_space_def space_byte_def)
  next
    case False
    show ?thesis
    proof (cases "find (has_suffix s) wide_spaces")
      case None
      with Cons False show ?thesis by (simp add: trailing_space_def)
    next
      case (Some w)
      then have "w \<in> set wide_spaces" "has_suffix s w" by (auto simp: find_Some_iff)
      with Cons False Some wide_space_bytes [of w] show ?thesis by (simp add: trailing_space_def has_suffix_def)
    qed
  qed
qed (simp add: trailing_space_def)

lemma trim_left_space_split: "\<exists>a. s = a @ trim_left_space s \<and> list_all space_byte a"
proof (induction s rule: trim_left_space.induct)
  case (1 s)
  show ?case
  proof (cases "s = [] \<or> leading_space s = 0")
    case True
    then show ?thesis by (auto simp: trim_left_space.simps [of s])
  next
    case False
    with 1 obtain a where "drop (leading_space s) s = a @ trim_left_space (drop (leading_space s) s)" "list_all space_byte a"
      by blast
    with False leading_space_bytes [of s] show ?thesis
      by (intro exI [of _ "take (leading_space s) s @ a"])
        (metis append.assoc append_take_drop_id list_all_append trim_left_space.simps)
  qed
qed

lemma trim_right_space_split: "\<exists>b. s = trim_right_space s @ b \<and> list_all space_byte b"
proof (induction s rule: trim_right_space.induct)
  case (1 s)
  let ?n = "length s - trailing_space s"
  show ?case
  proof (cases "s = [] \<or> trailing_space s = 0")
    case True
    then show ?thesis by (auto simp: trim_right_space.simps [of s])
  next
    case False
    with 1 obtain b where "take ?n s = trim_right_space (take ?n s) @ b" "list_all space_byte b"
      by blast
    with False trailing_space_bytes [of s] show ?thesis
      by (intro exI [of _ "b @ drop ?n s"])
        (metis append.assoc append_take_drop_id list_all_append trim_right_space.simps)
  qed
qed

lemma trim_space_split: "\<exists>a b. s = a @ trim_space s @ b \<and> list_all space_byte a \<and> list_all space_byte b"
  using trim_left_space_split [of s] trim_right_space_split [of "trim_left_space s"]
  unfolding trim_space_def by metis

lemma str_index_Some: "str_index s sub = Some i \<Longrightarrow> has_prefix (drop i s) sub \<and> i \<le> length s"
  by (induction s arbitrary: i) (auto split: if_splits)

lemma str_index_None: "str_index s sub = None \<Longrightarrow> \<not> has_prefix (drop i s) sub \<or> length s < i"
proof (induction s arbitrary: i)
  case (Cons c s)
  then show ?case by (cases i) (auto split: if_splits)
qed (auto split: if_splits)

lemma str_contains_iff: "str_contains s sub \<longleftrightarrow> (\<exists>a b. s = a @ sub @ b)"
proof
  assume "str_contains s sub"
  then obtain i where "str_index s sub = Some i" by (auto simp: str_contains_def)
  from str_index_Some [OF this] show "\<exists>a b. s = a @ sub @ b"
    by (metis append_take_drop_id has_prefix_iff)
next
  assume "\<exists>a b. s = a @ sub @ b"
  then obtain a b where "s = a @ sub @ b" by blast
  then have "has_prefix (drop (length a) s) sub" "length a \<le> length s" by auto
  then show "str_contains s sub"
    using str_index_None [of s sub "length a"] by (auto simp: str_contains_def)
qed

lemma contains_inside:
  assumes "m \<noteq> []" and "set m \<inter> set a = {}" and "set m \<inter> set b = {}"
  shows "str_contains (a @ t @ b) m \<longleftrightarrow> str_contains t m"
proof
  assume "str_contains (a @ t @ b) m"
  then obtain x y where eq: "a @ t @ b = x @ m @ y" by (auto simp: str_contains_iff)
  have "length a \<le> length x"
  proof (rule ccontr)
    assume "\<not> length a \<le> length x"
    then have "(a @ t @ b) ! length x = a ! length x" "a ! length x \<in> set a" by (simp_all add: nth_append)
    moreover have "(x @ m @ y) ! length x = hd m" using assms(1) by (simp add: nth_append hd_conv_nth)
    ultimately show False using eq assms(1,2) by (metis disjoint_iff hd_in_set)
  qed
  then obtain x' where x: "x = a @ x'" using eq by (metis append_eq_append_conv_if append_take_drop_id)
  with eq have eq2: "t @ b = x' @ m @ y" by simp
  have "length b \<le> length y"
  proof (rule ccontr)
    assume short: "\<not> length b \<le> length y"
    have "rev b @ rev t = rev y @ rev m @ rev x'" using arg_cong [OF eq2, of rev] by simp
    moreover have "(rev b @ rev t) ! length y = rev b ! length y" "rev b ! length y \<in> set (rev b)"
      using short by (simp_all add: nth_append del: set_rev)
    moreover have "(rev y @ rev m @ rev x') ! length y = hd (rev m)"
      using assms(1) by (simp add: nth_append hd_conv_nth)
    ultimately show False using assms(1,3) by (metis disjoint_iff hd_in_set rev_is_Nil_conv set_rev)
  qed
  then obtain y' where "y = y' @ b"
    using eq2 append_eq_append_conv2 [of t b "x' @ m" y] by auto
  with eq2 have "t = x' @ m @ y'" by simp
  then show "str_contains t m" by (auto simp: str_contains_iff)
next
  assume "str_contains t m"
  then show "str_contains (a @ t @ b) m" by (auto simp: str_contains_iff) (metis append.assoc)
qed

lemma contains_trim: "m \<noteq> [] \<Longrightarrow> list_all plain_char m \<Longrightarrow> str_contains (trim_space s) m \<longleftrightarrow> str_contains s m"
proof -
  assume m: "m \<noteq> []" "list_all plain_char m"
  obtain a b where s: "s = a @ trim_space s @ b" "list_all space_byte a" "list_all space_byte b"
    using trim_space_split by blast
  have "set m \<inter> set c = {}" if "list_all space_byte c" for c
    using m(2) that unfolding list_all_iff plain_char_def space_byte_def disjoint_iff by (meson linorder_not_le)
  with s m show ?thesis by (metis contains_inside)
qed

subsection \<open>Paths\<close>

lemma last_element_append: "CHR ''/'' \<notin> set b \<Longrightarrow> last_element (a @ CHR ''/'' # b) = b"
  by (simp add: last_element_def takeWhile_neq_append)

lemma last_element_free: "CHR ''/'' \<notin> set b \<Longrightarrow> last_element b = b"
  by (simp add: last_element_def takeWhile_neq_all)

lemma file_ext_append:
  "CHR ''/'' \<notin> set a \<Longrightarrow> CHR ''/'' \<notin> set e \<Longrightarrow> CHR ''.'' \<notin> set e \<Longrightarrow> file_ext (a @ CHR ''.'' # e) = CHR ''.'' # e"
  by (simp add: file_ext_def Let_def last_element_free takeWhile_neq_append)

lemma file_base_last:
  "CHR ''/'' \<notin> set b \<Longrightarrow> b \<noteq> [] \<Longrightarrow> file_base (a @ CHR ''/'' # b) = b"
proof -
  assume b: "CHR ''/'' \<notin> set b" "b \<noteq> []"
  then obtain x xs where x: "rev b = x # xs" by (cases "rev b") auto
  with b have "x \<noteq> CHR ''/''" by (metis list.set_intros(1) set_rev)
  with x have "dropWhile (\<lambda>c. c = CHR ''/'') (rev b @ CHR ''/'' # rev a) = rev b @ CHR ''/'' # rev a"
    by simp
  with b show ?thesis
    by (simp add: file_base_def Let_def last_element_append)
qed

lemma str_index_append_free:
  "has_prefix t sub \<Longrightarrow> sub \<noteq> [] \<Longrightarrow> hd sub \<notin> set s \<Longrightarrow> str_index (s @ t) sub = Some (length s)"
proof (induction s)
  case Nil
  then show ?case by (cases t) auto
next
  case (Cons c s)
  then have "\<not> has_prefix (c # (s @ t)) sub" by (cases sub) auto
  with Cons show ?case by simp
qed

lemma to_lower_append:
  assumes "of_char c < (128 :: nat)"
  shows "to_lower (s @ c # t) = to_lower s @ to_lower (c # t)"
proof (induction s rule: to_lower.induct)
  case (2 x s)
  have h: "of_char (hd (s @ c # t)) = (176 :: nat) \<longleftrightarrow> s \<noteq> [] \<and> of_char (hd s) = (176 :: nat)"
    "of_char (hd (tl (s @ c # t))) = (170 :: nat) \<and> of_char (hd (s @ c # t)) = (132 :: nat) \<longleftrightarrow>
       length s \<ge> 2 \<and> of_char (hd (tl s)) = (170 :: nat) \<and> of_char (hd s) = (132 :: nat)"
    using assms by (cases s; cases "tl s"; auto)+
  have tl: "s \<noteq> [] \<Longrightarrow> tl (s @ c # t) = tl s @ c # t" "length s \<ge> 2 \<Longrightarrow> tl (tl (s @ c # t)) = tl (tl s) @ c # t"
    by (cases s; cases "tl s"; simp)+
  show ?case using 2 h tl by (simp only: append_Cons to_lower.simps) auto
qed simp

end
