(* ===== verification/Upload_Budget.thy ===== *)
theory Upload_Budget
  imports Go_Strings
begin

text \<open>
  \<open>internal/handler/upload_budget.go\<close>: the daily byte budget of a session and the transcoding
  slots. A budget with a limit of 0 or less is nil (\<open>None\<close>) and allows everything. The day is
  the UTC date the code formats from the clock; here it is an argument. Additions are Go's wrapping
  \<open>int64\<close>.
\<close>

section \<open>Budget\<close>

record upload_budget =
  ub_limit :: int
  ub_day :: string
  ub_used :: "(string, int) gomap"

definition new_upload_budget :: "int \<Rightarrow> upload_budget option" where
  "new_upload_budget limit =
     (if limit \<le> 0 then None else Some \<lparr>ub_limit = limit, ub_day = [], ub_used = []\<rparr>)"

definition used_by :: "upload_budget \<Rightarrow> string \<Rightarrow> int" where
  "used_by b key = (case map_of (ub_used b) key of None \<Rightarrow> 0 | Some n \<Rightarrow> n)"

definition budget_take ::
    "string \<Rightarrow> string \<Rightarrow> int \<Rightarrow> upload_budget option \<Rightarrow> upload_budget option \<times> bool" where
  "budget_take today key nbytes budget = (case budget of
      None \<Rightarrow> (None, True)
    | Some b \<Rightarrow>
        if key = [] then (Some b, True)
        else
          (let b1 = (if ub_day b \<noteq> today then b\<lparr>ub_day := today, ub_used := []\<rparr> else b)
           in if int64 (used_by b1 key + nbytes) > ub_limit b1 then (Some b1, False)
              else (Some (b1\<lparr>ub_used := gm_put key (int64 (used_by b1 key + nbytes)) (ub_used b1)\<rparr>), True)))"

text \<open>A run of requests on one instance: day, session, nbytes; the sizes that were accepted.\<close>

fun budget_run ::
    "(string \<times> string \<times> int) list \<Rightarrow> upload_budget option \<Rightarrow> (string \<times> string \<times> int) list" where
  "budget_run [] b = []"
| "budget_run ((day, key, nbytes) # rs) b =
     (let (b', ok) = budget_take day key nbytes b
      in (if ok then [(day, key, nbytes)] else []) @ budget_run rs b')"

definition budget_inv :: "upload_budget \<Rightarrow> bool" where
  "budget_inv b \<longleftrightarrow> 0 < ub_limit b \<and> wf_gomap (ub_used b) \<and> (\<forall>key. 0 \<le> used_by b key \<and> used_by b key \<le> ub_limit b)"

lemma new_upload_budget_inv: "new_upload_budget limit = Some b \<Longrightarrow> budget_inv b"
  by (auto simp: new_upload_budget_def budget_inv_def used_by_def split: if_splits)

lemma used_by_put [simp]:
  "used_by (b\<lparr>ub_used := gm_put k n (ub_used b)\<rparr>) l = (if l = k then n else used_by b l)"
  by (simp add: used_by_def gomap_simps)

lemma used_by_reset [simp]: "used_by (b\<lparr>ub_day := d, ub_used := []\<rparr>) k = 0"
  by (simp add: used_by_def)

definition on_day :: "string \<Rightarrow> upload_budget \<Rightarrow> upload_budget" where
  "on_day today b = (if ub_day b \<noteq> today then b\<lparr>ub_day := today, ub_used := []\<rparr> else b)"

lemma on_day_inv: "budget_inv b \<Longrightarrow> budget_inv (on_day today b)"
  by (auto simp: budget_inv_def on_day_def)

lemma on_day_limit [simp]: "ub_limit (on_day today b) = ub_limit b" "ub_day (on_day today b) = today"
  by (auto simp: on_day_def)

lemma budget_take_on_day:
  "key \<noteq> [] \<Longrightarrow> budget_take today key nbytes (Some b) =
    (let b1 = on_day today b in
     if int64 (used_by b1 key + nbytes) > ub_limit b1 then (Some b1, False)
     else (Some (b1\<lparr>ub_used := gm_put key (int64 (used_by b1 key + nbytes)) (ub_used b1)\<rparr>), True))"
  by (simp add: budget_take_def on_day_def Let_def)

lemma budget_take_no_wrap:
  "budget_inv b \<Longrightarrow> 0 \<le> nbytes \<Longrightarrow> ub_limit b + nbytes < 2 ^ 63 \<Longrightarrow>
    int64 (used_by (on_day today b) key + nbytes) = used_by (on_day today b) key + nbytes"
proof -
  assume a: "budget_inv b" "0 \<le> nbytes" "ub_limit b + nbytes < 2 ^ 63"
  have u: "0 \<le> used_by (on_day today b) key" "used_by (on_day today b) key \<le> ub_limit b"
    using on_day_inv [OF a(1), of today] by (auto simp: budget_inv_def)
  with a show ?thesis by (intro int64_id) linarith+
qed

lemma budget_take_inv:
  assumes "budget_inv b" "0 \<le> nbytes" "ub_limit b + nbytes < 2 ^ 63"
    and "budget_take today key nbytes (Some b) = (Some b', ok)"
  shows "budget_inv b'"
proof (cases "key = []")
  case True
  with assms show ?thesis by (simp add: budget_take_def)
next
  case False
  have inv: "budget_inv (on_day today b)" by (rule on_day_inv [OF assms(1)])
  from False assms(4) budget_take_no_wrap [OF assms(1-3), of today key] inv assms(2)
  show ?thesis
    by (auto simp: budget_take_on_day Let_def budget_inv_def split: if_splits)
qed

section \<open>Session key\<close>

text \<open>
  \<open>uploadSessionKey\<close>: the bearer token, else the media cookie, else the query token; named by the
  first half of its SHA-256 digest in hex. The digest is a parameter.
\<close>

definition upload_session_key ::
    "(string \<Rightarrow> string) \<Rightarrow> string \<Rightarrow> string option \<Rightarrow> string \<Rightarrow> string" where
  "upload_session_key sha16hex auth cookie query_token =
     (let token = (if has_prefix auth ''Bearer '' then trim_prefix auth ''Bearer ''
                   else case cookie of Some v \<Rightarrow> v | None \<Rightarrow> query_token)
      in if token = [] then [] else sha16hex token)"

section \<open>Transcoding slots\<close>

text \<open>
  \<open>transcodeSlots\<close> is a channel of capacity 2 filled by \<open>acquireTranscodeSlot\<close>. A request waits
  until it gets a slot, its context ends or five minutes pass; the holder gives the slot back once.
\<close>

definition transcode_capacity :: nat where
  "transcode_capacity = 2"

datatype slot_state = Waiting | Holding | Cancelled | Busy | Released

inductive slot_step :: "(nat \<Rightarrow> slot_state) \<times> nat \<Rightarrow> (nat \<Rightarrow> slot_state) \<times> nat \<Rightarrow> bool" where
  acquire: "rs i = Waiting \<Longrightarrow> used < transcode_capacity \<Longrightarrow>
     slot_step (rs, used) (rs(i := Holding), Suc used)"
| cancel: "rs i = Waiting \<Longrightarrow> slot_step (rs, used) (rs(i := Cancelled), used)"
| timeout: "rs i = Waiting \<Longrightarrow> slot_step (rs, used) (rs(i := Busy), used)"
| release: "rs i = Holding \<Longrightarrow> slot_step (rs, used) (rs(i := Released), used - 1)"

inductive_cases slot_stepE: "slot_step s t"

inductive slot_reachable :: "(nat \<Rightarrow> slot_state) \<times> nat \<Rightarrow> bool" where
  start: "slot_reachable (\<lambda>_. Waiting, 0)"
| step: "slot_reachable s \<Longrightarrow> slot_step s t \<Longrightarrow> slot_reachable t"

definition slot_holders :: "(nat \<Rightarrow> slot_state) \<Rightarrow> nat set" where
  "slot_holders rs = {i. rs i = Holding}"

definition slot_inv :: "(nat \<Rightarrow> slot_state) \<times> nat \<Rightarrow> bool" where
  "slot_inv s \<longleftrightarrow> finite (slot_holders (fst s)) \<and> card (slot_holders (fst s)) = snd s \<and> snd s \<le> transcode_capacity"

lemma slot_holders_upd:
  "slot_holders (rs(i := v)) = (if v = Holding then insert i (slot_holders rs) else slot_holders rs - {i})"
  by (auto simp: slot_holders_def)

lemma slot_not_holder: "rs i = Waiting \<Longrightarrow> i \<notin> slot_holders rs"
  by (simp add: slot_holders_def)

lemma slot_step_inv: "slot_step s t \<Longrightarrow> slot_inv s \<Longrightarrow> slot_inv t"
proof (induction rule: slot_step.induct)
  case (release rs i used)
  then have "i \<in> slot_holders rs" by (simp add: slot_holders_def)
  with release show ?case by (auto simp: slot_inv_def slot_holders_upd card_Diff_singleton)
qed (auto simp: slot_inv_def slot_holders_upd slot_not_holder)

lemma slot_reachable_inv: "slot_reachable s \<Longrightarrow> slot_inv s"
proof (induction rule: slot_reachable.induct)
  case start
  show ?case by (simp add: slot_inv_def slot_holders_def)
next
  case (step s t)
  then show ?case by (blast intro: slot_step_inv)
qed

section \<open>What a session may upload in a day\<close>

definition taken :: "string \<Rightarrow> string \<Rightarrow> (string \<times> string \<times> int) list \<Rightarrow> int" where
  "taken day key rs = sum_list (map (\<lambda>(d, k, n). if d = day \<and> k = key then n else 0) rs)"

lemma taken_simps [simp]:
  "taken day key [] = 0"
  "taken day key ((d, k, n) # rs) = (if d = day \<and> k = key then n else 0) + taken day key rs"
  "taken day key (xs @ ys) = taken day key xs + taken day key ys"
  by (auto simp: taken_def)

lemma budget_run_days: "set (map fst (budget_run rs b)) \<subseteq> set (map fst rs)"
proof (induction rs arbitrary: b)
  case (Cons r rs)
  obtain d k n where r: "r = (d, k, n)" by (cases r)
  obtain b' ok where "budget_take d k n b = (b', ok)" by fastforce
  with Cons [of b'] show ?case by (auto simp: r)
qed simp

lemma taken_other_day: "day \<notin> set (map fst rs) \<Longrightarrow> taken day key rs = 0"
  by (induction rs) auto

lemma budget_take_empty_key: "budget_take day [] n (Some b) = (Some b, True)"
  by (simp add: budget_take_def)

lemma distinct_blocks:
  "distinct (remdups_adj (a # b # xs)) \<Longrightarrow> distinct (remdups_adj (b # xs)) \<and> distinct (remdups_adj (a # xs)) \<and>
    (a \<noteq> b \<longrightarrow> a \<notin> set xs)"
  by (cases xs) (auto split: if_splits)

text \<open>Each day is one block of the history: a clock that never goes back over midnight.\<close>

lemma budget_run_total:
  assumes "budget_inv b" and "\<forall>(d, k, n) \<in> set rs. 0 \<le> n \<and> ub_limit b + n < 2 ^ 63"
    and "distinct (remdups_adj (ub_day b # map fst rs))" and "key \<noteq> []"
  shows "taken day key (budget_run rs (Some b)) \<le> ub_limit b - (if day = ub_day b then used_by b key else 0)"
  using assms(1-3)
proof (induction rs arbitrary: b)
  case Nil
  then show ?case by (auto simp: budget_inv_def less_imp_le)
next
  case (Cons r rs)
  obtain d k n where r: "r = (d, k, n)" by (cases r)
  obtain b' ok where tk: "budget_take d k n (Some b) = (Some b', ok)"
    by (cases "budget_take d k n (Some b)") (auto simp: budget_take_def Let_def split: if_splits)
  have n: "0 \<le> n" "ub_limit b + n < 2 ^ 63" using Cons.prems(2) by (auto simp: r)
  have inv': "budget_inv b'" by (rule budget_take_inv [OF Cons.prems(1) n tk])
  have frame: "ub_limit b' = ub_limit b" "ub_day b' = (if k = [] then ub_day b else d)"
    using tk by (auto simp: budget_take_def Let_def split: if_splits)
  have days: "distinct (remdups_adj (ub_day b' # map fst rs))"
    using Cons.prems(3) frame(2) distinct_blocks [of "ub_day b" d] by (simp add: r split: if_splits)
  have IH: "taken day key (budget_run rs (Some b')) \<le> ub_limit b - (if day = ub_day b' then used_by b' key else 0)"
    using Cons.IH [OF inv' _ days] Cons.prems(2) frame(1) by (auto simp: r)
  show ?case
  proof (cases "k = []")
    case True
    with tk have "b' = b" by (simp add: budget_take_def)
    with IH tk True assms(4) show ?thesis by (auto simp: r)
  next
    case False
    from tk False have b': "b' = (if ok then (on_day d b)\<lparr>ub_used := gm_put k (used_by (on_day d b) k + n) (ub_used (on_day d b))\<rparr>
        else on_day d b)"
      and ok: "ok \<longleftrightarrow> used_by (on_day d b) k + n \<le> ub_limit b"
      using budget_take_no_wrap [OF Cons.prems(1) n, of d k] by (auto simp: budget_take_on_day Let_def split: if_splits)
    show ?thesis
    proof (cases "d = ub_day b")
      case True
      then have "on_day d b = b" by (simp add: on_day_def)
      with IH b' True tk show ?thesis by (auto simp: r split: if_splits)
    next
      case new: False
      then have zero: "used_by (on_day d b) j = 0" for j by (simp add: on_day_def)
      have late: "ub_day b \<notin> set (map fst (budget_run rs (Some b')))"
        using Cons.prems(3) new distinct_blocks [of "ub_day b" d] budget_run_days [of rs "Some b'"] by (auto simp: r)
      have pos: "0 \<le> ub_limit b - used_by b key" using Cons.prems(1) by (auto simp: budget_inv_def)
      show ?thesis
      proof (cases "day = ub_day b")
        case True
        with taken_other_day [OF late] tk new pos show ?thesis by (auto simp: r)
      next
        case False
        with IH b' zero tk new frame False \<open>k \<noteq> []\<close> show ?thesis by (auto simp: r split: if_splits)
      qed
    qed
  qed
qed

section \<open>Properties\<close>

text \<open>
  C19: on one instance with a byte budget, over any history of uploads in which the date never goes
  back, what a session gets accepted on one day sums up to at most the limit.
\<close>

theorem budget_bounds_session_day:
  assumes "new_upload_budget limit = Some b" and "key \<noteq> []"
    and "\<forall>(d, k, n) \<in> set rs. d \<noteq> [] \<and> 0 \<le> n \<and> limit + n < 2 ^ 63"
    and "distinct (remdups_adj (map fst rs))"
  shows "taken day key (budget_run rs (Some b)) \<le> limit"
proof -
  have b: "ub_limit b = limit" "ub_day b = []" "used_by b key = 0"
    using assms(1) by (auto simp: new_upload_budget_def used_by_def split: if_splits)
  have "[] \<notin> set (map fst rs)" using assms(3) by fastforce
  with assms(4) have "distinct (remdups_adj ([] # map fst rs))" by (cases rs) auto
  from budget_run_total [OF new_upload_budget_inv [OF assms(1)] _ _ assms(2), of rs day] this assms(3) b
  show ?thesis by (fastforce split: if_splits)
qed

theorem budget_bounds_session_day_witness:
  "taken ''d'' ''s'' (budget_run [(''d'', ''s'', 6), (''d'', ''s'', 5), (''e'', ''s'', 7)] (new_upload_budget 10)) \<le> 10"
  using budget_bounds_session_day [of 10 "\<lparr>ub_limit = 10, ub_day = [], ub_used = []\<rparr>" "''s''"
      "[(''d'', ''s'', 6), (''d'', ''s'', 5), (''e'', ''s'', 7)]" "''d''"]
  by (simp add: new_upload_budget_def)

text \<open>
  However requests for a transcoding slot interleave (waiting, giving up, timing out,
  releasing), at most two uploads hold one, and the channel counts exactly the holders.
\<close>

theorem transcoding_bounded:
  assumes "slot_reachable (rs, used)"
  shows "card (slot_holders rs) = used \<and> used \<le> 2"
  using slot_reachable_inv [OF assms] by (simp add: slot_inv_def transcode_capacity_def)

theorem transcoding_bounded_witness:
  "card (slot_holders ((\<lambda>_. Waiting)(3 := Holding))) = 1"
proof -
  have "slot_step (\<lambda>_. Waiting, 0) ((\<lambda>_. Waiting)(3 := Holding), Suc 0)"
    by (rule slot_step.acquire) (simp_all add: transcode_capacity_def)
  then have "slot_reachable ((\<lambda>_. Waiting)(3 := Holding), Suc 0)"
    by (rule slot_reachable.step [OF slot_reachable.start])
  from transcoding_bounded [OF this] show ?thesis by simp
qed

end
