(* ===== verification/Bundle.thy ===== *)
theory Bundle
  imports Go_Strings
begin

text \<open>
  \<open>internal/bundle/manifest.go\<close>: the manifest that describes an uploaded file and its variants.
  Sizes and dimensions are Go's \<open>int\<close> and \<open>int64\<close>; they are only copied and compared here.
\<close>

record asset =
  as_cid :: string
  as_path :: string
  as_bundle_path :: string
  as_format :: string
  as_content_type :: string
  as_width :: int
  as_height :: int
  as_size :: int

record manifest =
  mf_cid :: string
  mf_name :: string
  mf_type :: string
  mf_version :: int
  mf_size :: int
  mf_original :: asset
  mf_variants :: "(string, asset) gomap"
  mf_metadata :: "(string, string) gomap"

definition manifest_filename :: string where
  "manifest_filename = ''manifest.json''"

definition original_filename :: string where
  "original_filename = ''original''"

definition empty_asset :: asset where
  "empty_asset = \<lparr>as_cid = [], as_path = [], as_bundle_path = [], as_format = [],
     as_content_type = [], as_width = 0, as_height = 0, as_size = 0\<rparr>"

definition empty_manifest :: manifest where
  "empty_manifest = \<lparr>mf_cid = [], mf_name = [], mf_type = [], mf_version = 0, mf_size = 0,
     mf_original = empty_asset, mf_variants = [], mf_metadata = []\<rparr>"

definition new_file_manifest :: "string \<Rightarrow> string \<Rightarrow> string \<Rightarrow> int \<Rightarrow> manifest" where
  "new_file_manifest name content_type format nbytes =
     empty_manifest\<lparr>mf_name := name, mf_type := ''file'', mf_version := 1, mf_size := nbytes,
       mf_original := empty_asset\<lparr>as_bundle_path := original_filename, as_format := format,
         as_content_type := content_type, as_size := nbytes\<rparr>\<rparr>"

definition manifest_finalize :: "string \<Rightarrow> manifest \<Rightarrow> manifest" where
  "manifest_finalize root m =
     m\<lparr>mf_cid := root,
       mf_original := (mf_original m)\<lparr>as_path := ''/file/'' @ root\<rparr>,
       mf_variants := map (\<lambda>(key, v). (key, v\<lparr>as_path := ''/file/'' @ root @ ''/'' @ key\<rparr>)) (mf_variants m)\<rparr>"

lemma finalize_variants_get:
  "map_of (mf_variants (manifest_finalize root m)) k =
     map_option (\<lambda>v. v\<lparr>as_path := ''/file/'' @ root @ ''/'' @ k\<rparr>) (map_of (mf_variants m) k)"
proof -
  have "map_of (map (\<lambda>(key, v). (key, f key v)) vs) k = map_option (f k) (map_of vs k)"
    for f :: "string \<Rightarrow> asset \<Rightarrow> asset" and vs
    by (induction vs) auto
  then show ?thesis by (simp add: manifest_finalize_def)
qed

lemma finalize_frame [simp]:
  "mf_cid (manifest_finalize root m) = root"
  "mf_type (manifest_finalize root m) = mf_type m"
  "as_bundle_path (mf_original (manifest_finalize root m)) = as_bundle_path (mf_original m)"
  "as_content_type (mf_original (manifest_finalize root m)) = as_content_type (mf_original m)"
  by (simp_all add: manifest_finalize_def)

lemma finalize_keys [simp]: "gm_keys (mf_variants (manifest_finalize root m)) = gm_keys (mf_variants m)"
  by (simp add: manifest_finalize_def case_prod_beta comp_def)

lemma finalize_bundle_path:
  "map_of (mf_variants (manifest_finalize root m)) k = Some v \<Longrightarrow>
    \<exists>u. map_of (mf_variants m) k = Some u \<and> as_bundle_path v = as_bundle_path u \<and>
        as_content_type v = as_content_type u"
  by (auto simp: finalize_variants_get)

end
