(* ===== verification/Manifest_Cache.thy ===== *)
theory Manifest_Cache
  imports Bundle
begin

text \<open>
  \<open>internal/handler/manifest_cache.go\<close>: the in-memory cache of decoded manifests, least recently
  used first out, bounded in bytes and entries. \<open>mc_entries\<close> is the Go map, \<open>mc_lru\<close> the linked
  list, front first; a list element is named by the CID its value carries. Taking the back of an
  empty list would dereference nil, so eviction returns an option. A nil cache is \<open>None\<close>.
\<close>

section \<open>State\<close>

record cached_manifest =
  cm_cid :: string
  cm_value :: manifest
  cm_bytes :: nat

record manifest_cache =
  mc_entries :: "(string, cached_manifest) gomap"
  mc_lru :: "string list"
  mc_bytes :: nat
  mc_limit :: nat

definition new_manifest_cache :: "int \<Rightarrow> manifest_cache option" where
  "new_manifest_cache limit =
     (if limit \<le> 0 then None
      else Some \<lparr>mc_entries = [], mc_lru = [], mc_bytes = 0, mc_limit = nat limit\<rparr>)"

definition clone_manifest :: "manifest \<Rightarrow> manifest" where
  "clone_manifest m = m"

definition asset_cost :: "asset \<Rightarrow> nat" where
  "asset_cost a = 256 + length (as_cid a) + length (as_path a) + length (as_bundle_path a)
     + length (as_format a) + length (as_content_type a)"

definition manifest_cost :: "manifest \<Rightarrow> nat" where
  "manifest_cost m =
     512 + 2 * length (mf_cid m) + length (mf_name m) + length (mf_type m) + asset_cost (mf_original m)
     + sum_list (map (\<lambda>(k, a). length k + asset_cost a) (mf_variants m))
     + sum_list (map (\<lambda>(k, v). 128 + length k + length v) (mf_metadata m))"

section \<open>Operations\<close>

definition move_to_front :: "'a \<Rightarrow> 'a list \<Rightarrow> 'a list" where
  "move_to_front x xs = x # remove1 x xs"

definition cache_get :: "string \<Rightarrow> manifest_cache \<Rightarrow> manifest_cache \<times> manifest option" where
  "cache_get cid c = (case map_of (mc_entries c) cid of
      None \<Rightarrow> (c, None)
    | Some e \<Rightarrow> (c\<lparr>mc_lru := move_to_front cid (mc_lru c)\<rparr>, Some (cm_value e)))"

text \<open>The loop of \<open>put\<close>: evict from the back until \<open>cost\<close> fits. \<open>None\<close> is the nil dereference.\<close>

definition max_manifest_entries :: nat where
  "max_manifest_entries = 1024"

function cache_evict :: "nat \<Rightarrow> manifest_cache \<Rightarrow> manifest_cache option" where
  "cache_evict cost c =
     (if mc_bytes c + cost > mc_limit c \<or> length (mc_entries c) \<ge> max_manifest_entries
      then (if mc_lru c = [] then None
            else (case map_of (mc_entries c) (last (mc_lru c)) of
                None \<Rightarrow> None
              | Some old \<Rightarrow> cache_evict cost
                  (c\<lparr>mc_entries := gm_del (cm_cid old) (mc_entries c),
                     mc_bytes := mc_bytes c - cm_bytes old,
                     mc_lru := butlast (mc_lru c)\<rparr>)))
      else Some c)"
  by pat_completeness auto
termination by (relation "measure (\<lambda>(cost, c). length (mc_lru c))") auto

declare cache_evict.simps [simp del]

definition cache_put :: "string \<Rightarrow> manifest \<Rightarrow> manifest_cache \<Rightarrow> manifest_cache option" where
  "cache_put cid value c =
     (let cost = manifest_cost value
      in if cost > mc_limit c \<or> cost > 256 * 1024 then Some c
         else if map_of (mc_entries c) cid \<noteq> None then Some c
         else (case cache_evict cost c of
             None \<Rightarrow> None
           | Some c1 \<Rightarrow> Some
               (c1\<lparr>mc_entries := gm_put cid \<lparr>cm_cid = cid, cm_value = value, cm_bytes = cost\<rparr> (mc_entries c1),
                   mc_lru := cid # mc_lru c1,
                   mc_bytes := mc_bytes c1 + cost\<rparr>)))"

section \<open>Invariant\<close>

definition cache_inv :: "manifest_cache \<Rightarrow> bool" where
  "cache_inv c \<longleftrightarrow>
     wf_gomap (mc_entries c) \<and> distinct (mc_lru c) \<and> set (mc_lru c) = set (gm_keys (mc_entries c)) \<and>
     (\<forall>k e. map_of (mc_entries c) k = Some e \<longrightarrow> cm_cid e = k \<and> cm_bytes e = manifest_cost (cm_value e)) \<and>
     mc_bytes c = sum_list (map (cm_bytes \<circ> snd) (mc_entries c)) \<and>
     mc_bytes c \<le> mc_limit c \<and> length (mc_entries c) \<le> max_manifest_entries"

lemma new_manifest_cache_inv: "new_manifest_cache limit = Some c \<Longrightarrow> cache_inv c"
  by (auto simp: new_manifest_cache_def cache_inv_def split: if_splits)

lemma move_to_front_set: "x \<in> set xs \<Longrightarrow> set (move_to_front x xs) = set xs"
  using set_remove1_subset [of x xs] by (auto simp: move_to_front_def) (metis in_set_remove1)

lemma move_to_front_distinct: "distinct xs \<Longrightarrow> distinct (move_to_front x xs)"
  by (simp add: move_to_front_def)

lemma cache_get_inv: "cache_inv c \<Longrightarrow> cache_get cid c = (c', r) \<Longrightarrow> cache_inv c'"
proof -
  assume inv: "cache_inv c" and get: "cache_get cid c = (c', r)"
  show ?thesis
  proof (cases "map_of (mc_entries c) cid")
    case None
    with get inv show ?thesis by (simp add: cache_get_def)
  next
    case (Some e)
    then have mem: "cid \<in> set (mc_lru c)"
      using inv by (auto simp: cache_inv_def keys_iff_get simp del: set_map)
    from Some get have c': "c' = c\<lparr>mc_lru := move_to_front cid (mc_lru c)\<rparr>" by (simp add: cache_get_def)
    from inv show ?thesis
      by (simp add: c' cache_inv_def move_to_front_distinct move_to_front_set [OF mem])
  qed
qed

definition drop_entry :: "string \<Rightarrow> cached_manifest \<Rightarrow> manifest_cache \<Rightarrow> manifest_cache" where
  "drop_entry k e c = c\<lparr>mc_entries := gm_del k (mc_entries c),
     mc_bytes := mc_bytes c - cm_bytes e, mc_lru := butlast (mc_lru c)\<rparr>"

lemma drop_entry_inv:
  assumes inv: "cache_inv c" and lru: "mc_lru c = ks @ [k]" and e: "map_of (mc_entries c) k = Some e"
  shows "cache_inv (drop_entry k e c)"
proof -
  from inv have wf: "wf_gomap (mc_entries c)" by (simp add: cache_inv_def)
  have keys: "set (gm_keys (gm_del k (mc_entries c))) = set (gm_keys (mc_entries c)) - {k}"
    by (simp add: delete_keys)
  from inv lru have "set ks = set (gm_keys (mc_entries c)) - {k}" "distinct ks"
    by (auto simp: cache_inv_def simp del: set_map)
  with keys sum_gm_del [OF wf e, of cm_bytes] length_gm_del [OF wf e] inv lru show ?thesis
    by (auto simp: drop_entry_def cache_inv_def gomap_simps simp del: set_map)
qed

lemma cache_evict_ok:
  "cache_inv c \<Longrightarrow> cost \<le> mc_limit c \<Longrightarrow>
    \<exists>c'. cache_evict cost c = Some c' \<and> cache_inv c' \<and> mc_limit c' = mc_limit c \<and>
      mc_bytes c' + cost \<le> mc_limit c \<and> length (mc_entries c') < max_manifest_entries \<and>
      (\<exists>ks. mc_lru c = mc_lru c' @ ks) \<and>
      (\<forall>k. map_of (mc_entries c') k = (if k \<in> set (mc_lru c') then map_of (mc_entries c) k else None))"
proof (induction "length (mc_lru c)" arbitrary: c)
  case 0
  then have "mc_entries c = []" "mc_bytes c = 0"
    by (auto simp: cache_inv_def simp del: set_map)
  with 0 show ?case
    by (subst cache_evict.simps) (auto simp: max_manifest_entries_def)
next
  case (Suc n)
  show ?case
  proof (cases "mc_bytes c + cost > mc_limit c \<or> length (mc_entries c) \<ge> max_manifest_entries")
    case False
    have "map_of (mc_entries c) k = (if k \<in> set (mc_lru c) then map_of (mc_entries c) k else None)" for k
      using Suc.prems(1) keys_iff_get [of k "mc_entries c"] by (auto simp: cache_inv_def simp del: set_map)
    with False Suc.prems show ?thesis by (subst cache_evict.simps) auto
  next
    case True
    from Suc.hyps(2) obtain ks k where lru: "mc_lru c = ks @ [k]"
      by (metis append_butlast_last_id list.size(3) nat.distinct(1))
    then have "k \<in> set (gm_keys (mc_entries c))" using Suc.prems(1) by (auto simp: cache_inv_def)
    then obtain e where e: "map_of (mc_entries c) k = Some e" by (auto simp: keys_iff_get simp del: set_map)
    with Suc.prems(1) have cid: "cm_cid e = k" by (auto simp: cache_inv_def)
    have step: "cache_evict cost c = cache_evict cost (drop_entry k e c)"
      using True lru e cid by (subst cache_evict.simps) (simp add: drop_entry_def)
    have len: "n = length (mc_lru (drop_entry k e c))" and lru': "mc_lru (drop_entry k e c) = ks"
      and lim: "mc_limit (drop_entry k e c) = mc_limit c"
      using Suc.hyps(2) lru by (simp_all add: drop_entry_def)
    have inv: "cache_inv (drop_entry k e c)" by (rule drop_entry_inv [OF Suc.prems(1) lru e])
    from Suc.hyps(1) [OF len inv] lim Suc.prems(2) obtain c' where c':
      "cache_evict cost (drop_entry k e c) = Some c'" "cache_inv c'" "mc_limit c' = mc_limit c"
      "mc_bytes c' + cost \<le> mc_limit c" "length (mc_entries c') < max_manifest_entries"
      "\<exists>js. ks = mc_lru c' @ js"
      "\<forall>l. map_of (mc_entries c') l = (if l \<in> set (mc_lru c') then map_of (mc_entries (drop_entry k e c)) l else None)"
      using lru' by auto
    from Suc.prems(1) lru have "k \<notin> set ks" by (auto simp: cache_inv_def)
    with c'(6,7) have "\<forall>l. map_of (mc_entries c') l = (if l \<in> set (mc_lru c') then map_of (mc_entries c) l else None)"
      by (auto simp: drop_entry_def gomap_simps)
    with c' step lru show ?thesis by auto
  qed
qed

lemma cache_put_ok:
  assumes "cache_inv c"
  shows "\<exists>c'. cache_put cid v c = Some c' \<and> cache_inv c' \<and> mc_limit c' = mc_limit c \<and>
    (\<forall>k e. map_of (mc_entries c') k = Some e \<longrightarrow>
       map_of (mc_entries c) k = Some e \<or> (k = cid \<and> cm_value e = v))"
proof (cases "manifest_cost v > mc_limit c \<or> manifest_cost v > 256 * 1024 \<or> map_of (mc_entries c) cid \<noteq> None")
  case True
  with assms show ?thesis by (auto simp: cache_put_def Let_def)
next
  case False
  then have fits: "manifest_cost v \<le> mc_limit c" and new: "map_of (mc_entries c) cid = None" by auto
  from cache_evict_ok [OF assms fits] obtain c1 where c1:
    "cache_evict (manifest_cost v) c = Some c1" "cache_inv c1" "mc_limit c1 = mc_limit c"
    "mc_bytes c1 + manifest_cost v \<le> mc_limit c" "length (mc_entries c1) < max_manifest_entries"
    and ks: "\<exists>ks. mc_lru c = mc_lru c1 @ ks"
    and sub: "\<forall>k. map_of (mc_entries c1) k = (if k \<in> set (mc_lru c1) then map_of (mc_entries c) k else None)"
    by auto
  from new sub have new1: "map_of (mc_entries c1) cid = None" by (auto split: if_splits)
  then have absent: "cid \<notin> set (gm_keys (mc_entries c1))" by (simp add: map_of_eq_None_iff)
  then have "cid \<notin> set (mc_lru c1)" using c1(2) by (auto simp: cache_inv_def)
  with c1 absent new1 have "cache_inv
      (c1\<lparr>mc_entries := gm_put cid \<lparr>cm_cid = cid, cm_value = v, cm_bytes = manifest_cost v\<rparr> (mc_entries c1),
          mc_lru := cid # mc_lru c1, mc_bytes := mc_bytes c1 + manifest_cost v\<rparr>)"
    by (auto simp: cache_inv_def gm_put_absent wf_gomap_def split: if_splits)
  with c1 False sub show ?thesis
    by (auto simp: cache_put_def Let_def gomap_simps split: if_splits)
qed

section \<open>The interface of a cache of immutable values\<close>

text \<open>
  What \<open>load\<close> relies on: a lookup answers with the cached value and changes no content, an insertion
  cannot fail and adds at most the inserted value. Whatever is cached for a CID is then always a
  value that was inserted for that CID.
\<close>

locale immutable_cache =
  fixes ok :: "'s \<Rightarrow> bool"
    and content :: "'s \<Rightarrow> 'k \<Rightarrow> 'v option"
    and get :: "'k \<Rightarrow> 's \<Rightarrow> 's \<times> 'v option"
    and put :: "'k \<Rightarrow> 'v \<Rightarrow> 's \<Rightarrow> 's option"
  assumes get_content: "snd (get k c) = content c k"
    and get_frame: "ok c \<Longrightarrow> ok (fst (get k c)) \<and> content (fst (get k c)) = content c"
    and put_total: "ok c \<Longrightarrow> \<exists>c'. put k v c = Some c' \<and> ok c' \<and>
      (\<forall>l w. content c' l = Some w \<longrightarrow> content c l = Some w \<or> (l = k \<and> w = v))"
begin

definition agrees :: "('k \<Rightarrow> 'v \<Rightarrow> bool) \<Rightarrow> 's \<Rightarrow> bool" where
  "agrees truth c \<longleftrightarrow> ok c \<and> (\<forall>k v. content c k = Some v \<longrightarrow> truth k v)"

lemma agrees_get: "agrees truth c \<Longrightarrow> get k c = (c', r) \<Longrightarrow> agrees truth c' \<and> (\<forall>v. r = Some v \<longrightarrow> truth k v)"
  using get_frame [of c k] get_content [of k c] by (auto simp: agrees_def)

lemma agrees_put: "agrees truth c \<Longrightarrow> truth k v \<Longrightarrow> \<exists>c'. put k v c = Some c' \<and> agrees truth c'"
  using put_total [of c k v] by (fastforce simp: agrees_def)

end

definition cache_content :: "manifest_cache \<Rightarrow> string \<Rightarrow> manifest option" where
  "cache_content c k = map_option cm_value (map_of (mc_entries c) k)"

interpretation manifests: immutable_cache cache_inv cache_content cache_get cache_put
proof unfold_locales
  fix c :: manifest_cache and k
  show "snd (cache_get k c) = cache_content c k"
    by (auto simp: cache_get_def cache_content_def split: option.splits)
next
  fix c :: manifest_cache and k
  assume "cache_inv c"
  moreover obtain c' r where "cache_get k c = (c', r)" by fastforce
  ultimately show "cache_inv (fst (cache_get k c)) \<and> cache_content (fst (cache_get k c)) = cache_content c"
    using cache_get_inv by (auto simp: cache_get_def cache_content_def split: option.splits)
next
  fix c :: manifest_cache and k v
  assume "cache_inv c"
  from cache_put_ok [OF this, of k v] obtain c' where "cache_put k v c = Some c'" "cache_inv c'"
    "\<forall>l e. map_of (mc_entries c') l = Some e \<longrightarrow> map_of (mc_entries c) l = Some e \<or> (l = k \<and> cm_value e = v)"
    by blast
  then show "\<exists>c'. cache_put k v c = Some c' \<and> cache_inv c' \<and>
      (\<forall>l w. cache_content c' l = Some w \<longrightarrow> cache_content c l = Some w \<or> (l = k \<and> w = v))"
    by (fastforce simp: cache_content_def)
qed

section \<open>Loading through the cache\<close>

text \<open>
  \<open>load\<close> joins the flight for its CID: one goroutine at a time runs \<open>flight_body\<close>, the others wait
  for its result. A round of the caller's loop is described by what it observes: its own context
  at the loop head, the leader's context and fetch result, whether \<open>select\<close> saw the context end
  first, whether the result was shared, and its own context afterwards. \<open>None\<close>: the listed rounds
  end while the caller still loops (or the flight panicked, which \<open>manifests.put_total\<close> excludes).
\<close>

datatype fetch_error = Canceled | Deadline_exceeded | Fetch_failed

record load_round =
  lr_ctx :: "fetch_error option"
  lr_leader_ctx :: "fetch_error option"
  lr_fetch :: "fetch_error + manifest"
  lr_done :: "fetch_error option"
  lr_shared :: bool
  lr_ctx_after :: "fetch_error option"

definition flight_body ::
    "fetch_error option \<Rightarrow> fetch_error + manifest \<Rightarrow> string \<Rightarrow> manifest_cache
       \<Rightarrow> (manifest_cache \<times> (fetch_error + manifest)) option" where
  "flight_body leader_ctx fetched cid c = (case cache_get cid c of
      (c1, Some v) \<Rightarrow> Some (c1, Inr v)
    | (c1, None) \<Rightarrow> (case fetched of
          Inl e \<Rightarrow> Some (c1, Inl (case leader_ctx of Some ce \<Rightarrow> ce | None \<Rightarrow> e))
        | Inr v \<Rightarrow> (case cache_put cid v c1 of None \<Rightarrow> None | Some c2 \<Rightarrow> Some (c2, Inr v))))"

fun cache_load ::
    "load_round list \<Rightarrow> string \<Rightarrow> manifest_cache \<Rightarrow> (manifest_cache \<times> (fetch_error + manifest)) option" where
  "cache_load [] cid c = None"
| "cache_load (r # rs) cid c =
     (case lr_ctx r of
        Some e \<Rightarrow> Some (c, Inl e)
      | None \<Rightarrow> (case cache_get cid c of
          (c1, Some v) \<Rightarrow> Some (c1, Inr (clone_manifest v))
        | (c1, None) \<Rightarrow> (case flight_body (lr_leader_ctx r) (lr_fetch r) cid c1 of
            None \<Rightarrow> None
          | Some (c2, res) \<Rightarrow> (case lr_done r of
              Some e \<Rightarrow> Some (c2, Inl e)
            | None \<Rightarrow> (case res of
                Inl e \<Rightarrow> if lr_shared r \<and> lr_ctx_after r = None \<and> (e = Canceled \<or> e = Deadline_exceeded)
                         then cache_load rs cid c2 else Some (c2, Inl e)
              | Inr v \<Rightarrow> Some (c2, Inr (clone_manifest v)))))))"

lemma flight_body_agrees:
  assumes "manifests.agrees truth c" and "\<And>v. fetched = Inr v \<Longrightarrow> truth cid v"
  shows "\<exists>c2 res. flight_body leader fetched cid c = Some (c2, res) \<and> manifests.agrees truth c2 \<and>
    (\<forall>v. res = Inr v \<longrightarrow> truth cid v)"
proof -
  obtain c1 r where get: "cache_get cid c = (c1, r)" by fastforce
  note a = manifests.agrees_get [OF assms(1) get]
  show ?thesis
  proof (cases r)
    case (Some v)
    with a get show ?thesis by (auto simp: flight_body_def)
  next
    case None
    show ?thesis
    proof (cases fetched)
      case (Inl e)
      with None a get show ?thesis by (auto simp: flight_body_def)
    next
      case (Inr v)
      with assms(2) have "truth cid v" by simp
      with a manifests.agrees_put obtain c2 where "cache_put cid v c1 = Some c2" "manifests.agrees truth c2"
        by blast
      with Inr None get \<open>truth cid v\<close> show ?thesis by (auto simp: flight_body_def)
    qed
  qed
qed

section \<open>Histories\<close>

datatype cache_op = Op_get string | Op_put string manifest

fun cache_run :: "cache_op list \<Rightarrow> manifest_cache \<Rightarrow> manifest_cache option" where
  "cache_run [] c = Some c"
| "cache_run (Op_get cid # ops) c = cache_run ops (fst (cache_get cid c))"
| "cache_run (Op_put cid v # ops) c = (case cache_put cid v c of None \<Rightarrow> None | Some c' \<Rightarrow> cache_run ops c')"

lemma cache_get_limit: "mc_limit (fst (cache_get cid c)) = mc_limit c"
  by (simp add: cache_get_def split: option.splits)

lemma cache_run_ok:
  "cache_inv c \<Longrightarrow> \<exists>c'. cache_run ops c = Some c' \<and> cache_inv c' \<and> mc_limit c' = mc_limit c \<and>
    (\<forall>k v. cache_content c' k = Some v \<longrightarrow> cache_content c k = Some v \<or> Op_put k v \<in> set ops)"
proof (induction ops arbitrary: c)
  case (Cons op ops)
  show ?case
  proof (cases op)
    case (Op_get cid)
    have "cache_inv (fst (cache_get cid c)) \<and> cache_content (fst (cache_get cid c)) = cache_content c"
      using manifests.get_frame Cons.prems by blast
    with Cons.IH [of "fst (cache_get cid c)"] Op_get show ?thesis by (auto simp: cache_get_limit)
  next
    case (Op_put cid v)
    from cache_put_ok [OF Cons.prems, of cid v] manifests.put_total [OF Cons.prems, of cid v]
    obtain c1 where c1: "cache_put cid v c = Some c1" "cache_inv c1" "mc_limit c1 = mc_limit c"
      "\<forall>l w. cache_content c1 l = Some w \<longrightarrow> cache_content c l = Some w \<or> (l = cid \<and> w = v)"
      by auto
    with Cons.IH [OF c1(2)] Op_put show ?thesis by fastforce
  qed
qed simp

text \<open>Rounds of \<open>load\<close> in which the caller's own context stays alive and every flight is shared.\<close>

definition live_caller :: "load_round \<Rightarrow> bool" where
  "live_caller r \<longleftrightarrow> lr_ctx r = None \<and> lr_done r = None \<and> lr_shared r \<and> lr_ctx_after r = None"

lemma cache_load_sound:
  "manifests.agrees truth c \<Longrightarrow> \<forall>r \<in> set rs. \<forall>v. lr_fetch r = Inr v \<longrightarrow> truth cid v \<Longrightarrow>
    cache_load rs cid c = Some (c', res) \<Longrightarrow>
    manifests.agrees truth c' \<and> (\<forall>v. res = Inr v \<longrightarrow> truth cid v) \<and>
    (list_all live_caller rs \<longrightarrow> res \<noteq> Inl Canceled \<and> res \<noteq> Inl Deadline_exceeded)"
proof (induction rs arbitrary: c)
  case (Cons r rs)
  obtain c1 g where get: "cache_get cid c = (c1, g)" by fastforce
  note ag = manifests.agrees_get [OF Cons.prems(1) get]
  show ?case
  proof (cases "lr_ctx r")
    case (Some e)
    with Cons.prems show ?thesis by (auto simp: live_caller_def)
  next
    case live: None
    show ?thesis
    proof (cases g)
      case (Some v)
      with live ag get Cons.prems(3) show ?thesis by (auto simp: clone_manifest_def)
    next
      case None
      from flight_body_agrees [where truth = truth and c = c1 and fetched = "lr_fetch r" and cid = cid and leader = "lr_leader_ctx r"] ag Cons.prems(2)
      obtain c2 fr where fl: "flight_body (lr_leader_ctx r) (lr_fetch r) cid c1 = Some (c2, fr)"
        "manifests.agrees truth c2" "\<forall>v. fr = Inr v \<longrightarrow> truth cid v" by auto
      show ?thesis
      proof (cases "lr_done r")
        case (Some e)
        with live None get fl Cons.prems(3) show ?thesis by (auto simp: live_caller_def)
      next
        case d: None
        show ?thesis
        proof (cases fr)
          case (Inr v)
          with live None get fl d Cons.prems(3) show ?thesis by (auto simp: clone_manifest_def)
        next
          case (Inl e)
          show ?thesis
          proof (cases "lr_shared r \<and> lr_ctx_after r = None \<and> (e = Canceled \<or> e = Deadline_exceeded)")
            case True
            with Inl live None get fl(1) d Cons.prems(3) have "cache_load rs cid c2 = Some (c', res)" by simp
            from Cons.IH [OF fl(2) _ this] Cons.prems(2) show ?thesis by simp
          next
            case False
            with Inl live None get fl d Cons.prems(3) show ?thesis by (auto simp: live_caller_def)
          qed
        qed
      qed
    qed
  qed
qed simp

text \<open>A caller whose context lives returns in the first round whose flight is not cancelled.\<close>

lemma cache_load_returns:
  "cache_inv c \<Longrightarrow> list_all live_caller rs \<Longrightarrow> \<exists>r \<in> set rs. lr_leader_ctx r = None \<and>
      lr_fetch r \<noteq> Inl Canceled \<and> lr_fetch r \<noteq> Inl Deadline_exceeded \<Longrightarrow>
    \<exists>c' res. cache_load rs cid c = Some (c', res)"
proof (induction rs arbitrary: c)
  case (Cons r rs)
  have c: "manifests.agrees (\<lambda>_ _. True) c" using Cons.prems(1) by (simp add: manifests.agrees_def)
  obtain c1 g where get: "cache_get cid c = (c1, g)" by fastforce
  from manifests.agrees_get [OF c get] have c1: "manifests.agrees (\<lambda>_ _. True) c1" by simp
  from flight_body_agrees [OF c1, where fetched = "lr_fetch r" and cid = cid and leader = "lr_leader_ctx r"] obtain c2 fr
    where fl: "flight_body (lr_leader_ctx r) (lr_fetch r) cid c1 = Some (c2, fr)" "cache_inv c2"
    by (auto simp: manifests.agrees_def)
  show ?case
  proof (cases "\<exists>r \<in> set rs. lr_leader_ctx r = None \<and> lr_fetch r \<noteq> Inl Canceled \<and> lr_fetch r \<noteq> Inl Deadline_exceeded")
    case True
    with Cons.IH [OF fl(2)] Cons.prems(2) show ?thesis
      using get fl(1) by (auto simp: live_caller_def split: option.splits sum.splits)
  next
    case False
    with Cons.prems(3) have "lr_leader_ctx r = None" "lr_fetch r \<noteq> Inl Canceled" "lr_fetch r \<noteq> Inl Deadline_exceeded"
      by auto
    with fl(1) have "fr \<noteq> Inl Canceled" "fr \<noteq> Inl Deadline_exceeded"
      by (auto simp: flight_body_def split: prod.splits option.splits sum.splits)
    with get fl(1) Cons.prems(2) show ?thesis
      by (auto simp: live_caller_def split: option.splits sum.splits)
  qed
qed simp

section \<open>Properties\<close>

text \<open>
  C21: no history of lookups and insertions makes the manifest cache dereference an empty list, and
  afterwards it holds at most its byte limit and 1024 entries, its byte count is the true cost of
  what it holds, and every cached manifest was inserted under that CID.
\<close>

theorem manifest_cache_bounded:
  assumes "new_manifest_cache limit = Some c"
  shows "\<exists>c'. cache_run ops c = Some c' \<and>
    mc_bytes c' = sum_list (map (manifest_cost \<circ> cm_value \<circ> snd) (mc_entries c')) \<and>
    int (mc_bytes c') \<le> limit \<and> length (mc_entries c') \<le> 1024 \<and>
    (\<forall>k v. cache_content c' k = Some v \<longrightarrow> Op_put k v \<in> set ops)"
proof -
  from assms have "mc_limit c = nat limit" "mc_entries c = []" "0 < limit"
    by (auto simp: new_manifest_cache_def split: if_splits)
  moreover from cache_run_ok [OF new_manifest_cache_inv [OF assms]] obtain c' where c':
    "cache_run ops c = Some c'" "cache_inv c'" "mc_limit c' = mc_limit c"
    "\<forall>k v. cache_content c' k = Some v \<longrightarrow> cache_content c k = Some v \<or> Op_put k v \<in> set ops" by blast
  moreover have costs: "map (manifest_cost \<circ> cm_value \<circ> snd) (mc_entries c') = map (cm_bytes \<circ> snd) (mc_entries c')"
    using c'(2) get_mem [of "mc_entries c'"] by (auto simp: cache_inv_def)
  moreover have "mc_bytes c' = sum_list (map (cm_bytes \<circ> snd) (mc_entries c'))" "mc_bytes c' \<le> nat limit"
    "length (mc_entries c') \<le> 1024"
    using c' \<open>mc_limit c = nat limit\<close> by (simp_all add: cache_inv_def max_manifest_entries_def)
  ultimately show ?thesis by (auto simp: cache_content_def simp del: map_map map_eq_conv)
qed

theorem manifest_cache_bounded_witness:
  "\<exists>c'. cache_run [Op_put ''a'' empty_manifest, Op_get ''a'', Op_put ''b'' empty_manifest]
      \<lparr>mc_entries = [], mc_lru = [], mc_bytes = 0, mc_limit = 1000\<rparr> = Some c' \<and> mc_bytes c' \<le> 1000"
  using manifest_cache_bounded [of 1000 "\<lparr>mc_entries = [], mc_lru = [], mc_bytes = 0, mc_limit = 1000\<rparr>"
      "[Op_put ''a'' empty_manifest, Op_get ''a'', Op_put ''b'' empty_manifest]"]
  by (auto simp: new_manifest_cache_def)

text \<open>
  A caller that shares its fetches with other callers and whose own context stays alive never
  gets another caller's cancellation or deadline as its answer; it returns as soon as one round's
  fetch is not cancelled; a manifest it gets was fetched for that CID; and what the cache holds
  afterwards still agrees with the fetched manifests.
\<close>

theorem load_isolated_from_other_callers:
  assumes "new_manifest_cache limit = Some c0" and "cache_run ops c0 = Some c"
    and "\<forall>k v. Op_put k v \<in> set ops \<longrightarrow> truth k v"
    and "\<forall>r \<in> set rs. live_caller r \<and> (\<forall>v. lr_fetch r = Inr v \<longrightarrow> truth cid v)"
    and "\<exists>r \<in> set rs. lr_leader_ctx r = None \<and> lr_fetch r \<noteq> Inl Canceled \<and> lr_fetch r \<noteq> Inl Deadline_exceeded"
  shows "\<exists>c' res. cache_load rs cid c = Some (c', res) \<and> res \<noteq> Inl Canceled \<and> res \<noteq> Inl Deadline_exceeded \<and>
    (\<forall>v. res = Inr v \<longrightarrow> truth cid v) \<and> (\<forall>k v. cache_content c' k = Some v \<longrightarrow> truth k v)"
proof -
  have "cache_content c0 k = None" for k
    using assms(1) by (auto simp: new_manifest_cache_def cache_content_def split: if_splits)
  with cache_run_ok [OF new_manifest_cache_inv [OF assms(1)], of ops] assms(2,3)
  have ag: "manifests.agrees truth c" by (auto simp: manifests.agrees_def)
  then have inv: "cache_inv c" by (simp add: manifests.agrees_def)
  have live: "list_all live_caller rs" using assms(4) by (auto simp: list_all_iff)
  from cache_load_returns [OF inv live assms(5)] obtain c' res where ld: "cache_load rs cid c = Some (c', res)" by blast
  from cache_load_sound [OF ag _ ld] assms(4) live ld show ?thesis by (auto simp: manifests.agrees_def)
qed

theorem load_isolated_from_other_callers_witness:
  "\<exists>c' res. cache_load
      [\<lparr>lr_ctx = None, lr_leader_ctx = Some Canceled, lr_fetch = Inl Fetch_failed, lr_done = None,
        lr_shared = True, lr_ctx_after = None\<rparr>,
       \<lparr>lr_ctx = None, lr_leader_ctx = None, lr_fetch = Inr empty_manifest, lr_done = None,
        lr_shared = True, lr_ctx_after = None\<rparr>] ''a''
      \<lparr>mc_entries = [], mc_lru = [], mc_bytes = 0, mc_limit = 1000\<rparr> = Some (c', res) \<and>
    res \<noteq> Inl Canceled \<and> (\<forall>v. res = Inr v \<longrightarrow> v = empty_manifest)"
  using load_isolated_from_other_callers [of 1000 "\<lparr>mc_entries = [], mc_lru = [], mc_bytes = 0, mc_limit = 1000\<rparr>"
      "[]" "\<lparr>mc_entries = [], mc_lru = [], mc_bytes = 0, mc_limit = 1000\<rparr>" "\<lambda>k v. v = empty_manifest"
      "[\<lparr>lr_ctx = None, lr_leader_ctx = Some Canceled, lr_fetch = Inl Fetch_failed, lr_done = None,
        lr_shared = True, lr_ctx_after = None\<rparr>,
       \<lparr>lr_ctx = None, lr_leader_ctx = None, lr_fetch = Inr empty_manifest, lr_done = None,
        lr_shared = True, lr_ctx_after = None\<rparr>]" "''a''"]
  by (auto simp: new_manifest_cache_def live_caller_def)

end
