(* ===== verification/File_Cache.thy ===== *)
theory File_Cache
  imports Prelude
begin

text \<open>
  \<open>internal/handler/file_cache.go\<close>: the disk cache of completely read immutable files. The Go map
  \<open>fc_entries\<close> and the list \<open>fc_lru\<close> (front first) name an entry by its key; \<open>fc_blobs\<close> is what the
  directory holds under \<open>key.blob\<close>. Answers of the operating system (does \<open>os.Open\<close>, \<open>os.Remove\<close>,
  \<open>os.CreateTemp\<close>, \<open>os.Rename\<close> succeed) are arguments. Sizes are small against 64 bits: the byte
  count never exceeds the limit by more than one object, so the additions are plain integers.
\<close>

section \<open>State\<close>

record file_entry =
  fe_size :: int
  fe_readers :: int

record file_cache =
  fc_limit :: int
  fc_object_limit :: int
  fc_bytes :: int
  fc_active :: int
  fc_entries :: "(string, file_entry) gomap"
  fc_lru :: "string list"
  fc_blobs :: "(string, bytes) gomap"

definition max_cached_object :: int where
  "max_cached_object = 2 * 1024 * 1024"

definition max_cache_entries :: int where
  "max_cache_entries = 4096"

definition max_cache_writers :: int where
  "max_cache_writers = 8"

text \<open>The names the cache may delete at start-up: \<open>64 hex digits.blob\<close> and \<open>partial-digits\<close>.\<close>

definition hex_char :: "char \<Rightarrow> bool" where
  "hex_char c \<longleftrightarrow> c \<in> set ''0123456789abcdef''"

definition digit_char :: "char \<Rightarrow> bool" where
  "digit_char c \<longleftrightarrow> c \<in> set ''0123456789''"

definition owned_name :: "string \<Rightarrow> bool" where
  "owned_name name \<longleftrightarrow>
     (length name = 69 \<and> list_all hex_char (take 64 name) \<and> drop 64 name = ''.blob'') \<or>
     (take 8 name = ''partial-'' \<and> drop 8 name \<noteq> [] \<and> list_all digit_char (drop 8 name))"

datatype cache_init_error = Mkdir_failed | Read_dir_failed | Remove_failed

text \<open>
  \<open>newFileCache\<close>: the result is the cache (\<open>None\<close> for a nil cache) with the directory listing left
  behind; an entry of the listing is a name and whether it is a directory.
\<close>

definition new_file_cache ::
    "int \<Rightarrow> bool \<Rightarrow> (string \<times> bool) list option \<Rightarrow> (string \<Rightarrow> bool)
       \<Rightarrow> cache_init_error + (file_cache option \<times> (string \<times> bool) list option)" where
  "new_file_cache limit mkdir_ok listing rm =
     (if limit \<le> 0 then Inr (None, listing)
      else if \<not> mkdir_ok then Inl Mkdir_failed
      else (case listing of
          None \<Rightarrow> Inl Read_dir_failed
        | Some names \<Rightarrow>
            if list_ex (\<lambda>(n, is_dir). \<not> is_dir \<and> owned_name n \<and> \<not> rm n) names then Inl Remove_failed
            else Inr (Some \<lparr>fc_limit = limit, fc_object_limit = min limit max_cached_object,
                fc_bytes = 0, fc_active = 0, fc_entries = [], fc_lru = [], fc_blobs = []\<rparr>,
              Some (filter (\<lambda>(n, is_dir). is_dir \<or> \<not> owned_name n) names))))"

section \<open>Eviction\<close>

definition entry_size :: "file_cache \<Rightarrow> string \<Rightarrow> int" where
  "entry_size c key = (case map_of (fc_entries c) key of None \<Rightarrow> 0 | Some e \<Rightarrow> fe_size e)"

text \<open>\<open>remove\<close>: \<open>rm_ok\<close> is a successful \<open>os.Remove\<close> or a file that was already gone.\<close>

definition cache_remove :: "bool \<Rightarrow> string \<Rightarrow> file_cache \<Rightarrow> file_cache \<times> bool" where
  "cache_remove rm_ok key c =
     (if \<not> rm_ok then (c, False)
      else (c\<lparr>fc_entries := gm_del key (fc_entries c),
              fc_lru := remove1 key (fc_lru c),
              fc_bytes := fc_bytes c - entry_size c key,
              fc_blobs := gm_del key (fc_blobs c)\<rparr>, True))"

text \<open>\<open>evict\<close>: from the back, the first entry without readers whose file can be removed.\<close>

fun evict_scan :: "(string \<Rightarrow> bool) \<Rightarrow> string list \<Rightarrow> file_cache \<Rightarrow> file_cache \<times> bool" where
  "evict_scan rm [] c = (c, False)"
| "evict_scan rm (k # ks) c =
     (case map_of (fc_entries c) k of
        None \<Rightarrow> evict_scan rm ks c
      | Some e \<Rightarrow> if fe_readers e = 0 \<and> rm k then cache_remove True k c else evict_scan rm ks c)"

definition file_evict :: "(string \<Rightarrow> bool) \<Rightarrow> file_cache \<Rightarrow> file_cache \<times> bool" where
  "file_evict rm c = evict_scan rm (rev (fc_lru c)) c"

lemma evict_scan_True:
  "evict_scan rm ks c = (c', True) \<Longrightarrow>
    \<exists>k e. k \<in> set ks \<and> map_of (fc_entries c) k = Some e \<and> fe_readers e = 0 \<and> rm k \<and>
      c' = fst (cache_remove True k c)"
  by (induction rm ks c rule: evict_scan.induct)
    (auto simp: cache_remove_def split: option.splits if_splits)

lemma evict_scan_False: "evict_scan rm ks c = (c', False) \<Longrightarrow> c' = c"
  by (induction rm ks c rule: evict_scan.induct)
    (auto simp: cache_remove_def split: option.splits if_splits)

lemma file_evict_True:
  "file_evict rm c = (c', True) \<Longrightarrow>
    \<exists>k e. k \<in> set (fc_lru c) \<and> map_of (fc_entries c) k = Some e \<and> fe_readers e = 0 \<and> rm k \<and>
      c' = fst (cache_remove True k c)"
  unfolding file_evict_def by (drule evict_scan_True) simp

lemma cache_remove_lru: "k \<in> set (fc_lru c) \<Longrightarrow> length (fc_lru (fst (cache_remove True k c))) < length (fc_lru c)"
  by (auto simp: cache_remove_def length_remove1) (metis Suc_pred length_pos_if_in_set lessI)

text \<open>The loop of \<open>open\<close> that reserves room for one more writer; \<open>False\<close> when nothing can go.\<close>

function make_room :: "(string \<Rightarrow> bool) \<Rightarrow> file_cache \<Rightarrow> file_cache \<times> bool" where
  "make_room rm c =
     (if fc_bytes c + (fc_active c + 1) * fc_object_limit c > fc_limit c
         \<or> int (length (fc_lru c)) + fc_active c \<ge> max_cache_entries
      then (case file_evict rm c of
          (c1, True) \<Rightarrow> make_room rm c1
        | (c1, False) \<Rightarrow> (c1, False))
      else (c, True))"
  by pat_completeness auto
termination
  by (relation "measure (\<lambda>(rm, c). length (fc_lru c))")
    (auto dest!: file_evict_True [OF sym] intro: cache_remove_lru)

declare make_room.simps [simp del]

section \<open>Reading through the cache\<close>

record cache_fill =
  fl_key :: string
  fl_size :: int
  fl_file :: "bytes option"

datatype open_result = Nil_cache_stream | Context_ended | Hit string bytes | Fetch_error | Plain_stream | Filling cache_fill

text \<open>What one call of \<open>open\<close> observes.\<close>

record open_env =
  oe_ctx_err :: bool
  oe_open_ok :: bool
  oe_rm :: "string \<Rightarrow> bool"
  oe_fetch_ok :: bool
  oe_create_ok :: bool

definition cache_hit :: "string \<Rightarrow> file_entry \<Rightarrow> file_cache \<Rightarrow> file_cache" where
  "cache_hit key e c = c\<lparr>fc_lru := key # remove1 key (fc_lru c),
     fc_entries := gm_put key (e\<lparr>fe_readers := fe_readers e + 1\<rparr>) (fc_entries c)\<rparr>"

definition open_miss :: "open_env \<Rightarrow> string \<Rightarrow> file_cache \<Rightarrow> file_cache \<times> open_result" where
  "open_miss env key c =
     (if \<not> oe_fetch_ok env then (c, Fetch_error)
      else if fc_active c \<ge> max_cache_writers \<or> (fc_active c + 1) * fc_object_limit c > fc_limit c
      then (c, Plain_stream)
      else (case make_room (oe_rm env) c of
          (c1, False) \<Rightarrow> (c1, Plain_stream)
        | (c1, True) \<Rightarrow>
            if \<not> oe_create_ok env then (c1, Plain_stream)
            else (c1\<lparr>fc_active := fc_active c1 + 1\<rparr>, Filling \<lparr>fl_key = key, fl_size = 0, fl_file = Some []\<rparr>)))"

definition cache_open :: "open_env \<Rightarrow> string \<Rightarrow> file_cache \<Rightarrow> file_cache \<times> open_result" where
  "cache_open env key c =
     (if oe_ctx_err env then (c, Context_ended)
      else (case map_of (fc_entries c) key of
          Some e \<Rightarrow>
            if oe_open_ok env \<and> map_of (fc_blobs c) key \<noteq> None
            then (cache_hit key e c, Hit key (the (map_of (fc_blobs c) key)))
            else if fe_readers e = 0 then open_miss env key (fst (cache_remove (oe_rm env key) key c))
            else open_miss env key c
        | None \<Rightarrow> open_miss env key c))"

text \<open>\<open>cacheHit.Close\<close> (its \<open>sync.Once\<close> makes it happen once per hit).\<close>

definition hit_close :: "string \<Rightarrow> file_cache \<Rightarrow> file_cache" where
  "hit_close key c = (case map_of (fc_entries c) key of
      None \<Rightarrow> c
    | Some e \<Rightarrow> c\<lparr>fc_entries := gm_put key (e\<lparr>fe_readers := fe_readers e - 1\<rparr>) (fc_entries c)\<rparr>)"

record finish_env =
  fi_close_ok :: bool
  fi_ctx_ok :: bool
  fi_rename_ok :: bool

definition fill_finish :: "finish_env \<Rightarrow> bool \<Rightarrow> cache_fill \<times> file_cache \<Rightarrow> cache_fill \<times> file_cache" where
  "fill_finish env commit fc = (case fc of (f, c) \<Rightarrow>
     (case fl_file f of
        None \<Rightarrow> (f, c)
      | Some content \<Rightarrow>
          (let c1 = c\<lparr>fc_active := fc_active c - 1\<rparr>
           in (f\<lparr>fl_file := None\<rparr>,
               if commit \<and> fi_close_ok env \<and> fi_ctx_ok env \<and> map_of (fc_entries c1) (fl_key f) = None
                  \<and> fi_rename_ok env
               then c1\<lparr>fc_entries := gm_put (fl_key f) \<lparr>fe_size = fl_size f, fe_readers = 0\<rparr> (fc_entries c1),
                       fc_lru := fl_key f # fc_lru c1,
                       fc_bytes := fc_bytes c1 + fl_size f,
                       fc_blobs := gm_put (fl_key f) content (fc_blobs c1)\<rparr>
               else c1))))"

datatype read_end = More | Eof | Read_failed

text \<open>
  \<open>cacheFill.Read\<close> after the source answered with \<open>chunk\<close> and \<open>end\<close>; both are returned to the
  caller unchanged, whatever happens to the temporary file.
\<close>

definition fill_read ::
    "finish_env \<Rightarrow> bool \<Rightarrow> bytes \<Rightarrow> read_end \<Rightarrow> cache_fill \<times> file_cache \<Rightarrow> (cache_fill \<times> file_cache) \<times> (bytes \<times> read_end)" where
  "fill_read env write_ok chunk rend fc = (case fc of (f, c) \<Rightarrow>
     (if fl_file f = None then ((f, c), (chunk, rend))
      else
        (let f1 = f\<lparr>fl_size := fl_size f + int (length chunk)\<rparr>;
             fc2 = (if fl_size f1 > fc_object_limit c then fill_finish env False (f1, c)
                    else if chunk \<noteq> [] then
                      (if write_ok then (f1\<lparr>fl_file := map_option (\<lambda>b. b @ chunk) (fl_file f1)\<rparr>, c)
                       else fill_finish env False (f1, c))
                    else (f1, c));
             fc3 = (if rend \<noteq> More then fill_finish env (rend = Eof) fc2 else fc2)
         in (fc3, (chunk, rend)))))"

definition fill_close :: "finish_env \<Rightarrow> cache_fill \<times> file_cache \<Rightarrow> cache_fill \<times> file_cache" where
  "fill_close env fc = fill_finish env False fc"

section \<open>The invariant of the cache\<close>

text \<open>
  \<open>open_fills\<close> is the number of writers that still hold a temporary file, \<open>hits key\<close> the number of
  readers of an entry that were not closed yet.
\<close>

fun fe_entry_ok :: "file_entry option \<Rightarrow> nat \<Rightarrow> bytes option \<Rightarrow> int \<Rightarrow> bool" where
  "fe_entry_ok None n blob lim \<longleftrightarrow> n = 0 \<and> blob = None"
| "fe_entry_ok (Some e) n blob lim \<longleftrightarrow>
     fe_readers e = int n \<and> fe_size e \<le> lim \<and> (\<exists>b. blob = Some b \<and> fe_size e = int (length b))"

definition fcache_inv :: "nat \<Rightarrow> (string \<Rightarrow> nat) \<Rightarrow> file_cache \<Rightarrow> bool" where
  "fcache_inv open_fills hits c \<longleftrightarrow>
     0 < fc_object_limit c \<and> fc_object_limit c \<le> max_cached_object \<and> fc_object_limit c \<le> fc_limit c \<and>
     wf_gomap (fc_entries c) \<and> distinct (fc_lru c) \<and> set (fc_lru c) = set (gm_keys (fc_entries c)) \<and>
     fc_bytes c = sum_list (map (fe_size \<circ> snd) (fc_entries c)) \<and>
     fc_active c = int open_fills \<and> fc_active c \<le> max_cache_writers \<and>
     fc_bytes c + fc_active c * fc_object_limit c \<le> fc_limit c \<and>
     int (length (fc_entries c)) + fc_active c \<le> max_cache_entries \<and>
     (\<forall>k. fe_entry_ok (map_of (fc_entries c) k) (hits k) (map_of (fc_blobs c) k) (fc_object_limit c))"


lemma fcache_inv_lru: "fcache_inv n hits c \<Longrightarrow> k \<in> set (fc_lru c) \<longleftrightarrow> (\<exists>e. map_of (fc_entries c) k = Some e)"
  using keys_iff_get [of k "fc_entries c"] by (auto simp: fcache_inv_def simp del: set_map)

lemma fcache_inv_entry:
  "fcache_inv n hits c \<Longrightarrow> fe_entry_ok (map_of (fc_entries c) k) (hits k) (map_of (fc_blobs c) k) (fc_object_limit c)"
  by (auto simp: fcache_inv_def)

lemma fcache_inv_size: "fcache_inv n hits c \<Longrightarrow> map_of (fc_entries c) k = Some e \<Longrightarrow> 0 \<le> fe_size e"
  using fcache_inv_entry [of n hits c k] by auto

lemma length_lru: "fcache_inv n hits c \<Longrightarrow> length (fc_lru c) = length (fc_entries c)"
proof -
  assume "fcache_inv n hits c"
  then have "distinct (fc_lru c)" "distinct (gm_keys (fc_entries c))" "set (fc_lru c) = set (gm_keys (fc_entries c))"
    by (auto simp: fcache_inv_def wf_gomap_def)
  then show ?thesis by (metis distinct_card length_map)
qed

lemma cache_remove_inv:
  assumes inv: "fcache_inv n hits c" and e: "map_of (fc_entries c) k = Some e" and free: "fe_readers e = 0"
  shows "fcache_inv n hits (fst (cache_remove rm_ok k c))"
proof (cases rm_ok)
  case True
  from inv have wf: "wf_gomap (fc_entries c)" by (simp add: fcache_inv_def)
  have hits: "hits k = 0" using fcache_inv_entry [OF inv, of k] e free by simp
  have "length (fc_entries c) = Suc (length (gm_del k (fc_entries c)))" using length_gm_del [OF wf e] by simp
  then have len: "int (length (gm_del k (fc_entries c))) + fc_active c \<le> max_cache_entries"
    using inv by (simp add: fcache_inv_def)
  have "set (remove1 k (fc_lru c)) = set (gm_keys (gm_del k (fc_entries c)))"
    using inv by (simp add: fcache_inv_def keys_gm_del del: set_map)
  with inv e hits len sum_gm_del [OF wf e, of fe_size] fcache_inv_size [OF inv e] True show ?thesis
    by (auto simp: cache_remove_def fcache_inv_def entry_size_def gomap_simps simp del: set_map)
qed (use inv in \<open>simp add: cache_remove_def\<close>)

lemma make_room_inv:
  "fcache_inv n hits c \<Longrightarrow> make_room rm c = (c', ok) \<Longrightarrow>
    fcache_inv n hits c' \<and> fc_limit c' = fc_limit c \<and> fc_object_limit c' = fc_object_limit c \<and>
    fc_active c' = fc_active c \<and>
    (ok \<longrightarrow> fc_bytes c' + (fc_active c' + 1) * fc_object_limit c' \<le> fc_limit c' \<and>
           int (length (fc_entries c')) + fc_active c' < max_cache_entries)"
proof (induction rm c rule: make_room.induct)
  case (1 rm c)
  show ?case
  proof (cases "fc_bytes c + (fc_active c + 1) * fc_object_limit c > fc_limit c
         \<or> int (length (fc_lru c)) + fc_active c \<ge> max_cache_entries")
    case False
    with 1 length_lru [OF "1.prems"(1)] show ?thesis by (auto simp: make_room.simps [of rm c])
  next
    case True
    obtain c1 b where ev: "file_evict rm c = (c1, b)" by fastforce
    show ?thesis
    proof (cases b)
      case True
      with ev have "file_evict rm c = (c1, True)" by simp
      from file_evict_True [OF this] obtain k e where k: "map_of (fc_entries c) k = Some e" "fe_readers e = 0"
        and c1: "c1 = fst (cache_remove True k c)" by blast
      from k have inv1: "fcache_inv n hits c1" unfolding c1 by (rule cache_remove_inv [OF "1.prems"(1)])
      have frame: "fc_limit c1 = fc_limit c" "fc_object_limit c1 = fc_object_limit c" "fc_active c1 = fc_active c"
        by (simp_all add: c1 cache_remove_def)
      from ev True \<open>_ \<or> _\<close> "1.prems"(2) have "make_room rm c1 = (c', ok)"
        by (subst (asm) make_room.simps) simp
      from "1.IH" [OF \<open>_ \<or> _\<close> ev [symmetric] _ inv1 this] True frame show ?thesis by auto
    next
      case False
      with ev have "c1 = c" unfolding file_evict_def by (simp add: evict_scan_False)
      moreover have "make_room rm c = (c1, False)"
        using ev False \<open>_ \<or> _\<close> by (subst make_room.simps) simp
      ultimately show ?thesis using "1.prems" by simp
    qed
  qed
qed

lemma open_miss_inv:
  assumes "fcache_inv n hits c" and "open_miss env key c = (c', r)"
  shows "fcache_inv (if \<exists>f. r = Filling f then Suc n else n) hits c' \<and> (\<forall>k b. r \<noteq> Hit k b) \<and>
    (\<forall>f. r = Filling f \<longrightarrow> fl_key f = key \<and> fl_size f = 0 \<and> fl_file f = Some [])"
proof -
  obtain c1 b where mr: "make_room (oe_rm env) c = (c1, b)" by fastforce
  note room = make_room_inv [OF assms(1) mr]
  have "fcache_inv (Suc n) hits (c1\<lparr>fc_active := fc_active c1 + 1\<rparr>)" if "b" "fc_active c < max_cache_writers"
    using room that by (auto simp: fcache_inv_def)
  with assms mr room show ?thesis
    by (auto simp: open_miss_def split: if_splits prod.splits bool.splits)
qed

lemma cache_hit_inv:
  assumes "fcache_inv n hits c" and "map_of (fc_entries c) key = Some e"
  shows "fcache_inv n (hits(key := Suc (hits key))) (cache_hit key e c)"
proof -
  from assms(1) have wf: "wf_gomap (fc_entries c)" by (simp add: fcache_inv_def)
  have mem: "key \<in> set (fc_lru c)" using assms fcache_inv_lru by blast
  have lru: "insert key (set (remove1 key (fc_lru c))) = set (fc_lru c)"
    using mem set_remove1_subset [of key "fc_lru c"] by auto (metis in_set_remove1)
  show ?thesis
    using assms lru mem sum_gm_put_same [OF wf assms(2), of fe_size] fcache_inv_entry [OF assms(1), of key]
    by (auto simp: cache_hit_def fcache_inv_def gomap_simps length_gm_put keys_gm_put simp del: set_map)
qed

lemma hit_close_inv:
  assumes "fcache_inv n hits c" and "0 < hits key"
  shows "fcache_inv n (hits(key := hits key - 1)) (hit_close key c)"
proof -
  from fcache_inv_entry [OF assms(1), of key] assms(2) obtain e where e: "map_of (fc_entries c) key = Some e"
    by (cases "map_of (fc_entries c) key") auto
  from assms(1) have wf: "wf_gomap (fc_entries c)" by (simp add: fcache_inv_def)
  have "set (fc_lru c) = insert key (set (gm_keys (fc_entries c)))"
    using e assms(1) keys_iff_get [of key "fc_entries c"] by (auto simp: fcache_inv_def simp del: set_map)
  then show ?thesis
    using assms e sum_gm_put_same [OF wf e, of fe_size] fcache_inv_entry [OF assms(1), of key]
    by (auto simp: hit_close_def fcache_inv_def gomap_simps length_gm_put keys_gm_put simp del: set_map)
qed

definition fill_open :: "cache_fill \<Rightarrow> bool" where
  "fill_open f \<longleftrightarrow> fl_file f \<noteq> None"

definition fill_ok :: "int \<Rightarrow> cache_fill \<Rightarrow> bool" where
  "fill_ok lim f \<longleftrightarrow> (\<forall>b. fl_file f = Some b \<longrightarrow> fl_size f = int (length b) \<and> fl_size f \<le> lim)"

lemma fill_finish_closed [simp]: "\<not> fill_open f \<Longrightarrow> fill_finish env commit (f, c) = (f, c)"
  by (simp add: fill_finish_def fill_open_def)

lemma fill_finish_frame:
  "fill_finish env commit (f, c) = (f', c') \<Longrightarrow> \<not> fill_open f' \<and> fc_object_limit c' = fc_object_limit c \<and> fc_limit c' = fc_limit c"
  by (auto simp: fill_finish_def fill_open_def Let_def split: option.splits if_splits)

lemma fill_finish_inv:
  assumes inv: "fcache_inv (Suc n) hits c" and op: "fill_open f"
    and ok: "commit \<Longrightarrow> fill_ok (fc_object_limit c) f"
    and fin: "fill_finish env commit (f, c) = (f', c')"
  shows "fcache_inv n hits c'"
proof -
  from op obtain b where b: "fl_file f = Some b" by (auto simp: fill_open_def)
  show ?thesis
  proof (cases "commit \<and> fi_close_ok env \<and> fi_ctx_ok env \<and> map_of (fc_entries c) (fl_key f) = None \<and> fi_rename_ok env")
    case False
    with fin b have "c' = c\<lparr>fc_active := fc_active c - 1\<rparr>" by (auto simp: fill_finish_def Let_def)
    with inv show ?thesis by (auto simp: fcache_inv_def algebra_simps)
  next
    case True
    with fin b have c': "c' = c\<lparr>fc_active := fc_active c - 1,
        fc_entries := gm_put (fl_key f) \<lparr>fe_size = fl_size f, fe_readers = 0\<rparr> (fc_entries c),
        fc_lru := fl_key f # fc_lru c, fc_bytes := fc_bytes c + fl_size f,
        fc_blobs := gm_put (fl_key f) b (fc_blobs c)\<rparr>"
      by (auto simp: fill_finish_def Let_def)
    from ok True b have sz: "fl_size f = int (length b)" "fl_size f \<le> fc_object_limit c" by (auto simp: fill_ok_def)
    have absent: "fl_key f \<notin> set (gm_keys (fc_entries c))" using True by (simp add: map_of_eq_None_iff)
    have hits: "hits (fl_key f) = 0" using fcache_inv_entry [OF inv, of "fl_key f"] True by simp
    have lru: "fl_key f \<notin> set (fc_lru c)" using absent inv by (simp add: fcache_inv_def)
    have len: "length (gm_put (fl_key f) v (fc_entries c)) = Suc (length (fc_entries c))" for v
      using absent by (simp add: gm_put_absent)
    have sum: "sum_list (map (fe_size \<circ> snd) (gm_put (fl_key f) v (fc_entries c))) =
        sum_list (map (fe_size \<circ> snd) (fc_entries c)) + fe_size v" for v
      using absent by (simp add: gm_put_absent)
    from inv sz lru hits show ?thesis
      by (auto simp: c' fcache_inv_def len sum gomap_simps keys_gm_put algebra_simps simp del: set_map)
  qed
qed

lemma fill_read_inv:
  assumes inv: "fcache_inv (if fill_open f then Suc n else n) hits c"
    and ok: "fill_ok (fc_object_limit c) f"
    and rd: "fill_read env write_ok chunk rend (f, c) = ((f', c'), out)"
  shows "fcache_inv (if fill_open f' then Suc n else n) hits c' \<and> fill_ok (fc_object_limit c') f' \<and>
    fc_object_limit c' = fc_object_limit c \<and> out = (chunk, rend)"
proof (cases "fill_open f")
  case False
  with assms show ?thesis by (auto simp: fill_read_def fill_open_def)
next
  case True
  then obtain b where b: "fl_file f = Some b" by (auto simp: fill_open_def)
  define f1 where "f1 = f\<lparr>fl_size := fl_size f + int (length chunk)\<rparr>"
  define fc2 where "fc2 = (if fl_size f1 > fc_object_limit c then fill_finish env False (f1, c)
      else if chunk \<noteq> [] then
        (if write_ok then (f1\<lparr>fl_file := map_option (\<lambda>b. b @ chunk) (fl_file f1)\<rparr>, c)
         else fill_finish env False (f1, c))
      else (f1, c))"
  obtain f2 c2 where fc2': "fc2 = (f2, c2)" by fastforce
  have "fill_read env write_ok chunk rend (f, c) =
      (if rend \<noteq> More then fill_finish env (rend = Eof) fc2 else fc2, (chunk, rend))"
    using b unfolding fill_read_def f1_def fc2_def Let_def by simp
  with rd have res: "(f', c') = (if rend \<noteq> More then fill_finish env (rend = Eof) fc2 else fc2)"
    and out: "out = (chunk, rend)" by simp_all
  have op1: "fill_open f1" using b by (simp add: f1_def fill_open_def)
  have inv': "fcache_inv (Suc n) hits c" using inv True by simp
  have fin: "fill_finish env False (f1, c) = (g, d) \<Longrightarrow> fcache_inv n hits d \<and> \<not> fill_open g \<and>
      fc_object_limit d = fc_object_limit c" for g d
    using fill_finish_inv [OF inv' op1, of False] fill_finish_frame by blast
  have mid: "fcache_inv (if fill_open f2 then Suc n else n) hits c2 \<and> fill_ok (fc_object_limit c2) f2 \<and>
      fc_object_limit c2 = fc_object_limit c"
  proof (cases "fl_size f1 > fc_object_limit c \<or> (chunk \<noteq> [] \<and> \<not> write_ok)")
    case True
    then have "fill_finish env False (f1, c) = (f2, c2)" using fc2' by (auto simp: fc2_def split: if_splits)
    with fin show ?thesis by (auto simp: fill_ok_def fill_open_def)
  next
    case False
    then have "fc2 = (f1\<lparr>fl_file := Some (b @ chunk)\<rparr>, c)"
      using b by (auto simp: fc2_def f1_def)
    then have f2: "f2 = f1\<lparr>fl_file := Some (b @ chunk)\<rparr>" and c2: "c2 = c" using fc2' by auto
    from ok b have "fl_size f = int (length b)" by (auto simp: fill_ok_def)
    with False inv' show ?thesis by (auto simp: f2 c2 fill_ok_def fill_open_def f1_def)
  qed
  show ?thesis
  proof (cases "rend = More")
    case True
    with res fc2' have "f' = f2" "c' = c2" by simp_all
    with mid out True show ?thesis by auto
  next
    case False
    with res fc2' have ff: "fill_finish env (rend = Eof) (f2, c2) = (f', c')" by simp
    show ?thesis
    proof (cases "fill_open f2")
      case True
      from True mid have "fcache_inv (Suc n) hits c2" "fill_ok (fc_object_limit c2) f2" by auto
      then have "fcache_inv n hits c'" by (rule fill_finish_inv [OF _ True _ ff])
      with fill_finish_frame [OF ff] mid out show ?thesis by (auto simp: fill_ok_def fill_open_def)
    next
      case False
      with ff mid out show ?thesis by auto
    qed
  qed
qed

section \<open>The cache with its readers and writers\<close>

text \<open>
  The whole system: the cache, the readers that fill it (kept after they let go of their file: they
  still stream) and the open hits. Requests interleave at the granularity of the mutex.
  \<open>src key b\<close> says which bytes a source of \<open>key\<close> may have delivered when it reports its end
  (\<open>\<lambda>_ _. True\<close> when nothing is known of the sources); a source may fail or be abandoned at any byte.
\<close>

record cache_sys =
  sys_cache :: file_cache
  sys_fills :: "cache_fill list"
  sys_hits :: "string list"

inductive cache_step :: "(string \<Rightarrow> bytes \<Rightarrow> bool) \<Rightarrow> cache_sys \<Rightarrow> cache_sys \<Rightarrow> bool" for src where
  step_open: "cache_open env key (sys_cache s) = (c', r) \<Longrightarrow>
     cache_step src s (s\<lparr>sys_cache := c',
       sys_fills := (case r of Filling f \<Rightarrow> sys_fills s @ [f] | _ \<Rightarrow> sys_fills s),
       sys_hits := (case r of Hit k b \<Rightarrow> k # sys_hits s | _ \<Rightarrow> sys_hits s)\<rparr>)"
| step_read: "i < length (sys_fills s) \<Longrightarrow>
     (\<And>b. rend = Eof \<Longrightarrow> fl_file (sys_fills s ! i) = Some b \<Longrightarrow> src (fl_key (sys_fills s ! i)) (b @ chunk)) \<Longrightarrow>
     fill_read env w chunk rend (sys_fills s ! i, sys_cache s) = ((f', c'), out) \<Longrightarrow>
     cache_step src s (s\<lparr>sys_cache := c', sys_fills := (sys_fills s)[i := f']\<rparr>)"
| step_close: "i < length (sys_fills s) \<Longrightarrow>
     fill_close env (sys_fills s ! i, sys_cache s) = (f', c') \<Longrightarrow>
     cache_step src s (s\<lparr>sys_cache := c', sys_fills := (sys_fills s)[i := f']\<rparr>)"
| step_hit_close: "key \<in> set (sys_hits s) \<Longrightarrow>
     cache_step src s (s\<lparr>sys_cache := hit_close key (sys_cache s), sys_hits := remove1 key (sys_hits s)\<rparr>)"

inductive_cases cache_stepE: "cache_step src s t"

inductive cache_reachable :: "(string \<Rightarrow> bytes \<Rightarrow> bool) \<Rightarrow> int \<Rightarrow> cache_sys \<Rightarrow> bool" for src limit where
  reach_start: "new_file_cache limit ok listing rm = Inr (Some c, d) \<Longrightarrow>
     cache_reachable src limit \<lparr>sys_cache = c, sys_fills = [], sys_hits = []\<rparr>"
| reach_step: "cache_reachable src limit s \<Longrightarrow> cache_step src s t \<Longrightarrow> cache_reachable src limit t"

definition sys_inv :: "cache_sys \<Rightarrow> bool" where
  "sys_inv s \<longleftrightarrow>
     fcache_inv (length (filter fill_open (sys_fills s))) (count_list (sys_hits s)) (sys_cache s) \<and>
     list_all (fill_ok (fc_object_limit (sys_cache s))) (sys_fills s)"

lemma length_filter_update:
  "i < length xs \<Longrightarrow>
    length (filter P (xs[i := y])) = (if P y then 1 else 0) + (length (filter P xs) - (if P (xs ! i) then 1 else 0))"
proof (induction xs arbitrary: i)
  case (Cons x xs)
  show ?case
  proof (cases i)
    case 0
    then show ?thesis by simp
  next
    case (Suc j)
    with Cons.prems have j: "j < length xs" by simp
    have "P (xs ! j) \<Longrightarrow> 0 < length (filter P xs)"
      using j by (metis filter_empty_conv length_greater_0_conv nth_mem)
    with Cons.IH [OF j] Suc show ?thesis by auto
  qed
qed simp

lemma length_filter_nth: "i < length xs \<Longrightarrow> P (xs ! i) \<Longrightarrow> length (filter P xs) = Suc (length (filter P xs) - 1)"
  by (metis Suc_pred' filter_empty_conv length_greater_0_conv nth_mem)

lemma list_all_update: "list_all P xs \<Longrightarrow> P y \<Longrightarrow> list_all P (xs[i := y])"
  by (auto simp: list_all_iff dest: set_update_subset_insert [THEN subsetD])

lemma sys_inv_fill_update:
  assumes inv: "sys_inv s" and i: "i < length (sys_fills s)"
    and step: "\<And>n hits. fcache_inv (if fill_open (sys_fills s ! i) then Suc n else n) hits (sys_cache s) \<Longrightarrow>
      fcache_inv (if fill_open f' then Suc n else n) hits c'"
    and frame: "fc_object_limit c' = fc_object_limit (sys_cache s)" "fill_ok (fc_object_limit c') f'"
  shows "sys_inv (s\<lparr>sys_cache := c', sys_fills := (sys_fills s)[i := f']\<rparr>)"
proof -
  define n where "n = length (filter fill_open (sys_fills s)) - (if fill_open (sys_fills s ! i) then 1 else 0)"
  have "length (filter fill_open (sys_fills s)) = (if fill_open (sys_fills s ! i) then Suc n else n)"
    using length_filter_nth [OF i, of fill_open] by (simp add: n_def)
  with inv have "fcache_inv (if fill_open f' then Suc n else n) (count_list (sys_hits s)) c'"
    by (intro step) (simp add: sys_inv_def)
  moreover have "length (filter fill_open ((sys_fills s)[i := f'])) = (if fill_open f' then Suc n else n)"
    using length_filter_update [OF i, of fill_open f'] by (simp add: n_def)
  ultimately show ?thesis
    using inv frame by (auto simp: sys_inv_def intro: list_all_update)
qed

text \<open>Every step of every request keeps the invariant.\<close>

lemma open_miss_frame:
  "fcache_inv n hits c \<Longrightarrow> open_miss env key c = (c', r) \<Longrightarrow> fc_object_limit c' = fc_object_limit c"
  using make_room_inv [of n hits c "oe_rm env"]
  by (auto simp: open_miss_def split: if_splits prod.splits bool.splits)

lemma cache_remove_frame: "fc_object_limit (fst (cache_remove ok k c)) = fc_object_limit c"
  by (simp add: cache_remove_def)

lemma open_via_miss:
  assumes inv: "fcache_inv n hits c" and miss: "open_miss env key c = (c', r)"
  shows "fcache_inv (if \<exists>f. r = Filling f then Suc n else n)
      (case r of Hit k b \<Rightarrow> hits(k := Suc (hits k)) | _ \<Rightarrow> hits) c' \<and>
    fc_object_limit c' = fc_object_limit c \<and>
    (\<forall>f. r = Filling f \<longrightarrow> fl_key f = key \<and> fl_size f = 0 \<and> fl_file f = Some [])"
  using open_miss_inv [OF inv miss] open_miss_frame [OF inv miss] by (cases r) auto

lemma cache_open_inv:
  assumes inv: "fcache_inv n hits c" and op: "cache_open env key c = (c', r)"
  shows "fcache_inv (if \<exists>f. r = Filling f then Suc n else n)
      (case r of Hit k b \<Rightarrow> hits(k := Suc (hits k)) | _ \<Rightarrow> hits) c' \<and>
    fc_object_limit c' = fc_object_limit c \<and>
    (\<forall>f. r = Filling f \<longrightarrow> fl_key f = key \<and> fl_size f = 0 \<and> fl_file f = Some [])"
proof (cases "oe_ctx_err env")
  case True
  with inv op show ?thesis by (auto simp: cache_open_def)
next
  case live: False
  show ?thesis
  proof (cases "map_of (fc_entries c) key")
    case None
    with live op have "open_miss env key c = (c', r)" by (simp add: cache_open_def)
    with inv show ?thesis by (rule open_via_miss)
  next
    case (Some e)
    consider "oe_open_ok env \<and> map_of (fc_blobs c) key \<noteq> None"
      | "\<not> (oe_open_ok env \<and> map_of (fc_blobs c) key \<noteq> None)" "fe_readers e = 0"
      | "\<not> (oe_open_ok env \<and> map_of (fc_blobs c) key \<noteq> None)" "fe_readers e \<noteq> 0" by blast
    then show ?thesis
    proof cases
      case 1
      with live Some op obtain b where "r = Hit key b" "c' = cache_hit key e c" by (auto simp: cache_open_def)
      with cache_hit_inv [OF inv Some] show ?thesis by (simp add: cache_hit_def)
    next
      case 2
      with live Some op have miss: "open_miss env key (fst (cache_remove (oe_rm env key) key c)) = (c', r)"
        by (auto simp: cache_open_def)
      with open_via_miss [OF cache_remove_inv [OF inv Some 2(2)] miss] show ?thesis
        by (simp add: cache_remove_frame)
    next
      case 3
      with live Some op have "open_miss env key c = (c', r)" by (auto simp: cache_open_def)
      with inv show ?thesis by (rule open_via_miss)
    qed
  qed
qed

lemma fill_close_inv:
  assumes inv: "fcache_inv (if fill_open f then Suc n else n) hits c"
    and cl: "fill_close env (f, c) = (f', c')"
  shows "fcache_inv (if fill_open f' then Suc n else n) hits c'"
proof (cases "fill_open f")
  case True
  have ff: "fill_finish env False (f, c) = (f', c')" using cl by (simp add: fill_close_def)
  from True inv have "fcache_inv (Suc n) hits c" by simp
  then have "fcache_inv n hits c'" by (rule fill_finish_inv [OF _ True _ ff]) simp
  with fill_finish_frame [OF ff] show ?thesis by simp
next
  case False
  with assms show ?thesis by (auto simp: fill_close_def)
qed

lemma fill_close_frame:
  "fill_close env (f, c) = (f', c') \<Longrightarrow> fc_object_limit c' = fc_object_limit c \<and> fill_ok lim f'"
  using fill_finish_frame [of env False f c f' c'] by (auto simp: fill_close_def fill_ok_def fill_open_def)

lemma count_remove1: "k \<in> set xs \<Longrightarrow> count_list (remove1 k xs) = (count_list xs)(k := count_list xs k - 1)"
proof (rule ext)
  fix y
  assume "k \<in> set xs"
  then show "count_list (remove1 k xs) y = ((count_list xs)(k := count_list xs k - 1)) y"
    by (induction xs) (auto simp: count_list_0_iff neq0_conv [symmetric])
qed

lemma cache_step_inv: "cache_step src s t \<Longrightarrow> sys_inv s \<Longrightarrow> sys_inv t"
proof (induction rule: cache_step.induct)
  case (step_open env key s c' r)
  then have inv: "fcache_inv (length (filter fill_open (sys_fills s))) (count_list (sys_hits s)) (sys_cache s)"
    and ok: "list_all (fill_ok (fc_object_limit (sys_cache s))) (sys_fills s)" by (simp_all add: sys_inv_def)
  have hits: "count_list (k # sys_hits s) = (count_list (sys_hits s))(k := Suc (count_list (sys_hits s) k))" for k
    by (rule ext) auto
  have pos: "0 < fc_object_limit (sys_cache s)" using inv by (simp add: fcache_inv_def)
  from cache_open_inv [OF inv step_open.hyps] ok hits pos show ?case
    by (cases r) (auto simp: sys_inv_def fill_open_def fill_ok_def)
next
  case (step_read i s rend chunk env w f' c' out)
  from step_read have ok: "fill_ok (fc_object_limit (sys_cache s)) (sys_fills s ! i)"
    by (simp add: sys_inv_def list_all_length)
  note keep = fill_read_inv [OF _ ok step_read.hyps(3)]
  have inv0: "fcache_inv (length (filter fill_open (sys_fills s))) (count_list (sys_hits s)) (sys_cache s)"
    using step_read.prems by (simp add: sys_inv_def)
  obtain n where "length (filter fill_open (sys_fills s)) = (if fill_open (sys_fills s ! i) then Suc n else n)"
    using length_filter_nth [OF step_read.hyps(1), of fill_open] by (cases "fill_open (sys_fills s ! i)") auto
  with inv0 have "fcache_inv (if fill_open (sys_fills s ! i) then Suc n else n) (count_list (sys_hits s)) (sys_cache s)"
    by simp
  from keep [OF this] show ?case
    by (intro sys_inv_fill_update step_read.prems step_read.hyps(1)) (use keep in auto)
next
  case (step_close i s env f' c')
  from fill_close_frame [OF step_close.hyps(2)] fill_close_inv [OF _ step_close.hyps(2)] show ?case
    by (intro sys_inv_fill_update step_close.prems step_close.hyps(1)) auto
next
  case (step_hit_close key s)
  then have "0 < count_list (sys_hits s) key" by (simp add: count_list_0_iff neq0_conv [symmetric])
  with step_hit_close hit_close_inv [of _ "count_list (sys_hits s)" "sys_cache s" key] show ?case
    by (auto simp: sys_inv_def count_remove1 hit_close_def split: option.splits)
qed

lemma reachable_inv: "cache_reachable src limit s \<Longrightarrow> sys_inv s"
proof (induction rule: cache_reachable.induct)
  case (reach_start ok listing rm c d)
  then show ?case
    by (auto simp: new_file_cache_def sys_inv_def fcache_inv_def max_cached_object_def max_cache_writers_def
        max_cache_entries_def split: if_splits option.splits)
qed (rule cache_step_inv)

text \<open>The limit never changes, and the stored bytes of a key are what a source delivered to its end.\<close>

definition blobs_from :: "(string \<Rightarrow> bytes \<Rightarrow> bool) \<Rightarrow> file_cache \<Rightarrow> bool" where
  "blobs_from src c \<longleftrightarrow> (\<forall>k b. map_of (fc_blobs c) k = Some b \<longrightarrow> src k b)"

lemma blobs_from_remove: "blobs_from src c \<Longrightarrow> blobs_from src (fst (cache_remove ok k c))"
  by (auto simp: blobs_from_def cache_remove_def gomap_simps)

lemma make_room_keeps:
  "make_room rm c = (c', ok) \<Longrightarrow> fc_limit c' = fc_limit c \<and> (blobs_from src c \<longrightarrow> blobs_from src c')"
proof (induction rm c rule: make_room.induct)
  case (1 rm c)
  obtain c1 b where ev: "file_evict rm c = (c1, b)" by fastforce
  have step: "fc_limit c1 = fc_limit c \<and> (blobs_from src c \<longrightarrow> blobs_from src c1)"
  proof (cases b)
    case True
    with ev file_evict_True [of rm c c1] show ?thesis
      by (auto simp: blobs_from_remove) (simp add: cache_remove_def)
  next
    case False
    with ev have "c1 = c" unfolding file_evict_def by (simp add: evict_scan_False)
    then show ?thesis by simp
  qed
  show ?case
  proof (cases "(fc_bytes c + (fc_active c + 1) * fc_object_limit c > fc_limit c
         \<or> int (length (fc_lru c)) + fc_active c \<ge> max_cache_entries) \<and> b")
    case True
    with "1.prems" ev have "make_room rm c1 = (c', ok)" by (subst (asm) make_room.simps) auto
    with "1.IH" [OF _ ev [symmetric]] True step show ?thesis by auto
  next
    case False
    with "1.prems" ev have "c' = c \<or> c' = c1" by (subst (asm) make_room.simps) (auto split: if_splits)
    with step show ?thesis by auto
  qed
qed

lemma open_miss_keeps:
  assumes "open_miss env key c = (c', r)"
  shows "fc_limit c' = fc_limit c \<and> (blobs_from src c \<longrightarrow> blobs_from src c')"
proof -
  obtain c1 ok where mr: "make_room (oe_rm env) c = (c1, ok)" by fastforce
  with assms have "c' = c \<or> c' = c1 \<or> c' = c1\<lparr>fc_active := fc_active c1 + 1\<rparr>"
    by (auto simp: open_miss_def split: if_splits bool.splits)
  with make_room_keeps [OF mr, of src] show ?thesis by (auto simp: blobs_from_def)
qed

lemma cache_open_cases:
  "cache_open env key c = (c', r) \<Longrightarrow>
    c' = c \<or> (\<exists>e. c' = cache_hit key e c) \<or> open_miss env key c = (c', r) \<or>
    open_miss env key (fst (cache_remove (oe_rm env key) key c)) = (c', r)"
  by (auto simp: cache_open_def split: if_splits option.splits)

lemma cache_open_keeps:
  assumes "cache_open env key c = (c', r)"
  shows "fc_limit c' = fc_limit c \<and> (blobs_from src c \<longrightarrow> blobs_from src c')"
  using cache_open_cases [OF assms]
proof (elim disjE exE)
  fix e assume "c' = cache_hit key e c"
  then show ?thesis by (simp add: cache_hit_def blobs_from_def)
next
  assume "open_miss env key c = (c', r)"
  then show ?thesis by (rule open_miss_keeps)
next
  assume "open_miss env key (fst (cache_remove (oe_rm env key) key c)) = (c', r)"
  from open_miss_keeps [OF this, of src] blobs_from_remove [of src c "oe_rm env key" key] show ?thesis
    by (auto simp: cache_remove_def)
qed simp

lemma fill_finish_keeps:
  "fill_finish env commit (f, c) = (f', c') \<Longrightarrow>
    (\<And>b. commit \<Longrightarrow> fl_file f = Some b \<Longrightarrow> src (fl_key f) b) \<Longrightarrow>
    fc_limit c' = fc_limit c \<and> (blobs_from src c \<longrightarrow> blobs_from src c')"
  by (auto simp: fill_finish_def Let_def blobs_from_def gomap_simps split: option.splits if_splits)

lemma fill_read_keeps:
  assumes rd: "fill_read env w chunk rend (f, c) = ((f', c'), out)"
    and src: "\<And>b. rend = Eof \<Longrightarrow> fl_file f = Some b \<Longrightarrow> src (fl_key f) (b @ chunk)"
  shows "fc_limit c' = fc_limit c \<and> (blobs_from src c \<longrightarrow> blobs_from src c')"
proof (cases "fl_file f")
  case None
  with rd show ?thesis by (simp add: fill_read_def)
next
  case (Some b)
  define f1 where "f1 = f\<lparr>fl_size := fl_size f + int (length chunk)\<rparr>"
  define fc2 where "fc2 = (if fl_size f1 > fc_object_limit c then fill_finish env False (f1, c)
      else if chunk \<noteq> [] then
        (if w then (f1\<lparr>fl_file := map_option (\<lambda>b. b @ chunk) (fl_file f1)\<rparr>, c)
         else fill_finish env False (f1, c))
      else (f1, c))"
  obtain f2 c2 where fc2': "fc2 = (f2, c2)" by fastforce
  have res: "(f', c') = (if rend \<noteq> More then fill_finish env (rend = Eof) fc2 else fc2)"
    using rd Some unfolding fill_read_def f1_def fc2_def Let_def by simp
  have drop: "fill_finish env False (f1, c) = (g, d) \<Longrightarrow> \<not> fill_open g \<and> fc_limit d = fc_limit c \<and>
      (blobs_from src c \<longrightarrow> blobs_from src d)" for g d
    using fill_finish_keeps [of env False f1 c g d src] fill_finish_frame [of env False f1 c g d] by simp
  have mid: "fc_limit c2 = fc_limit c \<and> (blobs_from src c \<longrightarrow> blobs_from src c2) \<and>
      (\<forall>b2. fl_file f2 = Some b2 \<longrightarrow> b2 = b @ chunk \<and> fl_key f2 = fl_key f)"
  proof (cases "fl_size f1 > fc_object_limit c \<or> (chunk \<noteq> [] \<and> \<not> w)")
    case True
    then have "fill_finish env False (f1, c) = (f2, c2)" using fc2' by (auto simp: fc2_def split: if_splits)
    from drop [OF this] show ?thesis by (simp add: fill_open_def)
  next
    case False
    with Some fc2' show ?thesis by (auto simp: fc2_def f1_def split: if_splits)
  qed
  show ?thesis
  proof (cases "rend = More")
    case True
    with res fc2' mid show ?thesis by auto
  next
    case False
    with res fc2' have ff: "fill_finish env (rend = Eof) (f2, c2) = (f', c')" by simp
    have fill: "src (fl_key f2) b2" if "rend = Eof" "fl_file f2 = Some b2" for b2
      using mid that src [OF _ Some] by auto
    have "fc_limit c' = fc_limit c2 \<and> (blobs_from src c2 \<longrightarrow> blobs_from src c')"
      by (rule fill_finish_keeps [OF ff]) (auto intro: fill)
    with mid show ?thesis by auto
  qed
qed

lemma cache_step_keeps:
  "cache_step src s t \<Longrightarrow> fc_limit (sys_cache t) = fc_limit (sys_cache s) \<and>
    (blobs_from src (sys_cache s) \<longrightarrow> blobs_from src (sys_cache t))"
proof (induction rule: cache_step.induct)
  case (step_open env key s c' r)
  from cache_open_keeps [OF this, of src] show ?case by simp
next
  case (step_read i s rend chunk env w f' c' out)
  from fill_read_keeps [OF step_read(3), of src] step_read(2) show ?case by simp
next
  case (step_close i s env f' c')
  then have "fill_finish env False (sys_fills s ! i, sys_cache s) = (f', c')" by (simp add: fill_close_def)
  from fill_finish_keeps [OF this, of src] show ?case by simp
next
  case (step_hit_close key s)
  show ?case by (auto simp: hit_close_def blobs_from_def split: option.splits)
qed

lemma reachable_keeps:
  "cache_reachable src limit s \<Longrightarrow> fc_limit (sys_cache s) = limit \<and> blobs_from src (sys_cache s)"
proof (induction rule: cache_reachable.induct)
  case (reach_start ok listing rm c d)
  then show ?case by (auto simp: new_file_cache_def blobs_from_def split: if_splits option.splits)
next
  case (reach_step s t)
  with cache_step_keeps show ?case by blast
qed

section \<open>Properties\<close>


definition example_cache :: file_cache where
  "example_cache = \<lparr>fc_limit = 10, fc_object_limit = 10, fc_bytes = 0, fc_active = 0, fc_entries = [],
     fc_lru = [], fc_blobs = []\<rparr>"

lemma example_cache_start: "cache_reachable src 10 \<lparr>sys_cache = example_cache, sys_fills = [], sys_hits = []\<rparr>"
  by (rule reach_start [where ok = True and listing = "Some []" and rm = "\<lambda>_. True" and d = "Some []"])
    (simp add: new_file_cache_def example_cache_def max_cached_object_def)


text \<open>
  C20: a hit always delivers a complete file: if \<open>src key b\<close> holds of everything a source of \<open>key\<close>
  delivers when it reports its end, then it holds of what a hit on \<open>key\<close> delivers, in every
  reachable state. A read that fails, stops early, is too large or cannot be written is never served
  from the cache.
\<close>

theorem file_cache_hits_complete:
  assumes "cache_reachable src limit s" and "cache_open env key (sys_cache s) = (c', Hit k b)"
  shows "k = key \<and> src key b"
proof -
  from assms(2) have "k = key \<and> map_of (fc_blobs (sys_cache s)) key = Some b"
    by (auto simp: cache_open_def open_miss_def split: if_splits option.splits prod.splits bool.splits)
  with reachable_keeps [OF assms(1)] show ?thesis by (auto simp: blobs_from_def)
qed

definition example_env :: open_env where
  "example_env = \<lparr>oe_ctx_err = False, oe_open_ok = True, oe_rm = (\<lambda>_. True), oe_fetch_ok = True, oe_create_ok = True\<rparr>"

definition example_filled :: cache_sys where
  "example_filled = \<lparr>sys_cache = example_cache\<lparr>fc_bytes := 2, fc_entries := [(''k'', \<lparr>fe_size = 2, fe_readers = 0\<rparr>)],
     fc_lru := [''k''], fc_blobs := [(''k'', [1, 2])]\<rparr>,
     sys_fills = [\<lparr>fl_key = ''k'', fl_size = 2, fl_file = None\<rparr>], sys_hits = []\<rparr>"

lemma example_filled_reachable: "cache_reachable (\<lambda>k b. b = [1, 2]) 10 example_filled"
proof -
  let ?src = "\<lambda>(k :: string) (b :: bytes). b = [1, 2]"
  let ?s0 = "\<lparr>sys_cache = example_cache, sys_fills = [], sys_hits = []\<rparr>"
  let ?f = "\<lparr>fl_key = ''k'', fl_size = 0, fl_file = Some []\<rparr>"
  let ?s1 = "?s0\<lparr>sys_cache := example_cache\<lparr>fc_active := 1\<rparr>, sys_fills := [?f]\<rparr>"
  let ?env = "\<lparr>fi_close_ok = True, fi_ctx_ok = True, fi_rename_ok = True\<rparr>"
  have "cache_open example_env ''k'' example_cache = (example_cache\<lparr>fc_active := 1\<rparr>, Filling ?f)"
    by (simp add: cache_open_def open_miss_def example_cache_def example_env_def max_cache_writers_def
        make_room.simps max_cache_entries_def)
  then have "cache_step ?src ?s0 ?s1"
    using cache_step.step_open [of example_env "''k''" ?s0 "example_cache\<lparr>fc_active := 1\<rparr>" "Filling ?f" ?src] by simp
  then have r1: "cache_reachable ?src 10 ?s1" by (rule reach_step [OF example_cache_start])
  have "fill_read ?env True [1, 2] Eof (?f, example_cache\<lparr>fc_active := 1\<rparr>) =
      ((\<lparr>fl_key = ''k'', fl_size = 2, fl_file = None\<rparr>, sys_cache example_filled), ([1, 2], Eof))"
    by (simp add: fill_read_def fill_finish_def example_cache_def example_filled_def)
  then have "cache_step ?src ?s1 example_filled"
    using cache_step.step_read [of 0 ?s1 Eof ?src "[1, 2]" ?env True] by (simp add: example_filled_def)
  with r1 show ?thesis by (rule reach_step)
qed

theorem file_cache_hits_complete_witness:
  "snd (cache_open example_env ''k'' (sys_cache example_filled)) = Hit ''k'' [1, 2]"
proof -
  obtain c' b where hit: "cache_open example_env ''k'' (sys_cache example_filled) = (c', Hit ''k'' b)"
    by (simp add: cache_open_def example_env_def example_filled_def)
  from file_cache_hits_complete [OF example_filled_reachable hit] hit show ?thesis by simp
qed

end
