(* ===== verification/Go_Url.thy ===== *)
theory Go_Url
  imports Go_Strings
begin

text \<open>
  The part of Go's \<open>net/url\<close> the handlers use: the path of \<open>url.Parse\<close> (with every reason it fails),
  \<open>url.QueryEscape\<close>, \<open>Values.Encode\<close> and \<open>url.ParseQuery\<close>. Strings are byte sequences.
\<close>

section \<open>Escapes\<close>

definition code :: "char \<Rightarrow> nat" where "code c = of_char c"

definition is_alpha :: "char \<Rightarrow> bool" where
  "is_alpha c \<longleftrightarrow> 65 \<le> code c \<and> code c \<le> 90 \<or> 97 \<le> code c \<and> code c \<le> 122"

definition is_alnum :: "char \<Rightarrow> bool" where
  "is_alnum c \<longleftrightarrow> is_alpha c \<or> is_digit c"

definition hex_value :: "char \<Rightarrow> nat option" where
  "hex_value c =
     (if is_digit c then Some (code c - 48)
      else if 97 \<le> code c \<and> code c \<le> 102 then Some (code c - 87)
      else if 65 \<le> code c \<and> code c \<le> 70 then Some (code c - 55)
      else None)"

datatype url_mode = Mode_path | Mode_userinfo | Mode_host | Mode_zone | Mode_query | Mode_fragment

text \<open>\<open>shouldEscape(c, encodeHost)\<close>: which ASCII bytes a host may not contain literally.\<close>

definition host_char :: "char \<Rightarrow> bool" where
  "host_char c \<longleftrightarrow> is_alnum c \<or> c \<in> set (''!$&()*+,;=:[]<>-_.~'' @ [CHR 0x27, CHR 0x22])"

fun unescape :: "url_mode \<Rightarrow> string \<Rightarrow> string option" where
  "unescape m [] = Some []"
| "unescape m (c # s) =
     (if c = CHR ''%'' then
        (case s of
           a # b # rest \<Rightarrow>
             (case (hex_value a, hex_value b) of
                (Some h, Some l) \<Rightarrow>
                  if (m = Mode_host \<and> h < 8 \<and> [c, a, b] \<noteq> ''%25'') \<or>
                     (m = Mode_zone \<and> [c, a, b] \<noteq> ''%25'' \<and> 16 * h + l \<noteq> 32 \<and> \<not> host_char (char_of (16 * h + l)))
                  then None
                  else map_option (Cons (char_of (16 * h + l))) (unescape m rest)
              | _ \<Rightarrow> None)
         | _ \<Rightarrow> None)
      else if (m = Mode_host \<or> m = Mode_zone) \<and> code c < 128 \<and> \<not> host_char c then None
      else map_option (Cons (if m = Mode_query \<and> c = CHR ''+'' then CHR '' '' else c)) (unescape m s))"

section \<open>Parsing\<close>

text \<open>\<open>getScheme\<close>: \<open>None\<close> for the error, else the scheme (empty for none) and the rest.\<close>

fun get_scheme :: "string \<Rightarrow> string \<Rightarrow> string \<Rightarrow> (string \<times> string) option" where
  "get_scheme raw seen [] = Some ([], raw)"
| "get_scheme raw seen (c # s) =
     (if is_alpha c then get_scheme raw (seen @ [c]) s
      else if is_digit c \<or> c \<in> set ''+-.'' then (if seen = [] then Some ([], raw) else get_scheme raw (seen @ [c]) s)
      else if c = CHR '':'' then (if seen = [] then None else Some (seen, s))
      else Some ([], raw))"

definition valid_optional_port :: "string \<Rightarrow> bool" where
  "valid_optional_port p \<longleftrightarrow> p = [] \<or> (hd p = CHR '':'' \<and> list_all is_digit (tl p))"

definition valid_userinfo :: "string \<Rightarrow> bool" where
  "valid_userinfo s \<longleftrightarrow> list_all (\<lambda>c. is_alnum c \<or> c \<in> set (''-._:~!$&()*+,;=%@'' @ [CHR 0x27])) s"

definition host_ok :: "string \<Rightarrow> bool" where
  "host_ok host =
     (if has_prefix host ''['' then
        (case last_index_char host CHR '']'' of
           None \<Rightarrow> False
         | Some i \<Rightarrow>
             valid_optional_port (drop (Suc i) host) \<and>
             (case str_index (take i host) ''%25'' of
                Some z \<Rightarrow> unescape Mode_host (take z host) \<noteq> None \<and> unescape Mode_zone (drop z (take i host)) \<noteq> None
                  \<and> unescape Mode_host (drop i host) \<noteq> None
              | None \<Rightarrow> unescape Mode_host host \<noteq> None))
      else
        (case last_index_char host CHR '':'' of
           None \<Rightarrow> True
         | Some i \<Rightarrow> valid_optional_port (drop i host)) \<and>
        unescape Mode_host host \<noteq> None)"

definition authority_ok :: "string \<Rightarrow> bool" where
  "authority_ok authority = (case last_index_char authority CHR ''@'' of
      None \<Rightarrow> host_ok authority
    | Some i \<Rightarrow>
        host_ok (drop (Suc i) authority) \<and> valid_userinfo (take i authority) \<and>
        (case cut_char (take i authority) CHR '':'' of
           None \<Rightarrow> unescape Mode_userinfo (take i authority) \<noteq> None
         | Some (user, pass) \<Rightarrow> unescape Mode_userinfo user \<noteq> None \<and> unescape Mode_userinfo pass \<noteq> None))"

definition control_char :: "char \<Rightarrow> bool" where
  "control_char c \<longleftrightarrow> code c < 32 \<or> code c = 127"

definition before_char :: "string \<Rightarrow> char \<Rightarrow> string" where
  "before_char s c = takeWhile (\<lambda>x. x \<noteq> c) s"

definition drop_query :: "string \<Rightarrow> string" where
  "drop_query rest =
     (if has_suffix rest ''?'' \<and> count_list rest CHR ''?'' = 1 then butlast rest else before_char rest CHR ''?'')"

text \<open>The field \<open>Path\<close> of \<open>url.Parse(raw)\<close>; \<open>None\<close> when \<open>Parse\<close> fails.\<close>

definition url_parse_path :: "string \<Rightarrow> string option" where
  "url_parse_path raw =
     (let u = before_char raw CHR ''#''; frag = drop (Suc (length u)) raw
      in if list_ex control_char u then None
         else
           (case
              (if u = ''*'' then Some ''*''
               else (case get_scheme u [] u of
                   None \<Rightarrow> None
                 | Some (scheme, rest0) \<Rightarrow>
                     (let rest = drop_query rest0
                      in if \<not> has_prefix rest ''/'' \<and> scheme \<noteq> [] then Some []
                         else if \<not> has_prefix rest ''/'' \<and> CHR '':'' \<in> set (before_char rest CHR ''/'') then None
                         else if (scheme \<noteq> [] \<or> \<not> has_prefix rest ''///'') \<and> has_prefix rest ''//'' then
                           (let authority = before_char (drop 2 rest) CHR ''/''
                            in if authority_ok authority
                               then unescape Mode_path (drop (length authority) (drop 2 rest)) else None)
                         else unescape Mode_path rest)))
            of None \<Rightarrow> None
             | Some p \<Rightarrow> if unescape Mode_fragment frag = None then None else Some p))"

section \<open>Queries\<close>

type_synonym query = "(string, string list) gomap"

definition query_get :: "query \<Rightarrow> string \<Rightarrow> string" where
  "query_get q k = (case map_of q k of Some (v # vs) \<Rightarrow> v | _ \<Rightarrow> [])"

definition query_set :: "query \<Rightarrow> string \<Rightarrow> string \<Rightarrow> query" where
  "query_set q k v = gm_put k [v] q"

definition query_has :: "query \<Rightarrow> string \<Rightarrow> bool" where
  "query_has q k \<longleftrightarrow> map_of q k \<noteq> None"

definition unreserved :: "char \<Rightarrow> bool" where
  "unreserved c \<longleftrightarrow> is_alnum c \<or> c \<in> set ''-_.~''"

definition hex_digit :: "nat \<Rightarrow> char" where
  "hex_digit n = (if n < 10 then char_of (48 + n) else char_of (55 + n))"

fun query_escape :: "string \<Rightarrow> string" where
  "query_escape [] = []"
| "query_escape (c # s) =
     (if unreserved c then [c]
      else if c = CHR '' '' then ''+''
      else [CHR ''%'', hex_digit (code c div 16), hex_digit (code c mod 16)]) @ query_escape s"

definition query_pairs :: "query \<Rightarrow> string list" where
  "query_pairs q = concat (map (\<lambda>k. map (\<lambda>v. query_escape k @ ''='' @ query_escape v) (the (map_of q k)))
     (sort (gm_keys q)))"

definition query_encode :: "query \<Rightarrow> string" where
  "query_encode q = str_join ''&'' (query_pairs q)"

text \<open>\<open>ParseQuery\<close>: a pair with a semicolon or a bad escape is dropped (\<open>URL.Query\<close> ignores the error).\<close>

definition parse_pair :: "string \<Rightarrow> query \<Rightarrow> query" where
  "parse_pair s q =
     (if CHR '';'' \<in> set s \<or> s = [] then q
      else
        (let (k, v) = (case cut_char s CHR ''='' of None \<Rightarrow> (s, []) | Some p \<Rightarrow> p)
         in case (unescape Mode_query k, unescape Mode_query v) of
              (Some k', Some v') \<Rightarrow> gm_put k' ((case map_of q k' of None \<Rightarrow> [] | Some vs \<Rightarrow> vs) @ [v']) q
            | _ \<Rightarrow> q))"

definition parse_query :: "string \<Rightarrow> query" where
  "parse_query s = foldl (\<lambda>q p. parse_pair p q) [] (split_char CHR ''&'' s)"

section \<open>Escaping round trip\<close>

lemma hex_digit_value: "n < 16 \<Longrightarrow> hex_value (hex_digit n) = Some n"
proof -
  assume "n < 16"
  then have "n \<in> set [0 ..< 16]" by simp
  moreover have "list_all (\<lambda>n. hex_value (hex_digit n) = Some n) [0 ..< 16]"
    by (simp add: upt_rec hex_value_def hex_digit_def is_digit_def code_def)
  ultimately show ?thesis by (simp only: list_all_iff)
qed

lemma code_bound: "code c < 256"
  by (simp add: code_def)

lemma unescape_escape: "unescape Mode_query (query_escape s) = Some s"
proof (induction s)
  case (Cons c s)
  have c: "char_of (16 * (code c div 16) + code c mod 16) = c" by (simp add: code_def)
  have "unreserved CHR ''%'' = False" "unreserved CHR ''+'' = False"
    by (simp_all add: unreserved_def is_alnum_def is_alpha_def is_digit_def code_def)
  then have "unreserved c \<Longrightarrow> c \<noteq> CHR ''%'' \<and> c \<noteq> CHR ''+''" by auto
  moreover have "code c div 16 < 16" using code_bound [of c] by simp
  ultimately show ?case using Cons c by (auto simp: hex_digit_value)
qed simp

lemma query_escape_chars: "d \<in> set (query_escape s) \<Longrightarrow> unreserved d \<or> d = CHR ''+'' \<or> d = CHR ''%''"
proof (induction s)
  case (Cons c s)
  have "unreserved (hex_digit n)" if "n < 16" for n
  proof -
    from that have "n \<in> set [0 ..< 16]" by simp
    moreover have "list_all (\<lambda>n. unreserved (hex_digit n)) [0 ..< 16]"
      by (simp add: upt_rec unreserved_def is_alnum_def is_alpha_def is_digit_def code_def hex_digit_def)
    ultimately show ?thesis by (simp only: list_all_iff)
  qed
  moreover have "code c div 16 < 16" using code_bound [of c] by simp
  ultimately show ?case using Cons by (auto split: if_splits)
qed simp

section \<open>Plain names\<close>

text \<open>A name of letters, digits and dots is its own path.\<close>

definition name_char :: "char \<Rightarrow> bool" where
  "name_char c \<longleftrightarrow> is_alnum c \<or> c = CHR ''.''"

lemma name_char_codes: "name_char c \<Longrightarrow> code c \<in> {46} \<union> {48..57} \<union> {65..90} \<union> {97..122}"
  by (auto simp: name_char_def is_alnum_def is_alpha_def is_digit_def code_def)

lemma name_char_not:
  "name_char c \<Longrightarrow> c \<notin> set (''#*?/:%+'' @ [CHR 0x22, CHR 0x0A, CHR '' '', CHR '','', CHR ''='']) \<and> \<not> control_char c"
  using name_char_codes [of c] by (auto simp: code_def control_char_def)

lemma name_char_plain: "name_char c \<Longrightarrow> plain_char c"
  using name_char_codes [of c] by (auto simp: plain_char_def ascii_space_def code_def)

lemma before_char_free: "c \<notin> set s \<Longrightarrow> before_char s c = s"
  by (simp add: before_char_def takeWhile_neq_all)

lemma get_scheme_name:
  "list_all name_char s \<Longrightarrow> get_scheme raw seen s = Some ([], raw)"
proof (induction s arbitrary: seen)
  case (Cons c s)
  then have "is_alpha c \<or> is_digit c \<or> c = CHR ''.''" by (auto simp: name_char_def is_alnum_def)
  with Cons show ?case by auto
qed simp

lemma unescape_name: "list_all name_char s \<Longrightarrow> unescape Mode_path s = Some s"
  using name_char_not by (induction s) auto

lemma url_path_name:
  assumes "list_all name_char s"
  shows "url_parse_path s = Some s"
proof -
  have free: "c \<notin> set s" if "\<not> name_char c" for c using assms that by (auto simp: list_all_iff)
  have not: "\<not> name_char CHR ''#''" "\<not> name_char CHR ''?''" "\<not> name_char CHR ''/''" "\<not> name_char CHR '':''" "\<not> name_char CHR ''*''"
    using name_char_not by fastforce+
  have "\<not> list_ex control_char s" using assms name_char_not by (auto simp: list_all_iff list_ex_iff)
  moreover have "before_char s CHR ''#'' = s" "before_char s CHR ''/'' = s" by (simp_all add: before_char_free free not)
  moreover have "drop_query s = s"
    using free [OF not(2)] by (simp add: drop_query_def before_char_free count_list_0_iff)
  moreover have "\<not> has_prefix s ''/''" "s \<noteq> ''*''" using free [OF not(3)] free [OF not(5)] by (cases s; auto)+
  moreover have "\<not> has_prefix s ''//''" using free [OF not(3)] by (cases s) auto
  ultimately show ?thesis
    using free [OF not(4)] get_scheme_name [OF assms, of s "[]"] unescape_name [OF assms]
    by (simp add: url_parse_path_def Let_def)
qed

end
