(* ===== verification/Playlists.thy ===== *)
theory Playlists
  imports Go_Url
begin

text \<open>
  The HLS playlist code of \<open>internal/handler\<close>: \<open>validateCID\<close> (\<open>handler.go\<close>) and the playlist functions
  of \<open>video_handler.go\<close>, which turn a master or variant playlist that names IPFS files into one that
  names only positions, and resolve such a position back to the file.
\<close>

section \<open>CIDs\<close>

datatype cid_error = Cid_required | Invalid_cid_format

definition cid_v0 :: "string \<Rightarrow> bool" where
  "cid_v0 s \<longleftrightarrow> has_prefix s ''Qm'' \<and> length s = 46 \<and> list_all is_alnum (drop 2 s)"

definition lower_alnum :: "char \<Rightarrow> bool" where
  "lower_alnum c \<longleftrightarrow> 97 \<le> code c \<and> code c \<le> 122 \<or> is_digit c"

definition cid_v1 :: "string \<Rightarrow> bool" where
  "cid_v1 s \<longleftrightarrow> has_prefix s ''baf'' \<and> 53 \<le> length s \<and> list_all lower_alnum (drop 3 s)"

definition validate_cid :: "string \<Rightarrow> cid_error option" where
  "validate_cid cid =
     (if cid = [] then Some Cid_required
      else if cid_v0 cid \<or> cid_v1 cid then None
      else Some Invalid_cid_format)"

section \<open>References\<close>

text \<open>\<open>playlistReferenceCID\<close>: the CID and the extension a playlist line names.\<close>

definition playlist_reference_cid :: "string \<Rightarrow> (string \<times> string) option" where
  "playlist_reference_cid value = (case url_parse_path (trim_space value) of
      None \<Rightarrow> None
    | Some path \<Rightarrow>
        (let filename = file_base path; extension = file_ext filename; cid = trim_suffix filename extension
         in if validate_cid cid = None then Some (cid, extension) else None))"

definition uri_marker :: string where
  "uri_marker = ''URI='' @ [CHR 0x22]"

text \<open>The first \<open>URI="..."\<close> of a line: what stands before, inside and from the closing quote.\<close>

definition split_uri :: "string \<Rightarrow> (string \<times> string \<times> string) option" where
  "split_uri line = (case str_index line uri_marker of
      None \<Rightarrow> None
    | Some i \<Rightarrow>
        (let start = i + length uri_marker
         in case str_index (drop start line) [CHR 0x22] of
              None \<Rightarrow> None
            | Some e \<Rightarrow> Some (take start line, take e (drop start line), drop (start + e) line)))"

definition playlist_uri :: "string \<Rightarrow> string option" where
  "playlist_uri line = map_option (\<lambda>(before, uri, rest). uri) (split_uri line)"

definition replace_playlist_uri :: "string \<Rightarrow> string \<Rightarrow> string option" where
  "replace_playlist_uri line replacement =
     map_option (\<lambda>(before, uri, rest). before @ replacement @ rest) (split_uri line)"

definition append_uri_auth :: "string \<Rightarrow> string \<Rightarrow> string" where
  "append_uri_auth line auth = (case split_uri line of
      None \<Rightarrow> line
    | Some (before, uri, rest) \<Rightarrow> if str_contains uri ''?'' then line else before @ uri @ auth @ rest)"

section \<open>Rewriting\<close>

datatype playlist_error = Invalid_playlist_uri | Invalid_reference | Index_unavailable

definition newline :: char where "newline = CHR 0x0A"

definition lines_of :: "string \<Rightarrow> string list" where "lines_of content = split_char newline content"

definition linked_playlist_name :: "nat \<Rightarrow> string \<Rightarrow> string" where
  "linked_playlist_name k auth = ''playlist/'' @ itoa (int k) @ ''.m3u8'' @ auth"

definition linked_segment_name :: "int \<Rightarrow> nat \<Rightarrow> string \<Rightarrow> string \<Rightarrow> string" where
  "linked_segment_name p k extension auth =
     ''../segment/'' @ itoa p @ ''/'' @ itoa (int k) @ extension @ auth"

fun rewrite_master_lines :: "string \<Rightarrow> nat \<Rightarrow> string list \<Rightarrow> playlist_error + string list" where
  "rewrite_master_lines auth k [] = Inr []"
| "rewrite_master_lines auth k (line # ls) =
     (let trimmed = trim_space line
      in if trimmed = [] then res_bind (rewrite_master_lines auth k ls) (\<lambda>r. Inr (line # r))
         else if has_prefix trimmed ''#'' then
           (if str_contains trimmed uri_marker then
              (case replace_playlist_uri line (''poster.jpg'' @ auth) of
                 None \<Rightarrow> Inl Invalid_playlist_uri
               | Some l \<Rightarrow> res_bind (rewrite_master_lines auth k ls) (\<lambda>r. Inr (l # r)))
            else res_bind (rewrite_master_lines auth k ls) (\<lambda>r. Inr (line # r)))
         else (case playlist_reference_cid trimmed of
             None \<Rightarrow> Inl Invalid_reference
           | Some (cid, extension) \<Rightarrow>
               if extension \<noteq> ''.m3u8'' then Inl Invalid_reference
               else res_bind (rewrite_master_lines auth (Suc k) ls) (\<lambda>r. Inr (linked_playlist_name k auth # r))))"

definition rewrite_linked_master :: "string \<Rightarrow> string \<Rightarrow> playlist_error + string" where
  "rewrite_linked_master content auth =
     res_bind (rewrite_master_lines auth 0 (lines_of content)) (\<lambda>ls. Inr (str_join [newline] ls))"

fun rewrite_variant_lines :: "int \<Rightarrow> string \<Rightarrow> nat \<Rightarrow> string list \<Rightarrow> playlist_error + string list" where
  "rewrite_variant_lines p auth k [] = Inr []"
| "rewrite_variant_lines p auth k (line # ls) =
     (let trimmed = trim_space line
      in if trimmed = [] then res_bind (rewrite_variant_lines p auth k ls) (\<lambda>r. Inr (line # r))
         else if has_prefix trimmed ''#'' then
           (if str_contains trimmed uri_marker then
              (case playlist_uri line of
                 None \<Rightarrow> Inl Invalid_playlist_uri
               | Some uri \<Rightarrow> (case playlist_reference_cid uri of
                     None \<Rightarrow> Inl Invalid_reference
                   | Some (cid, extension) \<Rightarrow>
                       (case replace_playlist_uri line (linked_segment_name p k extension auth) of
                          None \<Rightarrow> Inl Invalid_playlist_uri
                        | Some l \<Rightarrow> res_bind (rewrite_variant_lines p auth (Suc k) ls) (\<lambda>r. Inr (l # r)))))
            else res_bind (rewrite_variant_lines p auth k ls) (\<lambda>r. Inr (line # r)))
         else (case playlist_reference_cid trimmed of
             None \<Rightarrow> Inl Invalid_reference
           | Some (cid, extension) \<Rightarrow>
               res_bind (rewrite_variant_lines p auth (Suc k) ls) (\<lambda>r. Inr (linked_segment_name p k extension auth # r))))"

definition rewrite_linked_variant :: "string \<Rightarrow> int \<Rightarrow> string \<Rightarrow> playlist_error + string" where
  "rewrite_linked_variant content p auth =
     res_bind (rewrite_variant_lines p auth 0 (lines_of content)) (\<lambda>ls. Inr (str_join [newline] ls))"

section \<open>Resolving\<close>

fun master_playlist_lines :: "nat \<Rightarrow> int \<Rightarrow> string list \<Rightarrow> playlist_error + string" where
  "master_playlist_lines index wanted [] = Inl Index_unavailable"
| "master_playlist_lines index wanted (line # ls) =
     (let trimmed = trim_space line
      in if trimmed = [] \<or> has_prefix trimmed ''#'' then master_playlist_lines index wanted ls
         else (case playlist_reference_cid trimmed of
             None \<Rightarrow> Inl Invalid_reference
           | Some (cid, extension) \<Rightarrow>
               if extension \<noteq> ''.m3u8'' then Inl Invalid_reference
               else if int index = wanted then Inr cid
               else master_playlist_lines (Suc index) wanted ls))"

definition linked_master_playlist_cid :: "string \<Rightarrow> int \<Rightarrow> playlist_error + string" where
  "linked_master_playlist_cid content wanted = master_playlist_lines 0 wanted (lines_of content)"

fun variant_asset_lines :: "nat \<Rightarrow> int \<Rightarrow> string list \<Rightarrow> playlist_error + string \<times> string" where
  "variant_asset_lines index wanted [] = Inl Index_unavailable"
| "variant_asset_lines index wanted (line # ls) =
     (let trimmed = trim_space line;
          value = (if has_prefix trimmed ''#'' then playlist_uri line else Some trimmed)
      in if trimmed = [] then variant_asset_lines index wanted ls
         else (case value of
             None \<Rightarrow> variant_asset_lines index wanted ls
           | Some v \<Rightarrow> (case playlist_reference_cid v of
                 None \<Rightarrow> Inl Invalid_reference
               | Some (cid, extension) \<Rightarrow>
                   if int index = wanted then Inr (cid, extension)
                   else variant_asset_lines (Suc index) wanted ls)))"

definition linked_variant_asset_cid :: "string \<Rightarrow> int \<Rightarrow> playlist_error + string \<times> string" where
  "linked_variant_asset_cid content wanted = variant_asset_lines 0 wanted (lines_of content)"

text \<open>\<open>linkedStreamIndex\<close>.\<close>

definition linked_stream_index :: "string \<Rightarrow> string \<Rightarrow> int option" where
  "linked_stream_index value extension =
     (if extension \<noteq> [] \<and> \<not> has_suffix value extension then None
      else (case parse_int (if extension \<noteq> [] then trim_suffix value extension else value) of
          None \<Rightarrow> None
        | Some i \<Rightarrow> if i < 0 then None else Some i))"

section \<open>Authorisation of playlist entries\<close>

definition playlist_auth_suffix :: "query \<Rightarrow> string" where
  "playlist_auth_suffix q =
     (let grant = query_get q ''grant''; root = query_get q ''media_root'';
          token = query_get q ''token'';
          key = (if token = [] then ''access_token'' else ''token'');
          tok = (if token = [] then query_get q ''access_token'' else token);
          link = query_get q ''media_link'';
          v1 = (if grant \<noteq> [] then query_set [] ''grant'' grant else []);
          v2 = (if root \<noteq> [] then query_set v1 ''media_root'' root else v1);
          v3 = (if tok \<noteq> [] then query_set v2 key tok else v2);
          v4 = (if link \<noteq> [] then query_set v3 ''media_link'' link else v3)
      in if v4 = [] then [] else ''?'' @ query_encode v4)"

definition append_auth_line :: "string \<Rightarrow> string \<Rightarrow> string" where
  "append_auth_line auth line =
     (let trimmed = trim_space line
      in if trimmed = [] then line
         else if has_prefix trimmed ''#'' \<and> str_contains trimmed uri_marker then append_uri_auth line auth
         else if has_prefix trimmed ''#'' \<or> str_contains trimmed ''?'' then line
         else line @ auth)"

definition append_playlist_auth :: "string \<Rightarrow> string \<Rightarrow> string" where
  "append_playlist_auth content auth = str_join [newline] (map (append_auth_line auth) (lines_of content))"

text \<open>\<open>writePlaylist\<close>: nothing is written when the file cannot be read to its end.\<close>

definition write_playlist :: "string option \<Rightarrow> string \<Rightarrow> string" where
  "write_playlist data auth = (case data of
      None \<Rightarrow> []
    | Some content \<Rightarrow> if auth = [] then content else append_playlist_auth content auth)"

section \<open>What the rewriting keeps\<close>

text \<open>
  \<open>ref_of_line\<close> is the file a line of a variant playlist refers to, \<open>with_ref\<close> puts another one in its
  place. A blank line and a comment without \<open>URI="..."\<close> refer to nothing.
\<close>

definition ref_of_line :: "string \<Rightarrow> string option" where
  "ref_of_line line =
     (let trimmed = trim_space line
      in if trimmed = [] then None
         else if has_prefix trimmed ''#'' then playlist_uri line else Some trimmed)"

definition with_ref :: "string \<Rightarrow> string \<Rightarrow> string" where
  "with_ref line name =
     (if has_prefix (trim_space line) ''#'' then the (replace_playlist_uri line name) else name)"

fun references :: "string list \<Rightarrow> string list" where
  "references [] = []"
| "references (l # ls) = (case ref_of_line l of None \<Rightarrow> references ls | Some r \<Rightarrow> r # references ls)"

fun with_refs :: "string list \<Rightarrow> string list \<Rightarrow> string list" where
  "with_refs [] names = []"
| "with_refs (l # ls) names =
     (case ref_of_line l of
        None \<Rightarrow> l # with_refs ls names
      | Some r \<Rightarrow> with_ref l (hd names) # with_refs ls (tl names))"

lemma uri_marker_plain: "uri_marker \<noteq> []" "list_all plain_char uri_marker"
  by (simp_all add: uri_marker_def plain_char_def ascii_space_def)

lemma playlist_uri_contains: "playlist_uri line = Some u \<Longrightarrow> str_contains (trim_space line) uri_marker"
proof -
  assume "playlist_uri line = Some u"
  then have "str_contains line uri_marker"
    by (auto simp: playlist_uri_def split_uri_def str_contains_def split: option.splits)
  then show ?thesis by (simp add: contains_trim [OF uri_marker_plain])
qed

lemma replace_playlist_uri_ok: "playlist_uri line = Some u \<Longrightarrow> \<exists>l. replace_playlist_uri line r = Some l"
  by (auto simp: playlist_uri_def replace_playlist_uri_def)

text \<open>One line of a variant playlist.\<close>

lemma rewrite_variant_line:
  "rewrite_variant_lines p auth k (line # ls) =
    (case ref_of_line line of
       None \<Rightarrow> if trim_space line \<noteq> [] \<and> has_prefix (trim_space line) ''#'' \<and> str_contains (trim_space line) uri_marker
                then Inl Invalid_playlist_uri
                else res_bind (rewrite_variant_lines p auth k ls) (\<lambda>r. Inr (line # r))
     | Some v \<Rightarrow> (case playlist_reference_cid v of
           None \<Rightarrow> Inl Invalid_reference
         | Some (cid, extension) \<Rightarrow> res_bind (rewrite_variant_lines p auth (Suc k) ls)
             (\<lambda>r. Inr (with_ref line (linked_segment_name p k extension auth) # r))))"
proof (cases "trim_space line \<noteq> [] \<and> has_prefix (trim_space line) ''#''")
  case False
  then show ?thesis
    by (auto simp: ref_of_line_def with_ref_def Let_def split: option.splits prod.splits)
next
  case True
  show ?thesis
  proof (cases "playlist_uri line")
    case None
    with True show ?thesis by (auto simp: ref_of_line_def Let_def)
  next
    case (Some u)
    from playlist_uri_contains [OF Some] have "str_contains (trim_space line) uri_marker" .
    moreover obtain f where f: "\<And>r. replace_playlist_uri line r = Some (f r)"
      using replace_playlist_uri_ok [OF Some] by metis
    ultimately show ?thesis using True Some
      by (cases "playlist_reference_cid u") (auto simp: ref_of_line_def with_ref_def Let_def split: prod.splits)
  qed
qed

lemma variant_asset_line:
  "variant_asset_lines k wanted (line # ls) =
    (case ref_of_line line of
       None \<Rightarrow> variant_asset_lines k wanted ls
     | Some v \<Rightarrow> (case playlist_reference_cid v of
           None \<Rightarrow> Inl Invalid_reference
         | Some (cid, extension) \<Rightarrow>
             if int k = wanted then Inr (cid, extension) else variant_asset_lines (Suc k) wanted ls))"
  by (auto simp: ref_of_line_def Let_def split: option.splits)

lemma rewrite_variant_lines_spec:
  "rewrite_variant_lines p auth k ls = Inr out \<Longrightarrow>
    \<exists>refs. map playlist_reference_cid (references ls) = map Some refs \<and>
      out = with_refs ls (map (\<lambda>i. linked_segment_name p (k + i) (snd (refs ! i)) auth) [0..<length refs]) \<and>
      (\<forall>i. variant_asset_lines k (int (k + i)) ls = (if i < length refs then Inr (refs ! i) else Inl Index_unavailable))"
proof (induction ls arbitrary: k out)
  case Nil
  then show ?case by auto
next
  case (Cons line ls)
  show ?case
  proof (cases "ref_of_line line")
    case None
    with Cons.prems obtain r where r: "rewrite_variant_lines p auth k ls = Inr r" "out = line # r"
      by (auto simp: rewrite_variant_line res_bind_Inr_iff simp del: rewrite_variant_lines.simps split: if_splits)
    from Cons.IH [OF r(1)] None r(2) show ?thesis
      by (auto simp: variant_asset_line simp del: variant_asset_lines.simps)
  next
    case (Some v)
    with Cons.prems obtain cid ext r where c: "playlist_reference_cid v = Some (cid, ext)"
      "rewrite_variant_lines p auth (Suc k) ls = Inr r" "out = with_ref line (linked_segment_name p k ext auth) # r"
      by (auto simp: rewrite_variant_line res_bind_Inr_iff simp del: rewrite_variant_lines.simps
          split: option.splits)
    from Cons.IH [OF c(2)] obtain refs where refs: "map playlist_reference_cid (references ls) = map Some refs"
      "r = with_refs ls (map (\<lambda>i. linked_segment_name p (Suc k + i) (snd (refs ! i)) auth) [0..<length refs])"
      "\<And>i. variant_asset_lines (Suc k) (int (Suc k + i)) ls = (if i < length refs then Inr (refs ! i) else Inl Index_unavailable)"
      by blast
    let ?refs = "(cid, ext) # refs"
    have "map (\<lambda>i. linked_segment_name p (k + i) (snd (?refs ! i)) auth) [0..<length ?refs] =
        linked_segment_name p k ext auth # map (\<lambda>i. linked_segment_name p (Suc k + i) (snd (refs ! i)) auth) [0..<length refs]"
      by (simp add: upt_conv_Cons map_Suc_upt [symmetric] del: upt_Suc)
    moreover have "variant_asset_lines k (int (k + i)) (line # ls) =
        (if i < length ?refs then Inr (?refs ! i) else Inl Index_unavailable)" for i
      using Some c(1) refs(3) [of "i - 1"] by (cases i) (simp_all add: variant_asset_line del: variant_asset_lines.simps)
    ultimately show ?thesis using Some c refs by (intro exI [of _ ?refs]) auto
  qed
qed

text \<open>A master playlist: comments may name the poster, the other lines name playlists.\<close>

definition master_ref :: "string \<Rightarrow> string option" where
  "master_ref line =
     (let trimmed = trim_space line in if trimmed = [] \<or> has_prefix trimmed ''#'' then None else Some trimmed)"

definition master_comment :: "string \<Rightarrow> string \<Rightarrow> string" where
  "master_comment auth line =
     (if str_contains (trim_space line) uri_marker \<and> has_prefix (trim_space line) ''#''
      then the (replace_playlist_uri line (''poster.jpg'' @ auth)) else line)"

fun master_references :: "string list \<Rightarrow> string list" where
  "master_references [] = []"
| "master_references (l # ls) = (case master_ref l of None \<Rightarrow> master_references ls | Some r \<Rightarrow> r # master_references ls)"

fun with_playlists :: "string \<Rightarrow> nat \<Rightarrow> string list \<Rightarrow> string list" where
  "with_playlists auth k [] = []"
| "with_playlists auth k (l # ls) =
     (case master_ref l of
        None \<Rightarrow> master_comment auth l # with_playlists auth k ls
      | Some r \<Rightarrow> linked_playlist_name k auth # with_playlists auth (Suc k) ls)"

lemma rewrite_master_lines_spec:
  "rewrite_master_lines auth k ls = Inr out \<Longrightarrow>
    \<exists>cids. map playlist_reference_cid (master_references ls) = map (\<lambda>c. Some (c, ''.m3u8'')) cids \<and>
      out = with_playlists auth k ls \<and>
      (\<forall>i. master_playlist_lines k (int (k + i)) ls = (if i < length cids then Inr (cids ! i) else Inl Index_unavailable))"
proof (induction ls arbitrary: k out)
  case Nil
  then show ?case by auto
next
  case (Cons line ls)
  show ?case
  proof (cases "master_ref line")
    case None
    with Cons.prems obtain r where r: "rewrite_master_lines auth k ls = Inr r" "out = master_comment auth line # r"
      by (auto simp: master_ref_def master_comment_def Let_def res_bind_Inr_iff split: if_splits option.splits)
    from None have skip: "master_playlist_lines k w (line # ls) = master_playlist_lines k w ls" for w
      by (auto simp: master_ref_def Let_def split: if_splits)
    from Cons.IH [OF r(1)] None r(2) skip show ?thesis by (auto simp del: master_playlist_lines.simps)
  next
    case (Some v)
    then have v: "trim_space line = v" "v \<noteq> []" "\<not> has_prefix v ''#''"
      by (auto simp: master_ref_def Let_def split: if_splits)
    with Cons.prems obtain cid r where c: "playlist_reference_cid v = Some (cid, ''.m3u8'')"
      "rewrite_master_lines auth (Suc k) ls = Inr r" "out = linked_playlist_name k auth # r"
      by (auto simp: Let_def res_bind_Inr_iff split: if_splits option.splits)
    from Cons.IH [OF c(2)] obtain cids where cids:
      "map playlist_reference_cid (master_references ls) = map (\<lambda>c. Some (c, ''.m3u8'')) cids"
      "r = with_playlists auth (Suc k) ls"
      "\<And>i. master_playlist_lines (Suc k) (int (Suc k + i)) ls = (if i < length cids then Inr (cids ! i) else Inl Index_unavailable)"
      by blast
    have "master_playlist_lines k (int (k + i)) (line # ls) =
        (if i < length (cid # cids) then Inr ((cid # cids) ! i) else Inl Index_unavailable)" for i
      using v c(1) cids(3) [of "i - 1"] by (cases i) (simp_all add: Let_def)
    with Some c cids show ?thesis by (intro exI [of _ "cid # cids"]) auto
  qed
qed

section \<open>Properties\<close>

text \<open>
  C34: links stand for the right files: when a variant playlist is rewritten, every line that referred
  to a file refers to the opaque segment name with the running index, every other line is unchanged,
  and the index of a segment name resolves, for the same playlist, to exactly the CID and extension
  the original line named; an index past the last reference resolves to nothing.
\<close>

theorem variant_links_resolve:
  assumes "rewrite_linked_variant content p auth = Inr out"
  shows "\<exists>refs. map playlist_reference_cid (references (lines_of content)) = map Some refs \<and>
    out = str_join [newline] (with_refs (lines_of content)
      (map (\<lambda>i. linked_segment_name p i (snd (refs ! i)) auth) [0..<length refs])) \<and>
    (\<forall>i. linked_variant_asset_cid content (int i) = (if i < length refs then Inr (refs ! i) else Inl Index_unavailable))"
proof -
  from assms obtain ls where ls: "rewrite_variant_lines p auth 0 (lines_of content) = Inr ls" "out = str_join [newline] ls"
    by (auto simp: rewrite_linked_variant_def res_bind_Inr_iff)
  from rewrite_variant_lines_spec [OF ls(1)] ls(2) show ?thesis
    unfolding linked_variant_asset_cid_def by fastforce
qed

text \<open>
  The same for a master playlist: every reference must be a playlist and is replaced by the name
  with its index, comments lose the address of the poster, and the index resolves to the playlist
  the original line named.
\<close>

theorem master_links_resolve:
  assumes "rewrite_linked_master content auth = Inr out"
  shows "\<exists>cids. map playlist_reference_cid (master_references (lines_of content)) = map (\<lambda>c. Some (c, ''.m3u8'')) cids \<and>
    out = str_join [newline] (with_playlists auth 0 (lines_of content)) \<and>
    (\<forall>i. linked_master_playlist_cid content (int i) = (if i < length cids then Inr (cids ! i) else Inl Index_unavailable))"
proof -
  from assms obtain ls where ls: "rewrite_master_lines auth 0 (lines_of content) = Inr ls" "out = str_join [newline] ls"
    by (auto simp: rewrite_linked_master_def res_bind_Inr_iff)
  from rewrite_master_lines_spec [OF ls(1)] ls(2) show ?thesis
    unfolding linked_master_playlist_cid_def by fastforce
qed

definition example_cid :: string where
  "example_cid = ''QmYwAPJzv5CZsnA625s3Xf2nemtYgPpHdWEz79ojWKPbdG''"


section \<open>Names of stored files\<close>

lemma lower_alnum_alnum: "lower_alnum c \<Longrightarrow> is_alnum c"
  by (auto simp: lower_alnum_def is_alnum_def is_alpha_def)

lemma list_all_split: "list_all P (take k s) \<Longrightarrow> list_all P (drop k s) \<Longrightarrow> list_all P s"
  by (metis append_take_drop_id list_all_append)

lemma cid_v0_alnum: "cid_v0 cid \<Longrightarrow> list_all is_alnum cid"
proof (rule list_all_split [of _ "length ''Qm''"])
  assume v: "cid_v0 cid"
  then have "take (length ''Qm'') cid = ''Qm''" by (simp only: cid_v0_def has_prefix_def)
  then show "list_all is_alnum (take (length ''Qm'') cid)"
    by (simp only:) (simp add: is_alnum_def is_alpha_def code_def)
  from v show "list_all is_alnum (drop (length ''Qm'') cid)" by (simp add: cid_v0_def numeral_2_eq_2)
qed

lemma cid_v1_alnum: "cid_v1 cid \<Longrightarrow> list_all is_alnum cid"
proof (rule list_all_split [of _ "length ''baf''"])
  assume v: "cid_v1 cid"
  then have "take (length ''baf'') cid = ''baf''" by (simp only: cid_v1_def has_prefix_def)
  then show "list_all is_alnum (take (length ''baf'') cid)"
    by (simp only:) (simp add: is_alnum_def is_alpha_def code_def)
  from v show "list_all is_alnum (drop (length ''baf'') cid)"
    by (auto simp: cid_v1_def numeral_3_eq_3 lower_alnum_alnum elim: list.pred_mono_strong)
qed

lemma valid_cid_alnum: "validate_cid cid = None \<Longrightarrow> cid \<noteq> [] \<and> list_all is_alnum cid"
  using cid_v0_alnum [of cid] cid_v1_alnum [of cid] by (simp add: validate_cid_def split: if_splits) blast

lemma alnum_name: "list_all is_alnum s \<Longrightarrow> list_all name_char s"
  by (auto simp: list_all_iff name_char_def)

lemma name_free: "list_all name_char s \<Longrightarrow> \<not> name_char c \<Longrightarrow> c \<notin> set s"
  by (auto simp: list_all_iff)

lemma not_name_chars:
  "\<not> name_char CHR ''/''" "\<not> name_char newline" "\<not> name_char CHR ''#''" "\<not> is_alnum CHR ''.''" "\<not> name_char CHR '',''"
  "\<not> name_char CHR 0x22" "\<not> name_char CHR '':''" "\<not> name_char CHR ''?''" "\<not> name_char CHR ''=''"
  by (simp_all add: name_char_def is_alnum_def is_alpha_def is_digit_def code_def newline_def)

text \<open>\<open>s\<close> is a stored file's name: its CID, a dot and an extension.\<close>

definition stored_name :: "string \<Rightarrow> string \<Rightarrow> string \<Rightarrow> bool" where
  "stored_name cid ext s \<longleftrightarrow> validate_cid cid = None \<and> list_all is_alnum ext \<and> s = cid @ CHR ''.'' # ext"

lemma stored_name_chars: "stored_name cid ext s \<Longrightarrow> list_all name_char s \<and> s \<noteq> []"
  using valid_cid_alnum [of cid] alnum_name [of cid] alnum_name [of ext]
  by (auto simp: stored_name_def name_char_def)

lemma stored_name_trim: "stored_name cid ext s \<Longrightarrow> trim_space s = s"
  using stored_name_chars [of cid ext s] name_char_plain
  by (intro trim_space_plain_all) (auto simp: list_all_iff)

lemma stored_name_line:
  assumes "stored_name cid ext s"
  shows "lines_of s = [s]" and "\<not> has_prefix s ''#''"
proof -
  from stored_name_chars [OF assms] have c: "list_all name_char s" "s \<noteq> []" by auto
  show "lines_of s = [s]" unfolding lines_of_def
    by (rule split_char_free) (rule name_free [OF c(1) not_name_chars(2)])
  from name_free [OF c(1) not_name_chars(3)] c(2) show "\<not> has_prefix s ''#''" by (cases s) auto
qed

lemma file_base_simple: "CHR ''/'' \<notin> set s \<Longrightarrow> s \<noteq> [] \<Longrightarrow> file_base s = s"
proof -
  assume s: "CHR ''/'' \<notin> set s" "s \<noteq> []"
  then have "dropWhile (\<lambda>c. c = CHR ''/'') (rev s) = rev s"
    by (cases "rev s") (auto dest: arg_cong [of _ _ set])
  with s show ?thesis by (simp add: file_base_def Let_def last_element_free)
qed

lemma stored_name_reference: "stored_name cid ext s \<Longrightarrow> playlist_reference_cid s = Some (cid, CHR ''.'' # ext)"
proof -
  assume sn: "stored_name cid ext s"
  from sn have cid: "validate_cid cid = None" and ext: "list_all is_alnum ext" and s: "s = cid @ CHR ''.'' # ext"
    by (auto simp: stored_name_def)
  from stored_name_chars [OF sn] have n: "list_all name_char s" "s \<noteq> []" by auto
  have "CHR ''/'' \<notin> set cid" "CHR ''/'' \<notin> set ext"
    using name_free [OF n(1) not_name_chars(1)] by (auto simp: s)
  moreover have "CHR ''.'' \<notin> set ext" using ext not_name_chars(4) by (auto simp: list_all_iff)
  ultimately have "file_ext s = CHR ''.'' # ext" unfolding s by (rule file_ext_append)
  moreover have "file_base s = s" by (rule file_base_simple [OF name_free [OF n(1) not_name_chars(1)] n(2)])
  moreover have "trim_suffix s (CHR ''.'' # ext) = cid" unfolding s by simp
  ultimately show ?thesis
    using cid by (simp add: playlist_reference_cid_def Let_def stored_name_trim [OF sn] url_path_name [OF n(1)])
qed

lemma example_cid_valid: "validate_cid example_cid = None"
  by (simp add: validate_cid_def cid_v0_def example_cid_def is_alnum_def is_alpha_def is_digit_def code_def has_prefix_def)

lemma example_names:
  "stored_name example_cid ''m4s'' (example_cid @ ''.m4s'')" "stored_name example_cid ''m3u8'' (example_cid @ ''.m3u8'')"
  by (simp_all add: stored_name_def example_cid_valid is_alnum_def is_alpha_def is_digit_def code_def)

lemma stored_name_variant:
  assumes "stored_name cid ext s"
  shows "references (lines_of s) = [s]" and "\<exists>out. rewrite_linked_variant s p auth = Inr out"
proof -
  have ref: "ref_of_line s = Some s"
    using stored_name_trim [OF assms] stored_name_line [OF assms] stored_name_chars [OF assms]
    by (simp add: ref_of_line_def)
  then show "references (lines_of s) = [s]" by (simp add: stored_name_line [OF assms])
  show "\<exists>out. rewrite_linked_variant s p auth = Inr out"
    unfolding rewrite_linked_variant_def stored_name_line(1) [OF assms]
    by (subst rewrite_variant_line) (simp add: ref stored_name_reference [OF assms])
qed

lemma stored_name_master:
  assumes "stored_name cid ''m3u8'' s"
  shows "master_references (lines_of s) = [s]" and "\<exists>out. rewrite_linked_master s auth = Inr out"
  using stored_name_trim [OF assms] stored_name_line [OF assms] stored_name_chars [OF assms] stored_name_reference [OF assms]
  by (simp_all add: master_ref_def rewrite_linked_master_def)

theorem variant_links_resolve_witness:
  "linked_variant_asset_cid (example_cid @ ''.m4s'') (int 0) = Inr (example_cid, ''.m4s'')"
proof -
  note sn = example_names(1)
  obtain out where "rewrite_linked_variant (example_cid @ ''.m4s'') 3 ''?t'' = Inr out"
    using stored_name_variant(2) [OF sn] by blast
  from variant_links_resolve [OF this] obtain refs where
    m: "map playlist_reference_cid (references (lines_of (example_cid @ ''.m4s''))) = map Some refs"
    "\<forall>i. linked_variant_asset_cid (example_cid @ ''.m4s'') (int i) =
      (if i < length refs then Inr (refs ! i) else Inl Index_unavailable)" by blast
  from m(1) have "refs = [(example_cid, ''.m4s'')]"
    unfolding stored_name_variant(1) [OF sn] by (auto simp: stored_name_reference [OF sn])
  with m(2) show ?thesis by (metis length_Cons nth_Cons_0 zero_less_Suc)
qed

theorem master_links_resolve_witness:
  "linked_master_playlist_cid (example_cid @ ''.m3u8'') (int 0) = Inr example_cid"
proof -
  note sn = example_names(2)
  obtain out where "rewrite_linked_master (example_cid @ ''.m3u8'') ''?t'' = Inr out"
    using stored_name_master(2) [OF sn] by blast
  from master_links_resolve [OF this] obtain cids where
    m: "map playlist_reference_cid (master_references (lines_of (example_cid @ ''.m3u8''))) = map (\<lambda>c. Some (c, ''.m3u8'')) cids"
    "\<forall>i. linked_master_playlist_cid (example_cid @ ''.m3u8'') (int i) =
      (if i < length cids then Inr (cids ! i) else Inl Index_unavailable)" by blast
  from m(1) have "cids = [example_cid]"
    unfolding stored_name_master(1) [OF sn] by (auto simp: stored_name_reference [OF sn])
  with m(2) show ?thesis by (metis length_Cons nth_Cons_0 zero_less_Suc)
qed

end
