(* ===== verification/Base64.thy ===== *)
theory Base64
  imports Go_Strings
begin

text \<open>
  Go's \<open>encoding/base64\<close> as the grant codec uses it: \<open>RawURLEncoding\<close> (URL alphabet, no padding) and
  the decoder of \<open>StdEncoding\<close> (padded). Like Go's, the decoder skips carriage returns and newlines
  anywhere and ignores the unused low bits of the last character.
\<close>

section \<open>Alphabets\<close>

definition url_alphabet :: string where
  "url_alphabet = ''ABCDEFGHIJKLMNOPQRSTUVWXYZabcdefghijklmnopqrstuvwxyz0123456789-_''"

definition std_alphabet :: string where
  "std_alphabet = ''ABCDEFGHIJKLMNOPQRSTUVWXYZabcdefghijklmnopqrstuvwxyz0123456789+/''"

fun index_of :: "char \<Rightarrow> string \<Rightarrow> nat option" where
  "index_of c [] = None"
| "index_of c (d # ds) = (if c = d then Some 0 else map_option Suc (index_of c ds))"

definition sextet :: "string \<Rightarrow> nat \<Rightarrow> char" where
  "sextet alphabet n = alphabet ! (n mod 64)"

definition to_byte :: "nat \<Rightarrow> 8 word" where
  "to_byte n = word_of_nat n"

section \<open>Encoding\<close>

fun b64_encode_raw :: "string \<Rightarrow> bytes \<Rightarrow> string" where
  "b64_encode_raw al [] = []"
| "b64_encode_raw al [x] = [sextet al (unat x div 4), sextet al (unat x mod 4 * 16)]"
| "b64_encode_raw al [x, y] =
     [sextet al (unat x div 4), sextet al (unat x mod 4 * 16 + unat y div 16), sextet al (unat y mod 16 * 4)]"
| "b64_encode_raw al (x # y # z # bs) =
     sextet al (unat x div 4) # sextet al (unat x mod 4 * 16 + unat y div 16)
       # sextet al (unat y mod 16 * 4 + unat z div 64) # sextet al (unat z mod 64) # b64_encode_raw al bs"

section \<open>Decoding\<close>

definition byte1 :: "nat \<Rightarrow> nat \<Rightarrow> 8 word" where "byte1 a b = to_byte (a * 4 + b div 16)"
definition byte2 :: "nat \<Rightarrow> nat \<Rightarrow> 8 word" where "byte2 b c = to_byte (b mod 16 * 16 + c div 4)"
definition byte3 :: "nat \<Rightarrow> nat \<Rightarrow> 8 word" where "byte3 c d = to_byte (c mod 4 * 64 + d)"

fun b64_quanta_raw :: "string \<Rightarrow> string \<Rightarrow> bytes option" where
  "b64_quanta_raw al [] = Some []"
| "b64_quanta_raw al [a] = None"
| "b64_quanta_raw al [a, b] = (case (index_of a al, index_of b al) of
      (Some p, Some q) \<Rightarrow> Some [byte1 p q] | _ \<Rightarrow> None)"
| "b64_quanta_raw al [a, b, c] = (case (index_of a al, index_of b al, index_of c al) of
      (Some p, Some q, Some r) \<Rightarrow> Some [byte1 p q, byte2 q r] | _ \<Rightarrow> None)"
| "b64_quanta_raw al (a # b # c # d # cs) =
     (case (index_of a al, index_of b al, index_of c al, index_of d al) of
        (Some p, Some q, Some r, Some s) \<Rightarrow>
          map_option (\<lambda>bs. byte1 p q # byte2 q r # byte3 r s # bs) (b64_quanta_raw al cs)
      | _ \<Rightarrow> None)"

fun b64_quanta_padded :: "string \<Rightarrow> string \<Rightarrow> bytes option" where
  "b64_quanta_padded al [] = Some []"
| "b64_quanta_padded al (a # b # c # d # cs) =
     (if c = CHR ''='' then
        (if d = CHR ''='' \<and> cs = [] then b64_quanta_raw al [a, b] else None)
      else if d = CHR ''='' then (if cs = [] then b64_quanta_raw al [a, b, c] else None)
      else (case (b64_quanta_raw al [a, b, c, d], b64_quanta_padded al cs) of
          (Some xs, Some ys) \<Rightarrow> Some (xs @ ys) | _ \<Rightarrow> None))"
| "b64_quanta_padded al cs = None"

definition not_newline :: "char \<Rightarrow> bool" where
  "not_newline c \<longleftrightarrow> c \<noteq> CHR 0x0A \<and> c \<noteq> CHR 0x0D"

definition b64_url_encode :: "bytes \<Rightarrow> string" where
  "b64_url_encode bs = b64_encode_raw url_alphabet bs"

definition b64_url_decode :: "string \<Rightarrow> bytes option" where
  "b64_url_decode s = b64_quanta_raw url_alphabet (filter not_newline s)"

definition b64_std_decode :: "string \<Rightarrow> bytes option" where
  "b64_std_decode s = b64_quanta_padded std_alphabet (filter not_newline s)"

section \<open>Round trip\<close>

lemma index_of_nth: "distinct al \<Longrightarrow> n < length al \<Longrightarrow> index_of (al ! n) al = Some n"
proof (induction al arbitrary: n)
  case (Cons c al)
  then show ?case by (cases n) auto
qed simp

lemma url_alphabet_props: "distinct url_alphabet" "length url_alphabet = 64" "list_all not_newline url_alphabet"
  "CHR ''.'' \<notin> set url_alphabet"
  by (simp_all add: url_alphabet_def not_newline_def)

lemma url_sextet [simp]: "n < 64 \<Longrightarrow> index_of (sextet url_alphabet n) url_alphabet = Some n"
  by (simp add: sextet_def index_of_nth url_alphabet_props)

lemma url_sextet_mem: "sextet url_alphabet n \<in> set url_alphabet"
  by (simp add: sextet_def url_alphabet_props)

lemma byte_bound: "unat (x :: 8 word) < 256"
  using unsigned_less [of x, where ?'a = nat] by simp

lemma to_byte_unat [simp]: "to_byte (unat x) = x"
  by (simp add: to_byte_def)

lemma byte1_join: "byte1 (unat x div 4) (unat x mod 4 * 16 + k) = x" if "k < 16" for x :: "8 word"
proof -
  have "(unat x mod 4 * 16 + k) div 16 = unat x mod 4" using that by simp
  moreover have "unat x div 4 * 4 + unat x mod 4 = unat x" by simp
  ultimately show ?thesis by (simp add: byte1_def)
qed

lemma byte1_join0: "byte1 (unat x div 4) (unat x mod 4 * 16) = x" for x :: "8 word"
  using byte1_join [of 0 x] by simp

lemma byte2_join: "byte2 (m * 16 + unat x div 16) (unat x mod 16 * 4 + k) = x" if "k < 4" for x :: "8 word"
proof -
  have "(unat x mod 16 * 4 + k) div 4 = unat x mod 16" using that by simp
  moreover have "(m * 16 + unat x div 16) mod 16 = unat x div 16" using byte_bound [of x] by simp
  moreover have "unat x div 16 * 16 + unat x mod 16 = unat x" by simp
  ultimately show ?thesis by (simp add: byte2_def)
qed

lemma byte2_join0: "byte2 (m * 16 + unat x div 16) (unat x mod 16 * 4) = x" for x :: "8 word"
  using byte2_join [of 0 m x] by simp

lemma byte3_join: "byte3 (m * 4 + unat x div 64) (unat x mod 64) = x" for x :: "8 word"
proof -
  have "(m * 4 + unat x div 64) mod 4 = unat x div 64" using byte_bound [of x] by simp
  moreover have "unat x div 64 * 64 + unat x mod 64 = unat x" by simp
  ultimately show ?thesis by (simp add: byte3_def)
qed

lemma sextet_bounds:
  "unat (x :: 8 word) div 4 < 64" "unat x mod 4 * 16 < 64" "unat x mod 16 * 4 < 64" "unat x mod 64 < 64"
  "unat x mod 4 * 16 + unat (y :: 8 word) div 16 < 64" "unat x mod 16 * 4 + unat y div 64 < 64"
  "unat x div 16 < 16" "unat x div 64 < 4"
  using byte_bound [of x] byte_bound [of y] by simp_all

lemma b64_raw_roundtrip: "b64_quanta_raw url_alphabet (b64_encode_raw url_alphabet bs) = Some bs"
  by (induction url_alphabet bs rule: b64_encode_raw.induct)
    (simp_all add: sextet_bounds byte1_join byte1_join0 byte2_join byte2_join0 byte3_join)

lemma b64_encode_alphabet: "set (b64_encode_raw url_alphabet bs) \<subseteq> set url_alphabet"
  by (induction url_alphabet bs rule: b64_encode_raw.induct) (auto simp: url_sextet_mem)

lemma b64_url_clean: "filter not_newline (b64_url_encode bs) = b64_url_encode bs"
  using b64_encode_alphabet [of bs] url_alphabet_props(3)
  by (auto simp: b64_url_encode_def list_all_iff filter_id_conv)

lemma b64_url_roundtrip: "b64_url_decode (b64_url_encode bs) = Some bs"
  by (simp add: b64_url_decode_def b64_url_clean) (simp add: b64_url_encode_def b64_raw_roundtrip)

lemma b64_url_no_dot: "CHR ''.'' \<notin> set (b64_url_encode bs)"
  using b64_encode_alphabet [of bs] url_alphabet_props(4) by (auto simp: b64_url_encode_def)

end
