(* ===== verification/Media_Grant.thy ===== *)
theory Media_Grant
  imports Base64
begin

text \<open>
  \<open>internal/mediagrant/grant.go\<close>: sealed download capabilities. Times are Unix seconds. The
  cryptographic primitives and the JSON codec are parameters (\<open>crypto\<close>): \<open>cr_gcm key\<close> is AES-GCM under
  a 32-byte key, \<open>cr_session\<close> the SHA-256 of a token in hex, \<open>cr_marshal\<close> and \<open>cr_unmarshal\<close> the JSON
  text of the claims. The nonce drawn by \<open>Seal\<close> is an argument.
\<close>

section \<open>Claims\<close>

datatype grant_error = Err_invalid | Err_expired | Err_revoked

record claims =
  cl_version :: int
  cl_session :: string
  cl_link_id :: int
  cl_asset_id :: int
  cl_source_cid :: string
  cl_video :: bool
  cl_poster_cid :: string
  cl_crop :: string
  cl_mode :: string
  cl_purpose :: string
  cl_operations :: "string list"
  cl_issued_at :: int
  cl_expires_at :: int
  cl_epoch :: string
  cl_asset_version :: string
  cl_file_version :: string

text \<open>\<open>time.Duration\<close> counts nanoseconds; \<open>MaxTTL\<close> is an hour.\<close>

definition second :: int where "second = 1000000000"
definition max_ttl :: int where "max_ttl = 3600 * second"

definition purpose_ttl :: "string \<Rightarrow> int option" where
  "purpose_ttl p =
     (if p \<in> {''gallery'', ''post'', ''story'', ''library''} then Some (5 * 60 * second)
      else if p \<in> {''avatar'', ''cover''} then Some max_ttl
      else if p \<in> {''verification'', ''internal''} then Some (60 * second)
      else None)"

definition operation_valid :: "claims \<Rightarrow> string \<Rightarrow> bool" where
  "operation_valid c operation =
     (if operation = ''image'' then \<not> cl_video c
      else if operation = ''poster'' then cl_video c
      else if operation = ''stream'' then cl_video c \<and> cl_mode c = ''original''
      else False)"

definition claims_validate :: "claims \<Rightarrow> int \<Rightarrow> grant_error option" where
  "claims_validate c now =
     (if cl_version c \<noteq> 1 \<or> cl_link_id c \<le> 0 \<or> cl_asset_id c \<le> 0 \<or> length (cl_session c) \<noteq> 64
         \<or> cl_epoch c = [] \<or> cl_asset_version c = [] \<or> cl_file_version c = [] then Some Err_invalid
      else if cl_source_cid c = [] \<or> length (cl_source_cid c) > 256
         \<or> contains_any (cl_source_cid c) (CHR ''/'' # CHR 0x5C # ''?# '' @ [CHR 0x09, CHR 0x0D, CHR 0x0A]) then Some Err_invalid
      else if cl_mode c \<noteq> ''original'' \<and> cl_mode c \<noteq> ''blur'' \<and> cl_mode c \<noteq> ''blur_faces'' then Some Err_invalid
      else (case purpose_ttl (cl_purpose c) of
          None \<Rightarrow> Some Err_invalid
        | Some ttl \<Rightarrow>
            if cl_issued_at c \<le> 0 \<or> cl_issued_at c > now \<or> cl_expires_at c \<le> cl_issued_at c
               \<or> int64 (cl_expires_at c - cl_issued_at c) > ttl div second then Some Err_invalid
            else if now \<ge> cl_expires_at c then Some Err_expired
            else if cl_operations c = [] \<or> length (cl_operations c) > 3 then Some Err_invalid
            else if list_all (operation_valid c) (cl_operations c) then None
            else Some Err_invalid))"

definition claims_allows :: "claims \<Rightarrow> string \<Rightarrow> bool" where
  "claims_allows c operation \<longleftrightarrow> list_ex (\<lambda>allowed. allowed = operation) (cl_operations c)"

section \<open>The codec\<close>

record aead =
  ae_seal :: "bytes \<Rightarrow> bytes \<Rightarrow> string \<Rightarrow> bytes"
  ae_open :: "bytes \<Rightarrow> bytes \<Rightarrow> string \<Rightarrow> bytes option"

record crypto =
  cr_gcm :: "bytes \<Rightarrow> aead"
  cr_session :: "string \<Rightarrow> string"
  cr_marshal :: "claims \<Rightarrow> bytes"
  cr_unmarshal :: "bytes \<Rightarrow> claims option"

record grant_codec =
  gc_active :: string
  gc_audience :: string
  gc_keys :: "(string, bytes) gomap"

datatype codec_error = Audience_required | Invalid_key_id | Key_length string | Active_key_missing

definition nonce_size :: nat where "nonce_size = 12"
definition gcm_overhead :: nat where "gcm_overhead = 16"

definition valid_key_id :: "string \<Rightarrow> bool" where
  "valid_key_id key_id \<longleftrightarrow> key_id \<noteq> [] \<and> length key_id \<le> 32 \<and>
     \<not> contains_any key_id (''. /'' @ [CHR 0x5C, CHR 0x09, CHR 0x0D, CHR 0x0A])"

fun codec_keys :: "(string \<times> string) list \<Rightarrow> (string, bytes) gomap \<Rightarrow> codec_error + (string, bytes) gomap" where
  "codec_keys [] m = Inr m"
| "codec_keys ((key_id, encoded) # ks) m =
     (if \<not> valid_key_id key_id then Inl Invalid_key_id
      else (case b64_std_decode encoded of
          None \<Rightarrow> Inl (Key_length key_id)
        | Some key \<Rightarrow> if length key \<noteq> 32 then Inl (Key_length key_id)
                      else codec_keys ks (gm_put key_id key m)))"

definition new_codec :: "string \<Rightarrow> string \<Rightarrow> (string, string) gomap \<Rightarrow> codec_error + grant_codec" where
  "new_codec active audience keys =
     (if audience = [] \<or> length audience > 256 then Inl Audience_required
      else res_bind (codec_keys keys []) (\<lambda>m.
        if map_of m active = None then Inl Active_key_missing
        else Inr \<lparr>gc_active = active, gc_audience = audience, gc_keys = m\<rparr>))"

definition codec_aad :: "grant_codec \<Rightarrow> string \<Rightarrow> string" where
  "codec_aad c key_id = ''iamfree-media-grant:v1:'' @ gc_audience c @ '':'' @ key_id"

definition codec_seal :: "crypto \<Rightarrow> grant_codec \<Rightarrow> claims \<Rightarrow> int \<Rightarrow> bytes \<Rightarrow> grant_error + string" where
  "codec_seal cr c claims now nonce =
     (case claims_validate claims now of
        Some e \<Rightarrow> Inl e
      | None \<Rightarrow>
          (let plain = cr_marshal cr claims;
               box = cr_gcm cr (the (map_of (gc_keys c) (gc_active c)));
               sealed = nonce @ ae_seal box nonce plain (codec_aad c (gc_active c))
           in Inr (gc_active c @ ''.'' @ b64_url_encode sealed)))"

definition codec_open :: "crypto \<Rightarrow> grant_codec \<Rightarrow> string \<Rightarrow> string \<Rightarrow> int \<Rightarrow> grant_error + claims" where
  "codec_open cr c encoded token now =
     (if token = [] \<or> length encoded > 4096 then Inl Err_invalid
      else (case cut_char encoded CHR ''.'' of
          None \<Rightarrow> Inl Err_invalid
        | Some (key_id, body) \<Rightarrow>
      (case map_of (gc_keys c) key_id of
          None \<Rightarrow> Inl Err_invalid
        | Some key \<Rightarrow>
      (case b64_url_decode body of
          None \<Rightarrow> Inl Err_invalid
        | Some sealed \<Rightarrow>
            if length sealed < nonce_size + gcm_overhead then Inl Err_invalid
            else
      (case ae_open (cr_gcm cr key) (take nonce_size sealed) (drop nonce_size sealed) (codec_aad c key_id) of
          None \<Rightarrow> Inl Err_invalid
        | Some plain \<Rightarrow>
      (case cr_unmarshal cr plain of
          None \<Rightarrow> Inl Err_invalid
        | Some claims \<Rightarrow>
            if cl_session claims \<noteq> cr_session cr token then Inl Err_invalid
            else (case claims_validate claims now of
                Some e \<Rightarrow> Inl e
              | None \<Rightarrow> Inr claims)))))))"

section \<open>Facts\<close>

lemma codec_keys_ids:
  "codec_keys ks m = Inr m' \<Longrightarrow> (\<And>k v. map_of m k = Some v \<Longrightarrow> valid_key_id k \<and> length v = 32) \<Longrightarrow>
    map_of m' k = Some v \<Longrightarrow> valid_key_id k \<and> length v = 32"
proof (induction ks m arbitrary: m' rule: codec_keys.induct)
  case (2 key_id encoded ks m)
  from "2.prems"(1) obtain key where key: "valid_key_id key_id" "b64_std_decode encoded = Some key" "length key = 32"
    "codec_keys ks (gm_put key_id key m) = Inr m'"
    by (auto split: if_splits option.splits)
  show ?case
  proof (rule "2.IH" [OF _ key(2) _ key(4) _ "2.prems"(3)])
    fix k v
    assume "map_of (gm_put key_id key m) k = Some v"
    with key "2.prems"(2) show "valid_key_id k \<and> length v = 32" by (auto simp: gomap_simps split: if_splits)
  qed (use key in simp_all)
qed auto

lemma new_codec_keys:
  "new_codec active audience keys = Inr c \<Longrightarrow>
    gc_active c = active \<and> gc_audience c = audience \<and> map_of (gc_keys c) active \<noteq> None \<and>
    (\<forall>k v. map_of (gc_keys c) k = Some v \<longrightarrow> valid_key_id k \<and> length v = 32)"
  using codec_keys_ids [of keys "[]"]
  by (auto simp: new_codec_def res_bind_Inr_iff split: if_splits)

lemma valid_key_id_no_dot: "valid_key_id k \<Longrightarrow> CHR ''.'' \<notin> set k"
  by (auto simp: valid_key_id_def contains_any_def list_ex_iff)

lemma cut_char_append: "c \<notin> set a \<Longrightarrow> cut_char (a @ c # b) c = Some (a, b)"
  by (simp add: cut_char_def takeWhile_neq_append dropWhile_neq_append)

lemma purpose_ttl_bounds: "purpose_ttl p = Some t \<Longrightarrow> 60 \<le> t div second \<and> t div second \<le> 3600"
  by (auto simp: purpose_ttl_def max_ttl_def second_def split: if_splits)

definition claims_in_range :: "claims \<Rightarrow> bool" where
  "claims_in_range c \<longleftrightarrow> - (2 ^ 63) \<le> cl_issued_at c \<and> cl_issued_at c < 2 ^ 63 \<and>
     - (2 ^ 63) \<le> cl_expires_at c \<and> cl_expires_at c < 2 ^ 63"

text \<open>The part of \<open>validate\<close> that does not look at the clock.\<close>

definition claims_shape :: "claims \<Rightarrow> bool" where
  "claims_shape c \<longleftrightarrow>
     cl_version c = 1 \<and> 0 < cl_link_id c \<and> 0 < cl_asset_id c \<and> length (cl_session c) = 64 \<and>
     cl_epoch c \<noteq> [] \<and> cl_asset_version c \<noteq> [] \<and> cl_file_version c \<noteq> [] \<and>
     cl_source_cid c \<noteq> [] \<and> length (cl_source_cid c) \<le> 256 \<and>
     \<not> contains_any (cl_source_cid c) (CHR ''/'' # CHR 0x5C # ''?# '' @ [CHR 0x09, CHR 0x0D, CHR 0x0A]) \<and>
     cl_mode c \<in> {''original'', ''blur'', ''blur_faces''} \<and>
     (case purpose_ttl (cl_purpose c) of None \<Rightarrow> False
      | Some ttl \<Rightarrow> 0 < cl_issued_at c \<and> cl_issued_at c < cl_expires_at c \<and>
          cl_expires_at c - cl_issued_at c \<le> ttl div second)"

definition operations_shape :: "claims \<Rightarrow> bool" where
  "operations_shape c \<longleftrightarrow> cl_operations c \<noteq> [] \<and> length (cl_operations c) \<le> 3 \<and>
     list_all (operation_valid c) (cl_operations c)"

lemma claims_validate_split:
  assumes "claims_in_range c"
  shows "claims_validate c now =
    (if \<not> claims_shape c \<or> now < cl_issued_at c then Some Err_invalid
     else if cl_expires_at c \<le> now then Some Err_expired
     else if operations_shape c then None else Some Err_invalid)"
proof -
  have wrap: "int64 (cl_expires_at c - cl_issued_at c) = cl_expires_at c - cl_issued_at c"
    if "0 < cl_issued_at c" "cl_issued_at c < cl_expires_at c"
    using that assms by (intro int64_id) (auto simp: claims_in_range_def)
  show ?thesis
    by (cases "purpose_ttl (cl_purpose c)")
      (auto simp: claims_validate_def claims_shape_def operations_shape_def wrap)
qed

lemma validate_None_shape:
  "claims_in_range c \<Longrightarrow> claims_validate c now = None \<Longrightarrow>
    claims_shape c \<and> operations_shape c \<and> cl_issued_at c \<le> now \<and> now < cl_expires_at c"
  by (auto simp: claims_validate_split split: if_splits)

text \<open>AES-GCM as documented: what was sealed opens under the same nonce and additional data, and the
  ciphertext is one tag longer than the plain text.\<close>

definition aead_laws :: "aead \<Rightarrow> bool" where
  "aead_laws a \<longleftrightarrow> (\<forall>n p d. length n = nonce_size \<longrightarrow>
     ae_open a n (ae_seal a n p d) d = Some p \<and> length (ae_seal a n p d) = length p + gcm_overhead)"

lemma codec_seal_shape:
  "codec_seal cr c cl now nonce = Inr tok \<Longrightarrow>
    claims_validate cl now = None \<and>
    tok = gc_active c @ CHR ''.'' # b64_url_encode (nonce @ ae_seal (cr_gcm cr (the (map_of (gc_keys c) (gc_active c))))
      nonce (cr_marshal cr cl) (codec_aad c (gc_active c)))"
  by (auto simp: codec_seal_def Let_def split: option.splits)

lemma codec_aad_separates:
  assumes "codec_aad c i = codec_aad d j" and "CHR '':'' \<notin> set i" and "CHR '':'' \<notin> set j"
  shows "gc_audience c = gc_audience d \<and> i = j"
proof -
  have "gc_audience c @ CHR '':'' # i = gc_audience d @ CHR '':'' # j"
    using assms(1) by (simp add: codec_aad_def)
  then have "rev (gc_audience c @ CHR '':'' # i) = rev (gc_audience d @ CHR '':'' # j)" by (simp only:)
  then have eq: "rev i @ CHR '':'' # rev (gc_audience c) = rev j @ CHR '':'' # rev (gc_audience d)" by simp
  with assms have "rev i = rev j"
    by (metis set_rev takeWhile_neq_append)
  with eq show ?thesis by simp
qed

lemma codec_open_Inr:
  assumes "codec_open cr c encoded token now = Inr cl"
  shows "\<exists>key_id key sealed plain.
    map_of (gc_keys c) key_id = Some key \<and>
    ae_open (cr_gcm cr key) (take nonce_size sealed) (drop nonce_size sealed) (codec_aad c key_id) = Some plain \<and>
    cr_unmarshal cr plain = Some cl \<and> token \<noteq> [] \<and> cl_session cl = cr_session cr token \<and>
    claims_validate cl now = None"
  using assms unfolding codec_open_def
  by (auto split: if_splits option.splits prod.splits)

lemma codec_open_sealed:
  assumes "new_codec active audience keys = Inr c"
    and "\<And>key. aead_laws (cr_gcm cr key)" and "cr_unmarshal cr (cr_marshal cr cl) = Some cl"
    and "length nonce = nonce_size" and "codec_seal cr c cl now nonce = Inr tok"
    and "length tok \<le> 4096" and "token \<noteq> []" and "cl_session cl = cr_session cr token"
  shows "codec_open cr c tok token t = (case claims_validate cl t of Some e \<Rightarrow> Inl e | None \<Rightarrow> Inr cl)"
proof -
  from new_codec_keys [OF assms(1)] obtain key where
    key: "map_of (gc_keys c) (gc_active c) = Some key" "valid_key_id (gc_active c)" by auto
  let ?ct = "ae_seal (cr_gcm cr key) nonce (cr_marshal cr cl) (codec_aad c (gc_active c))"
  from codec_seal_shape [OF assms(5)] key
  have tok: "tok = gc_active c @ CHR ''.'' # b64_url_encode (nonce @ ?ct)" by auto
  have cut: "cut_char tok CHR ''.'' = Some (gc_active c, b64_url_encode (nonce @ ?ct))"
    unfolding tok by (rule cut_char_append [OF valid_key_id_no_dot [OF key(2)]])
  have op: "ae_open (cr_gcm cr key) nonce ?ct (codec_aad c (gc_active c)) = Some (cr_marshal cr cl)"
    "length ?ct = length (cr_marshal cr cl) + gcm_overhead"
    using assms(2,4) by (auto simp: aead_laws_def)
  have split: "take nonce_size (nonce @ ?ct) = nonce" "drop nonce_size (nonce @ ?ct) = ?ct"
    using assms(4) by simp_all
  show ?thesis
    using assms(3,4,6,7,8) key(1) cut op
    by (simp add: codec_open_def b64_url_roundtrip split)
qed

section \<open>An example codec\<close>

definition example_claims :: claims where
  "example_claims = \<lparr>cl_version = 1, cl_session = replicate 64 CHR ''a'', cl_link_id = 42, cl_asset_id = 5,
     cl_source_cid = ''manifest'', cl_video = False, cl_poster_cid = [], cl_crop = [], cl_mode = ''blur'',
     cl_purpose = ''gallery'', cl_operations = [''image''], cl_issued_at = 1800000000,
     cl_expires_at = 1800000300, cl_epoch = ''e'', cl_asset_version = ''0'', cl_file_version = ''0''\<rparr>"

lemma example_claims_range: "claims_in_range example_claims"
  by (simp add: claims_in_range_def example_claims_def)

lemma example_claims_shape: "claims_shape example_claims" "operations_shape example_claims"
  by (simp_all add: claims_shape_def operations_shape_def example_claims_def contains_any_def purpose_ttl_def
      second_def operation_valid_def)

lemma example_claims_valid: "1800000000 \<le> t \<Longrightarrow> t < 1800000300 \<Longrightarrow> claims_validate example_claims t = None"
  using example_claims_shape by (simp add: claims_validate_split [OF example_claims_range]) (simp add: example_claims_def)

definition example_crypto :: crypto where
  "example_crypto = \<lparr>cr_gcm = (\<lambda>key. \<lparr>ae_seal = (\<lambda>n p d. p @ replicate 16 0),
       ae_open = (\<lambda>n ct d. Some (take (length ct - 16) ct))\<rparr>),
     cr_session = (\<lambda>t. replicate 64 CHR ''a''), cr_marshal = (\<lambda>c. [1]), cr_unmarshal = (\<lambda>b. Some example_claims)\<rparr>"

definition example_codec :: grant_codec where
  "example_codec = \<lparr>gc_active = ''k1'', gc_audience = ''stand'', gc_keys = [(''k1'', replicate 32 0)]\<rparr>"

lemma example_key: "b64_std_decode (replicate 43 CHR ''A'' @ ''='') = Some (replicate 32 0)"
proof -
  have a: "index_of CHR ''A'' std_alphabet = Some 0" by (simp add: std_alphabet_def)
  have z: "byte1 0 0 = 0" "byte2 0 0 = 0" "byte3 0 0 = 0" by (simp_all add: byte1_def byte2_def byte3_def to_byte_def)
  show ?thesis
    by (simp add: b64_std_decode_def not_newline_def numeral_eq_Suc a z)
qed

lemma example_codec_new: "new_codec ''k1'' ''stand'' [(''k1'', replicate 43 CHR ''A'' @ ''='')] = Inr example_codec"
  by (simp add: new_codec_def example_codec_def valid_key_id_def contains_any_def example_key)

lemma example_aead_laws: "aead_laws (cr_gcm example_crypto key)"
  by (simp add: aead_laws_def example_crypto_def gcm_overhead_def)

lemma b64_encode_length: "length (b64_encode_raw al bs) \<le> 2 * length bs"
  by (induction al bs rule: b64_encode_raw.induct) simp_all

definition example_token :: string where
  "example_token = ''k1.'' @ b64_url_encode (replicate 12 0 @ [1] @ replicate 16 0)"

lemma example_token_sealed:
  "codec_seal example_crypto example_codec example_claims 1800000000 (replicate 12 0) = Inr example_token"
  using example_claims_valid [of 1800000000]
  by (simp add: codec_seal_def example_crypto_def example_codec_def example_token_def)

lemma example_token_length: "length example_token \<le> 4096"
  using b64_encode_length [of url_alphabet "replicate 12 0 @ [1] @ replicate 16 0"]
  by (simp add: example_token_def b64_url_encode_def)

lemma example_json: "cr_unmarshal example_crypto (cr_marshal example_crypto example_claims) = Some example_claims"
  by (simp add: example_crypto_def)

lemma example_session: "cl_session example_claims = cr_session example_crypto ''t''"
  by (simp add: example_crypto_def example_claims_def)

lemma example_opens: "codec_open example_crypto example_codec example_token ''t'' 1800000001 = Inr example_claims"
  using codec_open_sealed [OF example_codec_new example_aead_laws example_json _ example_token_sealed
      example_token_length _ example_session, of 1800000001] example_claims_valid [of 1800000001]
  by (simp add: nonce_size_def)

section \<open>Properties\<close>

text \<open>
  Claims that were valid once are valid exactly from the second they are issued until just before
  they expire and are reported as expired from then on; they live at most an hour, a minute for
  verification and internal use; and every operation they allow fits the file: images only for
  pictures, posters and streams only for videos, streams only in full quality.
\<close>

theorem grant_validity_window:
  assumes "claims_in_range c" and "claims_validate c now = None"
  shows "(claims_validate c t = None \<longleftrightarrow> cl_issued_at c \<le> t \<and> t < cl_expires_at c) \<and>
    (cl_expires_at c \<le> t \<longrightarrow> claims_validate c t = Some Err_expired) \<and>
    cl_expires_at c - cl_issued_at c \<le> 3600 \<and>
    (cl_purpose c \<in> {''verification'', ''internal''} \<longrightarrow> cl_expires_at c - cl_issued_at c \<le> 60) \<and>
    (claims_allows c op \<longrightarrow>
      (op = ''image'' \<and> \<not> cl_video c) \<or> (op = ''poster'' \<and> cl_video c) \<or>
      (op = ''stream'' \<and> cl_video c \<and> cl_mode c = ''original''))"
proof -
  from validate_None_shape [OF assms] have sh: "claims_shape c" "operations_shape c" by auto
  then have times: "cl_issued_at c < cl_expires_at c" by (auto simp: claims_shape_def split: option.splits)
  have "(claims_validate c t = None \<longleftrightarrow> cl_issued_at c \<le> t \<and> t < cl_expires_at c) \<and>
      (cl_expires_at c \<le> t \<longrightarrow> claims_validate c t = Some Err_expired)"
    using sh times by (auto simp: claims_validate_split [OF assms(1)])
  moreover have "cl_expires_at c - cl_issued_at c \<le> 3600"
    using sh(1) purpose_ttl_bounds [of "cl_purpose c"] by (auto simp: claims_shape_def split: option.splits)
  moreover have "cl_purpose c \<in> {''verification'', ''internal''} \<longrightarrow> cl_expires_at c - cl_issued_at c \<le> 60"
    using sh(1) by (auto simp: claims_shape_def purpose_ttl_def second_def split: option.splits)
  moreover have "operation_valid c op" if "claims_allows c op"
    using sh(2) that by (auto simp: operations_shape_def claims_allows_def list_all_iff list_ex_iff)
  then have "claims_allows c op \<longrightarrow>
      (op = ''image'' \<and> \<not> cl_video c) \<or> (op = ''poster'' \<and> cl_video c) \<or>
      (op = ''stream'' \<and> cl_video c \<and> cl_mode c = ''original'')"
    by (auto simp: operation_valid_def split: if_splits)
  ultimately show ?thesis by blast
qed

theorem grant_validity_window_witness:
  "claims_validate example_claims 1800000300 = Some Err_expired \<and> claims_validate example_claims 1800000299 = None"
  using grant_validity_window [OF example_claims_range example_claims_valid [of 1800000000], of 1800000300]
    grant_validity_window [OF example_claims_range example_claims_valid [of 1800000000], of 1800000299]
  by (simp add: example_claims_def)

text \<open>
  C36: what a codec seals, the same codec opens again for the session it was sealed for, giving back the
  same claims, at every second of their validity and at no other; the sealed text must not be
  longer than 4096 bytes, which \<open>Seal\<close> itself does not check.
\<close>

theorem grant_seal_open:
  assumes "new_codec active audience keys = Inr c"
    and "\<And>key. aead_laws (cr_gcm cr key)" and "cr_unmarshal cr (cr_marshal cr cl) = Some cl"
    and "claims_in_range cl" and "length nonce = nonce_size" and "codec_seal cr c cl now nonce = Inr tok"
    and "length tok \<le> 4096" and "token \<noteq> []" and "cl_session cl = cr_session cr token"
  shows "(codec_open cr c tok token t = Inr cl \<longleftrightarrow> cl_issued_at cl \<le> t \<and> t < cl_expires_at cl) \<and>
    (cl_expires_at cl \<le> t \<longrightarrow> codec_open cr c tok token t = Inl Err_expired)"
proof -
  have "claims_validate cl now = None" using codec_seal_shape [OF assms(6)] by simp
  from validate_None_shape [OF assms(4) this]
  have "claims_shape cl" "operations_shape cl" "cl_issued_at cl < cl_expires_at cl" by auto
  with codec_open_sealed [OF assms(1-3) assms(5-9), of t] show ?thesis
    by (auto simp: claims_validate_split [OF assms(4)])
qed

theorem grant_seal_open_witness:
  "codec_open example_crypto example_codec example_token ''t'' 1800000300 = Inl Err_expired"
  using grant_seal_open [OF example_codec_new example_aead_laws example_json example_claims_range _ example_token_sealed
      example_token_length _ example_session, of 1800000300]
  by (simp add: nonce_size_def example_claims_def)



end
