(* ===== verification/Grant_State.thy ===== *)
theory Grant_State
  imports Media_Grant
begin

text \<open>
  \<open>internal/mediagrant/state.go\<close>: versions and write guards in Redis. The database is a map from key
  names to strings; a Lua script is one atomic step on it. A call is described by its \<open>link\<close>: the
  request may be lost (nothing happens, the caller sees an error) or the reply may be lost (the
  script ran, the caller still sees an error; retries are switched off in the options). The random
  versions are arguments. \<open>canonical\<close> is the multiformats library's rewriting of a CID to version 1,
  \<open>None\<close> for a string it cannot decode; \<open>digest\<close> is SHA-256 in hex.
\<close>

section \<open>Keys\<close>

type_synonym redis = "string \<Rightarrow> string option"

definition state_prefix :: "string \<Rightarrow> string" where
  "state_prefix namespace = ''media-grants:{'' @ namespace @ ''}:''"

definition valid_namespace :: "string \<Rightarrow> bool" where
  "valid_namespace ns \<longleftrightarrow> ns \<noteq> [] \<and> \<not> contains_any ns (''{} '' @ [CHR 0x09, CHR 0x0D, CHR 0x0A])"

datatype state_error = Namespace_required | Invalid_redis_url

definition new_state :: "(string \<Rightarrow> bool) \<Rightarrow> string \<Rightarrow> string \<Rightarrow> state_error + string" where
  "new_state valid_url redis_url namespace =
     (if \<not> valid_namespace namespace then Inl Namespace_required
      else if \<not> valid_url redis_url then Inl Invalid_redis_url
      else Inr (state_prefix namespace))"

definition epoch_key :: "string \<Rightarrow> string" where "epoch_key p = p @ ''epoch''"
definition version_key :: "string \<Rightarrow> string \<Rightarrow> string" where "version_key p r = p @ r @ '':version''"
definition guard_key :: "string \<Rightarrow> string \<Rightarrow> string" where "guard_key p r = p @ r @ '':guard''"

definition asset_resource :: "int \<Rightarrow> string" where
  "asset_resource n = ''asset:'' @ itoa n"

definition file_resource :: "(string \<Rightarrow> string option) \<Rightarrow> (string \<Rightarrow> string) \<Rightarrow> string \<Rightarrow> string" where
  "file_resource canonical digest value =
     ''file:'' @ digest (case canonical value of None \<Rightarrow> value | Some v1 \<Rightarrow> v1)"

lemma state_keys_distinct [simp]:
  "version_key p r \<noteq> guard_key p q" "guard_key p q \<noteq> version_key p r"
  "version_key p r \<noteq> epoch_key p" "epoch_key p \<noteq> version_key p r"
  "guard_key p r \<noteq> epoch_key p" "epoch_key p \<noteq> guard_key p r"
  "version_key p r = version_key p q \<longleftrightarrow> r = q" "guard_key p r = guard_key p q \<longleftrightarrow> r = q"
proof -
  have ends: "last (version_key p r) = CHR ''n''" "last (guard_key p q) = CHR ''d''" "last (epoch_key p) = CHR ''h''" for r q
    by (simp_all add: version_key_def guard_key_def epoch_key_def last_append)
  show "version_key p r \<noteq> guard_key p q" "guard_key p q \<noteq> version_key p r"
    "version_key p r \<noteq> epoch_key p" "epoch_key p \<noteq> version_key p r"
    "guard_key p r \<noteq> epoch_key p" "epoch_key p \<noteq> guard_key p r"
    by (auto dest!: arg_cong [where f = last] simp: ends)+
  show "version_key p r = version_key p q \<longleftrightarrow> r = q" "guard_key p r = guard_key p q \<longleftrightarrow> r = q"
    by (simp_all add: version_key_def guard_key_def)
qed

section \<open>Scripts\<close>

datatype script_reply = Int_reply int | Strings_reply "string list" | Epoch_missing

fun snapshot_values :: "redis \<Rightarrow> string list \<Rightarrow> string list" where
  "snapshot_values db (k # g # ks) =
     (case db k of None \<Rightarrow> ''0'' | Some v \<Rightarrow> v) # (case db g of None \<Rightarrow> [] | Some v \<Rightarrow> v) # snapshot_values db ks"
| "snapshot_values db ks = []"

definition snapshot_script :: "string list \<Rightarrow> redis \<Rightarrow> script_reply" where
  "snapshot_script keys db = (case db (hd keys) of
      None \<Rightarrow> Epoch_missing
    | Some e \<Rightarrow> Strings_reply (e # snapshot_values db (tl keys)))"

definition begin_script :: "string \<Rightarrow> string \<Rightarrow> string \<Rightarrow> string \<Rightarrow> redis \<Rightarrow> redis \<times> script_reply" where
  "begin_script ekey vkey gkey v db =
     (if db ekey = None then (db, Epoch_missing)
      else if db gkey \<noteq> None then (db, Int_reply 0)
      else (db(gkey := Some v, vkey := Some v), Int_reply 1))"

definition finish_script :: "string \<Rightarrow> string \<Rightarrow> string \<Rightarrow> string \<Rightarrow> redis \<Rightarrow> redis \<times> script_reply" where
  "finish_script vkey gkey v nxt db =
     (if db gkey \<noteq> Some v then (db, Int_reply 0)
      else (db(vkey := Some nxt, gkey := None), Int_reply 1))"

definition revoke_script :: "string \<Rightarrow> string \<Rightarrow> string \<Rightarrow> string \<Rightarrow> redis \<Rightarrow> redis \<times> script_reply" where
  "revoke_script ekey vkey gkey v db =
     (if db ekey = None then (db, Epoch_missing)
      else (db(vkey := Some v, gkey := Some ''deleted''), Int_reply 1))"

section \<open>Calls\<close>

datatype link = Link_up | Request_lost | Reply_lost

datatype call_error = Link_error | Script_error | Being_changed | Guard_lost | Bad_reply | Not_noeviction | Check_revoked

definition run_script :: "link \<Rightarrow> (redis \<Rightarrow> redis \<times> script_reply) \<Rightarrow> redis \<Rightarrow> redis \<times> (call_error + script_reply)" where
  "run_script l script db = (case l of
      Request_lost \<Rightarrow> (db, Inl Link_error)
    | Reply_lost \<Rightarrow> (fst (script db), Inl Link_error)
    | Link_up \<Rightarrow> (case script db of (db', Epoch_missing) \<Rightarrow> (db', Inl Script_error) | (db', r) \<Rightarrow> (db', Inr r)))"

definition initialize :: "string \<Rightarrow> string option \<Rightarrow> link \<Rightarrow> string \<Rightarrow> redis \<Rightarrow> redis \<times> (call_error + unit)" where
  "initialize p policy l v db =
     (if policy = None then (db, Inl Link_error)
      else if policy \<noteq> Some ''noeviction'' then (db, Inl Not_noeviction)
      else (let set_nx = (\<lambda>db :: redis. if db (epoch_key p) = None then db(epoch_key p := Some v) else db)
            in case l of
                 Request_lost \<Rightarrow> (db, Inl Link_error)
               | Reply_lost \<Rightarrow> (set_nx db, Inl Link_error)
               | Link_up \<Rightarrow> (set_nx db, Inr ())))"

record snapshot =
  sn_epoch :: string
  sn_versions :: "(string, string) gomap"
  sn_blocked :: "(string, string) gomap"

fun snapshot_maps :: "string list \<Rightarrow> string list \<Rightarrow> snapshot \<Rightarrow> snapshot" where
  "snapshot_maps (r # rs) (v # g # vs) s =
     snapshot_maps rs vs (s\<lparr>sn_versions := gm_put r v (sn_versions s), sn_blocked := gm_put r g (sn_blocked s)\<rparr>)"
| "snapshot_maps rs vs s = s"

definition state_snapshot :: "string \<Rightarrow> string list \<Rightarrow> link \<Rightarrow> redis \<Rightarrow> call_error + snapshot" where
  "state_snapshot p resources l db =
     (let keys = epoch_key p # concat (map (\<lambda>r. [version_key p r, guard_key p r]) resources)
      in case snd (run_script l (\<lambda>db. (db, snapshot_script keys db)) db) of
           Inl e \<Rightarrow> Inl e
         | Inr (Strings_reply values) \<Rightarrow>
             if length values \<noteq> 2 * length resources + 1 then Inl Bad_reply
             else Inr (snapshot_maps resources (tl values) \<lparr>sn_epoch = hd values, sn_versions = [], sn_blocked = []\<rparr>)
         | Inr _ \<Rightarrow> Inl Bad_reply)"

definition get_or_empty :: "(string, string) gomap \<Rightarrow> string \<Rightarrow> string" where
  "get_or_empty m k = (case map_of m k of None \<Rightarrow> [] | Some v \<Rightarrow> v)"

definition state_check ::
    "string \<Rightarrow> (string \<Rightarrow> string option) \<Rightarrow> (string \<Rightarrow> string) \<Rightarrow> claims \<Rightarrow> link \<Rightarrow> redis \<Rightarrow> call_error + unit" where
  "state_check p canonical digest c l db =
     (let asset = asset_resource (cl_asset_id c); file = file_resource canonical digest (cl_source_cid c)
      in case state_snapshot p [asset, file] l db of
           Inl e \<Rightarrow> Inl e
         | Inr s \<Rightarrow>
             if get_or_empty (sn_blocked s) asset \<noteq> [] \<or> get_or_empty (sn_blocked s) file \<noteq> []
                \<or> sn_epoch s \<noteq> cl_epoch c
                \<or> get_or_empty (sn_versions s) asset \<noteq> cl_asset_version c
                \<or> get_or_empty (sn_versions s) file \<noteq> cl_file_version c
             then Inl Check_revoked else Inr ())"

text \<open>\<open>Begin\<close> answers with the guard value the returned closure will present to the finish script.\<close>

definition state_begin :: "string \<Rightarrow> string \<Rightarrow> link \<Rightarrow> string \<Rightarrow> redis \<Rightarrow> redis \<times> (call_error + string)" where
  "state_begin p r l v db =
     (case run_script l (begin_script (epoch_key p) (version_key p r) (guard_key p r) v) db of
        (db', Inl e) \<Rightarrow> (db', Inl e)
      | (db', Inr reply) \<Rightarrow> (db', if reply = Int_reply 1 then Inr v else Inl Being_changed))"

definition state_finish :: "string \<Rightarrow> string \<Rightarrow> string \<Rightarrow> link \<Rightarrow> string \<Rightarrow> redis \<Rightarrow> redis \<times> (call_error + unit)" where
  "state_finish p r v l nxt db =
     (case run_script l (finish_script (version_key p r) (guard_key p r) v nxt) db of
        (db', Inl e) \<Rightarrow> (db', Inl e)
      | (db', Inr reply) \<Rightarrow> (db', if reply = Int_reply 1 then Inr () else Inl Guard_lost))"

definition state_revoke :: "string \<Rightarrow> string \<Rightarrow> link \<Rightarrow> string \<Rightarrow> redis \<Rightarrow> redis \<times> (call_error + unit)" where
  "state_revoke p r l v db =
     (case run_script l (revoke_script (epoch_key p) (version_key p r) (guard_key p r) v) db of
        (db', Inl e) \<Rightarrow> (db', Inl e)
      | (db', Inr reply) \<Rightarrow> (db', Inr ()))"

section \<open>What a check sees\<close>

definition version_of :: "string \<Rightarrow> string \<Rightarrow> redis \<Rightarrow> string" where
  "version_of p r db = (case db (version_key p r) of None \<Rightarrow> ''0'' | Some v \<Rightarrow> v)"

definition guard_of :: "string \<Rightarrow> string \<Rightarrow> redis \<Rightarrow> string" where
  "guard_of p r db = (case db (guard_key p r) of None \<Rightarrow> [] | Some g \<Rightarrow> g)"

lemma asset_not_file: "asset_resource n \<noteq> file_resource canonical digest v"
  by (simp add: asset_resource_def file_resource_def)

lemma state_check_ok:
  "state_check p canonical digest c l db = Inr () \<longleftrightarrow>
     l = Link_up \<and> db (epoch_key p) = Some (cl_epoch c) \<and>
     version_of p (asset_resource (cl_asset_id c)) db = cl_asset_version c \<and>
     version_of p (file_resource canonical digest (cl_source_cid c)) db = cl_file_version c \<and>
     guard_of p (asset_resource (cl_asset_id c)) db = [] \<and>
     guard_of p (file_resource canonical digest (cl_source_cid c)) db = []"
proof (cases "l = Link_up \<and> db (epoch_key p) \<noteq> None")
  case False
  then show ?thesis
    by (cases l) (auto simp: state_check_def state_snapshot_def run_script_def snapshot_script_def Let_def)
next
  case True
  then obtain e where e: "db (epoch_key p) = Some e" and l: "l = Link_up" by auto
  let ?a = "asset_resource (cl_asset_id c)" and ?f = "file_resource canonical digest (cl_source_cid c)"
  have "state_snapshot p [?a, ?f] l db = Inr \<lparr>sn_epoch = e,
      sn_versions = [(?a, version_of p ?a db), (?f, version_of p ?f db)],
      sn_blocked = [(?a, guard_of p ?a db), (?f, guard_of p ?f db)]\<rparr>"
    using e l asset_not_file
    by (simp add: state_snapshot_def run_script_def snapshot_script_def version_of_def guard_of_def)
  with e l show ?thesis
    using asset_not_file by (auto simp: state_check_def get_or_empty_def Let_def)
qed

section \<open>Histories\<close>

text \<open>
  What happens to the database over time: calls of any number of processes in any order, and the loss
  of all data. The last component of a call is the random version it drew.
\<close>

datatype db_event =
    Ev_init link string
  | Ev_begin string link string
  | Ev_finish string string link string
  | Ev_revoke string link string
  | Ev_lost

fun db_step :: "string \<Rightarrow> db_event \<Rightarrow> redis \<Rightarrow> redis" where
  "db_step p (Ev_init l v) db = fst (initialize p (Some ''noeviction'') l v db)"
| "db_step p (Ev_begin r l v) db = fst (state_begin p r l v db)"
| "db_step p (Ev_finish r v l nxt) db = fst (state_finish p r v l nxt db)"
| "db_step p (Ev_revoke r l v) db = fst (state_revoke p r l v db)"
| "db_step p Ev_lost db = (\<lambda>_. None)"

fun drawn :: "db_event \<Rightarrow> string list" where
  "drawn (Ev_init l v) = [v]"
| "drawn (Ev_begin r l v) = [v]"
| "drawn (Ev_finish r v l nxt) = [nxt]"
| "drawn (Ev_revoke r l v) = [v]"
| "drawn Ev_lost = []"

definition db_run :: "string \<Rightarrow> db_event list \<Rightarrow> redis \<Rightarrow> redis" where
  "db_run p es db = foldl (\<lambda>db e. db_step p e db) db es"

lemma db_run_simps [simp]:
  "db_run p [] db = db" "db_run p (e # es) db = db_run p es (db_step p e db)"
  "db_run p (es @ fs) db = db_run p fs (db_run p es db)"
  by (simp_all add: db_run_def)

lemma run_script_fst: "fst (run_script l script db) = (if l = Request_lost then db else fst (script db))"
  by (cases l) (auto simp: run_script_def split: prod.splits script_reply.splits)

lemma state_begin_fst: "fst (state_begin p r l v db) = fst (run_script l (begin_script (epoch_key p) (version_key p r) (guard_key p r) v) db)"
  by (auto simp: state_begin_def split: prod.splits sum.splits)

lemma state_finish_fst: "fst (state_finish p r v l nxt db) = fst (run_script l (finish_script (version_key p r) (guard_key p r) v nxt) db)"
  by (auto simp: state_finish_def split: prod.splits sum.splits)

lemma state_revoke_fst: "fst (state_revoke p r l v db) = fst (run_script l (revoke_script (epoch_key p) (version_key p r) (guard_key p r) v) db)"
  by (auto simp: state_revoke_def split: prod.splits sum.splits)

lemma initialize_fst: "fst (initialize p (Some ''noeviction'') l v db) =
    (if l = Request_lost \<or> db (epoch_key p) \<noteq> None then db else db(epoch_key p := Some v))"
  by (cases l) (auto simp: initialize_def Let_def)

lemmas call_effects = state_begin_fst state_finish_fst state_revoke_fst initialize_fst run_script_fst
  begin_script_def finish_script_def revoke_script_def

text \<open>The step in which a change of \<open>r\<close> takes effect: the script of \<open>Begin\<close>, of the closure it
  returned or of \<open>Revoke\<close> ran and answered 1.\<close>

fun takes_effect :: "string \<Rightarrow> string \<Rightarrow> db_event \<Rightarrow> redis \<Rightarrow> bool" where
  "takes_effect p r (Ev_begin q l v) db \<longleftrightarrow> q = r \<and> l \<noteq> Request_lost \<and> db (epoch_key p) \<noteq> None \<and> db (guard_key p r) = None"
| "takes_effect p r (Ev_finish q v l nxt) db \<longleftrightarrow> q = r \<and> l \<noteq> Request_lost \<and> db (guard_key p r) = Some v"
| "takes_effect p r (Ev_revoke q l v) db \<longleftrightarrow> q = r \<and> l \<noteq> Request_lost \<and> db (epoch_key p) \<noteq> None"
| "takes_effect p r (Ev_init l v) db \<longleftrightarrow> False"
| "takes_effect p r Ev_lost db \<longleftrightarrow> True"

text \<open>A version \<open>w\<close> of \<open>r\<close> under epoch \<open>e\<close> is stale when the database no longer shows both.\<close>

definition stale :: "string \<Rightarrow> string \<Rightarrow> string \<Rightarrow> string \<Rightarrow> redis \<Rightarrow> bool" where
  "stale p r e w db \<longleftrightarrow> db (epoch_key p) \<noteq> Some e \<or> version_of p r db \<noteq> w"

lemma stale_step:
  "stale p r e w db \<Longrightarrow> e \<notin> set (drawn ev) \<Longrightarrow> w \<notin> set (drawn ev) \<Longrightarrow> stale p r e w (db_step p ev db)"
  by (cases ev) (auto simp: stale_def call_effects version_of_def)

lemma stale_run:
  "stale p r e w db \<Longrightarrow> e \<notin> set (concat (map drawn es)) \<Longrightarrow> w \<notin> set (concat (map drawn es)) \<Longrightarrow>
    stale p r e w (db_run p es db)"
  by (induction es arbitrary: db) (auto intro: stale_step)

lemma takes_effect_stale:
  "takes_effect p r ev db \<Longrightarrow> w \<notin> set (drawn ev) \<Longrightarrow> stale p r e w (db_step p ev db)"
  by (cases ev) (auto simp: stale_def call_effects version_of_def)

text \<open>A closure presents the guard value its \<open>Begin\<close> drew: 32 hex digits.\<close>

definition hex_version :: "string \<Rightarrow> bool" where
  "hex_version v \<longleftrightarrow> length v = 32"

fun closure_ok :: "db_event \<Rightarrow> bool" where
  "closure_ok (Ev_finish r v l nxt) = hex_version v"
| "closure_ok (Ev_init l v) = True"
| "closure_ok (Ev_begin r l v) = True"
| "closure_ok (Ev_revoke r l v) = True"
| "closure_ok Ev_lost = True"

text \<open>The marks of \<open>Revoke\<close>: nothing but the loss of the data removes one.\<close>

lemma revoked_step:
  "db (guard_key p r) = Some ''deleted'' \<Longrightarrow> ev \<noteq> Ev_lost \<Longrightarrow> closure_ok ev \<Longrightarrow>
    db_step p ev db (guard_key p r) = Some ''deleted''"
  by (cases ev) (auto simp: call_effects hex_version_def)

lemma revoked_run:
  "db (guard_key p r) = Some ''deleted'' \<Longrightarrow> Ev_lost \<notin> set es \<Longrightarrow>
    list_all closure_ok es \<Longrightarrow>
    db_run p es db (guard_key p r) = Some ''deleted''"
proof (induction es arbitrary: db)
  case (Cons ev es)
  have "db_step p ev db (guard_key p r) = Some ''deleted''"
    by (rule revoked_step) (use Cons.prems in auto)
  with Cons show ?case by simp
qed simp

section \<open>Writers\<close>

text \<open>
  A writer is a call of \<open>Begin\<close> that got a closure and has not called it yet. \<open>writers\<close> collects the
  resource and guard value of those after a history on an empty database.
\<close>

fun writers_step :: "string \<Rightarrow> db_event \<Rightarrow> redis \<Rightarrow> (string \<times> string) list \<Rightarrow> (string \<times> string) list" where
  "writers_step p (Ev_begin r l v) db ws =
     (case snd (state_begin p r l v db) of Inr g \<Rightarrow> (r, g) # ws | Inl e \<Rightarrow> ws)"
| "writers_step p (Ev_finish r v l nxt) db ws = filter (\<lambda>w. w \<noteq> (r, v)) ws"
| "writers_step p ev db ws = ws"

fun writers :: "string \<Rightarrow> db_event list \<Rightarrow> redis \<Rightarrow> (string \<times> string) list \<Rightarrow> (string \<times> string) list" where
  "writers p [] db ws = ws"
| "writers p (ev # es) db ws = writers p es (db_step p ev db) (writers_step p ev db ws)"

definition writers_inv :: "string \<Rightarrow> redis \<Rightarrow> (string \<times> string) list \<Rightarrow> bool" where
  "writers_inv p db ws \<longleftrightarrow> distinct (map fst ws) \<and>
     (\<forall>(r, v) \<in> set ws. db (guard_key p r) = Some v \<or> db (guard_key p r) = Some ''deleted'')"

lemma state_begin_Inr:
  "snd (state_begin p r l v db) = Inr g \<longleftrightarrow>
    g = v \<and> l = Link_up \<and> db (epoch_key p) \<noteq> None \<and> db (guard_key p r) = None"
  by (cases l) (auto simp: state_begin_def run_script_def begin_script_def split: if_splits)

lemma distinct_filter_fst: "distinct (map fst ws) \<Longrightarrow> distinct (map fst (filter Q ws))"
  by (induction ws) auto

lemma writers_step_inv:
  assumes inv: "writers_inv p db ws" and ev: "ev \<noteq> Ev_lost"
    and own: "closure_ok ev"
  shows "writers_inv p (db_step p ev db) (writers_step p ev db ws)"
proof (cases ev)
  case (Ev_begin r l v)
  have keep: "db_step p ev db (guard_key p q) = db (guard_key p q)" if "db (guard_key p q) \<noteq> None" for q
    using that by (auto simp: Ev_begin call_effects)
  show ?thesis
  proof (cases "snd (state_begin p r l v db)")
    case (Inl e)
    with inv keep show ?thesis by (fastforce simp: Ev_begin writers_inv_def)
  next
    case (Inr g)
    then have g: "g = v" "l = Link_up" "db (epoch_key p) \<noteq> None" "db (guard_key p r) = None"
      by (simp_all add: state_begin_Inr)
    then have "r \<notin> set (map fst ws)" using inv by (fastforce simp: writers_inv_def)
    moreover have "db_step p ev db (guard_key p r) = Some v" using g by (simp add: Ev_begin call_effects)
    ultimately show ?thesis using inv keep g Inr by (fastforce simp: Ev_begin writers_inv_def)
  qed
next
  case (Ev_finish r v l nxt)
  with own have v: "hex_version v" by simp
  have keep: "db_step p ev db (guard_key p q) = db (guard_key p q)" if "q \<noteq> r \<or> db (guard_key p q) \<noteq> Some v" for q
    using that by (auto simp: Ev_finish call_effects)
  have "db_step p ev db (guard_key p q) = Some w \<or> db_step p ev db (guard_key p q) = Some ''deleted''"
    if "(q, w) \<in> set ws" "(q, w) \<noteq> (r, v)" for q w
  proof -
    from that inv have guard: "db (guard_key p q) = Some w \<or> db (guard_key p q) = Some ''deleted''"
      by (auto simp: writers_inv_def)
    with that v have "q \<noteq> r \<or> db (guard_key p q) \<noteq> Some v" by (auto simp: hex_version_def)
    from keep [OF this] guard show ?thesis by simp
  qed
  with inv show ?thesis by (auto simp: Ev_finish writers_inv_def distinct_filter_fst)
next
  case (Ev_revoke r l v)
  with inv show ?thesis by (fastforce simp: writers_inv_def call_effects)
next
  case (Ev_init l v)
  with inv show ?thesis by (auto simp: writers_inv_def call_effects)
qed (use ev in simp)

lemma writers_run_inv:
  "writers_inv p db ws \<Longrightarrow> Ev_lost \<notin> set es \<Longrightarrow> list_all closure_ok es \<Longrightarrow>
    writers_inv p (db_run p es db) (writers p es db ws)"
proof (induction es arbitrary: db ws)
  case (Cons ev es)
  have "writers_inv p (db_step p ev db) (writers_step p ev db ws)"
    by (rule writers_step_inv [OF Cons.prems(1)]) (use Cons.prems in auto)
  with Cons.IH Cons.prems show ?case by simp
qed simp

section \<open>Properties\<close>

text \<open>
  C15: a capability that passed the check never passes it again once a change of its asset or of its
  file took effect (the start or the end of a mutation, a revocation, or the loss of the data), no
  matter which replies were lost and what any process does later, as long as random versions
  repeat neither the epoch nor the versions it was issued under.
\<close>

theorem change_invalidates_grants:
  assumes "state_check p canonical digest c l0 db = Inr ()"
    and "r = asset_resource (cl_asset_id c) \<or> r = file_resource canonical digest (cl_source_cid c)"
    and "takes_effect p r ev (db_run p es db)"
    and "set (concat (map drawn (es @ ev # fs))) \<inter> {cl_epoch c, cl_asset_version c, cl_file_version c} = {}"
  shows "state_check p canonical digest c l (db_run p (es @ ev # fs) db) \<noteq> Inr ()"
proof -
  define w where "w = version_of p r db"
  have w: "w = cl_asset_version c \<or> w = cl_file_version c" "r = asset_resource (cl_asset_id c) \<longrightarrow> w = cl_asset_version c"
    "r = file_resource canonical digest (cl_source_cid c) \<longrightarrow> w = cl_file_version c"
    using assms(1,2) by (auto simp: state_check_ok w_def)
  have "stale p r (cl_epoch c) w (db_step p ev (db_run p es db))"
    by (rule takes_effect_stale [OF assms(3)]) (use w(1) assms(4) in auto)
  then have "stale p r (cl_epoch c) w (db_run p fs (db_step p ev (db_run p es db)))"
    by (rule stale_run) (use w(1) assms(4) in auto)
  with w(2,3) assms(2) show ?thesis by (auto simp: state_check_ok stale_def)
qed

definition example_redis :: redis where
  "example_redis = [''p:epoch'' \<mapsto> ''e'']"

lemma example_check: "state_check ''p:'' Some (\<lambda>_. ''d'') example_claims Link_up example_redis = Inr ()"
  by (simp add: state_check_ok example_redis_def example_claims_def epoch_key_def version_of_def guard_of_def
      version_key_def guard_key_def asset_resource_def file_resource_def itoa_def nat_digits.simps)

theorem change_invalidates_grants_witness:
  "state_check ''p:'' Some (\<lambda>_. ''d'') example_claims Link_up
     (db_run ''p:'' [Ev_revoke (file_resource Some (\<lambda>_. ''d'') ''manifest'') Reply_lost ''v1''] example_redis) \<noteq> Inr ()"
  using change_invalidates_grants [OF example_check, of _ "Ev_revoke (file_resource Some (\<lambda>_. ''d'') ''manifest'') Reply_lost ''v1''"
      "[]" "[]" Link_up]
  by (simp add: example_claims_def example_redis_def epoch_key_def)

text \<open>
  A revoked resource stays revoked: after \<open>Revoke\<close> took effect, whatever calls follow, its guard
  stays in place, every \<open>Begin\<close> for it is refused, and no claims on it, old or new, pass a check.
  Only the loss of the database ends this.
\<close>

theorem revocation_permanent:
  assumes "takes_effect p r (Ev_revoke r l v) db" and "Ev_lost \<notin> set es" and "list_all closure_ok es"
    and "r = asset_resource (cl_asset_id c) \<or> r = file_resource canonical digest (cl_source_cid c)"
  shows "guard_of p r (db_run p (Ev_revoke r l v # es) db) = ''deleted'' \<and>
    \<not> is_ok (snd (state_begin p r l2 v2 (db_run p (Ev_revoke r l v # es) db))) \<and>
    state_check p canonical digest c l2 (db_run p (Ev_revoke r l v # es) db) \<noteq> Inr ()"
proof -
  have "db_step p (Ev_revoke r l v) db (guard_key p r) = Some ''deleted''"
    using assms(1) by (auto simp: call_effects)
  then have "db_run p es (db_step p (Ev_revoke r l v) db) (guard_key p r) = Some ''deleted''"
    by (rule revoked_run) (rule assms)+
  then have g: "db_run p (Ev_revoke r l v # es) db (guard_key p r) = Some ''deleted''" by simp
  then have "\<not> is_ok (snd (state_begin p r l2 v2 (db_run p (Ev_revoke r l v # es) db)))"
    by (auto simp: is_ok_iff state_begin_Inr)
  with g assms(4) show ?thesis by (auto simp: state_check_ok guard_of_def)
qed

theorem revocation_permanent_witness:
  "guard_of ''p:'' ''file:d'' (db_run ''p:'' [Ev_revoke ''file:d'' Link_up ''v1'', Ev_begin ''file:d'' Link_up ''v2'']
     example_redis) = ''deleted''"
  using revocation_permanent [of "''p:''" "''file:d''" Link_up "''v1''" example_redis
      "[Ev_begin ''file:d'' Link_up ''v2'']" example_claims Some "\<lambda>_. ''d''" Link_up "''v3''"]
  by (simp add: example_redis_def epoch_key_def file_resource_def)

text \<open>
  A mutation guard is a lock: after any history without data loss, no two writers that obtained a
  closure for the same resource are both active, and while one is, the guard still carries its value
  unless the resource was revoked under it, so the end of a mutation never releases another
  writer's guard.
\<close>

theorem writers_exclusive:
  assumes "Ev_lost \<notin> set es" and "list_all closure_ok es"
  shows "distinct (map fst (writers p es (\<lambda>_. None) [])) \<and>
    ((r, v) \<in> set (writers p es (\<lambda>_. None) []) \<longrightarrow>
      guard_of p r (db_run p es (\<lambda>_. None)) \<in> {v, ''deleted''} \<and>
      \<not> is_ok (snd (state_begin p r l w (db_run p es (\<lambda>_. None)))))"
proof -
  have "writers_inv p (\<lambda>_. None) []" by (simp add: writers_inv_def)
  from writers_run_inv [OF this assms]
  have inv: "writers_inv p (db_run p es (\<lambda>_. None)) (writers p es (\<lambda>_. None) [])" .
  have "guard_of p r (db_run p es (\<lambda>_. None)) \<in> {v, ''deleted''} \<and>
      \<not> is_ok (snd (state_begin p r l w (db_run p es (\<lambda>_. None))))"
    if "(r, v) \<in> set (writers p es (\<lambda>_. None) [])"
  proof -
    from that inv have "db_run p es (\<lambda>_. None) (guard_key p r) \<in> {Some v, Some ''deleted''}"
      by (auto simp: writers_inv_def)
    then show ?thesis by (auto simp: guard_of_def is_ok_iff state_begin_Inr)
  qed
  with inv show ?thesis by (simp add: writers_inv_def)
qed

theorem writers_exclusive_witness:
  "distinct (map fst (writers ''p:'' [Ev_init Link_up ''e'', Ev_begin ''a'' Link_up ''v1'', Ev_begin ''a'' Link_up ''v2'']
     (\<lambda>_. None) []))"
  using writers_exclusive [of "[Ev_init Link_up ''e'', Ev_begin ''a'' Link_up ''v1'', Ev_begin ''a'' Link_up ''v2'']" "''p:''"]
  by simp

end
