(* ===== verification/Go_Floats.thy ===== *)
theory Go_Floats
  imports Go_Strings Complex_Main
begin

text \<open>
  Go's \<open>float64\<close> as the sources use it. IEEE arithmetic itself is a parameter: a \<open>floats\<close> record holds
  \<open>strconv.ParseFloat\<close>, the comparisons, the arithmetic and the functions of package \<open>math\<close> the code
  calls, the conversions from and to \<open>int\<close>, decimal constants (\<open>fl_lit fl m k\<close> is the constant
  \<open>m / 10^k\<close>) and the fixed-point rendering \<open>%.nf\<close>. What a statement needs of them is named:
  \<open>float_order\<close> is the order of IEEE numbers, a NaN included.
\<close>

record 'f floats =
  fl_parse :: "string \<Rightarrow> 'f option"
  fl_is_nan :: "'f \<Rightarrow> bool"
  fl_less :: "'f \<Rightarrow> 'f \<Rightarrow> bool"
  fl_leq :: "'f \<Rightarrow> 'f \<Rightarrow> bool"
  fl_add :: "'f \<Rightarrow> 'f \<Rightarrow> 'f"
  fl_sub :: "'f \<Rightarrow> 'f \<Rightarrow> 'f"
  fl_mul :: "'f \<Rightarrow> 'f \<Rightarrow> 'f"
  fl_div :: "'f \<Rightarrow> 'f \<Rightarrow> 'f"
  fl_sqrt :: "'f \<Rightarrow> 'f"
  fl_min :: "'f \<Rightarrow> 'f \<Rightarrow> 'f"
  fl_max :: "'f \<Rightarrow> 'f \<Rightarrow> 'f"
  fl_round :: "'f \<Rightarrow> 'f"
  fl_floor :: "'f \<Rightarrow> 'f"
  fl_ceil :: "'f \<Rightarrow> 'f"
  fl_to_int :: "'f \<Rightarrow> int"
  fl_of_int :: "int \<Rightarrow> 'f"
  fl_lit :: "int \<Rightarrow> nat \<Rightarrow> 'f"
  fl_fixed :: "nat \<Rightarrow> 'f \<Rightarrow> string"

text \<open>
  The laws of the comparison: \<open>a < b\<close> is asymmetric and excludes \<open>b \<le> a\<close>, short decimal constants compare as
  the numbers they denote, and what is at most one of them is below every larger one. They hold for IEEE numbers (a NaN
  is below nothing and above nothing, and constants of this length are represented by different
  numbers in the right order).
\<close>

definition short_lit :: "int \<Rightarrow> nat \<Rightarrow> bool" where
  "short_lit m k \<longleftrightarrow> \<bar>m\<bar> \<le> 1000000 \<and> k \<le> 4"

definition float_order :: "'f floats \<Rightarrow> bool" where
  "float_order fl \<longleftrightarrow>
     (\<forall>a b. fl_less fl a b \<longrightarrow> \<not> fl_less fl b a \<and> \<not> fl_leq fl b a) \<and>
     (\<forall>m k. short_lit m k \<longrightarrow> fl_leq fl (fl_lit fl m k) (fl_lit fl m k)) \<and>
     (\<forall>m n j k. short_lit m j \<and> short_lit n k \<longrightarrow>
        (fl_less fl (fl_lit fl m j) (fl_lit fl n k) \<longleftrightarrow> m * 10 ^ k < n * 10 ^ j) \<and>
        (m * 10 ^ k < n * 10 ^ j \<longrightarrow> (\<forall>a. fl_leq fl a (fl_lit fl m j) \<longrightarrow> fl_less fl a (fl_lit fl n k))))"

text \<open>
  Rational numbers satisfy the laws. Exact arithmetic in place of the rounded one; numbers are read from
  digits only and there is no square root. It serves to evaluate the definitions on examples.
\<close>

definition rat_trunc :: "rat \<Rightarrow> int" where
  "rat_trunc x = (if x < 0 then - \<lfloor>- x\<rfloor> else \<lfloor>x\<rfloor>)"

definition rat_floats :: "rat floats" where
  "rat_floats = \<lparr>fl_parse = (\<lambda>s. map_option of_int (parse_int s)), fl_is_nan = (\<lambda>x. False),
     fl_less = (<), fl_leq = (\<le>), fl_add = (+), fl_sub = (-), fl_mul = (*), fl_div = (/), fl_sqrt = (\<lambda>x. x),
     fl_min = min, fl_max = max, fl_round = (\<lambda>x. of_int (if x < 0 then - \<lfloor>1 / 2 - x\<rfloor> else \<lfloor>x + 1 / 2\<rfloor>)),
     fl_floor = (\<lambda>x. of_int \<lfloor>x\<rfloor>), fl_ceil = (\<lambda>x. of_int \<lceil>x\<rceil>), fl_to_int = rat_trunc,
     fl_of_int = of_int, fl_lit = (\<lambda>m k. of_int m / 10 ^ k), fl_fixed = (\<lambda>n x. itoa \<lfloor>x * 10 ^ n\<rfloor>)\<rparr>"

lemma rat_floats_simps [simp]:
  "fl_is_nan rat_floats = (\<lambda>x. False)" "fl_less rat_floats = (<)" "fl_leq rat_floats = (\<le>)"
  "fl_add rat_floats = (+)" "fl_sub rat_floats = (-)" "fl_mul rat_floats = (*)" "fl_div rat_floats = (/)"
  "fl_min rat_floats = min" "fl_max rat_floats = max" "fl_of_int rat_floats = of_int"
  "fl_lit rat_floats = (\<lambda>m k. of_int m / 10 ^ k)" "fl_to_int rat_floats = rat_trunc"
  "fl_floor rat_floats = (\<lambda>x. of_int \<lfloor>x\<rfloor>)" "fl_ceil rat_floats = (\<lambda>x. of_int \<lceil>x\<rceil>)"
  "fl_parse rat_floats = (\<lambda>s. map_option of_int (parse_int s))"
  by (simp_all add: rat_floats_def)

lemma float_order_rat: "float_order rat_floats"
proof -
  have "of_int m / 10 ^ j < (of_int n / 10 ^ k :: rat) \<longleftrightarrow> m * 10 ^ k < n * 10 ^ j" for m n :: int and j k :: nat
  proof -
    have "of_int m / 10 ^ j < (of_int n / 10 ^ k :: rat) \<longleftrightarrow> (of_int m * 10 ^ k :: rat) < of_int n * 10 ^ j"
      by (simp add: field_simps)
    also have "\<dots> \<longleftrightarrow> (of_int (m * 10 ^ k) :: rat) < of_int (n * 10 ^ j)" by simp
    also have "\<dots> \<longleftrightarrow> m * 10 ^ k < n * 10 ^ j" by (simp only: of_int_less_iff)
    finally show ?thesis .
  qed
  then show ?thesis by (auto simp: float_order_def elim: le_less_trans)
qed

lemma float_orderD:
  "float_order fl \<Longrightarrow> fl_less fl a b \<Longrightarrow> \<not> fl_less fl b a"
  "float_order fl \<Longrightarrow> short_lit m j \<Longrightarrow> short_lit n k \<Longrightarrow> fl_less fl (fl_lit fl m j) (fl_lit fl n k) \<longleftrightarrow> m * 10 ^ k < n * 10 ^ j"
  "float_order fl \<Longrightarrow> short_lit m j \<Longrightarrow> short_lit n k \<Longrightarrow> m * 10 ^ k < n * 10 ^ j \<Longrightarrow> fl_leq fl a (fl_lit fl m j) \<Longrightarrow>
    fl_less fl a (fl_lit fl n k)"
  "float_order fl \<Longrightarrow> fl_less fl a b \<Longrightarrow> \<not> fl_leq fl b a"
  "float_order fl \<Longrightarrow> short_lit m k \<Longrightarrow> fl_leq fl (fl_lit fl m k) (fl_lit fl m k)"
  by (auto simp: float_order_def)

end
