(* ===== verification/Delivery_Crop.thy ===== *)
theory Delivery_Crop
  imports Go_Floats
begin

text \<open>
  \<open>internal/handler/delivery_crop.go\<close>: the part of a picture a link shows. Floating point is a parameter.
\<close>

record 'f crop =
  cr_x :: 'f
  cr_y :: 'f
  cr_w :: 'f
  cr_h :: 'f

definition crop_fallback_variant :: string where
  "crop_fallback_variant = ''fit_1024''"

definition crop_number :: "'f floats \<Rightarrow> string \<Rightarrow> 'f option" where
  "crop_number fl part = (case fl_parse fl (trim_space part) of
      None \<Rightarrow> None
    | Some n \<Rightarrow> if fl_is_nan fl n \<or> fl_less fl n (fl_lit fl 0 0) \<or> fl_less fl (fl_lit fl 1 0) n then None else Some n)"

fun crop_numbers :: "'f floats \<Rightarrow> string list \<Rightarrow> 'f list option" where
  "crop_numbers fl [] = Some []"
| "crop_numbers fl (p # ps) = (case crop_number fl p of
      None \<Rightarrow> None
    | Some n \<Rightarrow> map_option (Cons n) (crop_numbers fl ps))"

definition parse_delivery_crop :: "'f floats \<Rightarrow> string \<Rightarrow> 'f crop option" where
  "parse_delivery_crop fl value =
     (let v = trim_space value; parts = split_char CHR '','' v
      in if v = [] \<or> length parts \<noteq> 4 then None
         else (case crop_numbers fl parts of
             Some [x, y, w, h] \<Rightarrow>
               if fl_less fl w (fl_lit fl 2 2) \<or> fl_less fl h (fl_lit fl 2 2)
                  \<or> fl_less fl (fl_lit fl 10001 4) (fl_add fl x w) \<or> fl_less fl (fl_lit fl 10001 4) (fl_add fl y h)
               then None else Some \<lparr>cr_x = x, cr_y = y, cr_w = w, cr_h = h\<rparr>
           | _ \<Rightarrow> None))"

definition crop_key :: "'f floats \<Rightarrow> 'f crop \<Rightarrow> string" where
  "crop_key fl c = str_join '','' [fl_fixed fl 4 (cr_x c), fl_fixed fl 4 (cr_y c), fl_fixed fl 4 (cr_w c), fl_fixed fl 4 (cr_h c)]"

lemma parse_delivery_crop_bounds:
  assumes "parse_delivery_crop fl value = Some c"
  shows "\<not> fl_less fl (cr_w c) (fl_lit fl 2 2) \<and> \<not> fl_less fl (cr_h c) (fl_lit fl 2 2) \<and>
    \<not> fl_less fl (fl_lit fl 10001 4) (fl_add fl (cr_x c) (cr_w c)) \<and>
    \<not> fl_less fl (fl_lit fl 10001 4) (fl_add fl (cr_y c) (cr_h c)) \<and>
    list_all (\<lambda>n. \<not> fl_is_nan fl n \<and> \<not> fl_less fl n (fl_lit fl 0 0) \<and> \<not> fl_less fl (fl_lit fl 1 0) n) [cr_x c, cr_y c, cr_w c, cr_h c]"
proof -
  have nums: "crop_numbers fl ps = Some ns \<Longrightarrow>
      list_all (\<lambda>n. \<not> fl_is_nan fl n \<and> \<not> fl_less fl n (fl_lit fl 0 0) \<and> \<not> fl_less fl (fl_lit fl 1 0) n) ns" for ps ns
    by (induction ps arbitrary: ns) (auto simp: crop_number_def split: option.splits if_splits)
  from assms obtain x y w h where
    n: "crop_numbers fl (split_char CHR '','' (trim_space value)) = Some [x, y, w, h]"
    and c: "c = \<lparr>cr_x = x, cr_y = y, cr_w = w, cr_h = h\<rparr>"
    and ok: "\<not> (fl_less fl w (fl_lit fl 2 2) \<or> fl_less fl h (fl_lit fl 2 2)
                  \<or> fl_less fl (fl_lit fl 10001 4) (fl_add fl x w) \<or> fl_less fl (fl_lit fl 10001 4) (fl_add fl y h))"
    by (auto simp: parse_delivery_crop_def Let_def split: if_splits option.splits list.splits)
  from nums [OF n] ok show ?thesis by (simp add: c)
qed

end
