(* ===== verification/Config.thy ===== *)
theory Config
  imports Go_Floats
begin

text \<open>
  The configuration, \<open>internal/config/config.go\<close>. The process environment is a function from names to
  values (empty when unset, as \<open>os.Getenv\<close> has it); \<open>time.ParseDuration\<close> and the floating point numbers
  are parameters. Warnings on standard error are left out. Durations are nanoseconds.
\<close>

section \<open>The records\<close>

record server_config =
  sc_port :: string

record media_grant_config =
  mg_enabled :: bool
  mg_active_key :: string
  mg_audience :: string
  mg_keys :: string
  mg_redis_url :: string
  mg_namespace :: string

record ipfs_config =
  ip_local_url :: string
  ip_cluster_nodes :: "string list"
  ip_manifest_cache_bytes :: int
  ip_file_cache_bytes :: int

record api_config =
  ap_keys :: "string list"

record upload_config =
  up_max_file_size :: int
  up_max_request_size :: int
  up_daily_bytes_per_session :: int
  up_allowed_extensions :: "string list"
  up_allowed_mime_types :: "(string, bool) gomap"

record image_variant =
  iv_key :: string
  iv_width :: int
  iv_height :: int
  iv_mode :: string

definition privacy_blur_variant_key :: string where "privacy_blur_variant_key = ''blur''"
definition privacy_face_blur_variant_key :: string where "privacy_face_blur_variant_key = ''blur_faces''"

record 'f image_privacy_config =
  pv_blur_radius :: int
  pv_face_blur_radius :: int
  pv_face_detection_max_dimension :: int
  pv_face_detection_score_threshold :: 'f
  pv_face_detection_nms_threshold :: 'f

record 'f image_config =
  ic_processing_enabled :: bool
  ic_variants :: "image_variant list"
  ic_output_format :: string
  ic_jpeg_progressive :: bool
  ic_jpeg_quality :: int
  ic_webp_quality :: int
  ic_resize_policy :: string
  ic_privacy :: "'f image_privacy_config"

record pinning_config =
  pn_retries :: int
  pn_retry_delay_ms :: int

record unpin_config =
  un_ttl :: int
  un_gc_interval :: int
  un_store_path :: string

record cors_config =
  co_allowed_origins :: "string list"
  co_allowed_headers :: "string list"

record 'f video_config =
  vc_max_duration_sec :: int
  vc_max_size_bytes :: int
  vc_segment_duration_sec :: int
  vc_bitrates :: "string list"
  vc_ffmpeg_path :: string
  vc_ffprobe_path :: string
  vc_temp_dir :: string
  vc_thumbnail_variants :: "image_variant list"
  vc_thumbnail_time_sec :: 'f
  vc_thumbnail_qscale :: int

record auth_config =
  au_lua_script :: string
  au_lua_timeout_ms :: int
  au_lua_env_whitelist :: string
  au_lua_max_memory_mb :: int

record access_config =
  ac_allow_unmanaged :: bool
  ac_url :: string
  ac_link_url :: string
  ac_timeout_ms :: int

record 'f rate_limit_config =
  rl_rps :: 'f
  rl_burst :: int

record 'f config =
  cf_server :: server_config
  cf_ipfs :: ipfs_config
  cf_api :: api_config
  cf_upload :: upload_config
  cf_image :: "'f image_config"
  cf_pinning :: pinning_config
  cf_unpin :: unpin_config
  cf_cors :: cors_config
  cf_video :: "'f video_config"
  cf_auth :: auth_config
  cf_media_access :: access_config
  cf_media_grants :: media_grant_config
  cf_rate_limit :: "'f rate_limit_config"

section \<open>Reading variables\<close>

type_synonym environment = "string \<Rightarrow> string"

definition get_env :: "environment \<Rightarrow> string \<Rightarrow> string \<Rightarrow> string" where
  "get_env env key def = (if env key \<noteq> [] then env key else def)"

definition get_env_slice :: "environment \<Rightarrow> string \<Rightarrow> string list \<Rightarrow> string list" where
  "get_env_slice env key def =
     (if env key = [] then def
      else filter (\<lambda>s. s \<noteq> []) (map trim_space (split_char CHR '','' (env key))))"

text \<open>One entry of a list of sizes: \<open>fit_N\<close> or \<open>WxH\<close>; \<open>None\<close> makes the caller fall back to its default.\<close>

definition parse_variant :: "string \<Rightarrow> image_variant option" where
  "parse_variant raw =
     (let part = to_lower (trim_space raw)
      in if has_prefix part ''fit_'' then
           (case parse_int (trim_prefix part ''fit_'') of
              None \<Rightarrow> None
            | Some side \<Rightarrow>
                if side \<le> 0 then None
                else Some \<lparr>iv_key = ''fit_'' @ itoa side, iv_width = side, iv_height = side, iv_mode = ''fit''\<rparr>)
         else (case split_char CHR ''x'' part of
             [ws, hs] \<Rightarrow> (case (parse_int ws, parse_int hs) of
                 (Some w, Some h) \<Rightarrow>
                   if w \<le> 0 \<or> h \<le> 0 then None
                   else Some \<lparr>iv_key = itoa w @ ''x'' @ itoa h, iv_width = w, iv_height = h, iv_mode = []\<rparr>
               | _ \<Rightarrow> None)
           | _ \<Rightarrow> None))"

fun parse_variants :: "string list \<Rightarrow> image_variant list option" where
  "parse_variants [] = Some []"
| "parse_variants (p # ps) = (case parse_variant p of
      None \<Rightarrow> None
    | Some v \<Rightarrow> map_option (Cons v) (parse_variants ps))"

definition get_env_image_variants :: "environment \<Rightarrow> string \<Rightarrow> image_variant list \<Rightarrow> image_variant list" where
  "get_env_image_variants env key def =
     (let parts = get_env_slice env key []
      in if parts = [] then def
         else (case parse_variants parts of None \<Rightarrow> def | Some vs \<Rightarrow> vs))"

definition validate_choice :: "string \<Rightarrow> string list \<Rightarrow> string \<Rightarrow> string" where
  "validate_choice v allowed def =
     (let choice = to_lower (trim_space v) in if choice \<in> set allowed then choice else def)"

definition clamp_int :: "int \<Rightarrow> int \<Rightarrow> int \<Rightarrow> int" where
  "clamp_int v lo hi = (if v < lo then lo else if v > hi then hi else v)"

definition clamp_float :: "'f floats \<Rightarrow> 'f \<Rightarrow> 'f \<Rightarrow> 'f \<Rightarrow> 'f" where
  "clamp_float fl v lo hi = (if fl_less fl v lo then lo else if fl_less fl hi v then hi else v)"

text \<open>\<open>strconv.ParseBool\<close>.\<close>

definition parse_bool :: "string \<Rightarrow> bool option" where
  "parse_bool s =
     (if s \<in> {''1'', ''t'', ''T'', ''TRUE'', ''true'', ''True''} then Some True
      else if s \<in> {''0'', ''f'', ''F'', ''FALSE'', ''false'', ''False''} then Some False else None)"

text \<open>The four readers that parse: an unset or unreadable variable gives the default.\<close>

definition get_env_parsed :: "(string \<Rightarrow> 'a option) \<Rightarrow> environment \<Rightarrow> string \<Rightarrow> 'a \<Rightarrow> 'a" where
  "get_env_parsed parse env key def =
     (if env key = [] then def else (case parse (env key) of None \<Rightarrow> def | Some x \<Rightarrow> x))"

definition get_env_bool :: "environment \<Rightarrow> string \<Rightarrow> bool \<Rightarrow> bool" where
  "get_env_bool env key def = get_env_parsed parse_bool env key def"

definition get_env_int :: "environment \<Rightarrow> string \<Rightarrow> int \<Rightarrow> int" where
  "get_env_int env key def = get_env_parsed parse_int env key def"

definition get_env_int64 :: "environment \<Rightarrow> string \<Rightarrow> int \<Rightarrow> int" where
  "get_env_int64 env key def = get_env_parsed parse_int env key def"

definition get_env_duration :: "(string \<Rightarrow> int option) \<Rightarrow> environment \<Rightarrow> string \<Rightarrow> int \<Rightarrow> int" where
  "get_env_duration parse_duration env key def = get_env_parsed parse_duration env key def"

definition get_env_float :: "'f floats \<Rightarrow> environment \<Rightarrow> string \<Rightarrow> 'f \<Rightarrow> 'f" where
  "get_env_float fl env key def = get_env_parsed (fl_parse fl) env key def"

definition validate_binary_path :: "string \<Rightarrow> string \<Rightarrow> string" where
  "validate_binary_path path def = (if path = [] \<or> str_contains path ''..'' then def else path)"

section \<open>Privacy settings\<close>

definition default_image_privacy_config :: "'f floats \<Rightarrow> 'f image_privacy_config" where
  "default_image_privacy_config fl =
     \<lparr>pv_blur_radius = 24, pv_face_blur_radius = 16, pv_face_detection_max_dimension = 1280,
      pv_face_detection_score_threshold = fl_lit fl 8 1, pv_face_detection_nms_threshold = fl_lit fl 3 1\<rparr>"

definition normalize_image_privacy_config :: "'f floats \<Rightarrow> 'f image_privacy_config \<Rightarrow> 'f image_privacy_config" where
  "normalize_image_privacy_config fl v =
     (let d = default_image_privacy_config fl; zero = fl_lit fl 0 0;
          score = (if fl_leq fl (pv_face_detection_score_threshold v) zero then pv_face_detection_score_threshold d
                   else pv_face_detection_score_threshold v);
          nms = (if fl_leq fl (pv_face_detection_nms_threshold v) zero then pv_face_detection_nms_threshold d
                 else pv_face_detection_nms_threshold v)
      in \<lparr>pv_blur_radius = (if pv_blur_radius v \<le> 0 then pv_blur_radius d else pv_blur_radius v),
          pv_face_blur_radius = (if pv_face_blur_radius v \<le> 0 then pv_face_blur_radius d else pv_face_blur_radius v),
          pv_face_detection_max_dimension =
            (if pv_face_detection_max_dimension v \<le> 0 then pv_face_detection_max_dimension d
             else pv_face_detection_max_dimension v),
          pv_face_detection_score_threshold = clamp_float fl score (fl_lit fl 1 1) (fl_lit fl 99 2),
          pv_face_detection_nms_threshold = clamp_float fl nms (fl_lit fl 1 1) (fl_lit fl 99 2)\<rparr>)"

section \<open>Loading\<close>

definition size_variant :: "int \<Rightarrow> int \<Rightarrow> image_variant" where
  "size_variant w h = \<lparr>iv_key = itoa w @ ''x'' @ itoa h, iv_width = w, iv_height = h, iv_mode = []\<rparr>"

definition fit_variant :: "int \<Rightarrow> image_variant" where
  "fit_variant side = \<lparr>iv_key = ''fit_'' @ itoa side, iv_width = side, iv_height = side, iv_mode = ''fit''\<rparr>"

definition load_ipfs :: "environment \<Rightarrow> ipfs_config" where
  "load_ipfs env =
     \<lparr>ip_local_url = get_env env ''IPFS_URL'' ''http://localhost:5001'',
      ip_cluster_nodes = get_env_slice env ''CLUSTER_NODES'' [''http://localhost:5001''],
      ip_manifest_cache_bytes = get_env_int env ''IPFS_MANIFEST_CACHE_BYTES'' (8 * 2 ^ 20),
      ip_file_cache_bytes = get_env_int env ''IPFS_FILE_CACHE_BYTES'' 0\<rparr>"

definition allowed_mime_types :: "string list" where
  "allowed_mime_types =
     [''image/png'', ''image/jpeg'', ''image/webp'', ''image/heic'', ''image/heif'', ''image/heic-sequence'',
      ''image/heif-sequence'', ''application/pdf'', ''application/msword'',
      ''application/vnd.openxmlformats-officedocument.wordprocessingml.document'', ''application/zip'',
      ''application/json'', ''application/octet-stream'', ''text/plain'', ''text/plain; charset=utf-8'',
      ''video/mp4'', ''video/quicktime'', ''video/webm'', ''video/x-msvideo'', ''video/x-matroska'']"

definition load_upload :: "environment \<Rightarrow> upload_config" where
  "load_upload env =
     \<lparr>up_max_file_size = get_env_int64 env ''UPLOAD_MAX_FILE_SIZE'' (10 * 1024 * 1024),
      up_max_request_size = get_env_int64 env ''UPLOAD_MAX_REQUEST_SIZE'' 0,
      up_daily_bytes_per_session = get_env_int64 env ''UPLOAD_DAILY_BYTES_PER_SESSION'' (4 * 1024 * 1024 * 1024),
      up_allowed_extensions = get_env_slice env ''UPLOAD_ALLOWED_EXTENSIONS''
        [''png'', ''jpg'', ''jpeg'', ''webp'', ''heic'', ''heif'', ''pdf'', ''doc'', ''docx'', ''zip'', ''json'', ''txt'',
         ''mp4'', ''mov'', ''webm'', ''avi'', ''mkv''],
      up_allowed_mime_types = map (\<lambda>t. (t, True)) allowed_mime_types\<rparr>"

definition load_image :: "'f floats \<Rightarrow> environment \<Rightarrow> 'f image_config" where
  "load_image fl env =
     \<lparr>ic_processing_enabled = get_env_bool env ''IMAGE_PROCESSING_ENABLED'' True,
      ic_variants = get_env_image_variants env ''IMAGE_VARIANTS''
        [size_variant 100 100, size_variant 320 320, size_variant 480 640, size_variant 640 640,
         size_variant 768 1024, size_variant 1024 1024, fit_variant 480, fit_variant 1024],
      ic_output_format = validate_choice (get_env env ''IMAGE_OUTPUT_FORMAT'' ''auto'') [''auto'', ''jpeg'', ''webp''] ''auto'',
      ic_jpeg_progressive = get_env_bool env ''IMAGE_JPEG_PROGRESSIVE'' True,
      ic_jpeg_quality = clamp_int (get_env_int env ''IMAGE_JPEG_QUALITY'' 82) 1 100,
      ic_webp_quality = clamp_int (get_env_int env ''IMAGE_WEBP_QUALITY'' 82) 1 100,
      ic_resize_policy = validate_choice (get_env env ''IMAGE_RESIZE_POLICY'' ''smart-cover'')
        [''fit'', ''cover-center'', ''smart-cover''] ''smart-cover'',
      ic_privacy =
        \<lparr>pv_blur_radius = clamp_int (get_env_int env ''IMAGE_BLUR_RADIUS'' 24) 1 64,
         pv_face_blur_radius = clamp_int (get_env_int env ''IMAGE_FACE_BLUR_RADIUS'' 16) 1 64,
         pv_face_detection_max_dimension = clamp_int (get_env_int env ''IMAGE_FACE_DETECTION_MAX_DIMENSION'' 1280) 128 4096,
         pv_face_detection_score_threshold = clamp_float fl
           (get_env_float fl env ''IMAGE_FACE_DETECTION_SCORE_THRESHOLD'' (fl_lit fl 8 1)) (fl_lit fl 1 1) (fl_lit fl 99 2),
         pv_face_detection_nms_threshold = clamp_float fl
           (get_env_float fl env ''IMAGE_FACE_DETECTION_NMS_THRESHOLD'' (fl_lit fl 3 1)) (fl_lit fl 1 1) (fl_lit fl 99 2)\<rparr>\<rparr>"

definition load_video :: "'f floats \<Rightarrow> environment \<Rightarrow> 'f video_config" where
  "load_video fl env =
     \<lparr>vc_max_duration_sec = get_env_int env ''VIDEO_MAX_DURATION_SEC'' 2400,
      vc_max_size_bytes = int64 (int64 (get_env_int64 env ''VIDEO_MAX_SIZE_MB'' 1024 * 1024) * 1024),
      vc_segment_duration_sec = get_env_int env ''VIDEO_SEGMENT_DURATION_SEC'' 4,
      vc_bitrates = get_env_slice env ''VIDEO_BITRATES'' [''500k'', ''1500k'', ''4000k''],
      vc_ffmpeg_path = validate_binary_path (get_env env ''FFMPEG_PATH'' ''ffmpeg'') ''ffmpeg'',
      vc_ffprobe_path = validate_binary_path (get_env env ''FFPROBE_PATH'' ''ffprobe'') ''ffprobe'',
      vc_temp_dir = get_env env ''VIDEO_TEMP_DIR'' ''/tmp/video_processing'',
      vc_thumbnail_variants = get_env_image_variants env ''VIDEO_THUMBNAIL_VARIANTS''
        [size_variant 180 320, size_variant 360 640, size_variant 720 1280],
      vc_thumbnail_time_sec = get_env_float fl env ''VIDEO_THUMBNAIL_TIME_SEC'' (fl_lit fl 1 0),
      vc_thumbnail_qscale = clamp_int (get_env_int env ''VIDEO_THUMBNAIL_QSCALE'' 3) 1 31\<rparr>"

definition nanoseconds_per_hour :: int where
  "nanoseconds_per_hour = 3600 * 1000000000"

definition load :: "'f floats \<Rightarrow> (string \<Rightarrow> int option) \<Rightarrow> environment \<Rightarrow> 'f config" where
  "load fl parse_duration env =
     \<lparr>cf_server = \<lparr>sc_port = get_env env ''SERVER_PORT'' ''3000''\<rparr>,
      cf_ipfs = load_ipfs env,
      cf_api = \<lparr>ap_keys = get_env_slice env ''API_KEYS'' []\<rparr>,
      cf_upload = load_upload env,
      cf_image = load_image fl env,
      cf_pinning = \<lparr>pn_retries = get_env_int env ''PINNING_RETRIES'' 3,
        pn_retry_delay_ms = get_env_int env ''PINNING_RETRY_DELAY_MS'' 1000\<rparr>,
      cf_unpin = \<lparr>un_ttl = get_env_duration parse_duration env ''UNPIN_TTL'' (24 * nanoseconds_per_hour),
        un_gc_interval = get_env_duration parse_duration env ''UNPIN_GC_INTERVAL'' nanoseconds_per_hour,
        un_store_path = get_env env ''UNPIN_STORE_PATH'' ''/data/unpin-store.json''\<rparr>,
      cf_cors = \<lparr>co_allowed_origins = get_env_slice env ''CORS_ALLOWED_ORIGINS'' [],
        co_allowed_headers = get_env_slice env ''CORS_ALLOWED_HEADERS''
          [''Origin'', ''X-Requested-With'', ''Content-Type'', ''Accept'', ''X-API-Key'']\<rparr>,
      cf_video = load_video fl env,
      cf_auth = \<lparr>au_lua_script = get_env env ''AUTH_LUA_SCRIPT'' [],
        au_lua_timeout_ms = get_env_int env ''AUTH_LUA_TIMEOUT_MS'' 3000,
        au_lua_env_whitelist = get_env env ''AUTH_LUA_ENV_WHITELIST'' ''AUTH_SERVICE_URL'',
        au_lua_max_memory_mb = get_env_int env ''AUTH_LUA_MAX_MEMORY_MB'' 32\<rparr>,
      cf_media_access = \<lparr>ac_allow_unmanaged = get_env_bool env ''MEDIA_ALLOW_UNMANAGED'' False,
        ac_url = get_env env ''MEDIA_ACCESS_URL'' [],
        ac_link_url = get_env env ''MEDIA_LINK_ACCESS_URL'' [],
        ac_timeout_ms = clamp_int (get_env_int env ''MEDIA_ACCESS_TIMEOUT_MS'' 2500) 100 30000\<rparr>,
      cf_media_grants = \<lparr>mg_enabled = get_env_bool env ''MEDIA_GRANTS_ENABLED'' False,
        mg_active_key = get_env env ''MEDIA_GRANT_ACTIVE_KEY'' [],
        mg_audience = get_env env ''MEDIA_GRANT_AUDIENCE'' [],
        mg_keys = get_env env ''MEDIA_GRANT_KEYS'' [],
        mg_redis_url = get_env env ''MEDIA_GRANT_REDIS_URL'' [],
        mg_namespace = get_env env ''MEDIA_GRANT_NAMESPACE'' []\<rparr>,
      cf_rate_limit = \<lparr>rl_rps = get_env_float fl env ''RATE_LIMIT_RPS'' (fl_lit fl 100 0),
        rl_burst = get_env_int env ''RATE_LIMIT_BURST'' 200\<rparr>\<rparr>"

section \<open>Facts\<close>

lemma clamp_int_range: "lo \<le> hi \<Longrightarrow> clamp_int v lo hi \<in> {lo..hi}"
  by (simp add: clamp_int_def)

lemma clamp_float_range:
  assumes "float_order fl" "\<not> fl_less fl hi lo" "\<not> fl_less fl lo lo" "\<not> fl_less fl hi hi"
  shows "\<not> fl_less fl (clamp_float fl v lo hi) lo \<and> \<not> fl_less fl hi (clamp_float fl v lo hi)"
  using assms by (auto simp: clamp_float_def dest: float_orderD(1))

lemma validate_choice_allowed: "def \<in> set allowed \<Longrightarrow> validate_choice v allowed def \<in> set allowed"
  by (simp add: validate_choice_def Let_def)

lemma validate_binary_path_safe:
  "def \<noteq> [] \<Longrightarrow> \<not> str_contains def ''..'' \<Longrightarrow>
    validate_binary_path path def \<noteq> [] \<and> \<not> str_contains (validate_binary_path path def) ''..''"
  by (simp add: validate_binary_path_def)

text \<open>A size as the list of sizes can describe it: positive and with the key that names it.\<close>

definition variant_ok :: "image_variant \<Rightarrow> bool" where
  "variant_ok v \<longleftrightarrow> 0 < iv_width v \<and> 0 < iv_height v \<and>
     (v = size_variant (iv_width v) (iv_height v) \<or> v = fit_variant (iv_width v))"

lemma parse_variant_ok: "parse_variant p = Some v \<Longrightarrow> variant_ok v"
  by (auto simp: parse_variant_def variant_ok_def size_variant_def fit_variant_def Let_def split: if_splits option.splits list.splits)

lemma parse_variants_ok: "parse_variants ps = Some vs \<Longrightarrow> list_all variant_ok vs"
  by (induction ps arbitrary: vs) (auto split: option.splits dest: parse_variant_ok)

lemma get_env_image_variants_ok: "list_all variant_ok def \<Longrightarrow> list_all variant_ok (get_env_image_variants env key def)"
  by (auto simp: get_env_image_variants_def Let_def split: option.splits dest: parse_variants_ok)

lemma size_variant_ok: "0 < w \<Longrightarrow> 0 < h \<Longrightarrow> variant_ok (size_variant w h)"
  by (simp add: variant_ok_def size_variant_def)

lemma fit_variant_ok: "0 < n \<Longrightarrow> variant_ok (fit_variant n)"
  by (simp add: variant_ok_def fit_variant_def)

text \<open>The thresholds of the detector stay between 0.1 and 0.99, a NaN apart.\<close>

lemma clamp_threshold:
  assumes "float_order fl"
  shows "\<not> fl_less fl (clamp_float fl v (fl_lit fl 1 1) (fl_lit fl 99 2)) (fl_lit fl 1 1)"
    and "\<not> fl_less fl (fl_lit fl 99 2) (clamp_float fl v (fl_lit fl 1 1) (fl_lit fl 99 2))"
    and "\<not> fl_leq fl (clamp_float fl v (fl_lit fl 1 1) (fl_lit fl 99 2)) (fl_lit fl 0 0)"
proof -
  have s: "short_lit 1 1" "short_lit 99 2" "short_lit 0 0" by (simp_all add: short_lit_def)
  show a: "\<not> fl_less fl (clamp_float fl v (fl_lit fl 1 1) (fl_lit fl 99 2)) (fl_lit fl 1 1)"
    using assms s by (simp add: clamp_float_def float_orderD(2))
  show "\<not> fl_less fl (fl_lit fl 99 2) (clamp_float fl v (fl_lit fl 1 1) (fl_lit fl 99 2))"
    using assms s by (simp add: clamp_float_def float_orderD(2))
  show "\<not> fl_leq fl (clamp_float fl v (fl_lit fl 1 1) (fl_lit fl 99 2)) (fl_lit fl 0 0)"
    using a float_orderD(3) [OF assms s(3) s(1)] by auto
qed

lemma clamp_float_again:
  "\<not> fl_less fl v lo \<Longrightarrow> \<not> fl_less fl hi v \<Longrightarrow> clamp_float fl v lo hi = v"
  by (simp add: clamp_float_def)

definition privacy_ok :: "'f floats \<Rightarrow> 'f image_privacy_config \<Rightarrow> bool" where
  "privacy_ok fl p \<longleftrightarrow> pv_blur_radius p \<in> {1..64} \<and> pv_face_blur_radius p \<in> {1..64} \<and>
     pv_face_detection_max_dimension p \<in> {128..4096} \<and>
     \<not> fl_less fl (pv_face_detection_score_threshold p) (fl_lit fl 1 1) \<and>
     \<not> fl_less fl (fl_lit fl 99 2) (pv_face_detection_score_threshold p) \<and>
     \<not> fl_less fl (pv_face_detection_nms_threshold p) (fl_lit fl 1 1) \<and>
     \<not> fl_less fl (fl_lit fl 99 2) (pv_face_detection_nms_threshold p)"

definition image_ok :: "'f floats \<Rightarrow> 'f image_config \<Rightarrow> bool" where
  "image_ok fl i \<longleftrightarrow> list_all variant_ok (ic_variants i) \<and> ic_output_format i \<in> {''auto'', ''jpeg'', ''webp''} \<and>
     ic_resize_policy i \<in> {''fit'', ''cover-center'', ''smart-cover''} \<and>
     ic_jpeg_quality i \<in> {1..100} \<and> ic_webp_quality i \<in> {1..100} \<and> privacy_ok fl (ic_privacy i)"

definition video_ok :: "'f video_config \<Rightarrow> bool" where
  "video_ok v \<longleftrightarrow> list_all variant_ok (vc_thumbnail_variants v) \<and> vc_thumbnail_qscale v \<in> {1..31} \<and>
     vc_temp_dir v \<noteq> [] \<and> vc_ffmpeg_path v \<noteq> [] \<and> vc_ffprobe_path v \<noteq> [] \<and>
     \<not> str_contains (vc_ffmpeg_path v) ''..'' \<and> \<not> str_contains (vc_ffprobe_path v) ''..''"

lemma normalize_loaded:
  assumes "float_order fl" and "privacy_ok fl p"
  shows "normalize_image_privacy_config fl p = p"
proof -
  have s: "short_lit 1 1" "short_lit 0 0" by (simp_all add: short_lit_def)
  from assms(2) float_orderD(3) [OF assms(1) s(2,1)]
  have "\<not> fl_leq fl (pv_face_detection_score_threshold p) (fl_lit fl 0 0)"
    "\<not> fl_leq fl (pv_face_detection_nms_threshold p) (fl_lit fl 0 0)" by (auto simp: privacy_ok_def)
  with assms(2) show ?thesis
    by (simp add: normalize_image_privacy_config_def privacy_ok_def clamp_float_again Let_def)
qed

lemma load_image_ok: "float_order fl \<Longrightarrow> image_ok fl (load_image fl env)"
proof -
  assume fl: "float_order fl"
  have v: "list_all variant_ok [size_variant 100 100, size_variant 320 320, size_variant 480 640, size_variant 640 640,
         size_variant 768 1024, size_variant 1024 1024, fit_variant 480, fit_variant 1024]"
    by (simp add: size_variant_ok fit_variant_ok)
  have f: "validate_choice x [''auto'', ''jpeg'', ''webp''] ''auto'' \<in> {''auto'', ''jpeg'', ''webp''}"
    "validate_choice x [''fit'', ''cover-center'', ''smart-cover''] ''smart-cover'' \<in> {''fit'', ''cover-center'', ''smart-cover''}" for x
    using validate_choice_allowed [of "''auto''" "[''auto'', ''jpeg'', ''webp'']" x]
      validate_choice_allowed [of "''smart-cover''" "[''fit'', ''cover-center'', ''smart-cover'']" x] by simp_all
  have "privacy_ok fl (ic_privacy (load_image fl env))"
    using clamp_int_range [of 1 64] clamp_int_range [of 128 4096] clamp_threshold [OF fl]
    by (simp add: privacy_ok_def load_image_def)
  with get_env_image_variants_ok [OF v] f clamp_int_range [of 1 100] show ?thesis
    by (simp add: image_ok_def load_image_def)
qed

lemma load_video_ok: "video_ok (load_video fl env)"
proof -
  have "list_all variant_ok [size_variant 180 320, size_variant 360 640, size_variant 720 1280]"
    by (simp add: size_variant_ok)
  moreover have "\<not> str_contains ''ffmpeg'' ''..''" "\<not> str_contains ''ffprobe'' ''..''" by (simp_all add: str_contains_def)
  ultimately show ?thesis
    using validate_binary_path_safe [of "''ffmpeg''"] validate_binary_path_safe [of "''ffprobe''"] clamp_int_range [of 1 31]
    by (simp add: video_ok_def load_video_def get_env_image_variants_ok get_env_def)
qed

section \<open>Properties\<close>

text \<open>
  C26: whatever the environment holds, the configuration is in range. Sizes are positive and carry the key
  that names them, output format and resize policy are known ones, qualities, radii, thresholds, the
  thumbnail scale and the policy timeout are clamped, program paths do not climb directories, HTML and
  SVG are not among the accepted types, and the privacy settings need no further normalisation.
\<close>

theorem load_in_range:
  assumes "float_order fl"
  shows "image_ok fl (cf_image (load fl pd env)) \<and> video_ok (cf_video (load fl pd env)) \<and>
    normalize_image_privacy_config fl (ic_privacy (cf_image (load fl pd env))) = ic_privacy (cf_image (load fl pd env)) \<and>
    ac_timeout_ms (cf_media_access (load fl pd env)) \<in> {100..30000} \<and>
    sc_port (cf_server (load fl pd env)) \<noteq> [] \<and> un_store_path (cf_unpin (load fl pd env)) \<noteq> [] \<and>
    map_of (up_allowed_mime_types (cf_upload (load fl pd env))) ''text/html'' = None \<and>
    map_of (up_allowed_mime_types (cf_upload (load fl pd env))) ''image/svg+xml'' = None"
proof -
  have i: "image_ok fl (load_image fl env)" by (rule load_image_ok [OF assms])
  then have "privacy_ok fl (ic_privacy (load_image fl env))" by (simp add: image_ok_def)
  from normalize_loaded [OF assms this] i load_video_ok [of fl env] clamp_int_range [of 100 30000]
  show ?thesis by (simp add: load_def load_upload_def allowed_mime_types_def get_env_def)
qed

theorem load_in_range_witness:
  "ac_timeout_ms (cf_media_access (load rat_floats (\<lambda>s. None) (\<lambda>k. ''9''))) = 100 \<and>
   image_ok rat_floats (cf_image (load rat_floats (\<lambda>s. None) (\<lambda>k. ''9'')))"
  using load_in_range [OF float_order_rat, of "\<lambda>s. None" "\<lambda>k. ''9''"]
  by (simp add: load_def get_env_int_def get_env_parsed_def clamp_int_def parse_int_def is_digit_def)

text \<open>Keys of sizes contain digits, \<open>x\<close>, \<open>_\<close> and the letters of \<open>fit\<close> only.\<close>

definition key_char :: "char \<Rightarrow> bool" where
  "key_char c \<longleftrightarrow> is_digit c \<or> c \<in> {CHR ''x'', CHR ''_'', CHR ''f'', CHR ''i'', CHR ''t''}"

lemma key_char_plain: "key_char c \<Longrightarrow> plain_char c \<and> lower_char c = c \<and> c \<noteq> CHR '','' \<and> (of_char c :: nat) < 128"
  by (auto simp: key_char_def is_digit_def plain_char_def ascii_space_def lower_char_def)

lemma to_lower_keys: "list_all key_char s \<Longrightarrow> to_lower s = s"
proof (induction s)
  case (Cons c s)
  then have "lower_char c = c" "(of_char c :: nat) < 128" using key_char_plain by auto
  with Cons show ?case by auto
qed simp

lemma itoa_keys: "0 < i \<Longrightarrow> list_all is_digit (itoa i)"
  by (auto simp: itoa_def list_all_iff dest: nat_digits_are_digits)

lemma itoa_nonempty [simp]: "itoa i \<noteq> []"
  by (simp add: itoa_def)

definition representable :: "image_variant \<Rightarrow> bool" where
  "representable v \<longleftrightarrow> variant_ok v \<and> iv_width v < 2 ^ 63 \<and> iv_height v < 2 ^ 63"

lemma key_of_variant: "variant_ok v \<Longrightarrow> list_all key_char (iv_key v) \<and> iv_key v \<noteq> []"
proof -
  assume v: "variant_ok v"
  have d: "list_all key_char (itoa (iv_width v))" "list_all key_char (itoa (iv_height v))"
    using v itoa_keys [of "iv_width v"] itoa_keys [of "iv_height v"] by (auto simp: variant_ok_def list_all_iff key_char_def)
  from v have "iv_key v = itoa (iv_width v) @ ''x'' @ itoa (iv_height v) \<or> iv_key v = ''fit_'' @ itoa (iv_width v)"
    by (metis fit_variant_def image_variant.select_convs(1) size_variant_def variant_ok_def)
  with d show ?thesis by (auto simp: key_char_def)
qed

lemma x_no_digit: "\<not> is_digit CHR ''x''" "\<not> is_digit CHR ''f''"
  by (simp_all add: is_digit_def)

lemma parse_variant_key: "representable v \<Longrightarrow> parse_variant (iv_key v) = Some v"
proof -
  assume r: "representable v"
  then have v: "variant_ok v" and w: "0 < iv_width v" "iv_width v < 2 ^ 63" "0 < iv_height v" "iv_height v < 2 ^ 63"
    by (auto simp: representable_def variant_ok_def)
  have t: "to_lower (trim_space (iv_key v)) = iv_key v"
    using key_of_variant [OF v] by (auto simp: list_all_iff key_char_plain intro!: to_lower_keys trim_space_plain_all)
      (metis key_char_plain list_all_iff to_lower_keys trim_space_plain_all)
  from v consider (sized) "v = size_variant (iv_width v) (iv_height v)" | (fitted) "v = fit_variant (iv_width v)"
    by (auto simp: variant_ok_def)
  then show ?thesis
  proof cases
    case sized
    have key: "iv_key v = itoa (iv_width v) @ ''x'' @ itoa (iv_height v)" by (subst sized) (simp add: size_variant_def)
    have x: "CHR ''x'' \<notin> set (itoa (iv_width v))" "CHR ''x'' \<notin> set (itoa (iv_height v))"
      using itoa_keys [OF w(1)] itoa_keys [OF w(3)] x_no_digit by (auto simp: list_all_iff)
    have "hd (itoa (iv_width v)) \<noteq> CHR ''f''"
      using itoa_keys [OF w(1)] x_no_digit(2) by (metis itoa_nonempty list.set_sel(1) list_all_iff)
    then have "\<not> has_prefix (iv_key v) ''fit_''" unfolding key by (cases "itoa (iv_width v)") auto
    moreover have "split_char CHR ''x'' (iv_key v) = [itoa (iv_width v), itoa (iv_height v)]"
      using x by (simp add: key split_char_append split_char_free)
    moreover have "\<lparr>iv_key = itoa (iv_width v) @ ''x'' @ itoa (iv_height v), iv_width = iv_width v, iv_height = iv_height v, iv_mode = []\<rparr> = v"
      by (subst (5) sized) (simp add: size_variant_def)
    ultimately show ?thesis using w by (simp add: parse_variant_def t parse_itoa Let_def)
  next
    case fitted
    have key: "iv_key v = ''fit_'' @ itoa (iv_width v)" by (subst fitted) (simp add: fit_variant_def)
    have "\<lparr>iv_key = ''fit_'' @ itoa (iv_width v), iv_width = iv_width v, iv_height = iv_width v, iv_mode = ''fit''\<rparr> = v"
      by (subst (4) fitted) (simp add: fit_variant_def)
    moreover have "trim_prefix (iv_key v) ''fit_'' = itoa (iv_width v)" unfolding key by (rule trim_prefix_append)
    moreover have "has_prefix (iv_key v) ''fit_''" unfolding key by (rule has_prefix_append)
    ultimately show ?thesis using w by (simp add: parse_variant_def t parse_itoa Let_def)
  qed
qed

lemma parse_variants_keys: "list_all representable vs \<Longrightarrow> parse_variants (map iv_key vs) = Some vs"
  by (induction vs) (simp_all add: parse_variant_key)

text \<open>
  A list of sizes survives the environment. Writing the keys of a non-empty list of representable
  sizes, separated by commas, into a variable and reading the variable gives the same list back,
  whatever the default is.
\<close>

theorem image_variants_roundtrip:
  assumes "vs \<noteq> []" and "list_all representable vs" and "env key = str_join '','' (map iv_key vs)"
  shows "get_env_image_variants env key def = vs"
proof -
  have k: "list_all key_char (iv_key v)" "iv_key v \<noteq> []" if "v \<in> set vs" for v
    using that assms(2) key_of_variant by (auto simp: list_all_iff representable_def)
  have c: "CHR '','' \<notin> set (iv_key v)" "trim_space (iv_key v) = iv_key v" if "v \<in> set vs" for v
  proof -
    from k(1) [OF that] have "key_char x \<and> plain_char x \<and> x \<noteq> CHR '',''" if "x \<in> set (iv_key v)" for x
      using that key_char_plain [of x] by (simp add: list_all_iff)
    then have "CHR '','' \<notin> set (iv_key v)" "list_all plain_char (iv_key v)" unfolding list_all_iff by blast+
    then show "CHR '','' \<notin> set (iv_key v)" "trim_space (iv_key v) = iv_key v" by (simp_all add: trim_space_plain_all)
  qed
  have s: "split_char CHR '','' (env key) = map iv_key vs"
    unfolding assms(3) using assms(1) c(1) by (intro split_join) auto
  moreover have "env key \<noteq> []" using s k(2) assms(1) by (cases vs) auto
  ultimately have "get_env_slice env key [] = map iv_key vs"
    using c(2) k(2) by (auto simp: get_env_slice_def comp_def intro!: filter_True map_cong)
  then show ?thesis using assms(1) parse_variants_keys [OF assms(2)] by (simp add: get_env_image_variants_def Let_def)
qed

theorem image_variants_roundtrip_witness:
  "get_env_image_variants (\<lambda>k. str_join '','' (map iv_key [size_variant 100 50, fit_variant 480])) ''IMAGE_VARIANTS'' [] =
     [size_variant 100 50, fit_variant 480]"
proof -
  have "representable (size_variant 100 50)" "representable (fit_variant 480)"
    using size_variant_ok [of 100 50] fit_variant_ok [of 480] by (simp_all add: representable_def size_variant_def fit_variant_def)
  then have "list_all representable [size_variant 100 50, fit_variant 480]" by simp
  then show ?thesis by (intro image_variants_roundtrip) (simp_all only: list.distinct not_False_eq_True)
qed

end
