(* ===== verification/Media_Access.thy ===== *)
theory Media_Access
  imports Playlists Grant_State Delivery_Crop Bundle Config
begin

text \<open>
  Who may see what: \<open>media_access.go\<close> (the policy service), \<open>media_resource.go\<close> (what a policy for one
  file covers) and \<open>media_grants.go\<close> (sealed grants) of \<open>internal/handler\<close>. The policy service is a
  function from requests to answers; a decoded JSON answer is a document. \<open>storage\<close> is what a request
  sees of the cluster and of the stores: a read gives the bytes of a file or \<open>None\<close>.
\<close>

section \<open>Requests and answers\<close>

record request =
  rq_method :: string
  rq_path :: string
  rq_query :: query
  rq_headers :: "(string, string) gomap"

definition header_get :: "request \<Rightarrow> string \<Rightarrow> string" where
  "header_get r k = (case map_of (rq_headers r) k of None \<Rightarrow> [] | Some v \<Rightarrow> v)"

datatype body =
    Body_json "(string \<times> string) list"
  | Body_manifest manifest
  | Body_bytes bytes
  | Body_text string
  | Body_none

record response =
  rs_status :: nat
  rs_headers :: "(string, string) gomap"
  rs_body :: body

definition json_error :: "nat \<Rightarrow> (string \<times> string) list \<Rightarrow> (string, string) gomap \<Rightarrow> response" where
  "json_error status obj hs = \<lparr>rs_status = status,
     rs_headers = gm_put ''Content-Type'' ''application/json'' hs, rs_body = Body_json obj\<rparr>"

definition no_store :: string where "no_store = ''private, no-store''"

section \<open>Delivery modes\<close>

datatype delivery_mode = Original | Blur_faces | Blur | Deny

definition mode_rank :: "delivery_mode \<Rightarrow> nat" where
  "mode_rank m = (case m of Original \<Rightarrow> 0 | Blur_faces \<Rightarrow> 1 | Blur \<Rightarrow> 2 | Deny \<Rightarrow> 3)"

lemma mode_rank_inj: "mode_rank a = mode_rank b \<Longrightarrow> a = b"
  by (cases a; cases b) (simp_all add: mode_rank_def)

text \<open>Modes are ordered by how much they hide.\<close>

instantiation delivery_mode :: linorder
begin

definition less_eq_delivery_mode :: "delivery_mode \<Rightarrow> delivery_mode \<Rightarrow> bool" where
  "less_eq_delivery_mode a b \<longleftrightarrow> mode_rank a \<le> mode_rank b"

definition less_delivery_mode :: "delivery_mode \<Rightarrow> delivery_mode \<Rightarrow> bool" where
  "less_delivery_mode a b \<longleftrightarrow> mode_rank a < mode_rank b"

instance
  by standard (auto simp: less_eq_delivery_mode_def less_delivery_mode_def mode_rank_inj)

end

fun mode_string :: "delivery_mode \<Rightarrow> string" where
  "mode_string Original = ''original''"
| "mode_string Blur = ''blur''"
| "mode_string Blur_faces = ''blur_faces''"
| "mode_string Deny = ''deny''"

definition parse_mode :: "string \<Rightarrow> delivery_mode option" where
  "parse_mode s =
     (if s = ''deny'' then Some Deny else if s = ''blur'' then Some Blur
      else if s = ''blur_faces'' then Some Blur_faces else if s = ''original'' then Some Original else None)"

record decision =
  dc_mode :: delivery_mode
  dc_managed :: bool
  dc_source_cid :: string
  dc_source_is_video :: bool
  dc_poster_cid :: string
  dc_crop :: string

definition initial_decision :: decision where
  "initial_decision = \<lparr>dc_mode = Original, dc_managed = True, dc_source_cid = [], dc_source_is_video = False,
     dc_poster_cid = [], dc_crop = []\<rparr>"

datatype access_error = Access_denied | Grant_refused grant_error | Access_unavailable

definition write_media_access_error :: "access_error \<Rightarrow> response" where
  "write_media_access_error e =
     (let hs = [(''Cache-Control'', no_store)]
      in case e of
           Grant_refused Err_expired \<Rightarrow>
             json_error 401 [(''code'', ''MEDIA_GRANT_EXPIRED''), (''error'', ''Media grant expired'')] hs
         | Grant_refused _ \<Rightarrow>
             json_error 403 [(''code'', ''MEDIA_GRANT_DENIED''), (''error'', ''Media grant denied'')] hs
         | Access_denied \<Rightarrow> json_error 403 [(''error'', ''Media access denied'')] hs
         | Access_unavailable \<Rightarrow> json_error 503 [(''error'', ''Media access service unavailable'')] hs)"

section \<open>The policy service\<close>

datatype json = Jnull | Jbool bool | Jnum string | Jstr string | Jarr "json list" | Jobj "(string \<times> json) list"

lemma json_member_size [termination_simp]:
  "map_of obj k = Some v \<Longrightarrow> size v < Suc (size_list (\<lambda>x. Suc (size (snd x))) obj)"
  by (induction obj) (auto split: if_splits)

fun response_string :: "json \<Rightarrow> string option" where
  "response_string (Jstr s) = (if s = [] then None else Some s)"
| "response_string (Jobj obj) = (case map_of obj ''value'' of None \<Rightarrow> None | Some v \<Rightarrow> response_string v)"
| "response_string _ = None"

type_synonym row = "(string \<times> json) list"

definition row_string :: "row \<Rightarrow> string \<Rightarrow> string option" where
  "row_string row k = (case map_of row k of None \<Rightarrow> None | Some v \<Rightarrow> response_string v)"

definition media_storage_cid :: "string option \<Rightarrow> string" where
  "media_storage_cid value = (case value of
      None \<Rightarrow> []
    | Some uri \<Rightarrow>
        if has_prefix uri ''ipfs://'' then trim_space (trim_prefix uri ''ipfs://'')
        else if has_prefix uri ''video://'' then trim_space (trim_prefix uri ''video://'')
        else [])"

record policy_request =
  pq_endpoint :: string
  pq_path :: string
  pq_query :: query
  pq_authorization :: "string option"

datatype policy_answer =
    Transport_error
  | Http_answer nat "string option"
  | Http_ok "(row list \<times> row option) option"

record resolver =
  mr_cid_host :: string
  mr_cid_path :: string
  mr_cid_query :: query
  mr_link_host :: string
  mr_link_path :: string

definition trim_right_slashes :: "string \<Rightarrow> string" where
  "trim_right_slashes s = rev (dropWhile (\<lambda>c. c = CHR ''/'') (rev s))"

text \<open>\<open>url.PathEscape\<close>.\<close>

fun path_escape :: "string \<Rightarrow> string" where
  "path_escape [] = []"
| "path_escape (c # s) =
     (if unreserved c \<or> c \<in> set ''$&+=:@'' then [c]
      else [CHR ''%'', hex_digit (code c div 16), hex_digit (code c mod 16)]) @ path_escape s"

definition forward_media_authorization :: "request option \<Rightarrow> string option" where
  "forward_media_authorization source = (case source of
      None \<Rightarrow> None
    | Some r \<Rightarrow>
        if header_get r ''Authorization'' \<noteq> [] then Some (header_get r ''Authorization'')
        else if query_get (rq_query r) ''token'' \<noteq> [] then Some (''Bearer '' @ query_get (rq_query r) ''token'')
        else if query_get (rq_query r) ''access_token'' \<noteq> [] then Some (''Bearer '' @ query_get (rq_query r) ''access_token'')
        else None)"

definition effective_link :: "request option \<Rightarrow> string \<Rightarrow> string" where
  "effective_link source requested =
     (if requested \<noteq> [] then requested
      else case source of None \<Rightarrow> [] | Some r \<Rightarrow> trim_space (query_get (rq_query r) ''media_link''))"

definition policy_request_for :: "resolver \<Rightarrow> request option \<Rightarrow> string \<Rightarrow> string \<Rightarrow> policy_request" where
  "policy_request_for mr source cid requested =
     (let link = effective_link source requested
      in if link \<noteq> [] then
           \<lparr>pq_endpoint = mr_link_host mr,
            pq_path = trim_right_slashes (mr_link_path mr) @ ''/view/id/'' @ path_escape link,
            pq_query = gm_del ''media_link'' (gm_del ''size'' (gm_del ''search'' (mr_cid_query mr))),
            pq_authorization = forward_media_authorization source\<rparr>
         else
           (let root = (case source of None \<Rightarrow> [] | Some r \<Rightarrow> query_get (rq_query r) ''media_root'');
                q = (if cid \<noteq> [] then query_set (mr_cid_query mr) ''search'' (if root \<noteq> [] then root else cid)
                     else mr_cid_query mr)
            in \<lparr>pq_endpoint = mr_cid_host mr, pq_path = mr_cid_path mr, pq_query = query_set q ''size'' ''2'',
                pq_authorization = forward_media_authorization source\<rparr>))"

definition stricter :: "delivery_mode \<Rightarrow> delivery_mode \<Rightarrow> delivery_mode" where
  "stricter candidate current = (case candidate of
      Deny \<Rightarrow> Deny
    | Blur \<Rightarrow> if current \<noteq> Deny then Blur else current
    | Blur_faces \<Rightarrow> if current \<noteq> Blur \<and> current \<noteq> Deny then Blur_faces else current
    | Original \<Rightarrow> current)"

definition apply_row :: "(string \<Rightarrow> bool) \<Rightarrow> row \<Rightarrow> delivery_mode \<Rightarrow> decision \<Rightarrow> decision" where
  "apply_row valid_crop row m d =
     (let d1 = d\<lparr>dc_mode := stricter m (dc_mode d)\<rparr>;
          d2 = (if dc_source_cid d1 = [] then
                  d1\<lparr>dc_source_cid := media_storage_cid (row_string row ''storage_uri''),
                     dc_source_is_video := (case row_string row ''storage_uri'' of
                         None \<Rightarrow> False | Some uri \<Rightarrow> has_prefix uri ''video://'')\<rparr>
                else d1);
          d3 = (if dc_poster_cid d2 = [] then d2\<lparr>dc_poster_cid := media_storage_cid (row_string row ''poster_uri'')\<rparr> else d2)
      in if dc_crop d3 = [] then
           (case row_string row ''delivery_crop'' of
              None \<Rightarrow> d3
            | Some crop \<Rightarrow> if valid_crop crop then d3\<lparr>dc_crop := crop\<rparr> else d3)
         else d3)"

fun decide_rows :: "(string \<Rightarrow> bool) \<Rightarrow> row list \<Rightarrow> decision \<Rightarrow> access_error + decision" where
  "decide_rows valid_crop [] d = Inr d"
| "decide_rows valid_crop (row # rows) d =
     (case row_string row ''delivery_mode'' of
        None \<Rightarrow> Inl Access_unavailable
      | Some candidate \<Rightarrow> (case parse_mode candidate of
          None \<Rightarrow> Inl Access_unavailable
        | Some m \<Rightarrow> decide_rows valid_crop rows (apply_row valid_crop row m d)))"

definition resolve_policy ::
    "(string \<Rightarrow> bool) \<Rightarrow> (policy_request \<Rightarrow> policy_answer) \<Rightarrow> resolver option \<Rightarrow> request option \<Rightarrow> string \<Rightarrow> string
       \<Rightarrow> access_error + decision" where
  "resolve_policy valid_crop policy mr source cid requested = (case mr of
      None \<Rightarrow> Inl Access_unavailable
    | Some r \<Rightarrow> (case policy (policy_request_for r source cid requested) of
          Transport_error \<Rightarrow> Inl Access_unavailable
        | Http_answer status message \<Rightarrow>
            if status \<in> {403, 404, 401} then Inl Access_denied
            else if status = 400 \<and> message = Some ''Record not found'' then Inl Access_denied
            else Inl Access_unavailable
        | Http_ok None \<Rightarrow> Inl Access_unavailable
        | Http_ok (Some (rows, item)) \<Rightarrow>
            (let rows' = (case item of Some i \<Rightarrow> [i] | None \<Rightarrow> rows)
             in if rows' = [] then Inl Access_denied else decide_rows valid_crop rows' initial_decision)))"

definition strip_media_link :: "request \<Rightarrow> request" where
  "strip_media_link r = r\<lparr>rq_query := gm_del ''media_link'' (rq_query r)\<rparr>"

definition resolver_resolve ::
    "(string \<Rightarrow> bool) \<Rightarrow> (policy_request \<Rightarrow> policy_answer) \<Rightarrow> resolver option \<Rightarrow> request \<Rightarrow> string \<Rightarrow> access_error + decision" where
  "resolver_resolve valid_crop policy mr source cid =
     (let first = resolve_policy valid_crop policy mr (Some source) cid [];
          d = (case first of
                 Inr d \<Rightarrow>
                   if cid \<noteq> [] \<and> trim_space (query_get (rq_query source) ''media_link'') \<noteq> [] \<and> dc_managed d
                      \<and> dc_source_cid d \<noteq> cid
                   then resolve_policy valid_crop policy mr (Some (strip_media_link source)) cid []
                   else first
               | Inl e \<Rightarrow> first)
      in case d of
           Inl e \<Rightarrow> Inl e
         | Inr x \<Rightarrow> if dc_mode x = Deny then Inl Access_denied else Inr x)"

definition resolver_resolve_link ::
    "(string \<Rightarrow> bool) \<Rightarrow> (policy_request \<Rightarrow> policy_answer) \<Rightarrow> resolver option \<Rightarrow> request \<Rightarrow> string \<Rightarrow> access_error + decision" where
  "resolver_resolve_link valid_crop policy mr source link =
     (if trim_space link = [] then Inl Access_unavailable
      else res_bind (resolve_policy valid_crop policy mr (Some source) [] link) (\<lambda>d.
        if \<not> dc_managed d \<or> dc_source_cid d = [] then Inl Access_denied else Inr d))"

definition protected_media_cache_control :: "bool \<Rightarrow> string" where
  "protected_media_cache_control managed =
     (if managed then no_store else ''private, max-age=31536000, immutable'')"

section \<open>What a decision covers\<close>

record storage =
  sg_fetch :: "string \<Rightarrow> reader option"
  sg_fetch_path :: "string \<Rightarrow> string \<Rightarrow> reader option"
  sg_deleted :: "string \<Rightarrow> bool"
  sg_canonical :: "string \<Rightarrow> string option"

definition fetch_video_asset :: "storage \<Rightarrow> string \<Rightarrow> reader option" where
  "fetch_video_asset sg cid = (case sg_fetch sg cid of
      Some r \<Rightarrow> Some r
    | None \<Rightarrow> sg_fetch_path sg cid original_filename)"

definition max_playlist_bytes :: nat where "max_playlist_bytes = 4 * 1024 * 1024"

text \<open>\<open>readVideoAsset\<close>: \<open>None\<close> if the file cannot be read to its end or is too large.\<close>

definition read_video_asset :: "storage \<Rightarrow> string \<Rightarrow> string option" where
  "read_video_asset sg cid = (case fetch_video_asset sg cid of
      None \<Rightarrow> None
    | Some r \<Rightarrow> if rd_fails r \<or> length (rd_bytes r) > max_playlist_bytes then None
                else Some (text_of (rd_bytes r)))"

definition read_linked_master :: "storage \<Rightarrow> decision \<Rightarrow> string option" where
  "read_linked_master sg d =
     (if validate_cid (dc_source_cid d) \<noteq> None \<or> sg_deleted sg (dc_source_cid d) then None
      else read_video_asset sg (dc_source_cid d))"

definition same_media_cid :: "(string \<Rightarrow> string option) \<Rightarrow> string \<Rightarrow> string \<Rightarrow> bool" where
  "same_media_cid canonical left right \<longleftrightarrow>
     left = right \<or> (case (canonical left, canonical right) of (Some a, Some b) \<Rightarrow> a = b | _ \<Rightarrow> False)"

record poster =
  po_cid :: string
  po_size :: string
  po_variant :: string

definition poster_prefix :: string where "poster_prefix = ''#EXT-X-IAMFREE-POSTER:''"

fun poster_attrs :: "string list \<Rightarrow> poster \<Rightarrow> poster" where
  "poster_attrs [] p = p"
| "poster_attrs (attr # attrs) p =
     (let p1 = (case cut_prefix attr ''SIZE='' of None \<Rightarrow> p | Some v \<Rightarrow> p\<lparr>po_size := v\<rparr>);
          p2 = (case cut_prefix attr ''VARIANT='' of None \<Rightarrow> p1 | Some v \<Rightarrow> p1\<lparr>po_variant := v\<rparr>)
      in poster_attrs attrs p2)"

fun master_posters :: "string list \<Rightarrow> poster list option" where
  "master_posters [] = Some []"
| "master_posters (l # ls) =
     (let line = trim_space l
      in if \<not> has_prefix line poster_prefix then master_posters ls
         else (case playlist_uri line of
             None \<Rightarrow> None
           | Some uri \<Rightarrow> (case playlist_reference_cid uri of
               None \<Rightarrow> None
             | Some (cid, ext) \<Rightarrow>
                 if ext \<noteq> ''.jpg'' then None
                 else (let p = poster_attrs (split_char CHR '','' (trim_prefix line poster_prefix))
                              \<lparr>po_cid = cid, po_size = [], po_variant = []\<rparr>
                       in if po_size p = [] then None else map_option (Cons p) (master_posters ls)))))"

fun pick_poster :: "(string \<Rightarrow> string option) \<Rightarrow> poster list \<Rightarrow> string \<Rightarrow> delivery_mode \<Rightarrow> poster list \<Rightarrow> string option" where
  "pick_poster canonical all requested mode [] = None"
| "pick_poster canonical all requested mode (original # ps) =
     (if po_variant original \<noteq> [] \<or> (requested \<noteq> [] \<and> \<not> same_media_cid canonical (po_cid original) requested)
      then pick_poster canonical all requested mode ps
      else if mode = Original then Some (po_cid original)
      else (case find (\<lambda>p. po_size p = po_size original \<and> po_variant p = mode_string mode) all of
          Some p \<Rightarrow> Some (po_cid p)
        | None \<Rightarrow> pick_poster canonical all requested mode ps))"

definition video_poster_cid :: "(string \<Rightarrow> string option) \<Rightarrow> string \<Rightarrow> string \<Rightarrow> delivery_mode \<Rightarrow> string option" where
  "video_poster_cid canonical master requested mode = (case master_posters (lines_of master) of
      None \<Rightarrow> None
    | Some ps \<Rightarrow> pick_poster canonical ps requested mode ps)"

definition resolve_video_poster :: "storage \<Rightarrow> decision \<Rightarrow> string \<Rightarrow> access_error + string" where
  "resolve_video_poster sg d requested =
     (if \<not> dc_source_is_video d then Inl Access_denied
      else (case read_linked_master sg d of
          None \<Rightarrow> Inl Access_unavailable
        | Some master \<Rightarrow> (case video_poster_cid (sg_canonical sg) master requested (dc_mode d) of
              None \<Rightarrow> Inl Access_denied
            | Some cid \<Rightarrow> Inr cid)))"

text \<open>Does a playlist name the file? \<open>None\<close>: no; \<open>Some False\<close>: a line is no reference.\<close>

definition child_value :: "string \<Rightarrow> string" where
  "child_value line =
     (let value = trim_space line
      in if has_prefix value ''#'' then (case playlist_uri value of None \<Rightarrow> [] | Some u \<Rightarrow> u) else value)"

fun playlist_names :: "(string \<Rightarrow> string option) \<Rightarrow> string \<Rightarrow> string list \<Rightarrow> bool option" where
  "playlist_names canonical cid [] = None"
| "playlist_names canonical cid (line # ls) =
     (if child_value line = [] then playlist_names canonical cid ls
      else (case playlist_reference_cid (child_value line) of
          None \<Rightarrow> Some False
        | Some (child, ext) \<Rightarrow> if same_media_cid canonical child cid then Some True else playlist_names canonical cid ls))"

text \<open>The scan of at most \<open>n\<close> more playlists, from the \<open>i\<close>-th on.\<close>

fun scan_playlists :: "storage \<Rightarrow> string \<Rightarrow> string \<Rightarrow> nat \<Rightarrow> nat \<Rightarrow> access_error + unit" where
  "scan_playlists sg master cid i 0 = Inl Access_denied"
| "scan_playlists sg master cid i (Suc n) = (case linked_master_playlist_cid master (int i) of
      Inl e \<Rightarrow> Inl Access_denied
    | Inr playlist_cid \<Rightarrow>
        if same_media_cid (sg_canonical sg) cid playlist_cid then Inr ()
        else if sg_deleted sg playlist_cid then scan_playlists sg master cid (Suc i) n
        else (case read_video_asset sg playlist_cid of
            None \<Rightarrow> Inl Access_unavailable
          | Some playlist \<Rightarrow> (case playlist_names (sg_canonical sg) cid (lines_of playlist) of
                Some True \<Rightarrow> Inr ()
              | Some False \<Rightarrow> Inl Access_denied
              | None \<Rightarrow> scan_playlists sg master cid (Suc i) n)))"

definition max_scanned_playlists :: nat where "max_scanned_playlists = 32"

definition validate_media_resource :: "storage \<Rightarrow> request \<Rightarrow> string \<Rightarrow> decision \<Rightarrow> access_error + unit" where
  "validate_media_resource sg r cid d =
     (if dc_source_cid d = [] \<or> sg_deleted sg (dc_source_cid d) then Inl Access_denied
      else if has_prefix (rq_path r) ''/file/'' \<or> \<not> has_prefix (rq_path r) ''/stream/segment/'' then
        (if same_media_cid (sg_canonical sg) cid (dc_source_cid d) then Inr () else Inl Access_denied)
      else if same_media_cid (sg_canonical sg) cid (dc_source_cid d) \<and> dc_mode d = Original then Inr ()
      else if \<not> dc_source_is_video d then Inl Access_denied
      else (case read_linked_master sg d of
          None \<Rightarrow> Inl Access_unavailable
        | Some master \<Rightarrow>
            if video_poster_cid (sg_canonical sg) master cid (dc_mode d) \<noteq> None then Inr ()
            else if dc_mode d \<noteq> Original then Inl Access_denied
            else scan_playlists sg master cid 0 max_scanned_playlists))"

definition resolve_media_delivery ::
    "access_config option \<Rightarrow> (string \<Rightarrow> bool) \<Rightarrow> (policy_request \<Rightarrow> policy_answer) \<Rightarrow> resolver option \<Rightarrow> storage
       \<Rightarrow> request \<Rightarrow> string \<Rightarrow> access_error + decision" where
  "resolve_media_delivery cfg valid_crop policy mr sg r cid =
     (if query_has (rq_query r) ''grant'' then Inl (Grant_refused Err_invalid)
      else if mr = None then
        (case cfg of
           Some c \<Rightarrow> if ac_allow_unmanaged c \<and> ac_url c = [] \<and> ac_link_url c = []
                     then Inr (initial_decision\<lparr>dc_managed := False\<rparr>) else Inl Access_unavailable
         | None \<Rightarrow> Inl Access_unavailable)
      else (case resolver_resolve valid_crop policy mr r cid of
          Inl e \<Rightarrow> Inl e
        | Inr d \<Rightarrow>
            if dc_managed d then
              (case validate_media_resource sg r cid d of Inl e \<Rightarrow> Inl e | Inr u \<Rightarrow> Inr d)
            else Inr d))"

section \<open>Grants\<close>

definition media_grant_token :: "request \<Rightarrow> string" where
  "media_grant_token r =
     (let auth = header_get r ''Authorization''
      in if auth \<noteq> [] then (if has_prefix auth ''Bearer '' then trim_prefix auth ''Bearer '' else [])
         else if header_get r ''X-API-Key'' \<noteq> [] then header_get r ''X-API-Key''
         else if query_get (rq_query r) ''token'' \<noteq> [] then query_get (rq_query r) ''token''
         else query_get (rq_query r) ''access_token'')"

definition grant_operation :: "string \<Rightarrow> string" where
  "grant_operation path =
     (if has_prefix path ''/stream/link/''
      then (if has_suffix path ''/poster.jpg'' then ''poster'' else ''stream'') else ''image'')"

definition check_error :: "call_error \<Rightarrow> access_error" where
  "check_error e = (if e = Check_revoked then Grant_refused Err_revoked else Access_unavailable)"

definition grant_resolve ::
    "crypto \<Rightarrow> (string \<Rightarrow> bool) \<Rightarrow> grant_codec option \<Rightarrow> (claims \<Rightarrow> call_error + unit) \<Rightarrow> int \<Rightarrow> request \<Rightarrow> string
       \<Rightarrow> access_error + decision" where
  "grant_resolve cr valid_crop codec check now r link = (case codec of
      None \<Rightarrow> Inl (Grant_refused Err_invalid)
    | Some c \<Rightarrow> (case map_of (rq_query r) ''grant'' of
          Some [value] \<Rightarrow>
            if value = [] then Inl (Grant_refused Err_invalid)
            else (case codec_open cr c value (media_grant_token r) now of
                Inl e \<Rightarrow> Inl (Grant_refused e)
              | Inr cl \<Rightarrow>
                  if itoa (cl_link_id cl) \<noteq> link then Inl (Grant_refused Err_invalid)
                  else if \<not> claims_allows cl (grant_operation (rq_path r)) \<or> has_suffix (rq_path r) ''/bundle''
                  then Inl (Grant_refused Err_invalid)
                  else (case check cl of
                      Inl e \<Rightarrow> Inl (check_error e)
                    | Inr u \<Rightarrow> Inr \<lparr>dc_mode = the (parse_mode (cl_mode cl)), dc_managed = True,
                        dc_source_cid = cl_source_cid cl, dc_source_is_video = cl_video cl,
                        dc_poster_cid = cl_poster_cid cl,
                        dc_crop = (if valid_crop (cl_crop cl) then cl_crop cl else [])\<rparr>))
        | _ \<Rightarrow> Inl (Grant_refused Err_invalid)))"

definition resolve_media_delivery_link ::
    "crypto \<Rightarrow> (string \<Rightarrow> bool) \<Rightarrow> (policy_request \<Rightarrow> policy_answer) \<Rightarrow> resolver option \<Rightarrow> grant_codec option
       \<Rightarrow> (claims \<Rightarrow> call_error + unit) \<Rightarrow> int \<Rightarrow> request \<Rightarrow> string \<Rightarrow> access_error + decision" where
  "resolve_media_delivery_link cr valid_crop policy mr codec check now r link =
     (if query_has (rq_query r) ''grant'' then grant_resolve cr valid_crop codec check now r link
      else if mr = None then Inl Access_unavailable
      else resolver_resolve_link valid_crop policy mr r link)"

section \<open>Facts\<close>

lemma stricter_max: "stricter m c = max m c"
  by (cases m; cases c) (simp_all add: stricter_def max_def less_eq_delivery_mode_def mode_rank_def)

lemma original_least: "max m Original = m"
  by (cases m) (simp_all add: max_def less_eq_delivery_mode_def mode_rank_def)

definition row_mode :: "row \<Rightarrow> delivery_mode option" where
  "row_mode row = Option.bind (row_string row ''delivery_mode'') parse_mode"

lemma apply_row_frame [simp]:
  "dc_mode (apply_row vc row m d) = max m (dc_mode d)" "dc_managed (apply_row vc row m d) = dc_managed d"
  by (simp_all add: apply_row_def Let_def stricter_max split: option.splits)

lemma decide_rows_modes:
  "decide_rows vc rows d = Inr d' \<Longrightarrow>
    \<exists>ms. map row_mode rows = map Some ms \<and> dc_mode d' = fold max ms (dc_mode d) \<and> dc_managed d' = dc_managed d"
proof (induction vc rows d arbitrary: d' rule: decide_rows.induct)
  case (2 vc row rows d)
  from "2.prems" obtain c m where m: "row_string row ''delivery_mode'' = Some c" "parse_mode c = Some m"
    "decide_rows vc rows (apply_row vc row m d) = Inr d'"
    by (auto split: option.splits)
  from "2.IH" [OF m] obtain ms where "map row_mode rows = map Some ms" "dc_mode d' = fold max ms (dc_mode (apply_row vc row m d))"
    "dc_managed d' = dc_managed d" by auto
  moreover have "row_mode row = Some m" using m by (simp add: row_mode_def)
  ultimately show ?case by (intro exI [of _ "m # ms"]) simp
qed auto

lemma fold_max_Original: "ms \<noteq> [] \<Longrightarrow> fold max ms Original = Max (set ms)"
proof -
  assume ne: "ms \<noteq> []"
  have "fold max ms Original = Max (set (Original # ms))" by (simp only: Max.set_eq_fold)
  also have "\<dots> = max Original (Max (set ms))" using ne by simp
  finally show ?thesis using original_least [of "Max (set ms)"] by (simp add: max.commute)
qed

lemma resolve_policy_Inr:
  assumes "resolve_policy vc policy mr source cid link = Inr d"
  shows "\<exists>r rows item ms. mr = Some r \<and> policy (policy_request_for r source cid link) = Http_ok (Some (rows, item)) \<and>
    ms \<noteq> [] \<and> map row_mode (case item of Some i \<Rightarrow> [i] | None \<Rightarrow> rows) = map Some ms \<and>
    dc_mode d = Max (set ms) \<and> dc_managed d"
proof -
  from assms obtain r rows item where r: "mr = Some r"
    "policy (policy_request_for r source cid link) = Http_ok (Some (rows, item))"
    "(case item of Some i \<Rightarrow> [i] | None \<Rightarrow> rows) \<noteq> []"
    "decide_rows vc (case item of Some i \<Rightarrow> [i] | None \<Rightarrow> rows) initial_decision = Inr d"
    by (auto simp: resolve_policy_def Let_def split: option.splits policy_answer.splits if_splits)
  from decide_rows_modes [OF r(4)] obtain ms where ms:
    "map row_mode (case item of Some i \<Rightarrow> [i] | None \<Rightarrow> rows) = map Some ms" "dc_mode d = fold max ms Original" "dc_managed d"
    by (auto simp: initial_decision_def)
  with r(3) have "ms \<noteq> []" by (metis list.map_disc_iff)
  with r ms fold_max_Original [of ms] show ?thesis by auto
qed

lemma pick_poster_Some:
  "pick_poster canonical all requested mode ps = Some cid \<Longrightarrow>
    \<exists>orig \<in> set ps. po_variant orig = [] \<and> (requested = [] \<or> same_media_cid canonical (po_cid orig) requested) \<and>
      (if mode = Original then cid = po_cid orig
       else \<exists>p \<in> set all. po_size p = po_size orig \<and> po_variant p = mode_string mode \<and> cid = po_cid p)"
proof (induction ps)
  case (Cons q ps)
  show ?case
  proof (cases "pick_poster canonical all requested mode ps = Some cid")
    case True
    with Cons.IH show ?thesis by (auto split: if_splits)
  next
    case False
    with Cons.prems show ?thesis
      by (auto split: if_splits option.splits simp: find_Some_iff intro: nth_mem)
  qed
qed simp

definition named_by :: "storage \<Rightarrow> string \<Rightarrow> string \<Rightarrow> bool" where
  "named_by sg cid playlist \<longleftrightarrow> (\<exists>line \<in> set (lines_of playlist). \<exists>child ext.
     playlist_reference_cid (child_value line) = Some (child, ext) \<and> same_media_cid (sg_canonical sg) child cid)"

definition part_of_video :: "storage \<Rightarrow> string \<Rightarrow> string \<Rightarrow> bool" where
  "part_of_video sg master cid \<longleftrightarrow> (\<exists>i < max_scanned_playlists. \<exists>pc. linked_master_playlist_cid master (int i) = Inr pc \<and>
     (same_media_cid (sg_canonical sg) cid pc \<or>
      (\<not> sg_deleted sg pc \<and> (\<exists>pl. read_video_asset sg pc = Some pl \<and> named_by sg cid pl))))"

lemma playlist_names_True:
  "playlist_names canonical cid ls = Some True \<Longrightarrow>
    \<exists>line \<in> set ls. \<exists>child ext. playlist_reference_cid (child_value line) = Some (child, ext) \<and> same_media_cid canonical child cid"
  by (induction ls) (auto split: if_splits option.splits)

lemma scan_playlists_ok:
  "scan_playlists sg master cid i n = Inr () \<Longrightarrow>
    \<exists>j < i + n. \<exists>pc. linked_master_playlist_cid master (int j) = Inr pc \<and>
     (same_media_cid (sg_canonical sg) cid pc \<or>
      (\<not> sg_deleted sg pc \<and> (\<exists>pl. read_video_asset sg pc = Some pl \<and> named_by sg cid pl)))"
proof (induction n arbitrary: i)
  case (Suc n)
  from Suc.prems obtain pc where pc: "linked_master_playlist_cid master (int i) = Inr pc" by (auto split: sum.splits)
  show ?case
  proof (cases "scan_playlists sg master cid (Suc i) n = Inr ()")
    case True
    from Suc.IH [OF this] show ?thesis by auto
  next
    case False
    have "same_media_cid (sg_canonical sg) cid pc \<or>
      (\<not> sg_deleted sg pc \<and> (\<exists>pl. read_video_asset sg pc = Some pl \<and> named_by sg cid pl))"
      using Suc.prems False pc playlist_names_True [of "sg_canonical sg" cid]
      by (auto simp: named_by_def split: if_splits option.splits bool.splits)
    with pc show ?thesis by (intro exI [of _ i]) auto
  qed
qed simp

lemma validate_media_resource_ok:
  assumes "validate_media_resource sg r cid d = Inr ()"
  shows "dc_source_cid d \<noteq> [] \<and> \<not> sg_deleted sg (dc_source_cid d) \<and>
    ((same_media_cid (sg_canonical sg) cid (dc_source_cid d) \<and>
      (has_prefix (rq_path r) ''/stream/segment/'' \<longrightarrow> has_prefix (rq_path r) ''/file/'' \<or> dc_mode d = Original)) \<or>
     (has_prefix (rq_path r) ''/stream/segment/'' \<and> dc_source_is_video d \<and>
      (\<exists>master. read_linked_master sg d = Some master \<and>
        (video_poster_cid (sg_canonical sg) master cid (dc_mode d) \<noteq> None \<or>
         (dc_mode d = Original \<and> part_of_video sg master cid)))))"
  using assms scan_playlists_ok [of sg _ cid 0 max_scanned_playlists]
  by (auto simp: validate_media_resource_def part_of_video_def split: if_splits option.splits)

lemma resolver_resolve_managed:
  "resolver_resolve vc policy mr source cid = Inr d \<Longrightarrow> dc_managed d \<and> dc_mode d \<noteq> Deny \<and> mr \<noteq> None"
  using resolve_policy_Inr [of vc policy mr "Some source" cid "[]" d]
    resolve_policy_Inr [of vc policy mr "Some (strip_media_link source)" cid "[]" d]
  by (auto simp: resolver_resolve_def Let_def split: sum.splits if_splits)

lemma decide_rows_fails: "None \<in> set (map row_mode rows) \<Longrightarrow> decide_rows vc rows d = Inl Access_unavailable"
  by (induction vc rows d rule: decide_rows.induct) (auto simp: row_mode_def split: option.splits)

lemma decide_rows_total:
  "None \<notin> set (map row_mode rows) \<Longrightarrow> \<exists>d'. decide_rows vc rows d = Inr d'"
  by (induction vc rows d rule: decide_rows.induct) (auto simp: row_mode_def split: option.splits)

lemma grant_resolve_Inr:
  assumes "grant_resolve cr vc codec check now r link = Inr d"
  shows "\<exists>c value cl. codec = Some c \<and> map_of (rq_query r) ''grant'' = Some [value] \<and>
    codec_open cr c value (media_grant_token r) now = Inr cl \<and> check cl = Inr () \<and> itoa (cl_link_id cl) = link \<and>
    claims_allows cl (grant_operation (rq_path r)) \<and> \<not> has_suffix (rq_path r) ''/bundle'' \<and>
    dc_mode d = the (parse_mode (cl_mode cl)) \<and> dc_source_cid d = cl_source_cid cl \<and> dc_source_is_video d = cl_video cl \<and>
    dc_managed d"
  using assms
  by (auto simp: grant_resolve_def split: option.splits list.splits if_splits sum.splits)

lemma valid_claims_modes:
  "claims_validate cl now = None \<Longrightarrow>
    \<exists>m. parse_mode (cl_mode cl) = Some m \<and> m \<noteq> Deny \<and> mode_string m = cl_mode cl \<and>
      (claims_allows cl ''stream'' \<longrightarrow> m = Original \<and> cl_video cl) \<and> (claims_allows cl ''image'' \<longrightarrow> \<not> cl_video cl) \<and>
      (claims_allows cl ''poster'' \<longrightarrow> cl_video cl)"
  by (auto simp: claims_validate_def parse_mode_def claims_allows_def list_ex_iff list_all_iff operation_valid_def
      split: if_splits option.splits)

section \<open>Properties\<close>

text \<open>
  C35: the policy service decides, and fails closed. Only a successful answer whose rows all carry a known
  delivery mode gives a decision, and that decision's mode is the strictest of the rows' modes; no row at
  all is a denial, an unknown or missing mode an outage, and every other answer (transport failure, HTTP
  error, unreadable body) is an error.
\<close>

theorem policy_strictest:
  "case policy (policy_request_for r source cid link) of
     Http_ok (Some (rows, item)) \<Rightarrow>
       (let rs = (case item of Some i \<Rightarrow> [i] | None \<Rightarrow> rows)
        in if rs = [] then resolve_policy vc policy (Some r) source cid link = Inl Access_denied
           else if None \<in> set (map row_mode rs) then resolve_policy vc policy (Some r) source cid link = Inl Access_unavailable
           else \<exists>d. resolve_policy vc policy (Some r) source cid link = Inr d \<and> dc_managed d \<and>
             dc_mode d = Max {m. Some m \<in> set (map row_mode rs)})
   | _ \<Rightarrow> \<not> is_ok (resolve_policy vc policy (Some r) source cid link)"
proof (cases "\<exists>rows item. policy (policy_request_for r source cid link) = Http_ok (Some (rows, item))")
  case False
  then show ?thesis by (auto simp: resolve_policy_def split: policy_answer.splits option.splits)
next
  case True
  then obtain rows item where p: "policy (policy_request_for r source cid link) = Http_ok (Some (rows, item))" by blast
  define rs where "rs = (case item of Some i \<Rightarrow> [i] | None \<Rightarrow> rows)"
  have res: "resolve_policy vc policy (Some r) source cid link =
      (if rs = [] then Inl Access_denied else decide_rows vc rs initial_decision)"
    by (simp add: resolve_policy_def p rs_def)
  have "\<exists>d. resolve_policy vc policy (Some r) source cid link = Inr d \<and> dc_managed d \<and>
      dc_mode d = Max {m. Some m \<in> set (map row_mode rs)}"
    if ok: "rs \<noteq> []" "None \<notin> set (map row_mode rs)"
  proof -
    from decide_rows_total [OF ok(2)] ok(1) obtain d where d: "resolve_policy vc policy (Some r) source cid link = Inr d"
      by (auto simp: res)
    from resolve_policy_Inr [OF d] p obtain ms where
      ms: "ms \<noteq> []" "map row_mode rs = map Some ms" "dc_mode d = Max (set ms)" "dc_managed d" by (auto simp: rs_def)
    have "{m. Some m \<in> set (map row_mode rs)} = set ms" unfolding ms(2) by auto
    then show ?thesis using d ms(3,4) by auto
  qed
  with p res decide_rows_fails [of rs vc initial_decision] show ?thesis by (simp add: rs_def [symmetric] Let_def)
qed

text \<open>
  C7: a request for a file gets a decision only about bytes that belong to it. Without a grant in the URL,
  a decision is either the unmanaged one, which needs a server with no policy service that was told to
  allow it, or a managed one that is not \<open>deny\<close>, whose source file is not deleted, and which covers the
  requested CID: the CID is the source (for a segment only in mode \<open>original\<close>), or the source is a video
  whose master playlist binds it, as a poster of the decided mode or, in mode \<open>original\<close> only, as a
  playlist or a part of one.
\<close>

theorem delivery_bound:
  assumes "resolve_media_delivery cfg vc policy mr sg r cid = Inr d"
  shows "\<not> query_has (rq_query r) ''grant'' \<and>
    (if mr = None then \<not> dc_managed d \<and> (\<exists>c. cfg = Some c \<and> ac_allow_unmanaged c \<and> ac_url c = [] \<and> ac_link_url c = [])
     else dc_managed d \<and> dc_mode d \<noteq> Deny \<and> dc_source_cid d \<noteq> [] \<and> \<not> sg_deleted sg (dc_source_cid d) \<and>
       ((same_media_cid (sg_canonical sg) cid (dc_source_cid d) \<and>
         (has_prefix (rq_path r) ''/stream/segment/'' \<longrightarrow> has_prefix (rq_path r) ''/file/'' \<or> dc_mode d = Original)) \<or>
        (has_prefix (rq_path r) ''/stream/segment/'' \<and> dc_source_is_video d \<and>
         (\<exists>master. read_linked_master sg d = Some master \<and>
           (video_poster_cid (sg_canonical sg) master cid (dc_mode d) \<noteq> None \<or>
            (dc_mode d = Original \<and> part_of_video sg master cid))))))"
proof (cases "mr = None")
  case True
  with assms show ?thesis by (auto simp: resolve_media_delivery_def split: if_splits option.splits)
next
  case False
  with assms have a: "\<not> query_has (rq_query r) ''grant''" "resolver_resolve vc policy mr r cid = Inr d"
    "dc_managed d \<Longrightarrow> validate_media_resource sg r cid d = Inr ()"
    by (auto simp: resolve_media_delivery_def split: if_splits sum.splits)
  from resolver_resolve_managed [OF a(2)] validate_media_resource_ok [OF a(3)] False a(1) show ?thesis by simp
qed

definition example_resolver :: resolver where
  "example_resolver = \<lparr>mr_cid_host = ''http://stand'', mr_cid_path = ''/media'', mr_cid_query = [],
     mr_link_host = ''http://stand'', mr_link_path = ''/link''\<rparr>"

definition example_row :: "delivery_mode \<Rightarrow> string \<Rightarrow> row" where
  "example_row m uri = [(''delivery_mode'', Jstr (mode_string m)), (''storage_uri'', Jstr uri)]"

definition example_storage :: storage where
  "example_storage = \<lparr>sg_fetch = (\<lambda>c. None), sg_fetch_path = (\<lambda>c p. None), sg_deleted = (\<lambda>c. False),
     sg_canonical = (\<lambda>c. None)\<rparr>"

definition example_request :: "string \<Rightarrow> query \<Rightarrow> request" where
  "example_request path q = \<lparr>rq_method = ''GET'', rq_path = path, rq_query = q, rq_headers = []\<rparr>"

lemma example_policy:
  "resolve_policy vc (\<lambda>p. Http_ok (Some ([example_row m (''ipfs://'' @ cid)], None))) (Some r) src c l =
     Inr (initial_decision\<lparr>dc_mode := m, dc_source_cid := trim_space cid\<rparr>)"
  by (cases m)
    (simp_all add: resolve_policy_def example_row_def row_string_def parse_mode_def apply_row_def initial_decision_def
      stricter_def media_storage_cid_def has_prefix_def trim_prefix_def)

theorem delivery_bound_witness:
  "\<exists>d. resolve_media_delivery None (\<lambda>c. False) (\<lambda>p. Http_ok (Some ([example_row Blur (''ipfs://'' @ ''c1'')], None)))
      (Some example_resolver) example_storage (example_request ''/file/c1'' []) ''c1'' = Inr d \<and> dc_mode d \<noteq> Deny \<and>
      dc_source_cid d \<noteq> []"
proof -
  have t: "trim_space ''c1'' = ''c1''" by (rule trim_space_plain_all) (simp add: plain_char_def ascii_space_def)
  have ok: "resolve_media_delivery None (\<lambda>c. False) (\<lambda>p. Http_ok (Some ([example_row Blur (''ipfs://'' @ ''c1'')], None)))
      (Some example_resolver) example_storage (example_request ''/file/c1'' []) ''c1'' =
      Inr (initial_decision\<lparr>dc_mode := Blur, dc_source_cid := ''c1''\<rparr>)"
    unfolding resolve_media_delivery_def resolver_resolve_def example_policy t
    by (simp add: query_get_def query_has_def example_request_def initial_decision_def validate_media_resource_def
        example_storage_def same_media_cid_def trim_space_def)
  show ?thesis by (intro exI conjI) (rule ok, use delivery_bound [OF ok] in simp_all)
qed

text \<open>
  A sealed grant gives access to one link, for one route. A decision from a grant needs exactly one
  grant in the URL; it opened for the bearer's session, names the requested link, allows the operation of
  the route and passed the revocation check; the mode is the sealed one and never \<open>deny\<close>, the stream route
  only delivers originals of a video, the poster route only a video's posters and the file route no video
  and no bundle description.
\<close>

theorem grant_delivery_sound:
  assumes "grant_resolve cr vc codec check now r link = Inr d"
  shows "\<exists>c value cl. codec = Some c \<and> map_of (rq_query r) ''grant'' = Some [value] \<and>
    codec_open cr c value (media_grant_token r) now = Inr cl \<and> check cl = Inr () \<and> itoa (cl_link_id cl) = link \<and>
    mode_string (dc_mode d) = cl_mode cl \<and> dc_mode d \<noteq> Deny \<and> dc_source_cid d = cl_source_cid cl \<and>
    media_grant_token r \<noteq> [] \<and> \<not> has_suffix (rq_path r) ''/bundle'' \<and>
    (if has_prefix (rq_path r) ''/stream/link/''
     then dc_source_is_video d \<and> (has_suffix (rq_path r) ''/poster.jpg'' \<or> dc_mode d = Original)
     else \<not> dc_source_is_video d)"
proof -
  from grant_resolve_Inr [OF assms] obtain c vv cl where
    g: "codec = Some c" "map_of (rq_query r) ''grant'' = Some [vv]"
    "codec_open cr c vv (media_grant_token r) now = Inr cl" "check cl = Inr ()" "itoa (cl_link_id cl) = link"
    and a: "claims_allows cl (grant_operation (rq_path r))" "\<not> has_suffix (rq_path r) ''/bundle''"
    "dc_mode d = the (parse_mode (cl_mode cl))" "dc_source_cid d = cl_source_cid cl" "dc_source_is_video d = cl_video cl"
    by blast
  from codec_open_Inr [OF g(3)] have v: "media_grant_token r \<noteq> []" "claims_validate cl now = None" by auto
  from valid_claims_modes [OF v(2)] a(1,3) have "mode_string (dc_mode d) = cl_mode cl \<and> dc_mode d \<noteq> Deny \<and>
    (if has_prefix (rq_path r) ''/stream/link/''
     then dc_source_is_video d \<and> (has_suffix (rq_path r) ''/poster.jpg'' \<or> dc_mode d = Original)
     else \<not> dc_source_is_video d)"
    unfolding a(5) by (auto simp: grant_operation_def split: if_splits)
  with g a v show ?thesis by blast
qed

theorem grant_delivery_sound_witness:
  "\<exists>d. grant_resolve example_crypto (\<lambda>c. False) (Some example_codec) (\<lambda>cl. Inr ()) 1800000001
      (example_request ''/file/link/42'' [(''grant'', [example_token]), (''token'', [''t''])]) ''42'' = Inr d \<and> dc_mode d \<noteq> Deny"
proof -
  let ?r = "example_request ''/file/link/42'' [(''grant'', [example_token]), (''token'', [''t''])]"
  have t: "media_grant_token ?r = ''t''"
    by (simp add: media_grant_token_def example_request_def header_get_def query_get_def)
  have i: "itoa (cl_link_id example_claims) = ''42''" by (simp add: example_claims_def) code_simp
  have "\<exists>d. grant_resolve example_crypto (\<lambda>c. False) (Some example_codec) (\<lambda>cl. Inr ()) 1800000001 ?r ''42'' = Inr d"
    unfolding grant_resolve_def t
    by (simp add: example_opens i example_request_def)
      (simp add: example_token_def claims_allows_def example_claims_def grant_operation_def has_prefix_def has_suffix_def)
  then obtain d where "grant_resolve example_crypto (\<lambda>c. False) (Some example_codec) (\<lambda>cl. Inr ()) 1800000001 ?r ''42'' = Inr d" ..
  with grant_delivery_sound [OF this] show ?thesis by blast
qed

end
