(* ===== verification/Variant_Overrides.thy ===== *)
theory Variant_Overrides
  imports Go_Strings
begin

text \<open>
  \<open>internal/store/variant_overrides.go\<close>: which file now stands in for a variant. The store is
  optional (a nil pointer is \<open>None\<close>): \<open>Get\<close> on a missing store replaces nothing, \<open>Set\<close> fails.
  \<open>Set\<close> changes the map in memory first and then writes the whole map through a temporary file
  and a rename; \<open>set_outcome\<close> says which of its system calls failed.
\<close>

section \<open>State and operations\<close>

datatype override_disk = Ov_missing | Ov_unreadable | Ov_empty | Ov_not_json | Ov_json "(string \<times> string) list"

datatype set_outcome = Set_ok | Create_temp_failed | Temp_write_failed | Temp_close_failed | Rename_failed

datatype override_error = Not_configured | Read_overrides | Decode_overrides | Set_failed set_outcome

record variant_overrides =
  vo_path :: string
  vo_entries :: "(string, string) gomap"
  vo_disk :: override_disk

definition variant_override_key :: "string \<Rightarrow> string \<Rightarrow> string" where
  "variant_override_key cid variant = (if variant = [] then cid else cid @ ''/'' @ variant)"

fun decode_overrides :: "(string \<times> string) list \<Rightarrow> (string, string) gomap \<Rightarrow> (string, string) gomap" where
  "decode_overrides [] m = m"
| "decode_overrides ((k, v) # es) m = decode_overrides es (gm_put k v m)"

definition new_variant_overrides :: "string \<Rightarrow> override_disk \<Rightarrow> override_error + variant_overrides" where
  "new_variant_overrides path disk =
     (let s = \<lparr>vo_path = path, vo_entries = [], vo_disk = disk\<rparr>
      in case disk of
           Ov_missing \<Rightarrow> Inr s
         | Ov_unreadable \<Rightarrow> Inl Read_overrides
         | Ov_empty \<Rightarrow> Inr s
         | Ov_not_json \<Rightarrow> Inl Decode_overrides
         | Ov_json es \<Rightarrow> Inr (s\<lparr>vo_entries := decode_overrides es []\<rparr>))"

text \<open>\<open>Get\<close>: the pair \<open>(cid, ok && cid != "")\<close> as the code returns it.\<close>

definition overrides_get :: "variant_overrides option \<Rightarrow> string \<Rightarrow> string \<times> bool" where
  "overrides_get store key = (case store of
      None \<Rightarrow> ([], False)
    | Some s \<Rightarrow> (case map_of (vo_entries s) key of
          None \<Rightarrow> ([], False)
        | Some cid \<Rightarrow> (cid, cid \<noteq> [])))"

definition overrides_set ::
    "set_outcome \<Rightarrow> string \<Rightarrow> string \<Rightarrow> variant_overrides option
       \<Rightarrow> variant_overrides option \<times> (override_error + unit)" where
  "overrides_set out key cid store = (case store of
      None \<Rightarrow> (None, Inl Not_configured)
    | Some s \<Rightarrow>
        (let s1 = s\<lparr>vo_entries := gm_put key cid (vo_entries s)\<rparr>
         in if out = Set_ok then (Some (s1\<lparr>vo_disk := Ov_json (vo_entries s1)\<rparr>), Inr ())
            else (Some s1, Inl (Set_failed out))))"

section \<open>Facts\<close>

definition overrides_inv :: "variant_overrides \<Rightarrow> bool" where
  "overrides_inv s \<longleftrightarrow> wf_gomap (vo_entries s)"

lemma decode_overrides_wf: "wf_gomap m \<Longrightarrow> wf_gomap (decode_overrides es m)"
  by (induction es m rule: decode_overrides.induct) auto

lemma decode_overrides_get:
  "wf_gomap es \<Longrightarrow> map_of (decode_overrides es m) k = (case map_of es k of None \<Rightarrow> map_of m k | Some t \<Rightarrow> Some t)"
proof (induction es arbitrary: m)
  case (Cons e es)
  obtain c t where e: "e = (c, t)" by (cases e)
  with Cons.prems have wf: "wf_gomap es" and c: "map_of es c = None"
    by (auto simp: wf_gomap_def map_of_eq_None_iff)
  show ?case
    using Cons.IH [OF wf] c by (auto simp: e gomap_simps split: option.splits)
qed simp

lemma new_variant_overrides_inv: "new_variant_overrides path disk = Inr s \<Longrightarrow> overrides_inv s"
  by (auto simp: new_variant_overrides_def overrides_inv_def Let_def decode_overrides_wf
      split: override_disk.splits)

lemma overrides_set_inv:
  "overrides_inv s \<Longrightarrow> overrides_set out k c (Some s) = (Some s', r) \<Longrightarrow> overrides_inv s'"
  by (auto simp: overrides_set_def overrides_inv_def Let_def split: if_splits)

text \<open>Two variants of one bundle, or a variant and the bundle itself, never share a key.\<close>

lemma variant_override_key_inj:
  "variant_override_key cid v = variant_override_key cid w \<Longrightarrow> v = w"
  by (auto simp: variant_override_key_def split: if_splits)

lemma variant_override_key_inj_cid:
  "CHR ''/'' \<notin> set c \<Longrightarrow> CHR ''/'' \<notin> set d \<Longrightarrow>
    variant_override_key c v = variant_override_key d w \<longleftrightarrow> c = d \<and> v = w"
proof
  assume free: "CHR ''/'' \<notin> set c" "CHR ''/'' \<notin> set d"
    and eq: "variant_override_key c v = variant_override_key d w"
  have key: "takeWhile (\<lambda>x. x \<noteq> CHR ''/'') (variant_override_key e u) = e"
    if "CHR ''/'' \<notin> set e" for e u
    using that by (auto simp: variant_override_key_def takeWhile_neq_append takeWhile_neq_all)
  from key [OF free(1), of v] key [OF free(2), of w] eq have "c = d" by simp
  with eq show "c = d \<and> v = w" using variant_override_key_inj by blast
qed simp

section \<open>The interface of the replacement map\<close>

text \<open>
  What the file handlers rely on: a replacement is found under the key it was stored for, and
  storing one changes no other.
\<close>

locale replacement_map =
  fixes lookup :: "'s \<Rightarrow> string \<Rightarrow> string option"
    and store :: "'o \<Rightarrow> string \<Rightarrow> string \<Rightarrow> 's \<Rightarrow> 's \<times> ('e + unit)"
    and available :: "'s \<Rightarrow> bool"
  assumes lookup_stored:
      "available s \<Longrightarrow> c \<noteq> [] \<Longrightarrow> lookup (fst (store out k c s)) k = Some c"
    and lookup_other: "l \<noteq> k \<Longrightarrow> lookup (fst (store out k c s)) l = lookup s l"
    and unavailable_fails: "\<not> available s \<Longrightarrow> \<exists>e. store out k c s = (s, Inl e)"
    and unavailable_lookup: "\<not> available s \<Longrightarrow> lookup s k = None"
    and available_stored: "available (fst (store out k c s)) \<longleftrightarrow> available s"
begin

lemma lookup_store:
  "available s \<Longrightarrow> c \<noteq> [] \<Longrightarrow> lookup (fst (store out k c s)) l = (if l = k then Some c else lookup s l)"
  by (simp add: lookup_stored lookup_other)

lemma store_twice:
  "available s \<Longrightarrow> c \<noteq> [] \<Longrightarrow> d \<noteq> [] \<Longrightarrow>
    lookup (fst (store out2 k d (fst (store out1 k c s)))) k = Some d"
  by (simp add: lookup_stored available_stored)

end

definition overrides_lookup :: "variant_overrides option \<Rightarrow> string \<Rightarrow> string option" where
  "overrides_lookup store key = (let (cid, ok) = overrides_get store key in if ok then Some cid else None)"

interpretation overrides: replacement_map overrides_lookup overrides_set "\<lambda>s. s \<noteq> None"
  by unfold_locales (auto simp: overrides_lookup_def overrides_get_def overrides_set_def Let_def
      gomap_simps split: option.splits)

lemma overrides_get_lookup: "overrides_get store key = (cid, True) \<longleftrightarrow> overrides_lookup store key = Some cid"
  by (auto simp: overrides_lookup_def overrides_get_def split: option.splits)

lemma decode_own_entries:
  "wf_gomap es \<Longrightarrow> map_of (decode_overrides es []) = map_of es"
  by (rule ext) (simp add: decode_overrides_get split: option.splits)

section \<open>Properties\<close>

text \<open>
  Storing a replacement on a configured store makes it answer for its key and for no other key,
  whatever the disk does, and the file is never half written: it either keeps its content (and then
  the call reports an error) or holds a map that a restarted process reads back as the same lookups.
\<close>

theorem overrides_set_effect:
  assumes "new_variant_overrides path disk = Inr s0" and "cid \<noteq> []"
    and "overrides_set out key cid (Some s0) = (Some s, r)"
  shows "overrides_lookup (Some s) k = (if k = key then Some cid else overrides_lookup (Some s0) k) \<and>
    (if is_ok r then \<exists>s1. new_variant_overrides path (vo_disk s) = Inr s1 \<and>
                          overrides_lookup (Some s1) = overrides_lookup (Some s)
     else vo_disk s = vo_disk s0)"
proof -
  have inv: "overrides_inv s" using overrides_set_inv new_variant_overrides_inv assms(1,3) by blast
  have "overrides_lookup (Some s) k = (if k = key then Some cid else overrides_lookup (Some s0) k)"
    using overrides.lookup_store [of "Some s0" cid out key k] assms(2,3) by simp
  moreover have "vo_disk s = vo_disk s0" if "\<not> is_ok r"
    using assms(3) that by (auto simp: overrides_set_def Let_def split: if_splits)
  moreover have "\<exists>s1. new_variant_overrides path (vo_disk s) = Inr s1 \<and>
      overrides_lookup (Some s1) = overrides_lookup (Some s)" if "is_ok r"
  proof -
    from that assms(3) have "vo_disk s = Ov_json (vo_entries s)"
      by (auto simp: overrides_set_def Let_def split: if_splits)
    then show ?thesis using inv
      by (auto simp: new_variant_overrides_def Let_def overrides_inv_def overrides_lookup_def
          overrides_get_def fun_eq_iff decode_own_entries)
  qed
  ultimately show ?thesis by simp
qed

theorem overrides_set_effect_witness:
  "overrides_lookup (Some \<lparr>vo_path = [], vo_entries = [(''k'', ''c'')], vo_disk = Ov_missing\<rparr>) ''k'' = Some ''c''"
  using overrides_set_effect [of "[]" Ov_missing "\<lparr>vo_path = [], vo_entries = [], vo_disk = Ov_missing\<rparr>"
      "''c''" Rename_failed "''k''" "\<lparr>vo_path = [], vo_entries = [(''k'', ''c'')], vo_disk = Ov_missing\<rparr>"
      "Inl (Set_failed Rename_failed)" "''k''"]
  by (simp add: new_variant_overrides_def overrides_set_def Let_def)

end
