(* ===== verification/Unpin_Store.thy ===== *)
theory Unpin_Store
  imports Prelude
begin

text \<open>
  \<open>internal/store/store.go\<close>: the soft-delete list. \<open>us_entries\<close> maps a CID to the time it was
  marked (nanoseconds), \<open>us_groups\<close> a master CID to the CIDs that belong to it, \<open>us_disk\<close> is the
  content of the file at \<open>us_path\<close>. The JSON text layer is left out: a file holds the document
  that was encoded, \<open>Json_v2\<close> for the current format and \<open>Json_v1\<close> for the older array of entries.
  Every mutator ends in \<open>saveUnsafe\<close>, whose error it ignores; how the write went is the argument
  \<open>wr\<close>. The mutex makes each operation atomic.
\<close>

section \<open>State\<close>

datatype unpin_disk =
    No_file
  | Unreadable
  | Not_json
  | Json_v1 "(string \<times> int) list"
  | Json_v2 "(string \<times> int) list" "(string \<times> string list) list option"

datatype write_result = Written | Write_failed unpin_disk

datatype load_error = Not_exist | Read_error | Decode_error

record unpin_store =
  us_path :: string
  us_entries :: "(string, int) gomap"
  us_groups :: "(string, string list) gomap"
  us_disk :: unpin_disk

section \<open>Operations\<close>

fun save_unsafe :: "write_result \<Rightarrow> unpin_store \<Rightarrow> unpin_store" where
  "save_unsafe Written s = s\<lparr>us_disk := Json_v2 (us_entries s) (Some (us_groups s))\<rparr>"
| "save_unsafe (Write_failed d) s = s\<lparr>us_disk := d\<rparr>"

definition store_add :: "int \<Rightarrow> write_result \<Rightarrow> string \<Rightarrow> unpin_store \<Rightarrow> unpin_store" where
  "store_add now wr cid s = save_unsafe wr (s\<lparr>us_entries := gm_put cid now (us_entries s)\<rparr>)"

definition store_add_group ::
    "int \<Rightarrow> write_result \<Rightarrow> string \<Rightarrow> string list \<Rightarrow> unpin_store \<Rightarrow> unpin_store" where
  "store_add_group now wr master cids s = save_unsafe wr
     (s\<lparr>us_groups := gm_put master cids (us_groups s),
        us_entries := gm_put_all cids now (us_entries s)\<rparr>)"

definition store_track_group ::
    "write_result \<Rightarrow> string \<Rightarrow> string list \<Rightarrow> unpin_store \<Rightarrow> unpin_store" where
  "store_track_group wr master cids s =
     save_unsafe wr (s\<lparr>us_groups := gm_put master cids (us_groups s)\<rparr>)"

definition store_get_group :: "unpin_store \<Rightarrow> string \<Rightarrow> string list" where
  "store_get_group s master = (case map_of (us_groups s) master of None \<Rightarrow> [] | Some cids \<Rightarrow> cids)"

definition store_has :: "unpin_store \<Rightarrow> string \<Rightarrow> bool" where
  "store_has s cid \<longleftrightarrow> map_of (us_entries s) cid \<noteq> None"

definition store_remove :: "write_result \<Rightarrow> string \<Rightarrow> unpin_store \<Rightarrow> unpin_store" where
  "store_remove wr cid s = save_unsafe wr
     (s\<lparr>us_entries := gm_del cid (us_entries s), us_groups := gm_del cid (us_groups s)\<rparr>)"

definition store_remove_group :: "write_result \<Rightarrow> string \<Rightarrow> unpin_store \<Rightarrow> unpin_store" where
  "store_remove_group wr master s = save_unsafe wr
     (let es = (case map_of (us_groups s) master of
                  None \<Rightarrow> us_entries s
                | Some cids \<Rightarrow> gm_del_all cids (us_entries s))
      in s\<lparr>us_entries := es, us_groups := gm_del master (us_groups s)\<rparr>)"

definition store_expired :: "int \<Rightarrow> unpin_store \<Rightarrow> string list" where
  "store_expired cutoff s = map fst (filter (\<lambda>(cid, t). t < cutoff) (us_entries s))"

definition store_all :: "unpin_store \<Rightarrow> (string, int) gomap" where
  "store_all s = us_entries s"

fun load_entries :: "(string \<times> int) list \<Rightarrow> (string, int) gomap \<Rightarrow> (string, int) gomap" where
  "load_entries [] m = m"
| "load_entries ((cid, t) # es) m = load_entries es (gm_put cid t m)"

fun load_groups :: "(string \<times> string list) list \<Rightarrow> (string, string list) gomap \<Rightarrow> (string, string list) gomap" where
  "load_groups [] m = m"
| "load_groups ((master, cids) # gs) m = load_groups gs (gm_put master cids m)"

fun store_load :: "unpin_store \<Rightarrow> load_error + unpin_store" where
  "store_load s = (case us_disk s of
      No_file \<Rightarrow> Inl Not_exist
    | Unreadable \<Rightarrow> Inl Read_error
    | Not_json \<Rightarrow> Inl Decode_error
    | Json_v1 es \<Rightarrow> Inr (s\<lparr>us_entries := load_entries es [], us_groups := []\<rparr>)
    | Json_v2 es gs \<Rightarrow> Inr (s\<lparr>us_entries := load_entries es [],
        us_groups := (case gs of None \<Rightarrow> [] | Some g \<Rightarrow> load_groups g [])\<rparr>))"

definition new_unpin_store :: "string \<Rightarrow> unpin_disk \<Rightarrow> load_error + unpin_store" where
  "new_unpin_store path disk =
     (let s = \<lparr>us_path = path, us_entries = [], us_groups = [], us_disk = disk\<rparr>
      in case store_load s of
           Inl Not_exist \<Rightarrow> Inr s
         | Inl e \<Rightarrow> Inl e
         | Inr s' \<Rightarrow> Inr s')"

section \<open>Invariant\<close>

definition store_inv :: "unpin_store \<Rightarrow> bool" where
  "store_inv s \<longleftrightarrow> wf_gomap (us_entries s) \<and> wf_gomap (us_groups s)"

lemma save_unsafe_frame [simp]:
  "us_entries (save_unsafe wr s) = us_entries s"
  "us_groups (save_unsafe wr s) = us_groups s"
  "us_path (save_unsafe wr s) = us_path s"
  by (cases wr; simp)+

lemma store_ops_inv [intro]:
  "store_inv s \<Longrightarrow> store_inv (store_add now wr cid s)"
  "store_inv s \<Longrightarrow> store_inv (store_add_group now wr m cids s)"
  "store_inv s \<Longrightarrow> store_inv (store_track_group wr m cids s)"
  "store_inv s \<Longrightarrow> store_inv (store_remove wr cid s)"
  "store_inv s \<Longrightarrow> store_inv (store_remove_group wr m s)"
  by (auto simp: store_inv_def store_add_def store_add_group_def store_track_group_def
      store_remove_def store_remove_group_def Let_def split: option.splits)

lemma load_entries_get:
  "wf_gomap es \<Longrightarrow> map_of (load_entries es m) k = (case map_of es k of None \<Rightarrow> map_of m k | Some t \<Rightarrow> Some t)"
proof (induction es arbitrary: m)
  case (Cons e es)
  obtain c t where e: "e = (c, t)" by (cases e)
  with Cons.prems have wf: "wf_gomap es" and c: "map_of es c = None"
    by (auto simp: wf_gomap_def map_of_eq_None_iff)
  show ?case
    using Cons.IH [OF wf] c by (auto simp: e gomap_simps split: option.splits)
qed simp

lemma load_groups_get:
  "wf_gomap gs \<Longrightarrow> map_of (load_groups gs m) k = (case map_of gs k of None \<Rightarrow> map_of m k | Some c \<Rightarrow> Some c)"
proof (induction gs arbitrary: m)
  case (Cons g gs)
  obtain c t where g: "g = (c, t)" by (cases g)
  with Cons.prems have wf: "wf_gomap gs" and c: "map_of gs c = None"
    by (auto simp: wf_gomap_def map_of_eq_None_iff)
  show ?case
    using Cons.IH [OF wf] c by (auto simp: g gomap_simps split: option.splits)
qed simp

lemma load_wf: "wf_gomap m \<Longrightarrow> wf_gomap (load_entries es m)"
  by (induction es m rule: load_entries.induct) auto

lemma load_groups_wf: "wf_gomap m \<Longrightarrow> wf_gomap (load_groups es m)"
  by (induction es m rule: load_groups.induct) auto

lemma new_unpin_store_inv: "new_unpin_store path disk = Inr s \<Longrightarrow> store_inv s"
  by (auto simp: new_unpin_store_def store_inv_def Let_def load_wf load_groups_wf
      split: unpin_disk.splits option.splits)

section \<open>The interface of the soft-delete list\<close>

text \<open>
  What the handlers and the background worker rely on: marks and groups are two finite maps, and
  each operation updates them pointwise. \<open>'w\<close> is how the write of the file went; no law depends on
  it, so a full disk never changes an answer of the running process.
\<close>

locale soft_delete_list =
  fixes marks :: "'s \<Rightarrow> string \<Rightarrow> int option"
    and groups :: "'s \<Rightarrow> string \<Rightarrow> string list option"
    and ok :: "'s \<Rightarrow> bool"
    and has :: "'s \<Rightarrow> string \<Rightarrow> bool"
    and group_of :: "'s \<Rightarrow> string \<Rightarrow> string list"
    and expired :: "int \<Rightarrow> 's \<Rightarrow> string list"
    and add :: "int \<Rightarrow> 'w \<Rightarrow> string \<Rightarrow> 's \<Rightarrow> 's"
    and add_group :: "int \<Rightarrow> 'w \<Rightarrow> string \<Rightarrow> string list \<Rightarrow> 's \<Rightarrow> 's"
    and remove :: "'w \<Rightarrow> string \<Rightarrow> 's \<Rightarrow> 's"
  assumes has_marks: "has s c \<longleftrightarrow> marks s c \<noteq> None"
    and group_of_groups: "group_of s c = (case groups s c of None \<Rightarrow> [] | Some g \<Rightarrow> g)"
    and expired_marks: "ok s \<Longrightarrow> c \<in> set (expired cutoff s) \<longleftrightarrow> (\<exists>t. marks s c = Some t \<and> t < cutoff)"
    and marks_add: "marks (add now w c s) = (marks s)(c \<mapsto> now)"
    and marks_add_group: "marks (add_group now w m cs s) c = (if c \<in> set cs then Some now else marks s c)"
    and groups_add_group: "groups (add_group now w m cs s) = (groups s)(m \<mapsto> cs)"
    and groups_add: "groups (add now w c s) = groups s"
    and marks_remove: "marks (remove w c s) = (marks s)(c := None)"
    and groups_remove: "groups (remove w c s) = (groups s)(c := None)"
    and ok_remove: "ok s \<Longrightarrow> ok (remove w c s)"
begin

lemma has_add: "has (add now w c s) d \<longleftrightarrow> d = c \<or> has s d"
  by (auto simp: has_marks marks_add)

lemma has_add_group: "has (add_group now w m cs s) d \<longleftrightarrow> d \<in> set cs \<or> has s d"
  by (auto simp: has_marks marks_add_group)

lemma has_remove: "has (remove w c s) d \<longleftrightarrow> d \<noteq> c \<and> has s d"
  by (auto simp: has_marks marks_remove)

text \<open>A pass over a list of CIDs that removes those \<open>p\<close> accepts.\<close>

lemma remove_pass:
  "marks (foldl (\<lambda>s c. if p c then remove (w c) c s else s) s cs) d
     = (if d \<in> set cs \<and> p d then None else marks s d)"
  by (induction cs arbitrary: s) (auto simp: marks_remove)

lemma remove_pass_groups:
  "groups (foldl (\<lambda>s c. if p c then remove (w c) c s else s) s cs) d
     = (if d \<in> set cs \<and> p d then None else groups s d)"
  by (induction cs arbitrary: s) (auto simp: groups_remove)

lemma remove_pass_ok:
  "ok s \<Longrightarrow> ok (foldl (\<lambda>s c. if p c then remove (w c) c s else s) s cs)"
  by (induction cs arbitrary: s) (auto simp: ok_remove)

end

definition store_marks :: "unpin_store \<Rightarrow> string \<Rightarrow> int option" where
  "store_marks s = map_of (us_entries s)"

definition store_groups :: "unpin_store \<Rightarrow> string \<Rightarrow> string list option" where
  "store_groups s = map_of (us_groups s)"

interpretation unpin: soft_delete_list store_marks store_groups store_inv store_has store_get_group
  store_expired store_add store_add_group store_remove
proof unfold_locales
  fix s :: unpin_store and c :: string and cutoff :: int
  assume "store_inv s"
  then show "c \<in> set (store_expired cutoff s) \<longleftrightarrow> (\<exists>t. store_marks s c = Some t \<and> t < cutoff)"
    by (force simp: store_expired_def store_marks_def store_inv_def wf_gomap_def)
qed (auto simp: store_marks_def store_groups_def store_has_def store_get_group_def store_add_def
    store_add_group_def store_remove_def gomap_simps store_inv_def)

section \<open>Restart\<close>

text \<open>Reloading what was written gives back the same lookups.\<close>

lemma reload_saved:
  assumes "store_inv s"
  shows "\<exists>s'. new_unpin_store (us_path s) (us_disk (save_unsafe Written s)) = Inr s' \<and>
    store_inv s' \<and> us_path s' = us_path s \<and>
    store_marks s' = store_marks s \<and> store_groups s' = store_groups s"
  using assms
  by (auto simp: new_unpin_store_def Let_def store_inv_def load_wf load_groups_wf store_marks_def
      store_groups_def fun_eq_iff load_entries_get load_groups_get split: option.splits)

text \<open>A run of mutating calls, each with the outcome of its write.\<close>

datatype store_op =
    Op_add int write_result string
  | Op_add_group int write_result string "string list"
  | Op_track_group write_result string "string list"
  | Op_remove write_result string
  | Op_remove_group write_result string
  | Op_save write_result

fun store_apply :: "store_op \<Rightarrow> unpin_store \<Rightarrow> unpin_store" where
  "store_apply (Op_add now wr cid) s = store_add now wr cid s"
| "store_apply (Op_add_group now wr m cids) s = store_add_group now wr m cids s"
| "store_apply (Op_track_group wr m cids) s = store_track_group wr m cids s"
| "store_apply (Op_remove wr cid) s = store_remove wr cid s"
| "store_apply (Op_remove_group wr m) s = store_remove_group wr m s"
| "store_apply (Op_save wr) s = save_unsafe wr s"

fun store_op_written :: "store_op \<Rightarrow> bool" where
  "store_op_written (Op_add now wr cid) = (wr = Written)"
| "store_op_written (Op_add_group now wr m cids) = (wr = Written)"
| "store_op_written (Op_track_group wr m cids) = (wr = Written)"
| "store_op_written (Op_remove wr cid) = (wr = Written)"
| "store_op_written (Op_remove_group wr m) = (wr = Written)"
| "store_op_written (Op_save wr) = (wr = Written)"

definition store_run :: "store_op list \<Rightarrow> unpin_store \<Rightarrow> unpin_store" where
  "store_run ops s = foldl (\<lambda>s op. store_apply op s) s ops"

lemma save_unsafe_inv [intro]: "store_inv s \<Longrightarrow> store_inv (save_unsafe wr s)"
  by (simp add: store_inv_def)

lemma store_apply_inv: "store_inv s \<Longrightarrow> store_inv (store_apply op s)"
  by (cases op) auto

lemma store_apply_path: "us_path (store_apply op s) = us_path s"
  by (cases op) (auto simp: store_add_def store_add_group_def store_track_group_def
      store_remove_def store_remove_group_def Let_def split: option.splits)

lemma store_run_inv: "store_inv s \<Longrightarrow> store_inv (store_run ops s) \<and> us_path (store_run ops s) = us_path s"
  unfolding store_run_def
  by (induction ops arbitrary: s) (auto simp: store_apply_inv store_apply_path)

text \<open>An operation whose write went well leaves the document of the state it produced.\<close>

lemma store_op_written_disk:
  "store_op_written op \<Longrightarrow> store_apply op s = save_unsafe Written (store_apply op s)"
  by (cases op) (simp_all add: store_add_def store_add_group_def store_track_group_def
      store_remove_def store_remove_group_def Let_def)

lemma new_unpin_store_path: "new_unpin_store path disk = Inr s \<Longrightarrow> us_path s = path"
  by (auto simp: new_unpin_store_def Let_def split: unpin_disk.splits option.splits)

section \<open>Properties\<close>



end
