(* ===== verification/File_Handlers.thy ===== *)
theory File_Handlers
  imports Media_Access Variant_Overrides Unpin_Store
begin

text \<open>
  Serving and deleting files: the second half of \<open>handler.go\<close> and \<open>fit_preview.go\<close> of
  \<open>internal/handler\<close>. A \<open>server\<close> holds the configuration, what the cluster and the policy service
  answer during the request, and the two caches as functions: \<open>sv_manifests\<close> is \<open>manifestCache.load\<close> and
  \<open>sv_files\<close> is \<open>fileCache.open\<close> on their current states (the theories on the two caches model those),
  each applied to what a fetch would give. Image processing and content sniffing are functions too. The
  variant overrides and the soft-delete list are passed as states. The CIDs handed to
  \<open>replicateAsync\<close> or to the unpinning goroutine are part of the results.
\<close>

section \<open>The server\<close>

record 'f server =
  sv_image :: "'f image_config option"
  sv_access :: "access_config option"
  sv_resolver :: "resolver option"
  sv_policy :: "policy_request \<Rightarrow> policy_answer"
  sv_crypto :: crypto
  sv_codec :: "grant_codec option"
  sv_check :: "claims \<Rightarrow> call_error + unit"
  sv_revoke :: "string \<Rightarrow> call_error + unit"
  sv_digest :: "string \<Rightarrow> string"
  sv_now :: int
  sv_floats :: "'f floats"
  sv_storage :: storage
  sv_decode_manifest :: "bytes \<Rightarrow> manifest option"
  sv_manifests :: "string \<Rightarrow> manifest option \<Rightarrow> manifest option"
  sv_files :: "string \<Rightarrow> reader option \<Rightarrow> (reader \<times> int option) option"
  sv_preview :: "(bytes \<Rightarrow> image_variant \<Rightarrow> 'f crop option \<Rightarrow> bytes option) option"
  sv_add :: "string \<Rightarrow> bytes \<Rightarrow> string option"
  sv_set_outcome :: set_outcome
  sv_detect :: "bytes \<Rightarrow> string"

type_synonym headers = "(string, string) gomap"

abbreviation overrides_entry :: "variant_overrides option \<Rightarrow> string \<Rightarrow> string" where
  "overrides_entry ov key \<equiv> fst (overrides_get ov key)"

definition valid_crop :: "'f server \<Rightarrow> string \<Rightarrow> bool" where
  "valid_crop sv c \<longleftrightarrow> parse_delivery_crop (sv_floats sv) c \<noteq> None"

definition server_delivery :: "'f server \<Rightarrow> request \<Rightarrow> string \<Rightarrow> access_error + decision" where
  "server_delivery sv r cid =
     resolve_media_delivery (sv_access sv) (valid_crop sv) (sv_policy sv) (sv_resolver sv) (sv_storage sv) r cid"

definition server_delivery_link :: "'f server \<Rightarrow> request \<Rightarrow> string \<Rightarrow> access_error + decision" where
  "server_delivery_link sv r link =
     resolve_media_delivery_link (sv_crypto sv) (valid_crop sv) (sv_policy sv) (sv_resolver sv) (sv_codec sv)
       (sv_check sv) (sv_now sv) r link"

section \<open>Reading\<close>

definition fetch_manifest :: "'f server \<Rightarrow> string \<Rightarrow> manifest option" where
  "fetch_manifest sv cid = (case sg_fetch_path (sv_storage sv) cid manifest_filename of
      None \<Rightarrow> None
    | Some r \<Rightarrow> (case sv_decode_manifest sv (rd_bytes r) of
          None \<Rightarrow> None
        | Some m \<Rightarrow> if rd_fails r then None else Some (manifest_finalize cid m)))"

definition read_manifest :: "'f server \<Rightarrow> string \<Rightarrow> manifest option" where
  "read_manifest sv cid = sv_manifests sv cid (fetch_manifest sv cid)"

definition read_file :: "'f server \<Rightarrow> string \<Rightarrow> string \<Rightarrow> (reader \<times> int option) option" where
  "read_file sv cid path = sv_files sv (cid @ ''/'' @ path)
     (if path = [] then sg_fetch (sv_storage sv) cid else sg_fetch_path (sv_storage sv) cid path)"

section \<open>Headers\<close>

definition inline_safe_content_type :: "string \<Rightarrow> bool" where
  "inline_safe_content_type ct =
     (let media_type = to_lower (trim_space (takeWhile (\<lambda>c. c \<noteq> CHR '';'') ct))
      in media_type \<in> {''image/jpeg'', ''image/png'', ''image/webp'', ''image/gif'', ''image/avif'', ''image/heic'',
            ''image/heif'', ''text/plain''}
         \<or> has_prefix media_type ''video/'' \<or> has_prefix media_type ''audio/''
         \<or> media_type = ''application/vnd.apple.mpegurl'')"

definition content_security_policy :: string where
  "content_security_policy = ''default-src '' @ [CHR 0x27] @ ''none'' @ [CHR 0x27] @ ''; img-src '' @ [CHR 0x27] @ ''self'' @ [CHR 0x27]
     @ '' data:; media-src '' @ [CHR 0x27] @ ''self'' @ [CHR 0x27] @ ''; style-src '' @ [CHR 0x27] @ ''unsafe-inline'' @ [CHR 0x27] @ ''; sandbox''"

definition set_user_file_headers :: "string \<Rightarrow> headers \<Rightarrow> headers" where
  "set_user_file_headers ct hs =
     (let hs1 = gm_put ''X-Content-Type-Options'' ''nosniff''
                  (gm_put ''Content-Security-Policy'' content_security_policy hs)
      in if inline_safe_content_type ct then hs1
         else gm_put ''Content-Disposition'' ''attachment'' (gm_put ''Content-Type'' ''application/octet-stream'' hs1))"

definition set_cached_file_length :: "int option \<Rightarrow> headers \<Rightarrow> headers" where
  "set_cached_file_length hit hs = (case hit of None \<Rightarrow> hs | Some n \<Rightarrow> gm_put ''Content-Length'' (itoa n) hs)"

definition copy_cached_file :: "reader \<Rightarrow> int option \<Rightarrow> bytes" where
  "copy_cached_file r hit = (case hit of None \<Rightarrow> rd_bytes r | Some n \<Rightarrow> take (nat n) (rd_bytes r))"

definition respond_file :: "request \<Rightarrow> headers \<Rightarrow> bytes \<Rightarrow> response" where
  "respond_file r hs bs = \<lparr>rs_status = 200, rs_headers = hs,
     rs_body = (if rq_method r = ''HEAD'' then Body_none else Body_bytes bs)\<rparr>"

section \<open>Configured previews\<close>

definition configured_preview :: "'f server \<Rightarrow> string \<Rightarrow> image_variant option" where
  "configured_preview sv variant = (case sv_image sv of
      None \<Rightarrow> None
    | Some ic \<Rightarrow>
        if \<not> ic_processing_enabled ic then None
        else find (\<lambda>item. iv_key item = variant \<and> iv_width item > 0 \<and> iv_height item > 0) (ic_variants ic))"

definition fit_preview_max_source :: nat where "fit_preview_max_source = 100 * 1024 * 1024"

definition cache_variant :: "'f server \<Rightarrow> image_variant \<Rightarrow> string \<Rightarrow> string \<Rightarrow> string \<Rightarrow> 'f crop option \<Rightarrow> string" where
  "cache_variant sv dims variant source_variant source_cid crop =
     (let ic = the (sv_image sv);
          base = ''preview-v2/'' @ variant @ ''/'' @ itoa (iv_width dims) @ ''x'' @ itoa (iv_height dims) @ ''/''
            @ iv_mode dims @ ''/'' @ ic_resize_policy ic @ ''/q'' @ itoa (ic_jpeg_quality ic);
          masked = (if source_variant = [] then base
                    else base @ ''/'' @ source_variant @ (if source_cid = [] then [] else ''/'' @ source_cid))
      in case crop of None \<Rightarrow> masked | Some c \<Rightarrow> masked @ ''/crop-'' @ crop_key (sv_floats sv) c)"

text \<open>The file a preview is cut from, and its bytes.\<close>

definition preview_source :: "'f server \<Rightarrow> string \<Rightarrow> string \<Rightarrow> string \<Rightarrow> bytes option" where
  "preview_source sv cid source_path source_cid =
     (case (if source_cid \<noteq> [] then sg_fetch (sv_storage sv) source_cid
            else sg_fetch_path (sv_storage sv) cid source_path) of
        None \<Rightarrow> None
      | Some r \<Rightarrow> if rd_fails r \<or> length (rd_bytes r) > fit_preview_max_source then None else Some (rd_bytes r))"

text \<open>The body of the flight: draw, add, remember, replicate.\<close>

definition draw_preview ::
    "'f server \<Rightarrow> string \<Rightarrow> string \<Rightarrow> string \<Rightarrow> image_variant \<Rightarrow> string \<Rightarrow> 'f crop option \<Rightarrow> string
       \<Rightarrow> variant_overrides option \<Rightarrow> variant_overrides option \<times> string list \<times> string option" where
  "draw_preview sv cid source_path source_cid dims variant crop key ov =
     (case preview_source sv cid source_path source_cid of
        None \<Rightarrow> (ov, [], None)
      | Some source \<Rightarrow> (case (the (sv_preview sv)) source dims crop of
          None \<Rightarrow> (ov, [], None)
        | Some preview \<Rightarrow> (case sv_add sv (variant @ ''.jpg'') preview of
            None \<Rightarrow> (ov, [], None)
          | Some added \<Rightarrow> (case overrides_set (sv_set_outcome sv) key added ov of
              (ov1, Inl e) \<Rightarrow> (ov1, [], None)
            | (ov1, Inr u) \<Rightarrow> (ov1, [added], Some added)))))"

definition ensure_configured_preview ::
    "'f server \<Rightarrow> string \<Rightarrow> manifest \<Rightarrow> string \<Rightarrow> string \<Rightarrow> 'f crop option
       \<Rightarrow> variant_overrides option \<Rightarrow> variant_overrides option \<times> string list \<times> string option" where
  "ensure_configured_preview sv cid m variant source_variant crop ov =
     (case configured_preview sv variant of
        None \<Rightarrow> (ov, [], None)
      | Some dims \<Rightarrow>
          if sv_preview sv = None \<or> ov = None \<or> mf_type m \<noteq> ''image'' then (ov, [], None)
          else if source_variant \<noteq> [] \<and> map_of (mf_variants m) source_variant = None then (ov, [], None)
          else
            (let source_path = (if source_variant = [] then as_bundle_path (mf_original m)
                                else as_bundle_path (the (map_of (mf_variants m) source_variant)));
                 source_cid = (if source_variant = [] then []
                               else overrides_entry ov (variant_override_key cid source_variant));
                 key = variant_override_key cid (cache_variant sv dims variant source_variant source_cid crop)
             in case overrides_get ov key of
                  (preview_cid, True) \<Rightarrow> (ov, [], Some preview_cid)
                | (_, False) \<Rightarrow> draw_preview sv cid source_path source_cid dims variant crop key ov))"

section \<open>Serving a file\<close>

definition file_not_found :: "headers \<Rightarrow> response" where
  "file_not_found hs = json_error 404 [(''error'', ''File not found'')] hs"

definition preview_unavailable :: "headers \<Rightarrow> response" where
  "preview_unavailable hs = json_error 503 [(''error'', ''Configured preview is unavailable'')] hs"

definition serve_preview ::
    "'f server \<Rightarrow> request \<Rightarrow> headers \<Rightarrow> string \<Rightarrow> manifest \<Rightarrow> string \<Rightarrow> string \<Rightarrow> 'f crop option \<Rightarrow> decision
       \<Rightarrow> variant_overrides option \<Rightarrow> variant_overrides option \<times> string list \<times> response" where
  "serve_preview sv r hs cid m variant source_variant crop d ov =
     (case ensure_configured_preview sv cid m variant source_variant crop ov of
        (ov1, reps, None) \<Rightarrow> (ov1, reps, preview_unavailable hs)
      | (ov1, reps, Some preview_cid) \<Rightarrow> (ov1, reps, case read_file sv preview_cid [] of
            None \<Rightarrow> preview_unavailable hs
          | Some (rd, hit) \<Rightarrow>
              respond_file r (set_cached_file_length hit
                (gm_put ''Cache-Control'' (protected_media_cache_control (dc_managed d))
                  (set_user_file_headers ''image/jpeg'' (gm_put ''Content-Type'' ''image/jpeg'' hs))))
                (copy_cached_file rd hit)))"

text \<open>The tail of \<open>serveFile\<close>: the file of the bundle, or the one that replaces the variant.\<close>

definition serve_stored ::
    "'f server \<Rightarrow> request \<Rightarrow> headers \<Rightarrow> string \<Rightarrow> string \<Rightarrow> string \<Rightarrow> string \<Rightarrow> decision \<Rightarrow> response" where
  "serve_stored sv r hs cid bundle_path content_type replacement d =
     (let bundled = read_file sv cid bundle_path;
          opened = (if replacement = [] then bundled
                    else (case read_file sv replacement [] of None \<Rightarrow> bundled | Some x \<Rightarrow> Some x))
      in case opened of
           None \<Rightarrow> file_not_found hs
         | Some (rd, hit) \<Rightarrow>
             if content_type = [] \<and> rd_fails rd \<and> length (rd_bytes rd) < 512
             then json_error 500 [(''error'', ''Failed to read file'')] hs
             else
               (let ct = (if content_type = [] then sv_detect sv (take 512 (rd_bytes rd)) else content_type)
                in respond_file r (set_cached_file_length hit
                     (gm_put ''Cache-Control'' (protected_media_cache_control (dc_managed d))
                       (set_user_file_headers ct (gm_put ''Content-Type'' ct hs))))
                     (copy_cached_file rd (if content_type = [] then None else hit))))"

text \<open>The size and the mask a URL asks for; \<open>None\<close> when it asks for nothing that exists.\<close>

definition requested_variant :: "'f server \<Rightarrow> string list \<Rightarrow> (string \<times> string) option" where
  "requested_variant sv parts = (case parts of
      [] \<Rightarrow> Some ([], [])
    | [p] \<Rightarrow> Some (p, [])
    | [p, msk] \<Rightarrow>
        if configured_preview sv p = None \<or> (msk \<noteq> privacy_blur_variant_key \<and> msk \<noteq> privacy_face_blur_variant_key)
        then None else Some (p, msk)
    | _ \<Rightarrow> None)"

definition delivery_crop_for :: "'f server \<Rightarrow> manifest \<Rightarrow> string \<Rightarrow> decision \<Rightarrow> string \<times> 'f crop option" where
  "delivery_crop_for sv m variant d = (case parse_delivery_crop (sv_floats sv) (dc_crop d) of
      None \<Rightarrow> (variant, None)
    | Some crop \<Rightarrow>
        if mf_type m \<noteq> ''image'' then (variant, None)
        else
          (let v = (if configured_preview sv variant = None then crop_fallback_variant else variant)
           in (v, if configured_preview sv v = None then None else Some crop)))"

definition source_variant_for :: "decision \<Rightarrow> string \<Rightarrow> string" where
  "source_variant_for d requested_mask =
     (if dc_managed d \<and> dc_mode d \<noteq> Original
         \<and> (dc_mode d = Blur \<or> requested_mask \<noteq> privacy_blur_variant_key)
      then mode_string (dc_mode d) else requested_mask)"

definition serve_file ::
    "'f server \<Rightarrow> request \<Rightarrow> headers \<Rightarrow> string \<Rightarrow> string list \<Rightarrow> decision
       \<Rightarrow> variant_overrides option \<Rightarrow> variant_overrides option \<times> string list \<times> response" where
  "serve_file sv r hs cid parts d ov = (case read_manifest sv cid of
      None \<Rightarrow> (ov, [], file_not_found hs)
    | Some m \<Rightarrow>
        if parts = [''bundle''] then
          (ov, [],
           if dc_managed d \<and> dc_mode d \<noteq> Original
           then json_error 403 [(''error'', ''Protected media bundle is unavailable'')] hs
           else \<lparr>rs_status = 200, rs_headers = gm_put ''Content-Type'' ''application/json''
                   (gm_put ''Cache-Control'' (protected_media_cache_control (dc_managed d)) hs), rs_body = Body_manifest m\<rparr>)
        else (case requested_variant sv parts of
            None \<Rightarrow> (ov, [], file_not_found hs)
          | Some (asked, msk) \<Rightarrow>
              (let (variant, crop) = delivery_crop_for sv m asked d;
                   source = source_variant_for d msk
               in if configured_preview sv variant \<noteq> None
                     \<and> (source \<noteq> [] \<or> map_of (mf_variants m) variant = None \<or> crop \<noteq> None)
                  then serve_preview sv r hs cid m variant source crop d ov
                  else
                    (let key = (if dc_managed d \<and> dc_mode d \<noteq> Original then mode_string (dc_mode d) else variant)
                     in if key = [] then
                          (ov, [], serve_stored sv r hs cid (as_bundle_path (mf_original m)) (as_content_type (mf_original m)) [] d)
                        else (case map_of (mf_variants m) key of
                            None \<Rightarrow> (ov, [], json_error 403 [(''error'', ''Protected media variant is unavailable'')] hs)
                          | Some v \<Rightarrow> (ov, [], serve_stored sv r hs cid (as_bundle_path v) (as_content_type v)
                                        (overrides_entry ov (variant_override_key cid key)) d))))))"

definition initial_headers :: headers where
  "initial_headers = [(''Cache-Control'', no_store)]"

fun cid_error_text :: "cid_error \<Rightarrow> string" where
  "cid_error_text Cid_required = ''CID required''"
| "cid_error_text Invalid_cid_format = ''invalid CID format''"

definition file_was_deleted :: response where
  "file_was_deleted = json_error 404 [(''error'', ''File not found''), (''message'', ''File was deleted'')] initial_headers"

definition path_parts :: "string \<Rightarrow> string \<Rightarrow> string list" where
  "path_parts prefix path = split_char CHR ''/'' (trim_char CHR ''/'' (trim_prefix path prefix))"

definition handle_file ::
    "'f server \<Rightarrow> request \<Rightarrow> variant_overrides option \<Rightarrow> variant_overrides option \<times> string list \<times> response" where
  "handle_file sv r ov = (case path_parts ''/file/'' (rq_path r) of
      [] \<Rightarrow> (ov, [], json_error 400 [(''error'', ''CID required'')] initial_headers)
    | cid # rest \<Rightarrow>
        if cid = [] then (ov, [], json_error 400 [(''error'', ''CID required'')] initial_headers)
        else (case validate_cid cid of
            Some e \<Rightarrow> (ov, [], json_error 400 [(''error'', cid_error_text e)] initial_headers)
          | None \<Rightarrow>
              if sg_deleted (sv_storage sv) cid then (ov, [], file_was_deleted)
              else (case server_delivery sv r cid of
                  Inl e \<Rightarrow> (ov, [], write_media_access_error e)
                | Inr d \<Rightarrow> serve_file sv r initial_headers cid rest d ov)))"

definition handle_file_link ::
    "'f server \<Rightarrow> request \<Rightarrow> variant_overrides option \<Rightarrow> variant_overrides option \<times> string list \<times> response" where
  "handle_file_link sv r ov = (case path_parts ''/file/link/'' (rq_path r) of
      [] \<Rightarrow> (ov, [], json_error 400 [(''error'', ''Media link required'')] initial_headers)
    | link # rest \<Rightarrow>
        if link = [] then (ov, [], json_error 400 [(''error'', ''Media link required'')] initial_headers)
        else (case server_delivery_link sv r link of
            Inl e \<Rightarrow> (ov, [], write_media_access_error e)
          | Inr d \<Rightarrow>
              if validate_cid (dc_source_cid d) \<noteq> None then (ov, [], file_not_found initial_headers)
              else if sg_deleted (sv_storage sv) (dc_source_cid d) then (ov, [], file_was_deleted)
              else serve_file sv r initial_headers (dc_source_cid d) rest d ov))"

section \<open>Deleting\<close>

definition with_store :: "unpin_store \<Rightarrow> 'f server \<Rightarrow> 'f server" where
  "with_store st sv = sv\<lparr>sv_storage := (sv_storage sv)\<lparr>sg_deleted := store_has st\<rparr>\<rparr>"

text \<open>\<open>HandleDelete\<close>: the new list, the CIDs the goroutine unpins and the answer.\<close>

definition handle_delete ::
    "'f server \<Rightarrow> string \<Rightarrow> int \<Rightarrow> write_result \<Rightarrow> request \<Rightarrow> unpin_store \<Rightarrow> unpin_store \<times> string list \<times> response" where
  "handle_delete sv user now wr r st =
     (if user \<noteq> ''api-key'' then (st, [], json_error 403 [(''error'', ''Deleting files is not allowed'')] [])
      else
        (let cid = trim_prefix (rq_path r) ''/file/''
         in case validate_cid cid of
              Some e \<Rightarrow> (st, [], json_error 400 [(''error'', cid_error_text e)] [])
            | None \<Rightarrow> (case (if sv_codec sv = None then Inr () else sv_revoke sv (file_resource (sg_canonical (sv_storage sv)) (sv_digest sv) cid)) of
                  Inl e \<Rightarrow> (st, [], write_media_access_error (check_error e))
                | Inr u \<Rightarrow>
                    (let group = store_get_group st cid;
                         ok = json_error 200 [(''status'', ''deleted''), (''cid'', cid)] []
                     in if group \<noteq> [] then (store_add_group now wr cid group st, group, ok)
                        else (store_add now wr cid st, [cid], ok)))))"

section \<open>Facts\<close>

lemma json_error_body [simp]: "rs_body (json_error s obj hs) = Body_json obj" "rs_status (json_error s obj hs) = s"
  by (simp_all add: json_error_def)

lemma respond_file_bytes: "rs_body (respond_file r hs bs) = Body_bytes bs' \<Longrightarrow> bs' = bs"
  by (auto simp: respond_file_def split: if_splits)

lemma serve_stored_bytes:
  assumes "rs_body (serve_stored sv r hs cid path ct replacement d) = Body_bytes bs"
  shows "\<exists>rd hit. (read_file sv cid path = Some (rd, hit) \<or> (replacement \<noteq> [] \<and> read_file sv replacement [] = Some (rd, hit))) \<and>
    (bs = rd_bytes rd \<or> bs = copy_cached_file rd hit)"
proof -
  define opened where "opened = (if replacement = [] then read_file sv cid path
    else (case read_file sv replacement [] of None \<Rightarrow> read_file sv cid path | Some x \<Rightarrow> Some x))"
  from assms obtain rd hit where o: "opened = Some (rd, hit)"
    by (auto simp: serve_stored_def opened_def [symmetric] file_not_found_def Let_def split: option.splits)
  with assms have "bs = copy_cached_file rd (if ct = [] then None else hit)"
    by (auto simp: serve_stored_def opened_def [symmetric] Let_def dest!: respond_file_bytes split: if_splits)
  then have "bs = rd_bytes rd \<or> bs = copy_cached_file rd hit" by (auto simp: copy_cached_file_def split: if_splits)
  with o show ?thesis by (auto simp: opened_def split: if_splits option.splits)
qed

lemma serve_preview_bytes:
  assumes "serve_preview sv r hs cid m variant src crop d ov = (ov', reps, rs)" and "rs_body rs = Body_bytes bs"
  shows "\<exists>pc rd hit. ensure_configured_preview sv cid m variant src crop ov = (ov', reps, Some pc) \<and>
    read_file sv pc [] = Some (rd, hit) \<and> bs = copy_cached_file rd hit"
  using assms
  by (auto simp: serve_preview_def preview_unavailable_def dest!: respond_file_bytes split: prod.splits option.splits)

lemma ensure_configured_preview_Some:
  assumes "ensure_configured_preview sv cid m variant src crop ov = (ov', reps, Some pc)"
  shows "\<exists>dims. configured_preview sv variant = Some dims \<and> mf_type m = ''image'' \<and>
    (let path = (if src = [] then as_bundle_path (mf_original m) else as_bundle_path (the (map_of (mf_variants m) src)));
         sc = (if src = [] then [] else overrides_entry ov (variant_override_key cid src));
         key = variant_override_key cid (cache_variant sv dims variant src sc crop)
     in (src = [] \<or> map_of (mf_variants m) src \<noteq> None) \<and>
        ((ov' = ov \<and> reps = [] \<and> overrides_get ov key = (pc, True)) \<or>
         (\<exists>source preview. preview_source sv cid path sc = Some source \<and> (the (sv_preview sv)) source dims crop = Some preview \<and>
            sv_add sv (variant @ ''.jpg'') preview = Some pc \<and> overrides_set (sv_set_outcome sv) key pc ov = (ov', Inr ()) \<and>
            reps = [pc])))"
  using assms
  by (auto simp: ensure_configured_preview_def draw_preview_def Let_def
      split: option.splits if_splits prod.splits sum.splits bool.splits)

lemma overrides_set_get: "overrides_set out key cid ov = (ov', Inr ()) \<Longrightarrow> overrides_get ov' key = (cid, cid \<noteq> [])"
  by (auto simp: overrides_set_def overrides_get_def Let_def gomap_simps split: option.splits if_splits)

lemma overrides_get_True: "overrides_get ov key = (cid, True) \<Longrightarrow> cid \<noteq> []"
  by (auto simp: overrides_get_def split: option.splits)

lemma preview_source_Some:
  "preview_source sv cid path sc = Some source \<Longrightarrow>
    \<exists>rd. (if sc \<noteq> [] then sg_fetch (sv_storage sv) sc = Some rd else sg_fetch_path (sv_storage sv) cid path = Some rd) \<and>
      (\<not> rd_fails rd \<and> length (rd_bytes rd) \<le> fit_preview_max_source) \<and> source = rd_bytes rd"
  by (auto simp: preview_source_def split: option.splits if_splits)

text \<open>The ends of \<open>serveFile\<close> other than the bundle description.\<close>

lemma serve_file_cases:
  assumes "serve_file sv r hs cid parts d ov = (ov', reps, rs)" and "parts \<noteq> [''bundle'']"
  obtains (error) "rs_status rs \<in> {403, 404}"
    | (preview) m v s c where "serve_preview sv r hs cid m v s c d ov = (ov', reps, rs)"
    | (stored) p t rp where "rs = serve_stored sv r hs cid p t rp d"
proof (cases "read_manifest sv cid")
  case None
  with assms show ?thesis by (intro error) (auto simp: serve_file_def file_not_found_def)
next
  case m: (Some m)
  show ?thesis
  proof (cases "requested_variant sv parts")
    case None
    with assms m show ?thesis by (intro error) (auto simp: serve_file_def file_not_found_def)
  next
    case (Some a)
    obtain asked msk where a: "a = (asked, msk)" by fastforce
    obtain variant crop where vc: "delivery_crop_for sv m asked d = (variant, crop)" by fastforce
    show ?thesis
    proof (cases "configured_preview sv variant \<noteq> None \<and> (source_variant_for d msk \<noteq> [] \<or>
        map_of (mf_variants m) variant = None \<or> crop \<noteq> None)")
      case True
      with assms m Some a vc show ?thesis by (intro preview) (simp add: serve_file_def)
    next
      case False
      define key where "key = (if dc_managed d \<and> dc_mode d \<noteq> Original then mode_string (dc_mode d) else variant)"
      have eq: "serve_file sv r hs cid parts d ov = (if key = [] then
            (ov, [], serve_stored sv r hs cid (as_bundle_path (mf_original m)) (as_content_type (mf_original m)) [] d)
          else (case map_of (mf_variants m) key of
              None \<Rightarrow> (ov, [], json_error 403 [(''error'', ''Protected media variant is unavailable'')] hs)
            | Some v \<Rightarrow> (ov, [], serve_stored sv r hs cid (as_bundle_path v) (as_content_type v)
                          (overrides_entry ov (variant_override_key cid key)) d)))"
        unfolding serve_file_def m option.case Some a prod.case vc Let_def if_not_P [OF False] key_def
        using assms(2) by (simp only: if_False)
      show ?thesis
      proof (cases "key = [] \<or> map_of (mf_variants m) key \<noteq> None")
        case True
        with assms(1) have "\<exists>p t rp. rs = serve_stored sv r hs cid p t rp d"
          unfolding eq by (auto split: if_splits option.splits)
        then show ?thesis using stored by blast
      next
        case False
        with assms(1) show ?thesis unfolding eq by (intro error) (auto split: if_splits option.splits)
      qed
    qed
  qed
qed

lemma source_variant_protected:
  "dc_managed d \<Longrightarrow> dc_mode d \<noteq> Original \<Longrightarrow>
    source_variant_for d msk = mode_string (dc_mode d) \<or> (source_variant_for d msk = ''blur'' \<and> msk = ''blur'')"
  by (auto simp: source_variant_for_def privacy_blur_variant_key_def)

lemma mode_string_not_empty [simp]: "mode_string m \<noteq> []"
  by (cases m) simp_all

section \<open>Properties\<close>

text \<open>
  C4: a protected file never leaves the server as uploaded. When the decision is managed and its mode is not
  \<open>original\<close>, the bytes \<open>serveFile\<close> sends are those of the bundle's variant for that mode (or of the file
  that now stands in for this variant), or of a preview made from a variant of the bundle: the one of
  the mode or, when the URL asked for it, the stronger full blur. The original's path is never read for
  the body, and the bundle description is refused.
\<close>

theorem protected_never_original:
  assumes "dc_managed d" and "dc_mode d \<noteq> Original"
    and "serve_file sv r hs cid parts d ov = (ov', reps, rs)" and "rs_status rs = 200" and "rq_method r \<noteq> ''HEAD''"
  shows "\<exists>m bs rd hit. read_manifest sv cid = Some m \<and> rs_body rs = Body_bytes bs \<and>
    (bs = rd_bytes rd \<or> bs = copy_cached_file rd hit) \<and>
    ((\<exists>v. map_of (mf_variants m) (mode_string (dc_mode d)) = Some v \<and>
       (read_file sv cid (as_bundle_path v) = Some (rd, hit) \<or>
        read_file sv (overrides_entry ov (variant_override_key cid (mode_string (dc_mode d)))) [] = Some (rd, hit))) \<or>
     (\<exists>variant src crop pc. (src = mode_string (dc_mode d) \<or> (src = ''blur'' \<and> parts = [variant, ''blur''])) \<and>
        map_of (mf_variants m) src \<noteq> None \<and>
        ensure_configured_preview sv cid m variant src crop ov = (ov', reps, Some pc) \<and>
        read_file sv pc [] = Some (rd, hit)))"
proof -
  from assms(3,4) obtain m where m: "read_manifest sv cid = Some m"
    by (auto simp: serve_file_def file_not_found_def split: option.splits)
  from assms m have nb: "parts \<noteq> [''bundle'']" by (auto simp: serve_file_def)
  with assms m obtain asked msk where ask: "requested_variant sv parts = Some (asked, msk)"
    by (auto simp: serve_file_def file_not_found_def split: option.splits)
  obtain variant crop where vc: "delivery_crop_for sv m asked d = (variant, crop)" by fastforce
  define src where "src = source_variant_for d msk"
  have src: "src = mode_string (dc_mode d) \<or> (src = ''blur'' \<and> msk = ''blur'')"
    unfolding src_def using source_variant_protected [OF assms(1,2)] .
  have masked: "msk \<noteq> [] \<Longrightarrow> parts = [asked, msk] \<and> configured_preview sv asked \<noteq> None"
    using ask by (auto simp: requested_variant_def split: list.splits if_splits)
  show ?thesis
  proof (cases "configured_preview sv variant \<noteq> None")
    case True
    from src mode_string_not_empty [of "dc_mode d"] have "src \<noteq> []" by (auto simp del: mode_string_not_empty)
    with assms(3) m nb ask vc True have sp: "serve_preview sv r hs cid m variant src crop d ov = (ov', reps, rs)"
      by (simp add: serve_file_def src_def split: if_splits)
    with assms(4,5) obtain bs where bs: "rs_body rs = Body_bytes bs"
      by (auto simp: serve_preview_def preview_unavailable_def respond_file_def split: prod.splits option.splits)
    from serve_preview_bytes [OF sp bs] obtain pc rd hit where p:
      "ensure_configured_preview sv cid m variant src crop ov = (ov', reps, Some pc)"
      "read_file sv pc [] = Some (rd, hit)" "bs = copy_cached_file rd hit" by blast
    from ensure_configured_preview_Some [OF p(1)] \<open>src \<noteq> []\<close> have have_src: "map_of (mf_variants m) src \<noteq> None"
      by (auto simp: Let_def)
    have "msk = ''blur'' \<Longrightarrow> variant = asked"
      using vc masked by (auto simp: delivery_crop_for_def Let_def split: option.splits if_splits)
    with src masked have "src = mode_string (dc_mode d) \<or> (src = ''blur'' \<and> parts = [variant, ''blur''])" by auto
    with m bs p have_src show ?thesis by blast
  next
    case False
    with assms m nb ask vc obtain v where v: "map_of (mf_variants m) (mode_string (dc_mode d)) = Some v"
      "rs = serve_stored sv r hs cid (as_bundle_path v) (as_content_type v)
        (overrides_entry ov (variant_override_key cid (mode_string (dc_mode d)))) d"
      by (auto simp: serve_file_def Let_def split: option.splits)
    with assms(4,5) obtain bs where bs: "rs_body rs = Body_bytes bs"
      by (auto simp: serve_stored_def file_not_found_def respond_file_def Let_def split: if_splits option.splits)
    from serve_stored_bytes [OF bs [unfolded v(2)]] m bs v(1) show ?thesis by blast
  qed
qed

definition example_manifest :: manifest where
  "example_manifest = (new_file_manifest ''a.jpg'' ''image/jpeg'' ''jpeg'' 3)\<lparr>mf_type := ''image'',
     mf_variants := [(''blur'', empty_asset\<lparr>as_bundle_path := ''blur.jpg'', as_content_type := ''image/jpeg''\<rparr>)]\<rparr>"

definition unit_floats :: "unit floats" where
  "unit_floats = \<lparr>fl_parse = (\<lambda>s. None), fl_is_nan = (\<lambda>x. False), fl_less = (\<lambda>x y. False), fl_leq = (\<lambda>x y. False),
     fl_add = (\<lambda>x y. ()), fl_sub = (\<lambda>x y. ()), fl_mul = (\<lambda>x y. ()), fl_div = (\<lambda>x y. ()), fl_sqrt = (\<lambda>x. ()),
     fl_min = (\<lambda>x y. ()), fl_max = (\<lambda>x y. ()), fl_round = (\<lambda>x. ()), fl_floor = (\<lambda>x. ()), fl_ceil = (\<lambda>x. ()),
     fl_to_int = (\<lambda>x. 0), fl_of_int = (\<lambda>i. ()), fl_lit = (\<lambda>m k. ()), fl_fixed = (\<lambda>n x. [])\<rparr>"

definition example_server :: "(policy_request \<Rightarrow> policy_answer) \<Rightarrow> storage \<Rightarrow> unit server" where
  "example_server policy sg = \<lparr>sv_image = None, sv_access = None, sv_resolver = Some example_resolver, sv_policy = policy,
     sv_crypto = example_crypto, sv_codec = None, sv_check = (\<lambda>c. Inr ()), sv_revoke = (\<lambda>c. Inr ()), sv_digest = (\<lambda>s. s),
     sv_now = 0, sv_floats = unit_floats, sv_storage = sg, sv_decode_manifest = (\<lambda>b. Some example_manifest),
     sv_manifests = (\<lambda>c m. m), sv_files = (\<lambda>k r. map_option (\<lambda>rd. (rd, None)) r), sv_preview = None,
     sv_add = (\<lambda>n b. None), sv_set_outcome = Set_ok, sv_detect = (\<lambda>b. ''text/plain'')\<rparr>"

definition blurred_storage :: storage where
  "blurred_storage = example_storage\<lparr>sg_fetch_path := (\<lambda>c p. Some
     \<lparr>rd_bytes = (if p = ''blur.jpg'' then [7] else [1, 2, 3]), rd_fails = False\<rparr>)\<rparr>"

definition blur_decision :: decision where
  "blur_decision = initial_decision\<lparr>dc_mode := Blur, dc_source_cid := ''c1''\<rparr>"

lemma example_server_fields [simp]:
  "sv_image (example_server policy sg) = None" "sv_access (example_server policy sg) = None"
  "sv_resolver (example_server policy sg) = Some example_resolver" "sv_policy (example_server policy sg) = policy"
  "sv_codec (example_server policy sg) = None" "sv_storage (example_server policy sg) = sg"
  "sv_files (example_server policy sg) = (\<lambda>k r. map_option (\<lambda>rd. (rd, None)) r)"
  "sv_manifests (example_server policy sg) = (\<lambda>c m. m)" "sv_floats (example_server policy sg) = unit_floats"
  "sv_decode_manifest (example_server policy sg) = (\<lambda>b. Some example_manifest)"
  by (simp_all add: example_server_def)

lemma example_manifest_read:
  "read_manifest (example_server policy blurred_storage) cid = Some (manifest_finalize cid example_manifest)"
  by (simp add: read_manifest_def fetch_manifest_def blurred_storage_def)

lemma example_crop: "parse_delivery_crop unit_floats c = None"
proof -
  have "crop_numbers unit_floats (p # ps) = None" for p ps by (simp add: crop_number_def unit_floats_def)
  moreover obtain p ps where "split_char CHR '','' (trim_space c) = p # ps" by (metis split_char_not_Nil neq_Nil_conv)
  ultimately show ?thesis by (simp add: parse_delivery_crop_def Let_def)
qed

lemma example_serves_blur:
  "\<exists>hs. serve_file (example_server policy blurred_storage) (example_request ''/file/c1'' []) [] ''c1'' [] blur_decision None =
    (None, [], \<lparr>rs_status = 200, rs_headers = hs, rs_body = Body_bytes [7]\<rparr>)"
proof -
  have v: "map_of (mf_variants (manifest_finalize ''c1'' example_manifest)) ''blur'' =
      Some (empty_asset\<lparr>as_bundle_path := ''blur.jpg'', as_content_type := ''image/jpeg'', as_path := ''/file/c1/blur''\<rparr>)"
    by (simp add: finalize_variants_get example_manifest_def)
  have np: "configured_preview (example_server policy sg) x = None" for x sg
    by (simp add: configured_preview_def)
  show ?thesis
    unfolding serve_file_def example_manifest_read
    by (simp add: requested_variant_def delivery_crop_for_def example_crop np blur_decision_def initial_decision_def v
        serve_stored_def read_file_def blurred_storage_def overrides_get_def respond_file_def
        example_request_def copy_cached_file_def Let_def)
qed

theorem protected_never_original_witness:
  "\<exists>hs. serve_file (example_server (\<lambda>p. Transport_error) blurred_storage) (example_request ''/file/c1'' []) [] ''c1'' [] blur_decision None =
    (None, [], \<lparr>rs_status = 200, rs_headers = hs, rs_body = Body_bytes [7]\<rparr>) \<and>
    (\<exists>m. read_manifest (example_server (\<lambda>p. Transport_error) blurred_storage) ''c1'' = Some m)"
proof -
  obtain hs where s: "serve_file (example_server (\<lambda>p. Transport_error) blurred_storage) (example_request ''/file/c1'' []) [] ''c1'' []
      blur_decision None = (None, [], \<lparr>rs_status = 200, rs_headers = hs, rs_body = Body_bytes [7]\<rparr>)"
    using example_serves_blur by blast
  from protected_never_original [OF _ _ s] s show ?thesis
    by (auto simp: blur_decision_def initial_decision_def example_request_def)
qed

text \<open>
  A preview of a protected picture is a rendition of its current mask. The CID \<open>ensureConfiguredPreview\<close>
  returns for a source variant was either remembered under a key that names the picture, the size, the
  settings, the variant and the file that currently replaces the variant, so a redrawn mask never meets an
  old preview; or it was just drawn from that replacement (from the bundle's variant when there is none)
  within the size limit, added to the cluster, remembered under the same key and handed to replication.
\<close>

theorem preview_of_current_mask:
  assumes "ensure_configured_preview sv cid m variant src crop ov = (ov', reps, Some pc)" and "src \<noteq> []"
  shows "\<exists>dims a key. configured_preview sv variant = Some dims \<and> map_of (mf_variants m) src = Some a \<and>
    key = variant_override_key cid (cache_variant sv dims variant src (overrides_entry ov (variant_override_key cid src)) crop) \<and>
    overrides_get ov' key = (pc, pc \<noteq> []) \<and>
    ((ov' = ov \<and> reps = []) \<or>
     (reps = [pc] \<and>
      (\<exists>rd preview. (if overrides_entry ov (variant_override_key cid src) \<noteq> []
                     then sg_fetch (sv_storage sv) (overrides_entry ov (variant_override_key cid src)) = Some rd
                     else sg_fetch_path (sv_storage sv) cid (as_bundle_path a) = Some rd) \<and>
        \<not> rd_fails rd \<and> length (rd_bytes rd) \<le> fit_preview_max_source \<and>
        (the (sv_preview sv)) (rd_bytes rd) dims crop = Some preview \<and> sv_add sv (variant @ ''.jpg'') preview = Some pc)))"
proof -
  let ?sc = "overrides_entry ov (variant_override_key cid src)"
  let ?k = "\<lambda>dims. variant_override_key cid (cache_variant sv dims variant src ?sc crop)"
  let ?drawn = "\<lambda>dims a. \<exists>source preview. preview_source sv cid (as_bundle_path a) ?sc = Some source \<and>
      (the (sv_preview sv)) source dims crop = Some preview \<and> sv_add sv (variant @ ''.jpg'') preview = Some pc \<and>
      overrides_set (sv_set_outcome sv) (?k dims) pc ov = (ov', Inr ()) \<and> reps = [pc]"
  have "\<exists>dims. configured_preview sv variant = Some dims \<and> mf_type m = ''image'' \<and>
      (src = [] \<or> map_of (mf_variants m) src \<noteq> None) \<and>
      ((ov' = ov \<and> reps = [] \<and> overrides_get ov (?k dims) = (pc, True)) \<or> ?drawn dims (the (map_of (mf_variants m) src)))"
    using ensure_configured_preview_Some [OF assms(1)] unfolding Let_def if_not_P [OF assms(2)] .
  then obtain dims a where d: "configured_preview sv variant = Some dims" "map_of (mf_variants m) src = Some a"
    and alt: "(ov' = ov \<and> reps = [] \<and> overrides_get ov (?k dims) = (pc, True)) \<or> ?drawn dims a"
    using assms(2) by (metis option.collapse)
  let ?key = "?k dims"
  from alt consider
    (hit) "ov' = ov" "reps = []" "overrides_get ov ?key = (pc, True)"
  | (drawn) source preview where "preview_source sv cid (as_bundle_path a) ?sc = Some source"
      "(the (sv_preview sv)) source dims crop = Some preview" "sv_add sv (variant @ ''.jpg'') preview = Some pc"
      "overrides_set (sv_set_outcome sv) ?key pc ov = (ov', Inr ())" "reps = [pc]"
    by blast
  then show ?thesis
  proof cases
    case hit
    then have "overrides_get ov' ?key = (pc, pc \<noteq> [])" using overrides_get_True [OF hit(3)] by simp
    with d(1) hit(1,2) show ?thesis by (intro exI [of _ dims] exI [of _ a] exI [of _ ?key] conjI) (use d(2) in simp_all)
  next
    case drawn
    have set: "overrides_get ov' ?key = (pc, pc \<noteq> [])" by (rule overrides_set_get [OF drawn(4)])
    from preview_source_Some [OF drawn(1)] obtain rd where rd: "(if ?sc \<noteq> [] then sg_fetch (sv_storage sv) ?sc = Some rd
        else sg_fetch_path (sv_storage sv) cid (as_bundle_path a) = Some rd)"
      "\<not> rd_fails rd \<and> length (rd_bytes rd) \<le> fit_preview_max_source" "source = rd_bytes rd" by blast
    show ?thesis
    proof (intro exI [of _ dims] exI [of _ a] exI [of _ ?key] conjI disjI2 exI [of _ rd] exI [of _ preview])
      show "(the (sv_preview sv)) (rd_bytes rd) dims crop = Some preview" using drawn(2) rd(3) by simp
    qed (use d set drawn(3,5) rd in auto)
  qed
qed

definition preview_server :: "unit server" where
  "preview_server = (example_server (\<lambda>p. Transport_error) blurred_storage)\<lparr>
     sv_image := Some \<lparr>ic_processing_enabled = True, ic_variants = [\<lparr>iv_key = ''small'', iv_width = 64, iv_height = 64, iv_mode = ''fit''\<rparr>],
       ic_output_format = ''jpeg'', ic_jpeg_progressive = False, ic_jpeg_quality = 80, ic_webp_quality = 80,
       ic_resize_policy = ''fit'', ic_privacy = default_image_privacy_config unit_floats\<rparr>,
     sv_preview := Some (\<lambda>b dims crop. Some (b @ [0])), sv_add := (\<lambda>n b. Some ''Qp'')\<rparr>"

definition empty_overrides :: "variant_overrides option" where
  "empty_overrides = Some \<lparr>vo_path = ''v'', vo_entries = [], vo_disk = Ov_missing\<rparr>"

theorem preview_of_current_mask_witness:
  "\<exists>ov'. ensure_configured_preview preview_server ''c1'' example_manifest ''small'' ''blur'' None empty_overrides =
      (ov', [''Qp''], Some ''Qp'') \<and> (\<exists>key. overrides_get ov' key = (''Qp'', True))"
proof -
  have e: "overrides_get empty_overrides k = ([], False)" for k by (simp add: overrides_get_def empty_overrides_def)
  have "\<exists>ov'. ensure_configured_preview preview_server ''c1'' example_manifest ''small'' ''blur'' None empty_overrides =
      (ov', [''Qp''], Some ''Qp'')"
    unfolding ensure_configured_preview_def draw_preview_def e
    by (simp add: configured_preview_def preview_server_def example_manifest_def e preview_source_def blurred_storage_def
        fit_preview_max_source_def overrides_set_def empty_overrides_def new_file_manifest_def Let_def example_server_def)
  then obtain ov' where r: "ensure_configured_preview preview_server ''c1'' example_manifest ''small'' ''blur'' None empty_overrides =
      (ov', [''Qp''], Some ''Qp'')" ..
  from preview_of_current_mask [OF r] r show ?thesis by auto
qed

text \<open>
  Nothing a user stored runs as a page of the application. Every file response carries the sandboxing
  content policy and forbids sniffing, and unless its type is a picture, video, sound, plain text or an HLS
  playlist it is sent as an opaque attachment.
\<close>

theorem stored_files_inert:
  assumes "serve_file sv r hs cid parts d ov = (ov', reps, rs)" and "rs_status rs = 200" and "parts \<noteq> [''bundle'']"
  shows "map_of (rs_headers rs) ''Content-Security-Policy'' = Some content_security_policy \<and>
    map_of (rs_headers rs) ''X-Content-Type-Options'' = Some ''nosniff'' \<and>
    map_of (rs_headers rs) ''Cache-Control'' = Some (protected_media_cache_control (dc_managed d)) \<and>
    (\<exists>ct. map_of (rs_headers rs) ''Content-Type'' = Some ct \<and>
      (inline_safe_content_type ct \<or> (ct = ''application/octet-stream'' \<and>
        map_of (rs_headers rs) ''Content-Disposition'' = Some ''attachment'')))"
proof -
  let ?hs = "\<lambda>ct hit. set_cached_file_length hit (gm_put ''Cache-Control'' (protected_media_cache_control (dc_managed d))
    (set_user_file_headers ct (gm_put ''Content-Type'' ct hs)))"
  have stored: "rs_status (serve_stored sv r hs c p t rp d) = 200 \<Longrightarrow>
      \<exists>ct hit bs. serve_stored sv r hs c p t rp d = respond_file r (?hs ct hit) bs" for c p t rp
    by (auto simp: serve_stored_def file_not_found_def Let_def split: option.splits if_splits)
  have preview: "serve_preview sv r hs cid m v s c d ov = (ov', reps, rs) \<Longrightarrow>
      \<exists>ct hit bs. rs = respond_file r (?hs ct hit) bs" for m v s c
    using assms(2) by (auto simp: serve_preview_def preview_unavailable_def split: prod.splits option.splits)
  from assms(1,3) have "\<exists>ct hit bs. rs = respond_file r (?hs ct hit) bs"
    by (cases rule: serve_file_cases) (use assms(2) stored preview in auto)
  then obtain ct hit bs where "rs = respond_file r (?hs ct hit) bs" by blast
  then have h: "rs_headers rs = ?hs ct hit" by (simp add: respond_file_def)
  have len: "map_of (set_cached_file_length hit h) k = map_of h k" if "k \<noteq> ''Content-Length''" for h k
    using that by (simp add: set_cached_file_length_def gomap_simps split: option.splits)
  show ?thesis unfolding h by (auto simp: len set_user_file_headers_def Let_def gomap_simps)
qed

theorem stored_files_inert_witness:
  "\<exists>rs. serve_file (example_server (\<lambda>p. Transport_error) blurred_storage) (example_request ''/file/c1'' []) [] ''c1'' [] blur_decision None =
    (None, [], rs) \<and> map_of (rs_headers rs) ''X-Content-Type-Options'' = Some ''nosniff''"
proof -
  obtain hs where s: "serve_file (example_server (\<lambda>p. Transport_error) blurred_storage) (example_request ''/file/c1'' []) [] ''c1'' []
      blur_decision None = (None, [], \<lparr>rs_status = 200, rs_headers = hs, rs_body = Body_bytes [7]\<rparr>)"
    using example_serves_blur by blast
  from stored_files_inert [OF s] s show ?thesis by simp
qed

lemma handle_delete_ok:
  assumes "handle_delete sv user now wr r st = (st', cids, rs)" "rs_status rs = 200"
  shows "user = ''api-key'' \<and> validate_cid (trim_prefix (rq_path r) ''/file/'') = None \<and>
    cids = (if store_get_group st (trim_prefix (rq_path r) ''/file/'') = [] then [trim_prefix (rq_path r) ''/file/'']
            else store_get_group st (trim_prefix (rq_path r) ''/file/'')) \<and>
    (\<forall>c. store_has st' c \<longleftrightarrow> c \<in> set cids \<or> store_has st c)"
proof -
  let ?cid = "trim_prefix (rq_path r) ''/file/''"
  from assms have u: "user = ''api-key''" "validate_cid ?cid = None"
    and st: "if store_get_group st ?cid \<noteq> [] then cids = store_get_group st ?cid \<and> st' = store_add_group now wr ?cid cids st
      else cids = [?cid] \<and> st' = store_add now wr ?cid st"
    by (auto simp: handle_delete_def Let_def write_media_access_error_def split: if_splits option.splits sum.splits
        access_error.splits grant_error.splits)
  from st have "store_has st' c \<longleftrightarrow> c \<in> set cids \<or> store_has st c" for c
    by (auto simp: store_has_def store_add_group_def store_add_def gomap_simps split: if_splits)
  with u st show ?thesis by (auto split: if_splits)
qed

text \<open>
  C8: a deletion takes effect at once and only the platform may delete. Anybody else gets 403 and nothing
  changes; when a deletion answers 200, every CID it unpins (the whole group of a video, or the file
  alone) is on the soft-delete list from then on: the file routes answer that the file was deleted,
  for the CID and for a link whose decision names it, whatever the policy says, and no earlier
  deletion is lost.
\<close>

theorem delete_is_immediate:
  assumes "handle_delete sv user now wr r st = (st', cids, rs)" and "rs_status rs = 200"
    and "c \<in> set cids" and "validate_cid c = None"
  shows "user = ''api-key'' \<and>
    (path_parts ''/file/'' (rq_path q) = c # rest \<longrightarrow> handle_file (with_store st' sv) q ov = (ov, [], file_was_deleted)) \<and>
    (path_parts ''/file/link/'' (rq_path q) = link # rest \<and> link \<noteq> [] \<and>
      server_delivery_link (with_store st' sv) q link = Inr d \<and> dc_source_cid d = c \<longrightarrow>
     handle_file_link (with_store st' sv) q ov = (ov, [], file_was_deleted)) \<and>
    (store_has st x \<longrightarrow> store_has st' x)"
proof -
  note h = handle_delete_ok [OF assms(1,2)]
  from h assms(3) have u: "user = ''api-key''" and has: "store_has st' c" "store_has st x \<longrightarrow> store_has st' x" by auto
  from assms(4) have ne: "c \<noteq> []" by (auto simp: validate_cid_def)
  have del: "sg_deleted (sv_storage (with_store st' sv)) = store_has st'" by (simp add: with_store_def)
  show ?thesis using u has ne assms(4) by (auto simp: handle_file_def handle_file_link_def del)
qed

lemma example_cid_path: "path_parts ''/file/'' (''/file/'' @ example_cid) = [example_cid]"
proof -
  have "CHR ''/'' \<notin> set example_cid" by (simp add: example_cid_def)
  moreover from this have "dropWhile (\<lambda>x. x = CHR ''/'') example_cid = example_cid"
    "dropWhile (\<lambda>x. x = CHR ''/'') (rev example_cid) = rev example_cid" by (simp_all add: example_cid_def)
  ultimately show ?thesis unfolding path_parts_def trim_char_def trim_prefix_append by (simp add: split_char_free)
qed

theorem delete_is_immediate_witness:
  "handle_file (with_store (store_add 5 Written example_cid \<lparr>us_path = [], us_entries = [], us_groups = [], us_disk = No_file\<rparr>)
      (example_server (\<lambda>p. Transport_error) blurred_storage)) (example_request (''/file/'' @ example_cid) []) None =
    (None, [], file_was_deleted)"
proof -
  let ?sv = "example_server (\<lambda>p. Transport_error) blurred_storage"
  let ?r = "example_request (''/file/'' @ example_cid) []"
  let ?st = "\<lparr>us_path = [], us_entries = [], us_groups = [], us_disk = No_file\<rparr>"
  have p: "rq_path ?r = ''/file/'' @ example_cid" by (simp add: example_request_def)
  have t: "trim_prefix (rq_path ?r) ''/file/'' = example_cid" unfolding p by (rule trim_prefix_append)
  have d: "handle_delete ?sv ''api-key'' 5 Written ?r ?st = (store_add 5 Written example_cid ?st, [example_cid],
      json_error 200 [(''status'', ''deleted''), (''cid'', example_cid)] [])"
    unfolding handle_delete_def t by (simp add: example_cid_valid store_get_group_def)
  from delete_is_immediate [OF d _ _ example_cid_valid, where q = ?r and rest = "[]" and ov = None] example_cid_path
  show ?thesis unfolding p by simp
qed

end
