(* ===== verification/Cluster.thy ===== *)
theory Cluster
  imports Go_Strings
begin

text \<open>
  \<open>internal/ipfs\<close>: the client of one IPFS node (\<open>client.go\<close>, \<open>helpers.go\<close>) and the cluster of all
  nodes (\<open>cluster.go\<close>). The kubo RPC library is a parameter: \<open>kubo\<close> holds one function per call the
  client makes, on the state \<open>'s\<close> of a node; a call may fail and may change the state, whatever the
  outcome. Contexts are part of the state a call sees. The goroutines of one operation each work on
  their own node, so their interleaving is the pointwise run; the order in which their errors arrive
  is not specified, and the error lists here are in node order. Sleeps are returned as a list.
\<close>

section \<open>The client of one node\<close>

datatype 'e unixfs = Unixfs_file "'e option" | Unixfs_dir "'e unixfs list" "'e option" | Unixfs_other

record ('s, 'e) kubo =
  kb_valid_path :: "string \<Rightarrow> bool"
  kb_valid_cid :: "string \<Rightarrow> bool"
  kb_error_text :: "'e \<Rightarrow> string"
  kb_add :: "bytes \<Rightarrow> 's \<Rightarrow> 's \<times> ('e + string)"
  kb_add_dir :: "(string, bytes) gomap \<Rightarrow> 's \<Rightarrow> 's \<times> ('e + string)"
  kb_is_pinned :: "string \<Rightarrow> 's \<Rightarrow> 's \<times> ('e + bool)"
  kb_pin_add :: "string \<Rightarrow> 's \<Rightarrow> 's \<times> ('e + unit)"
  kb_pin_rm :: "string \<Rightarrow> 's \<Rightarrow> 's \<times> ('e + unit)"
  kb_cat :: "string \<Rightarrow> 's \<Rightarrow> 's \<times> ('e + reader)"
  kb_get :: "string \<Rightarrow> 's \<Rightarrow> 's \<times> ('e + 'e unixfs)"
  kb_dag_get :: "string \<Rightarrow> 's \<Rightarrow> 's \<times> ('e + 64 word list \<times> ('e + 64 word))"

datatype 'e drain_error = Copy_failed 'e | Entries_failed 'e | Unsupported_node

datatype 'e client_error =
    Invalid_path
  | Rpc_failed 'e
  | Drain_failed "'e drain_error"
  | Exhausted int "'e client_error option"

record add_result =
  ar_cid :: string
  ar_name :: string

record stat_result =
  sr_cid :: string
  sr_size :: "64 word"

text \<open>Running a call and mapping its two outcomes.\<close>

definition on_result :: "('e \<Rightarrow> 'f) \<Rightarrow> ('a \<Rightarrow> 'b) \<Rightarrow> 's \<times> ('e + 'a) \<Rightarrow> 's \<times> ('f + 'b)" where
  "on_result f g r = (case r of (s, Inl e) \<Rightarrow> (s, Inl (f e)) | (s, Inr a) \<Rightarrow> (s, Inr (g a)))"

definition ipfs_path :: "string \<Rightarrow> string" where
  "ipfs_path cid = ''/ipfs/'' @ cid"

definition client_add :: "('s, 'e) kubo \<Rightarrow> string \<Rightarrow> bytes \<Rightarrow> 's \<Rightarrow> 's \<times> ('e client_error + add_result)" where
  "client_add kb filename payload s =
     on_result Rpc_failed (\<lambda>cid. \<lparr>ar_cid = cid, ar_name = filename\<rparr>) (kb_add kb payload s)"

definition client_add_dir ::
    "('s, 'e) kubo \<Rightarrow> (string, bytes) gomap \<Rightarrow> 's \<Rightarrow> 's \<times> ('e client_error + add_result)" where
  "client_add_dir kb entries s =
     on_result Rpc_failed (\<lambda>cid. \<lparr>ar_cid = cid, ar_name = []\<rparr>) (kb_add_dir kb entries s)"

text \<open>
  The retry loop of \<open>Pin\<close> and \<open>fetchWithRetry\<close>: \<open>n\<close> attempts are left of \<open>retries\<close>, the number of
  the current one is \<open>retries - n + 1\<close>; before the next attempt it sleeps \<open>delay\<close> times that number.
\<close>

fun retry_loop ::
    "('s \<Rightarrow> 's \<times> ('e + unit)) \<Rightarrow> int \<Rightarrow> int \<Rightarrow> nat \<Rightarrow> 'e option \<Rightarrow> 's \<Rightarrow> 's \<times> int list \<times> ('e option + unit)" where
  "retry_loop op delay retries 0 prev s = (s, [], Inl prev)"
| "retry_loop op delay retries (Suc n) prev s = (case op s of
      (s1, Inr u) \<Rightarrow> (s1, [], Inr ())
    | (s1, Inl e) \<Rightarrow>
        (let attempt = retries - int n;
             (s2, sleeps, r) = retry_loop op delay retries n (Some e) s1
         in (s2, (if attempt < retries then [int64 (delay * attempt)] else []) @ sleeps, r)))"

definition client_pin ::
    "('s, 'e) kubo \<Rightarrow> int \<Rightarrow> int \<Rightarrow> string \<Rightarrow> 's \<Rightarrow> 's \<times> int list \<times> ('e client_error + unit)" where
  "client_pin kb retries delay cid s =
     (let p = ipfs_path cid in
      if \<not> kb_valid_path kb p then (s, [], Inl Invalid_path)
      else (case kb_is_pinned kb p s of
          (s1, Inr True) \<Rightarrow> (s1, [], Inr ())
        | (s1, _) \<Rightarrow> (case retry_loop (kb_pin_add kb p) delay retries (nat retries) None s1 of
              (s2, sleeps, Inr u) \<Rightarrow> (s2, sleeps, Inr ())
            | (s2, sleeps, Inl e) \<Rightarrow> (s2, sleeps, Inl (Exhausted retries (map_option Rpc_failed e))))))"

definition client_unpin :: "('s, 'e) kubo \<Rightarrow> string \<Rightarrow> 's \<Rightarrow> 's \<times> ('e client_error + unit)" where
  "client_unpin kb cid s =
     (let p = ipfs_path cid in
      if \<not> kb_valid_path kb p then (s, Inl Invalid_path)
      else on_result Rpc_failed (\<lambda>u. u) (kb_pin_rm kb p s))"

definition client_cat :: "('s, 'e) kubo \<Rightarrow> string \<Rightarrow> 's \<Rightarrow> 's \<times> ('e client_error + reader)" where
  "client_cat kb cid s =
     (let p = ipfs_path cid in
      if \<not> kb_valid_path kb p then (s, Inl Invalid_path)
      else on_result Rpc_failed (\<lambda>r. r) (kb_cat kb p s))"

definition client_cat_path :: "('s, 'e) kubo \<Rightarrow> string \<Rightarrow> string \<Rightarrow> 's \<Rightarrow> 's \<times> ('e client_error + reader)" where
  "client_cat_path kb cid file_path s =
     (let p = ''/ipfs/'' @ cid @ ''/'' @ file_path in
      if \<not> kb_valid_path kb p then (s, Inl Invalid_path)
      else on_result Rpc_failed (\<lambda>r. r) (kb_cat kb p s))"

text \<open>\<open>drainUnixFS\<close>: \<open>None\<close> when everything was read. An error of a directory listing whose text
  contains \<open>EOF\<close> counts as the end of the listing.\<close>

fun drain_unixfs :: "('e \<Rightarrow> string) \<Rightarrow> 'e unixfs \<Rightarrow> 'e drain_error option"
and drain_entries :: "('e \<Rightarrow> string) \<Rightarrow> 'e unixfs list \<Rightarrow> 'e drain_error option" where
  "drain_unixfs text (Unixfs_file err) = map_option Copy_failed err"
| "drain_unixfs text (Unixfs_dir entries err) = (case drain_entries text entries of
      Some e \<Rightarrow> Some e
    | None \<Rightarrow> (case err of
          None \<Rightarrow> None
        | Some e \<Rightarrow> if str_contains (text e) ''EOF'' then None else Some (Entries_failed e)))"
| "drain_unixfs text Unixfs_other = Some Unsupported_node"
| "drain_entries text [] = None"
| "drain_entries text (n # ns) = (case drain_unixfs text n of Some e \<Rightarrow> Some e | None \<Rightarrow> drain_entries text ns)"

definition client_fetch :: "('s, 'e) kubo \<Rightarrow> string \<Rightarrow> 's \<Rightarrow> 's \<times> ('e client_error + unit)" where
  "client_fetch kb cid s =
     (let p = ipfs_path cid in
      if \<not> kb_valid_path kb p then (s, Inl Invalid_path)
      else (case kb_get kb p s of
          (s1, Inl e) \<Rightarrow> (s1, Inl (Rpc_failed e))
        | (s1, Inr node) \<Rightarrow> (s1, case drain_unixfs (kb_error_text kb) node of
              None \<Rightarrow> Inr ()
            | Some e \<Rightarrow> Inl (Drain_failed e))))"

definition cumulative_size :: "('s, 'e) kubo \<Rightarrow> string \<Rightarrow> 's \<Rightarrow> 's \<times> ('e client_error + 64 word)" where
  "cumulative_size kb cid s = (case kb_dag_get kb cid s of
      (s1, Inl e) \<Rightarrow> (s1, Inl (Rpc_failed e))
    | (s1, Inr (links, own)) \<Rightarrow>
        (s1, if links = [] then map_sum Rpc_failed (\<lambda>n. n) own
             else Inr (foldl (+) 0 links)))"

definition client_stat :: "('s, 'e) kubo \<Rightarrow> string \<Rightarrow> 's \<Rightarrow> 's \<times> ('e client_error + stat_result)" where
  "client_stat kb cid s =
     (if \<not> kb_valid_cid kb cid then (s, Inl Invalid_path)
      else on_result (\<lambda>e. e) (\<lambda>n. \<lparr>sr_cid = cid, sr_size = n\<rparr>) (cumulative_size kb cid s))"

definition client_is_pinned :: "('s, 'e) kubo \<Rightarrow> string \<Rightarrow> 's \<Rightarrow> 's \<times> ('e client_error + bool)" where
  "client_is_pinned kb cid s =
     (let p = ipfs_path cid in
      if \<not> kb_valid_path kb p then (s, Inl Invalid_path)
      else on_result Rpc_failed (\<lambda>b. b) (kb_is_pinned kb p s))"

section \<open>Addresses\<close>

text \<open>
  \<open>net.ParseIP\<close> on a host without a colon accepts four decimal fields of at most 255 without leading
  zeros.
\<close>

definition ip4_field :: "string \<Rightarrow> bool" where
  "ip4_field f \<longleftrightarrow> f \<noteq> [] \<and> list_all is_digit f \<and> (length f > 1 \<longrightarrow> hd f \<noteq> CHR ''0'') \<and>
     (case digits_value 0 f of None \<Rightarrow> False | Some n \<Rightarrow> n \<le> 255)"

definition is_ip4 :: "string \<Rightarrow> bool" where
  "is_ip4 host \<longleftrightarrow> length (split_char CHR ''.'' host) = 4 \<and> list_all ip4_field (split_char CHR ''.'' host)"

definition http_url_to_multiaddr :: "string \<Rightarrow> string" where
  "http_url_to_multiaddr raw =
     (let url = trim_prefix (trim_prefix raw ''http://'') ''https://'';
          (host, port) = (case cut_char url CHR '':'' of
              None \<Rightarrow> (url, ''5001'')
            | Some (h, p) \<Rightarrow> (h, trim_suffix p ''/''))
      in (if is_ip4 host then ''/ip4/'' else ''/dns4/'') @ host @ ''/tcp/'' @ port @ ''/http'')"

section \<open>The cluster\<close>

record 's cluster_node =
  cn_url :: string
  cn_state :: 's

record 's cluster =
  cl_nodes :: "'s cluster_node list"
  cl_read_next :: "64 word"

datatype 'e cluster_error =
    No_nodes
  | Read_payload
  | Node_errors "(string \<times> 'e client_error) list" nat
  | Cid_mismatch string string string
  | Not_available

text \<open>\<open>New\<close> fails on an address the multiaddr library refuses; \<open>NewCluster\<close> then skips the URL.\<close>

definition new_cluster :: "(string \<Rightarrow> bool) \<Rightarrow> (string \<Rightarrow> 's) \<Rightarrow> string list \<Rightarrow> 's cluster" where
  "new_cluster valid_multiaddr connect urls =
     \<lparr>cl_nodes = map (\<lambda>url. \<lparr>cn_url = url, cn_state = connect url\<rparr>)
                   (filter (\<lambda>url. valid_multiaddr (http_url_to_multiaddr url)) urls),
      cl_read_next = 0\<rparr>"

text \<open>One call on every node: the new nodes, and the errors with the URL of their node.\<close>

definition run_all :: "('s \<Rightarrow> 's \<times> ('e + 'a)) \<Rightarrow> 's cluster_node list \<Rightarrow> 's cluster_node list" where
  "run_all op nodes = map (\<lambda>n. n\<lparr>cn_state := fst (op (cn_state n))\<rparr>) nodes"

fun node_errors :: "('s \<Rightarrow> 's \<times> ('e + 'a)) \<Rightarrow> 's cluster_node list \<Rightarrow> (string \<times> 'e) list" where
  "node_errors op [] = []"
| "node_errors op (n # ns) = (case snd (op (cn_state n)) of
      Inl e \<Rightarrow> (cn_url n, e) # node_errors op ns
    | Inr a \<Rightarrow> node_errors op ns)"

fun node_results :: "('s \<Rightarrow> 's \<times> ('e + 'a)) \<Rightarrow> 's cluster_node list \<Rightarrow> (string \<times> 'a) list" where
  "node_results op [] = []"
| "node_results op (n # ns) = (case snd (op (cn_state n)) of
      Inl e \<Rightarrow> node_results op ns
    | Inr a \<Rightarrow> (cn_url n, a) # node_results op ns)"

definition collect_cluster_errors :: "nat \<Rightarrow> (string \<times> 'e client_error) list \<Rightarrow> 'e cluster_error option" where
  "collect_cluster_errors count errs = (if errs = [] then None else Some (Node_errors errs count))"

fun first_mismatch :: "string \<Rightarrow> (string \<times> add_result) list \<Rightarrow> (string \<times> string) option" where
  "first_mismatch cid [] = None"
| "first_mismatch cid ((url, r) # rs) = (if ar_cid r \<noteq> cid then Some (url, ar_cid r) else first_mismatch cid rs)"

text \<open>The common part of \<open>ClusterAdd\<close> and \<open>ClusterAddDir\<close>.\<close>

definition add_everywhere ::
    "('s \<Rightarrow> 's \<times> ('e client_error + add_result)) \<Rightarrow> 's cluster \<Rightarrow> 's cluster \<times> ('e cluster_error + add_result)" where
  "add_everywhere op cl =
     (cl\<lparr>cl_nodes := run_all op (cl_nodes cl)\<rparr>,
      case collect_cluster_errors (length (cl_nodes cl)) (node_errors op (cl_nodes cl)) of
        Some e \<Rightarrow> Inl e
      | None \<Rightarrow>
          (let results = node_results op (cl_nodes cl); first = snd (hd results)
           in case first_mismatch (ar_cid first) (tl results) of
                Some (url, cid) \<Rightarrow> Inl (Cid_mismatch url cid (ar_cid first))
              | None \<Rightarrow> Inr first))"

definition cluster_add ::
    "('s, 'e) kubo \<Rightarrow> string \<Rightarrow> reader \<Rightarrow> 's cluster \<Rightarrow> 's cluster \<times> ('e cluster_error + add_result)" where
  "cluster_add kb filename data cl =
     (if cl_nodes cl = [] then (cl, Inl No_nodes)
      else if rd_fails data then (cl, Inl Read_payload)
      else add_everywhere (client_add kb filename (rd_bytes data)) cl)"

definition cluster_add_dir ::
    "('s, 'e) kubo \<Rightarrow> (string, bytes) gomap \<Rightarrow> 's cluster \<Rightarrow> 's cluster \<times> ('e cluster_error + add_result)" where
  "cluster_add_dir kb files cl =
     (if cl_nodes cl = [] then (cl, Inl No_nodes)
      else add_everywhere (client_add_dir kb files) cl)"

definition cluster_stat ::
    "('s, 'e) kubo \<Rightarrow> string \<Rightarrow> 's cluster \<Rightarrow> 's cluster \<times> ('e cluster_error + 'e client_error + stat_result)" where
  "cluster_stat kb cid cl = (case cl_nodes cl of
      [] \<Rightarrow> (cl, Inl No_nodes)
    | n # ns \<Rightarrow> (let (s, r) = client_stat kb cid (cn_state n)
                 in (cl\<lparr>cl_nodes := n\<lparr>cn_state := s\<rparr> # ns\<rparr>, Inr r)))"

definition drop_sleeps :: "'s \<times> int list \<times> 'r \<Rightarrow> 's \<times> 'r" where
  "drop_sleeps x = (case x of (s, sleeps, r) \<Rightarrow> (s, r))"

text \<open>\<open>fetchWithRetry\<close>, and the goroutine bodies of \<open>ClusterReplicate\<close> and \<open>ClusterPinAllExcept\<close>.\<close>

definition fetch_with_retry ::
    "('s, 'e) kubo \<Rightarrow> int \<Rightarrow> int \<Rightarrow> string \<Rightarrow> 's \<Rightarrow> 's \<times> int list \<times> ('e client_error + unit)" where
  "fetch_with_retry kb retries delay cid s =
     (case retry_loop (client_fetch kb cid) delay retries (nat retries) None s of
        (s1, sleeps, Inr u) \<Rightarrow> (s1, sleeps, Inr ())
      | (s1, sleeps, Inl e) \<Rightarrow> (s1, sleeps, Inl (Exhausted retries e)))"

definition replicate_node ::
    "('s, 'e) kubo \<Rightarrow> int \<Rightarrow> int \<Rightarrow> string \<Rightarrow> 's \<Rightarrow> 's \<times> ('e client_error + unit)" where
  "replicate_node kb retries delay cid s =
     (case drop_sleeps (fetch_with_retry kb retries delay cid s) of
        (s1, Inl e) \<Rightarrow> (s1, Inl e)
      | (s1, Inr u) \<Rightarrow> drop_sleeps (client_pin kb retries delay cid s1))"

definition pin_node ::
    "('s, 'e) kubo \<Rightarrow> int \<Rightarrow> int \<Rightarrow> string \<Rightarrow> 's \<Rightarrow> 's \<times> ('e client_error + unit)" where
  "pin_node kb retries delay cid s =
     (case client_fetch kb cid s of
        (s1, Inl e) \<Rightarrow> (s1, Inl e)
      | (s1, Inr u) \<Rightarrow> drop_sleeps (client_pin kb retries delay cid s1))"

definition node_errors_result :: "nat \<Rightarrow> (string \<times> 'e client_error) list \<Rightarrow> 'e cluster_error + unit" where
  "node_errors_result count errs = (if errs = [] then Inr () else Inl (Node_errors errs count))"

definition cluster_replicate ::
    "('s, 'e) kubo \<Rightarrow> string \<Rightarrow> int \<Rightarrow> int \<Rightarrow> 's cluster \<Rightarrow> 's cluster \<times> ('e cluster_error + unit)" where
  "cluster_replicate kb cid retries delay cl =
     (if cl_nodes cl = [] then (cl, Inl No_nodes)
      else (cl\<lparr>cl_nodes := run_all (replicate_node kb retries delay cid) (cl_nodes cl)\<rparr>,
            node_errors_result (length (cl_nodes cl)) (node_errors (replicate_node kb retries delay cid) (cl_nodes cl))))"

definition cluster_pin_all_except ::
    "('s, 'e) kubo \<Rightarrow> string \<Rightarrow> string \<Rightarrow> int \<Rightarrow> int \<Rightarrow> 's cluster \<Rightarrow> 's cluster \<times> ('e cluster_error + unit)" where
  "cluster_pin_all_except kb cid skip retries delay cl =
     (cl\<lparr>cl_nodes := map (\<lambda>n. if cn_url n = skip then n
            else n\<lparr>cn_state := fst (pin_node kb retries delay cid (cn_state n))\<rparr>) (cl_nodes cl)\<rparr>,
      node_errors_result (length (cl_nodes cl))
        (node_errors (pin_node kb retries delay cid) (filter (\<lambda>n. cn_url n \<noteq> skip) (cl_nodes cl))))"

definition cluster_unpin_all ::
    "('s, 'e) kubo \<Rightarrow> string \<Rightarrow> 's cluster \<Rightarrow> 's cluster \<times> ('e cluster_error + unit)" where
  "cluster_unpin_all kb cid cl =
     (cl\<lparr>cl_nodes := run_all (client_unpin kb cid) (cl_nodes cl)\<rparr>,
      node_errors_result (length (cl_nodes cl)) (node_errors (client_unpin kb cid) (cl_nodes cl)))"

definition cluster_is_pinned_all :: "('s, 'e) kubo \<Rightarrow> string \<Rightarrow> 's cluster \<Rightarrow> 's cluster \<times> bool" where
  "cluster_is_pinned_all kb cid cl =
     (if cl_nodes cl = [] then (cl, False)
      else (cl\<lparr>cl_nodes := run_all (client_is_pinned kb cid) (cl_nodes cl)\<rparr>,
            list_all (\<lambda>n. snd (client_is_pinned kb cid (cn_state n)) = Inr True) (cl_nodes cl)))"

text \<open>\<open>ClusterTryFetch\<close> and \<open>ClusterTryFetchPath\<close>: one node after the other, from the next in turn.\<close>

definition read_start :: "64 word \<Rightarrow> nat \<Rightarrow> nat" where
  "read_start next count = unat ((next + 1) - 1) mod count"

fun try_nodes ::
    "('s \<Rightarrow> 's \<times> ('e + 'r)) \<Rightarrow> nat list \<Rightarrow> 's cluster_node list \<Rightarrow> 's cluster_node list \<times> 'r option" where
  "try_nodes op [] nodes = (nodes, None)"
| "try_nodes op (i # is) nodes = (case op (cn_state (nodes ! i)) of
      (s, Inr r) \<Rightarrow> (nodes[i := (nodes ! i)\<lparr>cn_state := s\<rparr>], Some r)
    | (s, Inl e) \<Rightarrow> try_nodes op is (nodes[i := (nodes ! i)\<lparr>cn_state := s\<rparr>]))"

definition try_everywhere ::
    "('s \<Rightarrow> 's \<times> ('e client_error + 'r)) \<Rightarrow> 's cluster \<Rightarrow> 's cluster \<times> ('e cluster_error + 'r)" where
  "try_everywhere op cl =
     (if cl_nodes cl = [] then (cl, Inl No_nodes)
      else
        (let count = length (cl_nodes cl);
             start = read_start (cl_read_next cl) count;
             (nodes, r) = try_nodes op (map (\<lambda>offset. (start + offset) mod count) [0..<count]) (cl_nodes cl)
         in (cl\<lparr>cl_nodes := nodes, cl_read_next := cl_read_next cl + 1\<rparr>,
             case r of None \<Rightarrow> Inl Not_available | Some x \<Rightarrow> Inr x)))"

definition cluster_try_fetch ::
    "('s, 'e) kubo \<Rightarrow> string \<Rightarrow> 's cluster \<Rightarrow> 's cluster \<times> ('e cluster_error + reader)" where
  "cluster_try_fetch kb cid cl = try_everywhere (client_cat kb cid) cl"

definition cluster_try_fetch_path ::
    "('s, 'e) kubo \<Rightarrow> string \<Rightarrow> string \<Rightarrow> 's cluster \<Rightarrow> 's cluster \<times> ('e cluster_error + reader)" where
  "cluster_try_fetch_path kb cid file_path cl = try_everywhere (client_cat_path kb cid file_path) cl"

definition cluster_cat ::
    "('s, 'e) kubo \<Rightarrow> string \<Rightarrow> 's cluster \<Rightarrow> 's cluster \<times> ('e cluster_error + reader)" where
  "cluster_cat kb cid cl = (if cl_nodes cl = [] then (cl, Inl No_nodes) else cluster_try_fetch kb cid cl)"

definition node_urls :: "'s cluster \<Rightarrow> string list" where
  "node_urls cl = map cn_url (cl_nodes cl)"

section \<open>Facts about one operation on every node\<close>

lemma node_errors_Nil: "node_errors op ns = [] \<longleftrightarrow> list_all (\<lambda>n. is_ok (snd (op (cn_state n)))) ns"
  by (induction ns) (auto split: sum.splits)

lemma node_results_all_ok:
  "list_all (\<lambda>n. is_ok (snd (op (cn_state n)))) ns \<Longrightarrow>
    map snd (node_results op ns) = map (\<lambda>n. projr (snd (op (cn_state n)))) ns"
  by (induction ns) (auto split: sum.splits)

lemma first_mismatch_None: "first_mismatch cid rs = None \<longleftrightarrow> list_all (\<lambda>r. ar_cid (snd r) = cid) rs"
  by (induction cid rs rule: first_mismatch.induct) auto

lemma add_everywhere_Inr:
  assumes "cl_nodes cl \<noteq> []"
  shows "snd (add_everywhere op cl) = Inr r \<longleftrightarrow>
    (list_all (\<lambda>n. is_ok (snd (op (cn_state n)))) (cl_nodes cl) \<and>
     snd (op (cn_state (hd (cl_nodes cl)))) = Inr r \<and>
     list_all (\<lambda>n. ar_cid (projr (snd (op (cn_state n)))) = ar_cid r) (cl_nodes cl))"
proof (cases "list_all (\<lambda>n. is_ok (snd (op (cn_state n)))) (cl_nodes cl)")
  case False
  then have "node_errors op (cl_nodes cl) \<noteq> []" by (simp add: node_errors_Nil)
  with False show ?thesis by (simp add: add_everywhere_def collect_cluster_errors_def)
next
  case True
  obtain n ns where ns: "cl_nodes cl = n # ns" using assms by (cases "cl_nodes cl") auto
  with True obtain a where a: "snd (op (cn_state n)) = Inr a" by (auto simp: is_ok_iff)
  have none: "node_errors op (cl_nodes cl) = []" using True by (simp add: node_errors_Nil)
  have rest: "map snd (node_results op ns) = map (\<lambda>n. projr (snd (op (cn_state n)))) ns"
    using True ns by (simp add: node_results_all_ok)
  have cids: "list_all (\<lambda>r. ar_cid (snd r) = c) (node_results op ns) \<longleftrightarrow>
      list_all (\<lambda>n. ar_cid (projr (snd (op (cn_state n)))) = c) ns" for c
  proof -
    have "list_all (\<lambda>r. ar_cid (snd r) = c) (node_results op ns) \<longleftrightarrow> list_all (\<lambda>r. ar_cid r = c) (map snd (node_results op ns))"
      by (simp add: list.pred_map comp_def)
    then show ?thesis unfolding rest by (simp add: list.pred_map comp_def)
  qed
  have "snd (add_everywhere op cl) = (case first_mismatch (ar_cid a) (node_results op ns) of
      Some (url, cid) \<Rightarrow> Inl (Cid_mismatch url cid (ar_cid a)) | None \<Rightarrow> Inr a)"
    using none ns a by (auto simp: add_everywhere_def collect_cluster_errors_def Let_def split: option.splits)
  then have "snd (add_everywhere op cl) = Inr r \<longleftrightarrow> a = r \<and> first_mismatch (ar_cid a) (node_results op ns) = None"
    by (auto split: option.splits)
  also have "\<dots> \<longleftrightarrow> a = r \<and> list_all (\<lambda>n. ar_cid (projr (snd (op (cn_state n)))) = ar_cid a) ns"
    by (simp add: first_mismatch_None cids)
  finally show ?thesis using True ns a by auto
qed

section \<open>Facts about reading\<close>

lemma read_start_unat: "read_start next count = unat next mod count"
  by (simp add: read_start_def)

lemma read_order_set:
  "0 < count \<Longrightarrow> set (map (\<lambda>offset. (start + offset) mod count) [0..<count]) = {0..<count}"
  for count :: nat
proof -
  assume "0 < count"
  have "\<exists>offset < count. (start + offset) mod count = i" if "i < count" for i
  proof -
    have "(start + (i + (count - start mod count)) mod count) mod count = (start + (i + (count - start mod count))) mod count"
      by (simp add: mod_add_right_eq)
    also have "\<dots> = (start mod count + (i + (count - start mod count))) mod count"
      by (rule mod_add_left_eq [symmetric])
    also have "\<dots> = (start mod count + (count - start mod count) + i) mod count"
      by (simp add: add.commute add.left_commute)
    also have "\<dots> = i" using that \<open>0 < count\<close> by (simp add: less_imp_le)
    finally show ?thesis using \<open>0 < count\<close> by (intro exI [of _ "(i + (count - start mod count)) mod count"]) simp
  qed
  with \<open>0 < count\<close> show ?thesis by (auto simp: image_iff) (metis atLeastLessThan_iff zero_le)
qed

lemma read_order_distinct:
  assumes "0 < count"
  shows "distinct (map (\<lambda>offset. (start + offset) mod count) [0..<count])"
proof -
  have "card (set (map (\<lambda>offset. (start + offset) mod count) [0..<count])) = count"
    unfolding read_order_set [OF assms] by simp
  then show ?thesis by (simp add: card_distinct)
qed

definition answers :: "('s \<Rightarrow> 's \<times> ('e + 'r)) \<Rightarrow> 's cluster_node \<Rightarrow> bool" where
  "answers op n \<longleftrightarrow> is_ok (snd (op (cn_state n)))"

text \<open>Every node is asked at most once, so each answer is the one of its state before the read.\<close>

lemma try_nodes_find:
  "distinct is \<Longrightarrow> set is \<subseteq> {0..<length ns} \<Longrightarrow>
    snd (try_nodes op is ns) =
      map_option (\<lambda>i. projr (snd (op (cn_state (ns ! i))))) (find (\<lambda>i. answers op (ns ! i)) is)"
proof (induction "is" arbitrary: ns)
  case (Cons i "is")
  obtain s r where op: "op (cn_state (ns ! i)) = (s, r)" by fastforce
  show ?case
  proof (cases r)
    case (Inr x)
    with op show ?thesis by (simp add: answers_def)
  next
    case (Inl e)
    let ?ns = "ns[i := (ns ! i)\<lparr>cn_state := s\<rparr>]"
    have same: "?ns ! j = ns ! j" if "j \<in> set is" for j
      using Cons.prems(1) that by (metis distinct.simps(2) nth_list_update_neq)
    have "find (\<lambda>j. answers op (?ns ! j)) is = find (\<lambda>j. answers op (ns ! j)) is"
      using same by (intro find_cong) auto
    moreover have "projr (snd (op (cn_state (?ns ! j)))) = projr (snd (op (cn_state (ns ! j))))"
      if "find (\<lambda>j. answers op (ns ! j)) is = Some j" for j
    proof -
      have "j \<in> set is" using that by (auto simp: find_Some_iff)
      with same show ?thesis by simp
    qed
    moreover have "snd (try_nodes op is ?ns) =
        map_option (\<lambda>i. projr (snd (op (cn_state (?ns ! i))))) (find (\<lambda>i. answers op (?ns ! i)) is)"
      using Cons.IH [of ?ns] Cons.prems by simp
    ultimately show ?thesis using op Inl
      by (cases "find (\<lambda>j. answers op (ns ! j)) is") (simp_all add: answers_def)
  qed
qed simp

text \<open>The nodes in the order one read asks them.\<close>

definition read_order :: "'s cluster \<Rightarrow> nat list" where
  "read_order cl = map (\<lambda>offset. (unat (cl_read_next cl) + offset) mod length (cl_nodes cl)) [0..<length (cl_nodes cl)]"

lemma try_everywhere_find:
  assumes "cl_nodes cl \<noteq> []"
  shows "snd (try_everywhere op cl) =
    (case find (\<lambda>i. answers op (cl_nodes cl ! i)) (read_order cl) of
       None \<Rightarrow> Inl Not_available
     | Some i \<Rightarrow> Inr (projr (snd (op (cn_state (cl_nodes cl ! i))))))"
proof -
  let ?n = "length (cl_nodes cl)"
  have pos: "0 < ?n" using assms by simp
  have order: "map (\<lambda>offset. (unat (cl_read_next cl) mod ?n + offset) mod ?n) [0..<?n] = read_order cl"
    by (simp add: read_order_def mod_simps)
  have "snd (try_nodes op (read_order cl) (cl_nodes cl)) =
      map_option (\<lambda>i. projr (snd (op (cn_state (cl_nodes cl ! i))))) (find (\<lambda>i. answers op (cl_nodes cl ! i)) (read_order cl))"
    by (rule try_nodes_find) (simp_all only: read_order_def read_order_distinct [OF pos] read_order_set [OF pos])
  with assms show ?thesis
    by (auto simp: try_everywhere_def Let_def read_start_unat order split: prod.splits option.splits)
qed

section \<open>Reading with failover as an interface\<close>

text \<open>
  What the handlers rely on: a read gives a copy some replica holds, and it fails only if no replica
  can give one. When all replicas hold the same content, the node that answered does not matter.
\<close>

locale failover_read =
  fixes read :: "'k \<Rightarrow> 's \<Rightarrow> 's \<times> ('e + 'r)"
    and holds :: "'s \<Rightarrow> 'k \<Rightarrow> 'r \<Rightarrow> bool"
  assumes read_sound: "read k s = (s', Inr r) \<Longrightarrow> holds s k r"
    and read_complete: "holds s k r \<Longrightarrow> is_ok (snd (read k s))"
begin

lemma read_iff: "is_ok (snd (read k s)) \<longleftrightarrow> (\<exists>r. holds s k r)"
  using read_sound [of k s] read_complete [of s k] by (cases "read k s"; cases "snd (read k s)") auto

lemma read_agreed:
  "holds s k r \<Longrightarrow> (\<And>q. holds s k q \<Longrightarrow> q = r) \<Longrightarrow> snd (read k s) = Inr r"
proof -
  assume held: "holds s k r" and one: "\<And>q. holds s k q \<Longrightarrow> q = r"
  from read_complete [OF held] obtain s' q where q: "read k s = (s', Inr q)"
    by (cases "read k s") (auto simp: is_ok_iff)
  with one read_sound [OF q] show ?thesis by simp
qed

end

definition node_holds :: "('k \<Rightarrow> 's \<Rightarrow> 's \<times> ('e + 'r)) \<Rightarrow> 's cluster \<Rightarrow> 'k \<Rightarrow> 'r \<Rightarrow> bool" where
  "node_holds op cl k r \<longleftrightarrow> (\<exists>n \<in> set (cl_nodes cl). snd (op k (cn_state n)) = Inr r)"

lemma read_order_range: "cl_nodes cl \<noteq> [] \<Longrightarrow> set (read_order cl) = {0..<length (cl_nodes cl)}"
  unfolding read_order_def by (rule read_order_set) simp

lemma try_everywhere_sound:
  "try_everywhere (op k) cl = (cl', Inr r) \<Longrightarrow> node_holds op cl k r"
proof -
  assume res: "try_everywhere (op k) cl = (cl', Inr r)"
  then have ne: "cl_nodes cl \<noteq> []" by (auto simp: try_everywhere_def)
  from res try_everywhere_find [OF ne, of "op k"] obtain i where
    i: "find (\<lambda>i. answers (op k) (cl_nodes cl ! i)) (read_order cl) = Some i"
    and r: "r = projr (snd (op k (cn_state (cl_nodes cl ! i))))"
    by (auto split: option.splits)
  from i have "i \<in> set (read_order cl)" and ans: "answers (op k) (cl_nodes cl ! i)"
    by (auto simp: find_Some_iff)
  with read_order_range [OF ne] have "cl_nodes cl ! i \<in> set (cl_nodes cl)" by auto
  with ans r show ?thesis by (force simp: node_holds_def answers_def is_ok_iff)
qed

lemma try_everywhere_complete:
  "node_holds op cl k r \<Longrightarrow> is_ok (snd (try_everywhere (op k) cl))"
proof -
  assume "node_holds op cl k r"
  then obtain i where i: "i < length (cl_nodes cl)" "answers (op k) (cl_nodes cl ! i)"
    by (auto simp: node_holds_def answers_def in_set_conv_nth)
  then have ne: "cl_nodes cl \<noteq> []" by auto
  have "find (\<lambda>i. answers (op k) (cl_nodes cl ! i)) (read_order cl) \<noteq> None"
    using i read_order_range [OF ne] by (auto simp: find_None_iff)
  then show ?thesis by (auto simp: try_everywhere_find [OF ne] split: option.splits)
qed

interpretation file_reads: failover_read "cluster_try_fetch kb" "node_holds (client_cat kb)" for kb
proof unfold_locales
  fix k and s s' :: "'a cluster" and r
  assume "cluster_try_fetch kb k s = (s', Inr r)"
  then show "node_holds (client_cat kb) s k r"
    unfolding cluster_try_fetch_def by (rule try_everywhere_sound)
next
  fix s :: "'a cluster" and k r
  assume "node_holds (client_cat kb) s k r"
  then show "is_ok (snd (cluster_try_fetch kb k s))"
    unfolding cluster_try_fetch_def by (rule try_everywhere_complete)
qed

interpretation path_reads: failover_read "\<lambda>(cid, path). cluster_try_fetch_path kb cid path"
  "node_holds (\<lambda>(cid, path). client_cat_path kb cid path)" for kb
proof unfold_locales
  fix k and s s' :: "'a cluster" and r
  assume "(case k of (cid, path) \<Rightarrow> cluster_try_fetch_path kb cid path) s = (s', Inr r)"
  then show "node_holds (\<lambda>(cid, path). client_cat_path kb cid path) s k r"
    using try_everywhere_sound [of "\<lambda>(cid, path). client_cat_path kb cid path" k s s' r]
    by (cases k) (simp add: cluster_try_fetch_path_def)
next
  fix s :: "'a cluster" and k r
  assume "node_holds (\<lambda>(cid, path). client_cat_path kb cid path) s k r"
  then show "is_ok (snd ((case k of (cid, path) \<Rightarrow> cluster_try_fetch_path kb cid path) s))"
    using try_everywhere_complete [of "\<lambda>(cid, path). client_cat_path kb cid path" s k r]
    by (cases k) (simp add: cluster_try_fetch_path_def)
qed

section \<open>Facts about replication\<close>

lemma retry_loop_calls:
  "retry_loop op delay retries n prev s = (s', sleeps, r) \<Longrightarrow>
    length sleeps \<le> n - 1 \<and>
    (r = Inr () \<longrightarrow> (\<exists>s1. op s1 = (s', Inr ()))) \<and> (n = 0 \<longrightarrow> r = Inl prev \<and> s' = s)"
proof (induction n arbitrary: s prev s' sleeps r)
  case (Suc n)
  obtain s1 q where op: "op s = (s1, q)" by fastforce
  show ?case
  proof (cases q)
    case (Inr u)
    with Suc.prems op show ?thesis by auto
  next
    case (Inl e)
    obtain s2 sl r2 where rec: "retry_loop op delay retries n (Some e) s1 = (s2, sl, r2)"
      by (cases "retry_loop op delay retries n (Some e) s1") auto
    from Suc.prems op Inl rec have res: "s' = s2" "r = r2"
      "sleeps = (if retries - int n < retries then [int64 (delay * (retries - int n))] else []) @ sl"
      by (auto simp: Let_def)
    with Suc.IH [OF rec] show ?thesis by (cases n) auto
  qed
qed simp

text \<open>A traversal without any error.\<close>

fun all_read :: "'e unixfs \<Rightarrow> bool" where
  "all_read (Unixfs_file err) \<longleftrightarrow> err = None"
| "all_read (Unixfs_dir entries err) \<longleftrightarrow> list_all all_read entries \<and> err = None"
| "all_read Unixfs_other \<longleftrightarrow> False"

lemma drain_unixfs_all_read:
  shows "(\<And>e. \<not> str_contains (tx e) ''EOF'') \<Longrightarrow> drain_unixfs tx dag = None \<longleftrightarrow> all_read dag"
    and "(\<And>e. \<not> str_contains (tx e) ''EOF'') \<Longrightarrow> drain_entries tx dags = None \<longleftrightarrow> list_all all_read dags"
  by (induction tx dag and tx dags rule: drain_unixfs_drain_entries.induct) (auto split: option.splits)

text \<open>
  What kubo documents of pins and blocks: after a successful \<open>pin/add\<close> the path is pinned, an answered
  query tells the truth; a traversal without errors leaves all blocks in the node's repository, and
  pinning and asking remove no block.
\<close>

definition pin_laws :: "('s, 'e) kubo \<Rightarrow> ('s \<Rightarrow> string \<Rightarrow> bool) \<Rightarrow> ('s \<Rightarrow> string \<Rightarrow> bool) \<Rightarrow> bool" where
  "pin_laws kb pinned present \<longleftrightarrow>
     (\<forall>p s s' u. kb_pin_add kb p s = (s', Inr u) \<longrightarrow> pinned s' p) \<and>
     (\<forall>p s s' b. kb_is_pinned kb p s = (s', Inr b) \<longrightarrow> pinned s' p = b) \<and>
     (\<forall>p s s' dag. kb_get kb p s = (s', Inr dag) \<longrightarrow> all_read dag \<longrightarrow> present s' p) \<and>
     (\<forall>p s. present s p \<longrightarrow> present (fst (kb_pin_add kb p s)) p \<and> present (fst (kb_is_pinned kb p s)) p)"

lemma retry_loop_keeps:
  assumes "\<And>s. P s \<Longrightarrow> P (fst (op s))"
  shows "P s \<Longrightarrow> P (fst (retry_loop op delay retries n prev s))"
proof (induction n arbitrary: s prev)
  case (Suc n)
  obtain s1 q where op: "op s = (s1, q)" by fastforce
  with assms [of s] Suc.prems have "P s1" by simp
  with Suc.IH [of s1] op show ?case
    by (auto simp: Let_def split: sum.splits prod.splits)
       (metis fst_conv)
qed simp

lemma client_pin_pins:
  assumes laws: "pin_laws kb pinned present" and ok: "drop_sleeps (client_pin kb retries delay cid s) = (s', Inr u)"
    and here: "present s (ipfs_path cid)"
  shows "pinned s' (ipfs_path cid) \<and> present s' (ipfs_path cid)"
proof -
  have valid: "kb_valid_path kb (ipfs_path cid)" using ok by (auto simp: client_pin_def drop_sleeps_def Let_def split: if_splits)
  obtain s1 q where isp: "kb_is_pinned kb (ipfs_path cid) s = (s1, q)" by fastforce
  with laws here have here1: "present s1 (ipfs_path cid)" by (auto simp: pin_laws_def) (metis fst_conv)
  show ?thesis
  proof (cases "q = Inr True")
    case True
    with ok valid isp have "s' = s1" by (simp add: client_pin_def drop_sleeps_def Let_def)
    with laws isp True here1 show ?thesis by (auto simp: pin_laws_def)
  next
    case False
    obtain s2 sl r where lp: "retry_loop (kb_pin_add kb (ipfs_path cid)) delay retries (nat retries) None s1 = (s2, sl, r)"
      by (cases "retry_loop (kb_pin_add kb (ipfs_path cid)) delay retries (nat retries) None s1") auto
    have "client_pin kb retries delay cid s = (case (s2, sl, r) of
        (s2, sleeps, Inr u) \<Rightarrow> (s2, sleeps, Inr ())
      | (s2, sleeps, Inl e) \<Rightarrow> (s2, sleeps, Inl (Exhausted retries (map_option Rpc_failed e))))"
      using False valid isp lp by (cases q) (simp_all add: client_pin_def Let_def)
    with ok have r: "r = Inr ()" and s': "s' = s2" by (auto simp: drop_sleeps_def split: sum.splits)
    with retry_loop_calls [OF lp] obtain s3 where "kb_pin_add kb (ipfs_path cid) s3 = (s', Inr ())" by auto
    moreover have "present (fst (retry_loop (kb_pin_add kb (ipfs_path cid)) delay retries (nat retries) None s1)) (ipfs_path cid)"
      by (rule retry_loop_keeps [of "\<lambda>s. present s (ipfs_path cid)"]) (use laws here1 in \<open>auto simp: pin_laws_def\<close>)
    ultimately show ?thesis using laws lp s' by (auto simp: pin_laws_def)
  qed
qed

lemma replicate_node_keeps_content:
  assumes laws: "pin_laws kb pinned present" and eof: "\<And>e. \<not> str_contains (kb_error_text kb e) ''EOF''"
    and ok: "replicate_node kb retries delay cid s = (s', Inr u)"
  shows "pinned s' (ipfs_path cid) \<and> present s' (ipfs_path cid) \<and> 0 < retries"
proof -
  obtain s1 sl r where lp: "retry_loop (client_fetch kb cid) delay retries (nat retries) None s = (s1, sl, r)"
    by (cases "retry_loop (client_fetch kb cid) delay retries (nat retries) None s") auto
  have r: "r = Inr ()" and pin: "drop_sleeps (client_pin kb retries delay cid s1) = (s', Inr u)"
    using ok lp by (auto simp: replicate_node_def fetch_with_retry_def drop_sleeps_def split: sum.splits)
  with retry_loop_calls [OF lp] obtain s0 where f: "client_fetch kb cid s0 = (s1, Inr ())" and pos: "0 < nat retries"
    by fastforce
  from f obtain dag where "kb_get kb (ipfs_path cid) s0 = (s1, Inr dag)" "drain_unixfs (kb_error_text kb) dag = None"
    by (auto simp: client_fetch_def Let_def split: if_splits sum.splits prod.splits option.splits)
  with laws drain_unixfs_all_read(1) [of "kb_error_text kb", OF eof] have "present s1 (ipfs_path cid)"
    by (auto simp: pin_laws_def)
  with client_pin_pins [OF laws pin] pos show ?thesis by auto
qed

lemma node_errors_result_ok:
  "node_errors_result k (node_errors op ns) = Inr u \<longleftrightarrow> list_all (\<lambda>n. is_ok (snd (op (cn_state n)))) ns"
  by (simp add: node_errors_result_def node_errors_Nil)

section \<open>Properties\<close>

lemma client_add_ok:
  "snd (client_add kb filename payload s) = Inr r \<longleftrightarrow>
    snd (kb_add kb payload s) = Inr (ar_cid r) \<and> ar_name r = filename"
  by (cases "kb_add kb payload s"; cases "snd (kb_add kb payload s)"; cases r)
    (auto simp: client_add_def on_result_def)

lemma client_add_dir_ok:
  "snd (client_add_dir kb entries s) = Inr r \<longleftrightarrow>
    snd (kb_add_dir kb entries s) = Inr (ar_cid r) \<and> ar_name r = []"
  by (cases "kb_add_dir kb entries s"; cases "snd (kb_add_dir kb entries s)"; cases r)
    (auto simp: client_add_dir_def on_result_def)

lemma add_everywhere_all:
  assumes "cl_nodes cl \<noteq> []" and "\<And>s r. snd (op s) = Inr r \<longleftrightarrow> snd (f s) = Inr (ar_cid r) \<and> ar_name r = nm"
  shows "snd (add_everywhere op cl) = Inr r \<longleftrightarrow>
    ar_name r = nm \<and> list_all (\<lambda>n. snd (f (cn_state n)) = Inr (ar_cid r)) (cl_nodes cl)"
proof -
  have one: "is_ok (snd (op s)) \<and> ar_cid (projr (snd (op s))) = c \<longleftrightarrow> snd (f s) = Inr c" for s c
  proof
    assume "is_ok (snd (op s)) \<and> ar_cid (projr (snd (op s))) = c"
    then obtain a where "snd (op s) = Inr a" "ar_cid a = c" by (auto simp: is_ok_iff)
    then show "snd (f s) = Inr c" using assms(2) [of s a] by simp
  next
    assume "snd (f s) = Inr c"
    with assms(2) [of s "\<lparr>ar_cid = c, ar_name = nm\<rparr>"] show "is_ok (snd (op s)) \<and> ar_cid (projr (snd (op s))) = c"
      by simp
  qed
  obtain n ns where ns: "cl_nodes cl = n # ns" using assms(1) by (cases "cl_nodes cl") auto
  have "list_all (\<lambda>n. is_ok (snd (op (cn_state n)))) (cl_nodes cl) \<and>
      list_all (\<lambda>n. ar_cid (projr (snd (op (cn_state n)))) = ar_cid r) (cl_nodes cl) \<longleftrightarrow>
      list_all (\<lambda>n. snd (f (cn_state n)) = Inr (ar_cid r)) (cl_nodes cl)"
    using one by (auto simp: list_all_iff)
  with add_everywhere_Inr [OF assms(1), of op r] assms(2) ns show ?thesis by auto
qed

text \<open>
  An upload to the cluster succeeds, for a file and for a directory, exactly when there is a node,
  the payload could be read and every node stored it under one and the same CID; the result is that
  CID. In particular one failing or disagreeing node fails the upload.
\<close>

theorem cluster_add_needs_every_node:
  "(snd (cluster_add kb filename data cl) = Inr r \<longleftrightarrow>
      cl_nodes cl \<noteq> [] \<and> \<not> rd_fails data \<and> ar_name r = filename \<and>
      list_all (\<lambda>n. snd (kb_add kb (rd_bytes data) (cn_state n)) = Inr (ar_cid r)) (cl_nodes cl)) \<and>
   (snd (cluster_add_dir kb files cl) = Inr r \<longleftrightarrow>
      cl_nodes cl \<noteq> [] \<and> ar_name r = [] \<and>
      list_all (\<lambda>n. snd (kb_add_dir kb files (cn_state n)) = Inr (ar_cid r)) (cl_nodes cl))"
  using add_everywhere_all [of cl "client_add kb filename (rd_bytes data)" "kb_add kb (rd_bytes data)" filename r]
    add_everywhere_all [of cl "client_add_dir kb files" "kb_add_dir kb files" "[]" r]
  by (simp add: cluster_add_def cluster_add_dir_def client_add_ok client_add_dir_ok)

text \<open>
  A read asks the nodes in turn, starting at the one the counter points at and wrapping around,
  and returns the answer of the first node that has one; it fails only when every node fails, and
  it asks no node twice.
\<close>

theorem read_failover_order:
  assumes "cl_nodes cl \<noteq> []"
  shows "snd (cluster_try_fetch kb cid cl) =
    (case find (\<lambda>i. is_ok (snd (client_cat kb cid (cn_state (cl_nodes cl ! i))))) (read_order cl) of
       None \<Rightarrow> Inl Not_available
     | Some i \<Rightarrow> Inr (projr (snd (client_cat kb cid (cn_state (cl_nodes cl ! i)))))) \<and>
    snd (cluster_try_fetch_path kb cid path cl) =
    (case find (\<lambda>i. is_ok (snd (client_cat_path kb cid path (cn_state (cl_nodes cl ! i))))) (read_order cl) of
       None \<Rightarrow> Inl Not_available
     | Some i \<Rightarrow> Inr (projr (snd (client_cat_path kb cid path (cn_state (cl_nodes cl ! i)))))) \<and>
    distinct (read_order cl) \<and> set (read_order cl) = {0..<length (cl_nodes cl)}"
  using try_everywhere_find [OF assms, of "client_cat kb cid"]
    try_everywhere_find [OF assms, of "client_cat_path kb cid path"] read_order_range [OF assms]
    read_order_distinct [of "length (cl_nodes cl)"] assms
  by (simp add: cluster_try_fetch_def cluster_try_fetch_path_def answers_def read_order_def)

definition example_kubo :: "(string list, string) kubo" where
  "example_kubo = \<lparr>kb_valid_path = (\<lambda>p. True), kb_valid_cid = (\<lambda>c. True), kb_error_text = (\<lambda>e. ''failed''),
     kb_add = (\<lambda>b s. (s @ [''/ipfs/Qm''], Inr ''Qm'')), kb_add_dir = (\<lambda>fs s. (s, Inl ''no'')),
     kb_is_pinned = (\<lambda>p s. (s, Inr (p \<in> set s))),
     kb_pin_add = (\<lambda>p s. (p # s, Inr ())), kb_pin_rm = (\<lambda>p s. (removeAll p s, Inr ())),
     kb_cat = (\<lambda>p s. (s, if p \<in> set s then Inr \<lparr>rd_bytes = [7], rd_fails = False\<rparr> else Inl ''missing'')),
     kb_get = (\<lambda>p s. (s, Inr (Unixfs_dir [Unixfs_file None] None))),
     kb_dag_get = (\<lambda>c s. (s, Inl ''no''))\<rparr>"

definition example_cluster :: "string list cluster" where
  "example_cluster = \<lparr>cl_nodes = [\<lparr>cn_url = ''a'', cn_state = []\<rparr>, \<lparr>cn_url = ''b'', cn_state = [''/ipfs/Qm'']\<rparr>],
     cl_read_next = 0\<rparr>"

theorem read_failover_order_witness:
  "snd (cluster_try_fetch example_kubo ''Qm'' example_cluster) = Inr \<lparr>rd_bytes = [7], rd_fails = False\<rparr>"
  by (subst read_failover_order [THEN conjunct1])
    (simp_all add: example_cluster_def example_kubo_def read_order_def client_cat_def ipfs_path_def on_result_def
        upt_conv_Cons)

text \<open>
  Reads are spread evenly: as long as the 64-bit counter does not wrap, any \<open>count\<close> reads in a row
  start at \<open>count\<close> different nodes, so each node is the first choice exactly once.
\<close>

theorem reads_rotate:
  assumes "0 < count" and "unat next + count \<le> 2 ^ 64"
  shows "set (map (\<lambda>k. read_start (next + of_nat k) count) [0..<count]) = {0..<count} \<and>
    distinct (map (\<lambda>k. read_start (next + of_nat k) count) [0..<count])"
proof -
  have "unat (next + of_nat k) = unat next + k" if "k < count" for k
    using assms(2) that by (simp add: unat_word_ariths unat_of_nat mod_simps)
  then have "map (\<lambda>k. read_start (next + of_nat k) count) [0..<count] = map (\<lambda>k. (unat next + k) mod count) [0..<count]"
    by (auto simp: read_start_unat)
  then show ?thesis
    by (simp only: read_order_set [OF assms(1)] read_order_distinct [OF assms(1)] simp_thms)
qed

theorem reads_rotate_witness:
  "set (map (\<lambda>k. read_start (5 + of_nat k) 3) [0..<3]) = {0..<3}"
  using reads_rotate [of 3 5] by simp

text \<open>
  When replication of a CID reports success, there is a node, the retry count was positive, and
  every node holds all blocks of the content and has it pinned, provided no error text of the RPC
  library contains the letters EOF; a later check answered by every node says that it is pinned
  everywhere.
\<close>

theorem replicate_pins_everywhere:
  assumes "pin_laws kb pinned present" and "\<And>e. \<not> str_contains (kb_error_text kb e) ''EOF''"
    and "cluster_replicate kb cid retries delay cl = (cl', Inr ())"
  shows "cl_nodes cl' \<noteq> [] \<and> 0 < retries \<and> node_urls cl' = node_urls cl \<and>
    list_all (\<lambda>n. pinned (cn_state n) (ipfs_path cid) \<and> present (cn_state n) (ipfs_path cid)) (cl_nodes cl') \<and>
    (list_all (\<lambda>n. is_ok (snd (client_is_pinned kb cid (cn_state n)))) (cl_nodes cl') \<longrightarrow>
     (\<forall>p s. pinned (fst (kb_is_pinned kb p s)) p = pinned s p) \<longrightarrow> snd (cluster_is_pinned_all kb cid cl'))"
proof -
  have ne: "cl_nodes cl \<noteq> []" using assms(3) by (auto simp: cluster_replicate_def)
  have cl': "cl_nodes cl' = run_all (replicate_node kb retries delay cid) (cl_nodes cl)"
    using assms(3) ne by (auto simp: cluster_replicate_def)
  have ok: "is_ok (snd (replicate_node kb retries delay cid (cn_state n)))" if "n \<in> set (cl_nodes cl)" for n
    using assms(3) ne that by (auto simp: cluster_replicate_def node_errors_result_ok list_all_iff)
  have held: "pinned (fst (replicate_node kb retries delay cid (cn_state n))) (ipfs_path cid) \<and>
      present (fst (replicate_node kb retries delay cid (cn_state n))) (ipfs_path cid) \<and> 0 < retries"
    if "n \<in> set (cl_nodes cl)" for n
    using ok [OF that] replicate_node_keeps_content [OF assms(1,2), of retries delay cid "cn_state n"]
    by (cases "replicate_node kb retries delay cid (cn_state n)") (auto simp: is_ok_iff)
  have all: "list_all (\<lambda>n. pinned (cn_state n) (ipfs_path cid) \<and> present (cn_state n) (ipfs_path cid)) (cl_nodes cl')"
    using held by (auto simp: cl' run_all_def list_all_iff)
  have ask: "snd (client_is_pinned kb cid (cn_state n)) = Inr True"
    if mem: "n \<in> set (cl_nodes cl')" and answered: "is_ok (snd (client_is_pinned kb cid (cn_state n)))"
      and keep: "\<forall>p s. pinned (fst (kb_is_pinned kb p s)) p = pinned s p" for n
  proof -
    obtain s b where q: "kb_is_pinned kb (ipfs_path cid) (cn_state n) = (s, Inr b)"
      using answered by (cases "kb_is_pinned kb (ipfs_path cid) (cn_state n)"; cases "snd (kb_is_pinned kb (ipfs_path cid) (cn_state n))")
        (auto simp: client_is_pinned_def Let_def on_result_def split: if_splits)
    have "pinned s (ipfs_path cid) = pinned (cn_state n) (ipfs_path cid)" using keep q by (metis fst_conv)
    with assms(1) q all mem have "b" by (auto simp: pin_laws_def list_all_iff)
    with q answered show ?thesis by (auto simp: client_is_pinned_def Let_def on_result_def split: if_splits)
  qed
  from ne cl' have ne': "cl_nodes cl' \<noteq> []" by (simp add: run_all_def)
  have urls: "node_urls cl' = node_urls cl" by (simp add: cl' run_all_def node_urls_def)
  from held ne have "0 < retries" by (cases "cl_nodes cl") auto
  with ne' all ask urls show ?thesis by (auto simp: cluster_is_pinned_all_def list_all_iff)
qed

theorem replicate_pins_everywhere_witness:
  "list_all (\<lambda>n. ''/ipfs/Qm'' \<in> set (cn_state n)) (cl_nodes (fst (cluster_replicate example_kubo ''Qm'' 2 10 example_cluster)))"
proof -
  have laws: "pin_laws example_kubo (\<lambda>s p. p \<in> set s) (\<lambda>s p. True)" by (auto simp: pin_laws_def example_kubo_def)
  have no_eof: "\<not> str_contains (kb_error_text example_kubo e) ''EOF''" for e
    by (simp add: example_kubo_def str_contains_def)
  have "cluster_replicate example_kubo ''Qm'' 2 10 example_cluster =
      (fst (cluster_replicate example_kubo ''Qm'' 2 10 example_cluster), Inr ())"
    by (simp add: cluster_replicate_def example_cluster_def run_all_def replicate_node_def fetch_with_retry_def
        client_fetch_def client_pin_def example_kubo_def ipfs_path_def drop_sleeps_def node_errors_result_def
        eval_nat_numeral)
  from replicate_pins_everywhere [OF laws no_eof this] show ?thesis by (simp add: ipfs_path_def list_all_iff)
qed

end
