(* ===== verification/Video_Uploader.thy ===== *)
theory Video_Uploader
  imports Cluster Media_Access "HOL-Library.Multiset"
begin

text \<open>
  The upload of a transcoded video, \<open>internal/video/uploader.go\<close>: every file of the output directory is
  added to the cluster, the variant playlists are rewritten to name CIDs and added again, and a master
  playlist that names the posters and the variants is built and added. The directory is what
  \<open>filepath.Walk\<close> visits and what a second read of a file gives; \<open>IPFSAdder\<close> is a function on a state.
\<close>

section \<open>Data\<close>

type_synonym ('s, 'e) adder = "string \<Rightarrow> reader \<Rightarrow> 's \<Rightarrow> 's \<times> ('e + add_result)"

datatype 'e upload_error =
    Adder_missing
  | Walk_failed
  | Open_failed string
  | Ipfs_add_failed string 'e
  | No_files
  | Playlist_unreadable string
  | Reupload_failed string 'e

record upload_result =
  ur_master_cid :: string
  ur_variant_cids :: "(string, string) gomap"
  ur_segment_cids :: "(string, string) gomap"
  ur_poster_cids :: "(string, string) gomap"
  ur_privacy_poster_cids :: "(string, (string, string) gomap) gomap"
  ur_all_cids :: "string list"

datatype walked = Walk_error | Walk_dir | Walk_unopenable | Walk_file reader

record output_dir =
  od_walk :: "(string \<times> walked) list"
  od_read :: "string \<Rightarrow> bytes option"

section \<open>Posters\<close>

record poster_path =
  pp_variant :: string
  pp_size :: string

definition poster_from_path :: "string \<Rightarrow> poster_path option" where
  "poster_from_path rel =
     (if \<not> has_prefix rel ''posters/'' \<or> \<not> has_suffix (to_lower rel) ''.jpg'' then None
      else
        (let path = trim_prefix rel ''posters/''; parts = split_char CHR ''/'' path
         in if length parts \<noteq> 1 \<and> length parts \<noteq> 2 then None
            else
              (let size_name = trim_suffix (last parts) (file_ext path)
               in if size_name = [] then None
                  else Some \<lparr>pp_variant = (if length parts = 2 then hd parts else []), pp_size = size_name\<rparr>)))"

definition poster_size_from_path :: "string \<Rightarrow> string option" where
  "poster_size_from_path rel = map_option pp_size (poster_from_path rel)"

text \<open>\<open>fmt.Sscanf\<close> with the verb \<open>%d\<close>: leading spaces (no newline), a sign, digits; the rest stays.\<close>

function scan_spaces :: "string \<Rightarrow> string option" where
  "scan_spaces s =
     (if s = [] \<or> leading_space s = 0 then Some s
      else if hd s = newline then None
      else scan_spaces (drop (leading_space s) s))"
  by pat_completeness auto
termination by (relation "measure length") auto

definition scan_decimal :: "string \<Rightarrow> (int \<times> string) option" where
  "scan_decimal s = (case scan_spaces s of
      None \<Rightarrow> None
    | Some t \<Rightarrow>
        (let sign = (if has_prefix t ''-'' \<or> has_prefix t ''+'' then take 1 t else []);
             digits = takeWhile is_digit (drop (length sign) t)
         in if digits = [] then None
            else map_option (\<lambda>i. (i, drop (length sign + length digits) t)) (parse_int (sign @ digits))))"

definition poster_area :: "string \<Rightarrow> int" where
  "poster_area s = (case scan_decimal s of
      None \<Rightarrow> 0
    | Some (width, rest) \<Rightarrow>
        if \<not> has_prefix rest ''x'' then 0
        else (case scan_decimal (tl rest) of
            None \<Rightarrow> 0
          | Some (height, rest') \<Rightarrow> int64 (width * height)))"

text \<open>
  \<open>sort.Slice\<close> with the source's comparison; an insertion sort, which leaves equal elements in their
  order (Go does not promise any order of those).
\<close>

definition poster_less :: "poster \<Rightarrow> poster \<Rightarrow> bool" where
  "poster_less p q \<longleftrightarrow>
     (if po_variant p \<noteq> po_variant q then po_variant p < po_variant q
      else poster_area (po_size p) < poster_area (po_size q))"

fun insert_poster :: "poster \<Rightarrow> poster list \<Rightarrow> poster list" where
  "insert_poster p [] = [p]"
| "insert_poster p (q # qs) = (if poster_less q p then q # insert_poster p qs else p # q # qs)"

fun sort_posters :: "poster list \<Rightarrow> poster list" where
  "sort_posters [] = []"
| "sort_posters (p # ps) = insert_poster p (sort_posters ps)"

definition poster_entry :: "string \<times> string \<Rightarrow> poster option" where
  "poster_entry f = map_option (\<lambda>p. \<lparr>po_cid = snd f, po_size = pp_size p, po_variant = pp_variant p\<rparr>)
     (poster_from_path (fst f))"

definition collect_posters :: "(string, string) gomap \<Rightarrow> poster list" where
  "collect_posters files = sort_posters (List.map_filter poster_entry files)"

section \<open>Playlists\<close>

definition text_line :: "string \<Rightarrow> string" where "text_line l = l @ [newline]"

definition quoted :: "string \<Rightarrow> string" where "quoted s = [CHR 0x22] @ s @ [CHR 0x22]"

definition poster_line :: "poster \<Rightarrow> string" where
  "poster_line p =
     poster_prefix @ (if po_variant p = [] then [] else ''VARIANT='' @ po_variant p @ '','')
       @ ''SIZE='' @ po_size p @ '',URI='' @ quoted (''../segment/'' @ po_cid p @ ''.jpg'')"

definition stream_bandwidth :: "string \<Rightarrow> int" where
  "stream_bandwidth name =
     (if name = ''low'' then 500000 else if name = ''medium'' then 1500000 else if name = ''high'' then 4000000 else 0)"

definition stream_resolution :: "string \<Rightarrow> string" where
  "stream_resolution name =
     (if name = ''low'' then ''426x760'' else if name = ''medium'' then ''720x1280''
      else if name = ''high'' then ''1080x1920'' else [])"

definition stream_line :: "string \<Rightarrow> string" where
  "stream_line name = ''#EXT-X-STREAM-INF:BANDWIDTH='' @ itoa (stream_bandwidth name) @ '',RESOLUTION=''
     @ stream_resolution name @ '',CODECS='' @ quoted ''avc1.42e01e''"

definition variant_order :: "string list" where "variant_order = [''low'', ''medium'', ''high'']"

definition build_master_playlist :: "(string, string) gomap \<Rightarrow> (string, string) gomap \<Rightarrow> string" where
  "build_master_playlist variants files =
     text_line ''#EXTM3U''
     @ concat (map (\<lambda>p. text_line (poster_line p)) (collect_posters files))
     @ concat (map (\<lambda>name. case map_of variants name of
           None \<Rightarrow> []
         | Some cid \<Rightarrow> text_line (stream_line name) @ text_line (''../segment/'' @ cid @ ''.m3u8'')) variant_order)"

text \<open>\<open>strings.Replace(s, old, new, 1)\<close> for a non-empty \<open>old\<close>.\<close>

definition replace_first :: "string \<Rightarrow> string \<Rightarrow> string \<Rightarrow> string" where
  "replace_first s old new = (case str_index s old of
      None \<Rightarrow> s
    | Some i \<Rightarrow> take i s @ new @ drop (i + length old) s)"

definition variant_line :: "string \<Rightarrow> (string, string) gomap \<Rightarrow> string \<Rightarrow> string" where
  "variant_line dir files line =
     (let trimmed = trim_space line;
          init_cid = (if has_prefix trimmed ''#EXT-X-MAP:'' then map_of files (path_join dir ''init.mp4'') else None);
          seg_cid = (if has_prefix trimmed ''seg_'' \<and> has_suffix trimmed ''.m4s''
                     then map_of files (path_join dir trimmed) else None)
      in case init_cid of
           Some cid \<Rightarrow> text_line (replace_first line (''URI='' @ quoted ''init.mp4'') (''URI='' @ quoted (cid @ ''.mp4'')))
         | None \<Rightarrow> (case seg_cid of
             Some cid \<Rightarrow> text_line (cid @ ''.m4s'')
           | None \<Rightarrow> text_line line))"

definition rewrite_variant_playlist :: "output_dir \<Rightarrow> string \<Rightarrow> (string, string) gomap \<Rightarrow> string option" where
  "rewrite_variant_playlist d rel files = (case od_read d rel of
      None \<Rightarrow> None
    | Some data \<Rightarrow> Some (concat (map (variant_line (path_dir rel) files) (lines_of (text_of data)))))"

section \<open>The upload\<close>

definition reupload_content :: "('s, 'e) adder \<Rightarrow> string \<Rightarrow> string \<Rightarrow> 's \<Rightarrow> 's \<times> ('e + string)" where
  "reupload_content add content filename s =
     (case add filename \<lparr>rd_bytes = bytes_of content, rd_fails = False\<rparr> s of
        (s1, Inl e) \<Rightarrow> (s1, Inl e)
      | (s1, Inr r) \<Rightarrow> (s1, Inr (ar_cid r)))"

fun replace_in_slice :: "string list \<Rightarrow> string \<Rightarrow> string \<Rightarrow> string list" where
  "replace_in_slice [] old new = []"
| "replace_in_slice (v # vs) old new = (if v = old then new # vs else v # replace_in_slice vs old new)"

fun upload_files ::
    "('s, 'e) adder \<Rightarrow> (string \<times> walked) list \<Rightarrow> (string, string) gomap \<Rightarrow> string list \<Rightarrow> 's
       \<Rightarrow> 's \<times> ('e upload_error + (string, string) gomap \<times> string list)" where
  "upload_files add [] files cids s = (s, Inr (files, cids))"
| "upload_files add ((rel, w) # ws) files cids s = (case w of
      Walk_error \<Rightarrow> (s, Inl Walk_failed)
    | Walk_dir \<Rightarrow> upload_files add ws files cids s
    | Walk_unopenable \<Rightarrow> (s, Inl (Open_failed rel))
    | Walk_file r \<Rightarrow> (case add (file_base rel) r s of
          (s1, Inl e) \<Rightarrow> (s1, Inl (Ipfs_add_failed rel e))
        | (s1, Inr a) \<Rightarrow> upload_files add ws (gm_put rel (ar_cid a) files) (cids @ [ar_cid a]) s1))"

definition is_variant_playlist :: "string \<Rightarrow> bool" where
  "is_variant_playlist rel \<longleftrightarrow> has_suffix rel ''playlist.m3u8''"

fun upload_variants ::
    "('s, 'e) adder \<Rightarrow> output_dir \<Rightarrow> (string, string) gomap \<Rightarrow> (string \<times> string) list \<Rightarrow> (string, string) gomap
       \<Rightarrow> string list \<Rightarrow> 's \<Rightarrow> 's \<times> ('e upload_error + (string, string) gomap \<times> string list)" where
  "upload_variants add d files [] variants cids s = (s, Inr (variants, cids))"
| "upload_variants add d files ((rel, cid) # fs) variants cids s =
     (if \<not> is_variant_playlist rel then upload_variants add d files fs variants cids s
      else (case rewrite_variant_playlist d rel files of
          None \<Rightarrow> (s, Inl (Playlist_unreadable rel))
        | Some updated \<Rightarrow> (case reupload_content add updated (file_base rel) s of
            (s1, Inl e) \<Rightarrow> (s1, Inl (Reupload_failed rel e))
          | (s1, Inr new_cid) \<Rightarrow>
              upload_variants add d files fs (gm_put (path_dir rel) new_cid variants)
                (replace_in_slice cids cid new_cid) s1)))"

definition gm_get_map :: "('k, ('a, 'b) gomap) gomap \<Rightarrow> 'k \<Rightarrow> ('a, 'b) gomap" where
  "gm_get_map m k = (case map_of m k of None \<Rightarrow> [] | Some v \<Rightarrow> v)"

fun fill_result :: "(string \<times> string) list \<Rightarrow> upload_result \<Rightarrow> upload_result" where
  "fill_result [] r = r"
| "fill_result ((rel, cid) # fs) r =
     (let r1 = (if has_suffix rel ''.m4s'' then r\<lparr>ur_segment_cids := gm_put rel cid (ur_segment_cids r)\<rparr> else r)
      in case poster_from_path rel of
           None \<Rightarrow> fill_result fs r1
         | Some p \<Rightarrow>
             if pp_variant p = [] then fill_result fs (r1\<lparr>ur_poster_cids := gm_put (pp_size p) cid (ur_poster_cids r1)\<rparr>)
             else fill_result fs (r1\<lparr>ur_privacy_poster_cids := gm_put (pp_variant p)
                    (gm_put (pp_size p) cid (gm_get_map (ur_privacy_poster_cids r1) (pp_variant p))) (ur_privacy_poster_cids r1)\<rparr>))"

definition upload_dir ::
    "('s, 'e) adder option \<Rightarrow> output_dir \<Rightarrow> 's \<Rightarrow> 's \<times> ('e upload_error + upload_result)" where
  "upload_dir adder d s = (case adder of
      None \<Rightarrow> (s, Inl Adder_missing)
    | Some add \<Rightarrow> (case upload_files add (od_walk d) [] [] s of
        (s1, Inl e) \<Rightarrow> (s1, Inl e)
      | (s1, Inr (files, cids)) \<Rightarrow>
          if files = [] then (s1, Inl No_files)
          else (case upload_variants add d files files [] cids s1 of
              (s2, Inl e) \<Rightarrow> (s2, Inl e)
            | (s2, Inr (variants, cids')) \<Rightarrow>
                (case reupload_content add (build_master_playlist variants files) ''master.m3u8'' s2 of
                   (s3, Inl e) \<Rightarrow> (s3, Inl (Reupload_failed ''master.m3u8'' e))
                 | (s3, Inr master_cid) \<Rightarrow>
                     (s3, Inr (fill_result files
                        \<lparr>ur_master_cid = master_cid, ur_variant_cids = variants, ur_segment_cids = [],
                         ur_poster_cids = [], ur_privacy_poster_cids = [], ur_all_cids = cids' @ [master_cid]\<rparr>))))))"

text \<open>\<open>clusterAdder\<close> of \<open>video_handler.go\<close>.\<close>

definition cluster_adder :: "('s, 'e) kubo \<Rightarrow> ('s cluster, 'e cluster_error) adder" where
  "cluster_adder kb filename r cl = cluster_add kb filename r cl"

section \<open>Sorting\<close>

lemma set_sort_posters [simp]: "set (sort_posters ps) = set ps"
proof -
  have "set (insert_poster p qs) = insert p (set qs)" for p qs by (induction qs) auto
  then show ?thesis by (induction ps) auto
qed

lemma poster_entry_iff:
  "p \<in> set (collect_posters files) \<longleftrightarrow> (\<exists>rel cid pp. (rel, cid) \<in> set files \<and> poster_from_path rel = Some pp \<and>
    p = \<lparr>po_cid = cid, po_size = pp_size pp, po_variant = pp_variant pp\<rparr>)"
  by (force simp: collect_posters_def map_filter_def poster_entry_def)

lemma poster_from_path_size: "poster_from_path rel = Some pp \<Longrightarrow> pp_size pp \<noteq> []"
  by (auto simp: poster_from_path_def Let_def split: if_splits)

section \<open>Lines\<close>

lemma lines_of_text_lines:
  "\<forall>l \<in> set ls. newline \<notin> set l \<Longrightarrow> lines_of (concat (map text_line ls)) = ls @ [[]]"
  by (induction ls) (simp_all add: lines_of_def text_line_def split_char_append)

section \<open>References to segments\<close>

definition path_char :: "char \<Rightarrow> bool" where
  "path_char c \<longleftrightarrow> name_char c \<or> c = CHR ''/''"

lemma path_char_not:
  "path_char c \<Longrightarrow> c \<notin> set (''#*?:%+'' @ [CHR 0x22, CHR 0x0A, CHR '' '', CHR '','', CHR ''='']) \<and> \<not> control_char c \<and> plain_char c"
proof (cases "c = CHR ''/''")
  case True
  then show ?thesis by (simp add: control_char_def plain_char_def ascii_space_def code_def)
next
  case False
  assume "path_char c"
  with False have "name_char c" by (simp add: path_char_def)
  from name_char_not [OF this] name_char_plain [OF this] show ?thesis by simp
qed

lemma get_scheme_path: "list_all path_char s \<Longrightarrow> get_scheme raw seen s = Some ([], raw)"
proof (induction s arbitrary: seen)
  case (Cons c s)
  then have "is_alpha c \<or> is_digit c \<or> c = CHR ''.'' \<or> c = CHR ''/''" by (auto simp: path_char_def name_char_def is_alnum_def)
  with Cons show ?case by auto
qed simp

lemma unescape_path: "list_all path_char s \<Longrightarrow> unescape Mode_path s = Some s"
  using path_char_not by (induction s) auto

lemma url_path_relative:
  assumes "list_all path_char s" and "\<not> has_prefix s ''/''"
  shows "url_parse_path s = Some s"
proof -
  have free: "c \<notin> set s" if "\<not> path_char c" for c using assms that by (auto simp: list_all_iff)
  have not: "\<not> path_char CHR ''#''" "\<not> path_char CHR ''?''" "\<not> path_char CHR '':''" "\<not> path_char CHR ''*''"
    using path_char_not by fastforce+
  have "\<not> list_ex control_char s" using assms path_char_not by (auto simp: list_all_iff list_ex_iff)
  moreover have "before_char s CHR ''#'' = s" by (simp add: before_char_free free not)
  moreover have "drop_query s = s"
    using free [OF not(2)] by (simp add: drop_query_def before_char_free count_list_0_iff)
  moreover have "s \<noteq> ''*''" "CHR '':'' \<notin> set (before_char s CHR ''/'')"
    using free [OF not(4)] free [OF not(3)] by (auto simp: before_char_def dest: set_takeWhileD)
  moreover have "\<not> has_prefix s ''//''" using assms(2) by (cases s) auto
  ultimately show ?thesis
    using assms(2) get_scheme_path [OF assms(1), of s "[]"] unescape_path [OF assms(1)]
    by (simp add: url_parse_path_def Let_def)
qed

lemma segment_path_chars: "stored_name cid ext s \<Longrightarrow> list_all path_char (''../segment/'' @ s)"
proof -
  assume "stored_name cid ext s"
  then have "list_all name_char s" using stored_name_chars by blast
  moreover have "list_all path_char ''../segment/''"
    by (simp add: path_char_def name_char_def is_alnum_def is_alpha_def code_def)
  ultimately show ?thesis by (auto simp: list_all_iff path_char_def)
qed

lemma segment_reference:
  assumes sn: "stored_name cid ext s"
  shows "playlist_reference_cid (''../segment/'' @ s) = Some (cid, CHR ''.'' # ext)"
    and "trim_space (''../segment/'' @ s) = ''../segment/'' @ s"
proof -
  from sn have v: "validate_cid cid = None" and ext: "list_all is_alnum ext" and s: "s = cid @ CHR ''.'' # ext"
    by (auto simp: stored_name_def)
  from stored_name_chars [OF sn] have n: "list_all name_char s" "s \<noteq> []" by auto
  show t: "trim_space (''../segment/'' @ s) = ''../segment/'' @ s"
    using segment_path_chars [OF sn] path_char_not by (intro trim_space_plain_all) (auto simp: list_all_iff)
  have slash: "CHR ''/'' \<notin> set s" by (rule name_free [OF n(1) not_name_chars(1)])
  have "file_base (''../segment'' @ CHR ''/'' # s) = s" by (rule file_base_last [OF slash n(2)])
  then have base: "file_base (''../segment/'' @ s) = s" by simp
  have "file_ext s = CHR ''.'' # ext"
    unfolding s using slash s ext not_name_chars(4) by (intro file_ext_append) (auto simp: list_all_iff)
  moreover have "trim_suffix s (CHR ''.'' # ext) = cid" unfolding s by simp
  moreover have "url_parse_path (''../segment/'' @ s) = Some (''../segment/'' @ s)"
    by (rule url_path_relative [OF segment_path_chars [OF sn]]) simp
  ultimately show "playlist_reference_cid (''../segment/'' @ s) = Some (cid, CHR ''.'' # ext)"
    unfolding playlist_reference_cid_def t using base v by (simp del: append.simps append_Cons)
qed

section \<open>The master playlist\<close>

lemma str_index_last_free:
  assumes "sub \<noteq> []" and "last sub \<notin> set s" and "last sub \<notin> set (butlast sub)"
  shows "str_index (s @ sub @ t) sub = Some (length s)"
  using assms(2)
proof (induction s)
  case Nil
  have "has_prefix (sub @ t) sub" by simp
  with assms(1) show ?case by (cases "sub @ t") auto
next
  case (Cons c s)
  let ?b = "c # s @ butlast sub"
  have whole: "c # s @ sub @ t = ?b @ last sub # t" using assms(1) by (metis append.assoc append_Cons append_Nil append_butlast_last_id)
  have "\<not> has_prefix (c # s @ sub @ t) sub"
  proof
    assume "has_prefix (c # s @ sub @ t) sub"
    then have "take (length sub) (?b @ last sub # t) = sub" by (simp add: has_prefix_def whole)
    moreover have z: "length sub - length ?b = 0" by simp
    have "take (length sub) (?b @ last sub # t) = take (length sub) ?b" by (simp only: take_append z take_0 append_Nil2)
    ultimately have "sub = take (length sub) ?b" by (simp only:)
    then have "set sub \<subseteq> set ?b" by (metis set_take_subset)
    with assms(1) have "last sub \<in> set ?b" by (meson last_in_set subsetD)
    with Cons.prems assms(3) show False by auto
  qed
  with Cons show ?case by simp
qed

definition attr_safe :: "string \<Rightarrow> bool" where
  "attr_safe s \<longleftrightarrow> CHR '','' \<notin> set s \<and> CHR 0x22 \<notin> set s \<and> newline \<notin> set s"

definition poster_ok :: "poster \<Rightarrow> bool" where
  "poster_ok p \<longleftrightarrow> validate_cid (po_cid p) = None \<and> po_size p \<noteq> [] \<and> attr_safe (po_size p) \<and> attr_safe (po_variant p)"

definition poster_uri :: "poster \<Rightarrow> string" where
  "poster_uri p = ''../segment/'' @ po_cid p @ ''.jpg''"

definition poster_attributes :: "poster \<Rightarrow> string" where
  "poster_attributes p = (if po_variant p = [] then [] else ''VARIANT='' @ po_variant p @ '','') @ ''SIZE='' @ po_size p @ '',''"

lemma poster_line_eq: "poster_line p = (poster_prefix @ poster_attributes p) @ uri_marker @ (poster_uri p @ [CHR 0x22])"
  by (simp add: poster_line_def poster_attributes_def quoted_def uri_marker_def poster_uri_def)

lemma poster_stored_name: "poster_ok p \<Longrightarrow> stored_name (po_cid p) ''jpg'' (po_cid p @ ''.jpg'')"
  by (simp add: poster_ok_def stored_name_def is_alnum_def is_alpha_def code_def)

lemma poster_uri_chars: "poster_ok p \<Longrightarrow> list_all path_char (poster_uri p)"
  using segment_path_chars [OF poster_stored_name] by (simp add: poster_uri_def)

lemma poster_uri_free: "poster_ok p \<Longrightarrow> \<not> path_char c \<Longrightarrow> c \<notin> set (poster_uri p)"
  using poster_uri_chars by (auto simp: list_all_iff)

lemma not_path_chars:
  "\<not> path_char CHR 0x22" "\<not> path_char newline" "\<not> path_char CHR '',''" "\<not> path_char CHR ''#''"
  using not_name_chars by (simp_all add: path_char_def newline_def)

lemma poster_line_newline: "poster_ok p \<Longrightarrow> newline \<notin> set (poster_line p)"
  using poster_uri_free [OF _ not_path_chars(2)]
  by (auto simp: poster_line_eq poster_attributes_def poster_prefix_def uri_marker_def attr_safe_def poster_ok_def newline_def)

lemma poster_line_trim: "trim_space (poster_line p) = poster_line p"
proof (rule trim_space_plain)
  show "plain_char (hd (poster_line p))" by (simp add: poster_line_def poster_prefix_def plain_char_def ascii_space_def)
  show "plain_char (last (poster_line p))" by (simp add: poster_line_eq plain_char_def ascii_space_def)
qed

lemma split_uri_append:
  assumes "CHR 0x22 \<notin> set pre" and "CHR 0x22 \<notin> set uri"
  shows "split_uri (pre @ uri_marker @ uri @ CHR 0x22 # rest) = Some (pre @ uri_marker, uri, CHR 0x22 # rest)"
proof -
  let ?l = "pre @ uri_marker @ uri @ CHR 0x22 # rest"
  have i: "str_index ?l uri_marker = Some (length pre)"
    by (rule str_index_last_free) (use assms(1) in \<open>auto simp: uri_marker_def\<close>)
  have d: "drop (length pre + length uri_marker) ?l = uri @ CHR 0x22 # rest" by simp
  have j: "str_index (uri @ CHR 0x22 # rest) [CHR 0x22] = Some (length uri)"
    by (rule str_index_append_free) (use assms(2) in auto)
  show ?thesis unfolding split_uri_def i option.case Let_def d j by simp
qed

lemma poster_line_uri: "poster_ok p \<Longrightarrow> split_uri (poster_line p) =
    Some (poster_prefix @ poster_attributes p @ uri_marker, poster_uri p, [CHR 0x22])"
proof -
  assume p: "poster_ok p"
  have "CHR 0x22 \<notin> set (poster_prefix @ poster_attributes p)"
    using p by (auto simp: poster_prefix_def poster_attributes_def poster_ok_def attr_safe_def)
  from split_uri_append [OF this poster_uri_free [OF p not_path_chars(1)], of "[]"]
  show ?thesis by (simp add: poster_line_eq)
qed

lemma poster_line_attrs:
  assumes "poster_ok p"
  shows "poster_attrs (split_char CHR '','' (trim_prefix (poster_line p) poster_prefix))
    \<lparr>po_cid = po_cid p, po_size = [], po_variant = []\<rparr> = p"
proof -
  let ?u = "uri_marker @ poster_uri p @ [CHR 0x22]"
  have free: "CHR '','' \<notin> set ?u" using poster_uri_free [OF assms not_path_chars(3)] by (auto simp: uri_marker_def)
  have sz: "CHR '','' \<notin> set (''SIZE='' @ po_size p)" and va: "CHR '','' \<notin> set (''VARIANT='' @ po_variant p)"
    using assms by (auto simp: poster_ok_def attr_safe_def)
  have t: "trim_prefix (poster_line p) poster_prefix = poster_attributes p @ ?u" by (simp add: poster_line_eq)
  have split: "split_char CHR '','' (poster_attributes p @ ?u) =
      (if po_variant p = [] then [] else [''VARIANT='' @ po_variant p]) @ [''SIZE='' @ po_size p, ?u]"
  proof (cases "po_variant p = []")
    case True
    then have "poster_attributes p @ ?u = (''SIZE='' @ po_size p) @ CHR '','' # ?u" by (simp add: poster_attributes_def)
    then show ?thesis using True by (simp only: split_char_append [OF sz] split_char_free [OF free]) simp
  next
    case False
    then have "poster_attributes p @ ?u = (''VARIANT='' @ po_variant p) @ CHR '','' # (''SIZE='' @ po_size p) @ CHR '','' # ?u"
      by (simp add: poster_attributes_def)
    then show ?thesis using False by (simp only: split_char_append [OF va] split_char_append [OF sz] split_char_free [OF free]) simp
  qed
  show ?thesis unfolding t split by (simp add: cut_prefix_def uri_marker_def Let_def)
qed

lemma master_posters_cons:
  "poster_ok p \<Longrightarrow> master_posters (poster_line p # ls) = map_option (Cons p) (master_posters ls)"
proof -
  assume p: "poster_ok p"
  have "has_prefix (poster_line p) poster_prefix" by (simp add: poster_line_eq)
  moreover have "playlist_uri (poster_line p) = Some (poster_uri p)" by (simp add: playlist_uri_def poster_line_uri [OF p])
  moreover have "playlist_reference_cid (poster_uri p) = Some (po_cid p, ''.jpg'')"
    using segment_reference(1) [OF poster_stored_name [OF p]] by (simp add: poster_uri_def)
  ultimately show ?thesis
    using p poster_line_attrs [OF p] by (simp add: poster_line_trim poster_ok_def)
qed

definition variant_list :: "(string, string) gomap \<Rightarrow> string list" where
  "variant_list variants = List.map_filter (map_of variants) variant_order"

definition variant_uri :: "string \<Rightarrow> string" where
  "variant_uri cid = ''../segment/'' @ cid @ ''.m3u8''"

definition stream_lines :: "(string, string) gomap \<Rightarrow> string list" where
  "stream_lines variants = concat (map (\<lambda>name. case map_of variants name of
      None \<Rightarrow> [] | Some cid \<Rightarrow> [stream_line name, variant_uri cid]) variant_order)"

definition master_lines :: "(string, string) gomap \<Rightarrow> (string, string) gomap \<Rightarrow> string list" where
  "master_lines variants files = ''#EXTM3U'' # map poster_line (collect_posters files) @ stream_lines variants"

lemma build_master_lines:
  "build_master_playlist variants files = concat (map text_line (master_lines variants files))"
  by (simp add: build_master_playlist_def master_lines_def stream_lines_def variant_order_def variant_uri_def comp_def
      split: option.splits)

lemma itoa_bandwidths: "itoa 500000 = ''500000''" "itoa 1500000 = ''1500000''" "itoa 4000000 = ''4000000''"
  by (simp_all add: itoa_def nat_digits.simps) code_simp+

lemma stream_line_facts:
  assumes "name \<in> set variant_order"
  shows "newline \<notin> set (stream_line name) \<and> trim_space (stream_line name) = stream_line name \<and>
    has_prefix (stream_line name) ''#'' \<and> \<not> has_prefix (stream_line name) poster_prefix \<and>
    \<not> str_contains (stream_line name) uri_marker"
proof -
  have "trim_space (stream_line name) = stream_line name"
    by (rule trim_space_plain) (simp_all add: stream_line_def quoted_def plain_char_def ascii_space_def)
  moreover have "list_all (\<lambda>name. newline \<notin> set (stream_line name) \<and> has_prefix (stream_line name) ''#'' \<and>
      \<not> has_prefix (stream_line name) poster_prefix \<and> \<not> str_contains (stream_line name) uri_marker) variant_order"
    by (simp add: variant_order_def stream_line_def stream_bandwidth_def stream_resolution_def quoted_def poster_prefix_def
        uri_marker_def str_contains_def newline_def itoa_bandwidths)
  ultimately show ?thesis using assms by (auto simp: list_all_iff)
qed

lemma variant_uri_facts:
  assumes "validate_cid cid = None"
  shows "newline \<notin> set (variant_uri cid) \<and> trim_space (variant_uri cid) = variant_uri cid \<and>
    \<not> has_prefix (variant_uri cid) ''#'' \<and> variant_uri cid \<noteq> [] \<and> playlist_reference_cid (variant_uri cid) = Some (cid, ''.m3u8'')"
proof -
  from assms have sn: "stored_name cid ''m3u8'' (cid @ ''.m3u8'')"
    by (simp add: stored_name_def is_alnum_def is_alpha_def is_digit_def code_def)
  have "newline \<notin> set (variant_uri cid)"
    using segment_path_chars [OF sn] not_path_chars(2) by (auto simp: variant_uri_def list_all_iff)
  with segment_reference [OF sn] show ?thesis by (simp add: variant_uri_def)
qed

definition names_ok :: "(string, string) gomap \<Rightarrow> (string, string) gomap \<Rightarrow> bool" where
  "names_ok variants files \<longleftrightarrow> list_all poster_ok (collect_posters files) \<and>
     list_all (\<lambda>cid. validate_cid cid = None) (variant_list variants)"

lemma stream_lines_cases:
  "l \<in> set (stream_lines variants) \<Longrightarrow>
    (\<exists>name \<in> set variant_order. l = stream_line name) \<or> (\<exists>cid \<in> set (variant_list variants). l = variant_uri cid)"
  by (auto simp: stream_lines_def variant_list_def map_filter_def split: option.splits) (metis option.sel option.simps(3))

lemma master_lines_of:
  assumes "names_ok variants files"
  shows "lines_of (build_master_playlist variants files) = master_lines variants files @ [[]]"
  unfolding build_master_lines
proof (rule lines_of_text_lines, rule ballI)
  fix l assume "l \<in> set (master_lines variants files)"
  then consider "l = ''#EXTM3U''" | p where "p \<in> set (collect_posters files)" "l = poster_line p"
    | "l \<in> set (stream_lines variants)" by (auto simp: master_lines_def)
  then show "newline \<notin> set l"
  proof cases
    case 1
    then show ?thesis by (simp add: newline_def)
  next
    case 2
    with assms show ?thesis by (auto simp: names_ok_def list_all_iff poster_line_newline)
  next
    case 3
    with assms stream_lines_cases [OF 3] show ?thesis
      by (auto simp: names_ok_def list_all_iff dest: stream_line_facts variant_uri_facts)
  qed
qed

lemma master_posters_stream: "names_ok variants files \<Longrightarrow> master_posters (stream_lines variants @ [[]]) = Some []"
proof -
  assume ok: "names_ok variants files"
  have "\<not> has_prefix (variant_uri cid) poster_prefix" for cid by (simp add: variant_uri_def poster_prefix_def)
  then have "\<forall>l \<in> set (stream_lines variants @ [[]]). \<not> has_prefix (trim_space l) poster_prefix"
    using ok
    by (auto simp: names_ok_def list_all_iff variant_uri_facts poster_prefix_def [symmetric]
        dest!: stream_lines_cases dest: stream_line_facts)
  moreover have "(\<forall>l \<in> set ls. \<not> has_prefix (trim_space l) poster_prefix) \<Longrightarrow> master_posters ls = Some []" for ls
    by (induction ls) auto
  ultimately show ?thesis by blast
qed

lemma master_posters_built:
  assumes "names_ok variants files"
  shows "master_posters (lines_of (build_master_playlist variants files)) = Some (collect_posters files)"
proof -
  have skip: "master_posters (''#EXTM3U'' # ls) = master_posters ls" for ls
  proof -
    have "trim_space ''#EXTM3U'' = ''#EXTM3U''" by (rule trim_space_plain) (simp_all add: plain_char_def ascii_space_def)
    then show ?thesis by (simp add: poster_prefix_def)
  qed
  have "list_all poster_ok ps \<Longrightarrow> master_posters (map poster_line ps @ stream_lines variants @ [[]]) = Some ps" for ps
    by (induction ps) (simp_all add: master_posters_stream [OF assms] master_posters_cons del: master_posters.simps)
  with assms skip show ?thesis by (simp add: master_lines_of [OF assms] master_lines_def names_ok_def)
qed

text \<open>A line \<open>rewriteLinkedMasterPlaylist\<close> accepts.\<close>

definition master_line_ok :: "string \<Rightarrow> bool" where
  "master_line_ok l \<longleftrightarrow> (case master_ref l of
      None \<Rightarrow> str_contains (trim_space l) uri_marker \<longrightarrow> split_uri l \<noteq> None
    | Some r \<Rightarrow> \<exists>c. playlist_reference_cid r = Some (c, ''.m3u8''))"

lemma rewrite_master_succeeds:
  "\<forall>l \<in> set ls. master_line_ok l \<Longrightarrow> \<exists>out. rewrite_master_lines auth k ls = Inr out"
proof (induction ls arbitrary: k)
  case (Cons l ls)
  from Cons.prems have "\<exists>out. rewrite_master_lines auth k' ls = Inr out" for k' by (simp add: Cons.IH)
  then obtain f where f: "\<And>k'. rewrite_master_lines auth k' ls = Inr (f k')" by metis
  from Cons.prems have "master_line_ok l" by simp
  then show ?case
    by (auto simp: f master_line_ok_def master_ref_def Let_def replace_playlist_uri_def split: if_splits option.splits)
qed simp

lemma master_lines_ok:
  assumes "names_ok variants files" and "l \<in> set (master_lines variants files @ [[]])"
  shows "master_line_ok l"
proof -
  from assms(2) consider "l = ''#EXTM3U''" | "l = []" | p where "p \<in> set (collect_posters files)" "l = poster_line p"
    | name where "name \<in> set variant_order" "l = stream_line name"
    | cid where "cid \<in> set (variant_list variants)" "l = variant_uri cid"
    by (auto simp: master_lines_def dest!: stream_lines_cases)
  then show ?thesis
  proof cases
    case 1
    have t: "trim_space ''#EXTM3U'' = ''#EXTM3U''" by (rule trim_space_plain) (simp_all add: plain_char_def ascii_space_def)
    show ?thesis unfolding 1 master_line_ok_def master_ref_def t by (simp add: uri_marker_def str_contains_def)
  next
    case 2
    then show ?thesis by (simp add: master_line_ok_def master_ref_def str_contains_def uri_marker_def)
  next
    case 3
    with assms(1) have "poster_ok p" by (auto simp: names_ok_def list_all_iff)
    moreover have "has_prefix (poster_line p) ''#''" by (simp add: poster_line_def poster_prefix_def)
    ultimately show ?thesis unfolding 3 by (simp add: master_line_ok_def master_ref_def poster_line_trim poster_line_uri)
  next
    case 4
    with stream_line_facts [OF 4(1)] show ?thesis by (simp add: master_line_ok_def master_ref_def)
  next
    case 5
    with assms(1) have "validate_cid cid = None" by (auto simp: names_ok_def list_all_iff)
    from variant_uri_facts [OF this] show ?thesis unfolding 5 by (simp add: master_line_ok_def master_ref_def)
  qed
qed

lemma master_references_built:
  assumes "names_ok variants files"
  shows "master_references (lines_of (build_master_playlist variants files)) = map variant_uri (variant_list variants)"
proof -
  have app: "master_references (xs @ ys) = master_references xs @ master_references ys" for xs ys
    by (induction xs) (auto split: option.splits)
  have "trim_space ''#EXTM3U'' = ''#EXTM3U''" by (rule trim_space_plain) (simp_all add: plain_char_def ascii_space_def)
  then have "master_references [''#EXTM3U''] = []" by (simp add: master_ref_def)
  moreover have "has_prefix (poster_line p) ''#''" for p by (simp add: poster_line_def poster_prefix_def)
  then have "master_references (map poster_line ps) = []" for ps
    by (induction ps) (simp_all add: master_ref_def poster_line_trim)
  moreover have "set names \<subseteq> set variant_order \<Longrightarrow> \<forall>cid \<in> set (List.map_filter (map_of variants) names). validate_cid cid = None \<Longrightarrow>
      master_references (concat (map (\<lambda>name. case map_of variants name of
        None \<Rightarrow> [] | Some cid \<Rightarrow> [stream_line name, variant_uri cid]) names)) =
      map variant_uri (List.map_filter (map_of variants) names)" for names
    by (induction names)
      (auto simp: app master_ref_def variant_uri_facts map_filter_simps dest: stream_line_facts split: option.splits)
  then have "master_references (stream_lines variants) = map variant_uri (variant_list variants)"
    using assms by (simp add: stream_lines_def variant_list_def names_ok_def list_all_iff)
  ultimately show ?thesis
    using app [of "[''#EXTM3U'']"] by (simp add: master_lines_of [OF assms] master_lines_def app master_ref_def)
qed

lemma linked_master_built:
  assumes "names_ok variants files"
  shows "\<exists>out. rewrite_linked_master (build_master_playlist variants files) auth = Inr out" (is ?ok)
    and "linked_master_playlist_cid (build_master_playlist variants files) (int i) =
      (if i < length (variant_list variants) then Inr (variant_list variants ! i) else Inl Index_unavailable)"
proof -
  let ?m = "build_master_playlist variants files"
  obtain out where out: "rewrite_master_lines auth 0 (lines_of ?m) = Inr out"
    using rewrite_master_succeeds [of "lines_of ?m" auth 0] master_lines_ok [OF assms] by (auto simp: master_lines_of [OF assms])
  then show ?ok by (simp add: rewrite_linked_master_def)
  from rewrite_master_lines_spec [OF out] obtain cids where cids:
    "map playlist_reference_cid (map variant_uri (variant_list variants)) = map (\<lambda>c. Some (c, ''.m3u8'')) cids"
    "\<And>i. master_playlist_lines 0 (int i) (lines_of ?m) = (if i < length cids then Inr (cids ! i) else Inl Index_unavailable)"
    by (auto simp: master_references_built [OF assms])
  have "map playlist_reference_cid (map variant_uri (variant_list variants)) = map (\<lambda>c. Some (c, ''.m3u8'')) (variant_list variants)"
    using assms by (auto simp: names_ok_def list_all_iff variant_uri_facts)
  with cids(1) have "map (\<lambda>c. Some (c, ''.m3u8'')) (variant_list variants) = map (\<lambda>c. Some (c, ''.m3u8'')) cids" by simp
  then have "variant_list variants = cids" by (rule map_injective) (simp add: inj_on_def)
  with cids(2) show "linked_master_playlist_cid ?m (int i) =
      (if i < length (variant_list variants) then Inr (variant_list variants ! i) else Inl Index_unavailable)"
    by (simp add: linked_master_playlist_cid_def)
qed

section \<open>What is added and what is remembered\<close>

lemma mset_replace_in_slice:
  "old \<in> set xs \<Longrightarrow> mset (replace_in_slice xs old new) = add_mset new (mset xs - {#old#})"
  by (induction xs) auto

definition walked_files :: "(string \<times> walked) list \<Rightarrow> string list" where
  "walked_files ws = map fst (filter (\<lambda>(rel, w). case w of Walk_file r \<Rightarrow> True | _ \<Rightarrow> False) ws)"

lemma upload_files_cids:
  "upload_files add ws files cids s = (s', Inr (files', cids')) \<Longrightarrow> distinct (map fst ws) \<Longrightarrow>
    set (gm_keys files) \<inter> set (map fst ws) = {} \<Longrightarrow> mset cids = mset (map snd files) \<Longrightarrow>
    gm_keys files' = gm_keys files @ walked_files ws \<and> mset cids' = mset (map snd files')"
proof (induction add ws files cids s rule: upload_files.induct)
  case (2 add rel w ws files cids s)
  show ?case
  proof (cases w)
    case (Walk_file r)
    with "2.prems"(1) obtain s1 a where a: "add (file_base rel) r s = (s1, Inr a)"
      "upload_files add ws (gm_put rel (ar_cid a) files) (cids @ [ar_cid a]) s1 = (s', Inr (files', cids'))"
      by (auto split: prod.splits sum.splits)
    have put: "gm_put rel (ar_cid a) files = files @ [(rel, ar_cid a)]" using "2.prems"(3) by (intro gm_put_absent) auto
    from "2.IH"(2) [OF Walk_file a(1) [symmetric] refl a(2)] "2.prems" Walk_file show ?thesis
      by (auto simp: put walked_files_def)
  qed (use "2" in \<open>auto simp: walked_files_def\<close>)
qed (simp add: walked_files_def)

abbreviation raw_playlists :: "(string \<times> string) list \<Rightarrow> string list" where
  "raw_playlists fs \<equiv> map snd (filter (\<lambda>f. is_variant_playlist (fst f)) fs)"

lemma upload_variants_cids:
  "upload_variants add d files fs variants cids s = (s', Inr (variants', cids')) \<Longrightarrow>
    mset (raw_playlists fs) \<subseteq># mset cids \<Longrightarrow>
    \<exists>news. length news = length (raw_playlists fs) \<and> mset cids' = mset cids - mset (raw_playlists fs) + mset news \<and>
      ran (map_of variants') \<subseteq> ran (map_of variants) \<union> set news"
proof (induction add d files fs variants cids s rule: upload_variants.induct)
  case (2 add d files rel cid fs variants cids s)
  show ?case
  proof (cases "is_variant_playlist rel")
    case False
    with "2" show ?thesis by auto
  next
    case True
    with "2.prems"(1) obtain updated s1 new where u: "rewrite_variant_playlist d rel files = Some updated"
      "reupload_content add updated (file_base rel) s = (s1, Inr new)"
      "upload_variants add d files fs (gm_put (path_dir rel) new variants) (replace_in_slice cids cid new) s1 = (s', Inr (variants', cids'))"
      by (auto split: option.splits prod.splits sum.splits)
    from "2.prems"(2) True have raw: "add_mset cid (mset (raw_playlists fs)) \<subseteq># mset cids" by simp
    then have mem: "cid \<in> set cids" by (metis in_multiset_in_set insert_subset_eq_iff)
    have rest: "mset (raw_playlists fs) \<subseteq># mset cids - {#cid#}" using raw by (metis insert_subset_eq_iff)
    then have "mset (raw_playlists fs) \<subseteq># mset (replace_in_slice cids cid new)"
      by (simp add: mset_replace_in_slice [OF mem] subset_mset.le_add_same_cancel2 subset_mset.order_trans)
    from "2.IH"(2) [OF _ u(1) u(2) [symmetric] refl u(3) this] True obtain news where n: "length news = length (raw_playlists fs)"
      "mset cids' = mset (replace_in_slice cids cid new) - mset (raw_playlists fs) + mset news"
      "ran (map_of variants') \<subseteq> ran (map_of (gm_put (path_dir rel) new variants)) \<union> set news" by auto
    have "mset cids' = (mset cids - {#cid#} - mset (raw_playlists fs)) + add_mset new (mset news)"
    proof -
      have "add_mset new (mset cids - {#cid#}) - mset (raw_playlists fs) = add_mset new (mset cids - {#cid#} - mset (raw_playlists fs))"
        using subset_mset.diff_add_assoc2 [OF rest, of "{#new#}"] by simp
      then show ?thesis by (simp only: n(2) mset_replace_in_slice [OF mem]) simp
    qed
    moreover have "ran (map_of (gm_put (path_dir rel) new variants)) \<subseteq> insert new (ran (map_of variants))"
      by (auto simp: gomap_simps ran_def split: if_splits)
    ultimately show ?thesis using n True by (intro exI [of _ "new # news"]) auto
  qed
qed auto

lemma fill_result_frame [simp]:
  "ur_master_cid (fill_result fs r) = ur_master_cid r" "ur_variant_cids (fill_result fs r) = ur_variant_cids r"
  "ur_all_cids (fill_result fs r) = ur_all_cids r"
  by (induction fs r rule: fill_result.induct) (auto simp: Let_def split: option.splits if_splits)

definition result_values :: "upload_result \<Rightarrow> string set" where
  "result_values r = ran (map_of (ur_segment_cids r)) \<union> ran (map_of (ur_poster_cids r)) \<union>
     (\<Union>m \<in> ran (map_of (ur_privacy_poster_cids r)). ran (map_of m))"

lemma ran_gm_put: "ran (map_of (gm_put k v m)) \<subseteq> insert v (ran (map_of m))"
  by (auto simp: gomap_simps ran_def split: if_splits)

lemma result_values_updates:
  "result_values (r\<lparr>ur_segment_cids := gm_put k v (ur_segment_cids r)\<rparr>) \<subseteq> insert v (result_values r)"
  "result_values (r\<lparr>ur_poster_cids := gm_put k v (ur_poster_cids r)\<rparr>) \<subseteq> insert v (result_values r)"
  "result_values (r\<lparr>ur_privacy_poster_cids := gm_put k (gm_put k' v (gm_get_map (ur_privacy_poster_cids r) k)) (ur_privacy_poster_cids r)\<rparr>)
     \<subseteq> insert v (result_values r)"
proof -
  show "result_values (r\<lparr>ur_segment_cids := gm_put k v (ur_segment_cids r)\<rparr>) \<subseteq> insert v (result_values r)"
    using ran_gm_put [of k v "ur_segment_cids r"] by (auto simp: result_values_def)
  show "result_values (r\<lparr>ur_poster_cids := gm_put k v (ur_poster_cids r)\<rparr>) \<subseteq> insert v (result_values r)"
    using ran_gm_put [of k v "ur_poster_cids r"] by (auto simp: result_values_def)
  have get: "ran (map_of (gm_get_map m k)) \<subseteq> (\<Union>n \<in> ran (map_of m). ran (map_of n))" for m :: "(string, (string, string) gomap) gomap"
    by (auto simp: gm_get_map_def split: option.splits) (meson ranI)
  let ?m = "ur_privacy_poster_cids r"
  have "n \<in> ran (map_of (gm_put k (gm_put k' v (gm_get_map ?m k)) ?m)) \<Longrightarrow>
      ran (map_of n) \<subseteq> insert v (\<Union>n \<in> ran (map_of ?m). ran (map_of n))" for n
    using ran_gm_put [of k "gm_put k' v (gm_get_map ?m k)" ?m] ran_gm_put [of k' v "gm_get_map ?m k"] get [of ?m] by blast
  then show "result_values (r\<lparr>ur_privacy_poster_cids := gm_put k (gm_put k' v (gm_get_map ?m k)) ?m\<rparr>) \<subseteq> insert v (result_values r)"
    by (auto simp: result_values_def)
qed

lemma to_lower_digit: "last (to_lower (s @ ''8'')) = CHR ''8''"
  by (simp add: to_lower_append del: to_lower.simps) (simp add: lower_char_def)

lemma not_playlist_name:
  "has_suffix rel ''.m4s'' \<Longrightarrow> \<not> is_variant_playlist rel" "poster_from_path rel = Some p \<Longrightarrow> \<not> is_variant_playlist rel"
proof -
  have l: "is_variant_playlist rel \<Longrightarrow> last rel = CHR ''8'' \<and> rel \<noteq> []"
    by (auto simp: is_variant_playlist_def has_suffix_iff)
  show "has_suffix rel ''.m4s'' \<Longrightarrow> \<not> is_variant_playlist rel" using l by (auto simp: has_suffix_iff)
  show "poster_from_path rel = Some p \<Longrightarrow> \<not> is_variant_playlist rel"
  proof
    assume a: "poster_from_path rel = Some p" "is_variant_playlist rel"
    then obtain t where "to_lower rel = t @ ''.jpg''" by (auto simp: poster_from_path_def has_suffix_iff split: if_splits)
    then have "last (to_lower rel) = CHR ''g''" by simp
    moreover from a(2) obtain s where s: "rel = s @ ''playlist.m3u8''" by (auto simp: is_variant_playlist_def has_suffix_iff)
    have "last (to_lower rel) = CHR ''8''" using to_lower_digit [of "s @ ''playlist.m3u''"] by (simp add: s)
    ultimately show False by simp
  qed
qed

lemma fill_result_values:
  "result_values (fill_result fs r) \<subseteq> result_values r \<union> set (map snd (filter (\<lambda>f. \<not> is_variant_playlist (fst f)) fs))"
proof (induction fs r rule: fill_result.induct)
  case (2 rel cid fs r)
  define r1 where "r1 = (if has_suffix rel ''.m4s'' then r\<lparr>ur_segment_cids := gm_put rel cid (ur_segment_cids r)\<rparr> else r)"
  have r1: "result_values r1 \<subseteq> result_values r \<union> (if is_variant_playlist rel then {} else {cid})"
    using result_values_updates(1) [where k = rel and v = cid and r = r] not_playlist_name(1) [of rel] by (auto simp: r1_def)
  show ?case
  proof (cases "poster_from_path rel")
    case None
    with "2.IH"(1) [OF r1_def None] r1 show ?thesis by (auto simp: r1_def [symmetric] split: if_splits)
  next
    case (Some p)
    have np: "\<not> is_variant_playlist rel" by (rule not_playlist_name(2) [OF Some])
    define r2 where "r2 = (if pp_variant p = [] then r1\<lparr>ur_poster_cids := gm_put (pp_size p) cid (ur_poster_cids r1)\<rparr>
      else r1\<lparr>ur_privacy_poster_cids := gm_put (pp_variant p)
        (gm_put (pp_size p) cid (gm_get_map (ur_privacy_poster_cids r1) (pp_variant p))) (ur_privacy_poster_cids r1)\<rparr>)"
    have r2: "result_values r2 \<subseteq> insert cid (result_values r1)"
      using result_values_updates(2) [where k = "pp_size p" and v = cid and r = r1]
        result_values_updates(3) [where k = "pp_variant p" and k' = "pp_size p" and v = cid and r = r1]
      by (simp only: r2_def split: if_splits) simp
    have eq: "fill_result ((rel, cid) # fs) r = fill_result fs r2"
      using Some by (simp add: r1_def r2_def Let_def)
    have "result_values (fill_result fs r2) \<subseteq> result_values r2 \<union> set (map snd (filter (\<lambda>f. \<not> is_variant_playlist (fst f)) fs))"
    proof (cases "pp_variant p = []")
      case True
      show ?thesis unfolding r2_def if_P [OF True] by (rule "2.IH"(2) [OF r1_def Some True])
    next
      case False
      show ?thesis unfolding r2_def if_not_P [OF False] by (rule "2.IH"(3) [OF r1_def Some False])
    qed
    with r2 r1 np show ?thesis unfolding eq by (auto split: if_splits)
  qed
qed simp

section \<open>Properties\<close>

lemma upload_dir_cids:
  assumes "distinct (map fst (od_walk d))" and "upload_dir (Some add) d s = (s', Inr r)"
  shows "\<exists>files news. gm_keys files = walked_files (od_walk d) \<and>
    length news = length (raw_playlists files) \<and>
    mset (ur_all_cids r) = mset (map snd (filter (\<lambda>f. \<not> is_variant_playlist (fst f)) files)) + mset news + {#ur_master_cid r#} \<and>
    ran (map_of (ur_variant_cids r)) \<subseteq> set news \<and>
    insert (ur_master_cid r) (ran (map_of (ur_variant_cids r)) \<union> result_values r) \<subseteq> set (ur_all_cids r)"
proof -
  from assms(2) obtain s1 files cids s2 variants cids' s3 m where
    u: "upload_files add (od_walk d) [] [] s = (s1, Inr (files, cids))"
    "upload_variants add d files files [] cids s1 = (s2, Inr (variants, cids'))"
    and r: "r = fill_result files \<lparr>ur_master_cid = m, ur_variant_cids = variants, ur_segment_cids = [],
      ur_poster_cids = [], ur_privacy_poster_cids = [], ur_all_cids = cids' @ [m]\<rparr>"
    by (auto simp: upload_dir_def split: prod.splits sum.splits if_splits)
  from upload_files_cids [OF u(1) assms(1)] have f: "gm_keys files = walked_files (od_walk d)" "mset cids = mset (map snd files)"
    by auto
  let ?p = "\<lambda>f. is_variant_playlist (fst f)"
  have split: "mset (map snd files) = mset (raw_playlists files) + mset (map snd (filter (\<lambda>f. \<not> ?p f) files))"
    by (induction files) auto
  from upload_variants_cids [OF u(2)] f(2) split obtain news where
    n: "length news = length (raw_playlists files)" "mset cids' = mset cids - mset (raw_playlists files) + mset news"
    "ran (map_of variants) \<subseteq> set news" by auto
  have all: "mset (ur_all_cids r) = mset (map snd (filter (\<lambda>f. \<not> ?p f) files)) + mset news + {#ur_master_cid r#}"
    using n(2) f(2) split by (simp add: r)
  have "set (ur_all_cids r) = set (map snd (filter (\<lambda>f. \<not> ?p f) files)) \<union> set news \<union> {ur_master_cid r}"
    using arg_cong [OF all, of set_mset] by simp
  moreover have "result_values r \<subseteq> set (map snd (filter (\<lambda>f. \<not> ?p f) files))"
    unfolding r by (rule subset_trans [OF fill_result_values]) (simp add: result_values_def)
  moreover have "ran (map_of (ur_variant_cids r)) \<subseteq> set news" using n(3) by (simp add: r)
  ultimately show ?thesis using f(1) n(1) all by (intro exI [of _ files] exI [of _ news] conjI) blast+
qed


text \<open>An adder that numbers what it is given.\<close>

definition counting_adder :: "(nat, unit) adder" where
  "counting_adder name r n = (Suc n, Inr \<lparr>ar_cid = itoa (int n), ar_name = name\<rparr>)"

definition example_dir :: output_dir where
  "example_dir = \<lparr>od_walk = [(''low/playlist.m3u8'', Walk_file \<lparr>rd_bytes = [], rd_fails = False\<rparr>)], od_read = (\<lambda>p. Some [])\<rparr>"


text \<open>
  C33: the delivery side understands the master playlist the upload builds. If the CIDs are well-formed and
  the names of the posters contain no comma, quote or newline, then rewriting the master for a media link
  succeeds; its playlist indices resolve to exactly the CIDs of the variants that exist, in the order low,
  medium, high, and to nothing beyond; and for every original poster that has a rendition of a protected
  mode in its size, the access layer finds a rendition of that mode.
\<close>

theorem master_playlist_understood:
  assumes "names_ok variants files" and "m = build_master_playlist variants files"
  shows "(\<exists>out. rewrite_linked_master m auth = Inr out) \<and>
    linked_master_playlist_cid m (int i) =
      (if i < length (variant_list variants) then Inr (variant_list variants ! i) else Inl Index_unavailable) \<and>
    (orig \<in> set (collect_posters files) \<and> po_variant orig = [] \<and> p \<in> set (collect_posters files) \<and>
      po_size p = po_size orig \<and> po_variant p = mode_string mode \<and> mode \<noteq> Original \<longrightarrow>
     (\<exists>q \<in> set (collect_posters files). po_variant q = mode_string mode \<and>
       video_poster_cid canonical m (po_cid orig) mode = Some (po_cid q)))"
proof -
  let ?ps = "collect_posters files"
  have found: "pick_poster canonical ?ps (po_cid orig) mode ps \<noteq> None"
    if "orig \<in> set ps" "po_variant orig = []" "p \<in> set ?ps" "po_size p = po_size orig" "po_variant p = mode_string mode" for ps
    using that by (induction ps) (auto simp: same_media_cid_def find_None_iff split: option.splits)
  have "\<exists>q \<in> set ?ps. po_variant q = mode_string mode \<and> video_poster_cid canonical m (po_cid orig) mode = Some (po_cid q)"
    if a: "orig \<in> set ?ps" "po_variant orig = []" "p \<in> set ?ps" "po_size p = po_size orig" "po_variant p = mode_string mode" "mode \<noteq> Original"
  proof -
    from found [OF a(1-5)] obtain cid where c: "pick_poster canonical ?ps (po_cid orig) mode ?ps = Some cid" by blast
    from pick_poster_Some [OF c] a(6) show ?thesis
      using c by (auto simp: video_poster_cid_def assms(2) master_posters_built [OF assms(1)])
  qed
  with linked_master_built [OF assms(1)] assms(2) show ?thesis by blast
qed

theorem master_playlist_understood_witness:
  "linked_master_playlist_cid (build_master_playlist [(''medium'', example_cid)] []) (int 0) = Inr example_cid"
proof -
  have v: "variant_list [(''medium'', example_cid)] = [example_cid]"
    by (simp add: variant_list_def variant_order_def map_filter_simps)
  have "names_ok [(''medium'', example_cid)] []"
    by (simp add: names_ok_def v example_cid_valid collect_posters_def map_filter_simps)
  from master_playlist_understood [OF this refl, of _ 0] show ?thesis by (simp add: v)
qed

end
