(* ===== verification/Stream_Handlers.thy ===== *)
theory Stream_Handlers
  imports File_Handlers Video_Uploader
begin

text \<open>
  The streaming routes of \<open>internal/handler/video_handler.go\<close>: playlists, segments and posters of a video,
  by CID (\<open>/stream/{cid}/...\<close>, \<open>/stream/segment/...\<close>) and by opaque media link
  (\<open>/stream/link/...\<close>). They are functions of the server, the request and the variant overrides.
\<close>

section \<open>Small parts\<close>

definition hls_type :: string where "hls_type = ''application/vnd.apple.mpegurl''"

definition media_delivery_hides_stream :: "delivery_mode \<Rightarrow> bool" where
  "media_delivery_hides_stream mode \<longleftrightarrow> mode = Blur \<or> mode = Blur_faces"

definition write_stream_hidden :: "delivery_mode \<Rightarrow> headers \<Rightarrow> response" where
  "write_stream_hidden mode hs =
     (if mode = Blur_faces then json_error 403 [(''error'', ''Video with a hidden face is unavailable'')] hs
      else json_error 403 [(''error'', ''Private video is unavailable'')] hs)"

definition stream_segment_content_type :: "string \<Rightarrow> string" where
  "stream_segment_content_type path =
     (let ext = to_lower (file_ext path)
      in if ext = ''.m3u8'' then hls_type
         else if ext = ''.jpg'' \<or> ext = ''.jpeg'' then ''image/jpeg''
         else if ext = ''.png'' then ''image/png''
         else if ext = ''.webp'' then ''image/webp''
         else ''video/mp4'')"

definition bind_stream_root :: "decision \<Rightarrow> query \<Rightarrow> query" where
  "bind_stream_root d q =
     (if dc_managed d \<and> dc_source_cid d \<noteq> [] \<and> query_get q ''media_link'' = []
      then query_set q ''media_root'' (dc_source_cid d) else q)"

definition overridden_file :: "variant_overrides option \<Rightarrow> string \<Rightarrow> string" where
  "overridden_file ov cid = (case overrides_get ov (variant_override_key cid []) of
      (replacement, True) \<Rightarrow> replacement
    | (_, False) \<Rightarrow> cid)"

definition stream_cache_control :: "decision \<Rightarrow> string \<Rightarrow> string" where
  "stream_cache_control d public = (if dc_managed d then no_store else public)"

definition not_found :: "string \<Rightarrow> headers \<Rightarrow> response" where
  "not_found message hs = json_error 404 [(''error'', message)] hs"

definition playlist_text :: "reader \<Rightarrow> string option" where
  "playlist_text r = (if rd_fails r then None else Some (text_of (rd_bytes r)))"

section \<open>Posters\<close>

text \<open>\<open>aliases[original][variant]\<close>: the protected rendition of an original poster.\<close>

definition add_alias :: "string \<Rightarrow> string \<Rightarrow> (string, (string, string) gomap) gomap \<Rightarrow> string \<times> (string, string) gomap
    \<Rightarrow> (string, (string, string) gomap) gomap" where
  "add_alias size_name original aliases entry =
     (let (variant, cids) = entry; cid = (case map_of cids size_name of None \<Rightarrow> [] | Some c \<Rightarrow> c)
      in if cid = [] then aliases
         else gm_put original (gm_put variant cid (case map_of aliases original of None \<Rightarrow> [] | Some m \<Rightarrow> m)) aliases)"

definition video_poster_aliases ::
    "(string, string) gomap \<Rightarrow> (string, (string, string) gomap) gomap \<Rightarrow> (string, (string, string) gomap) gomap" where
  "video_poster_aliases posters privacy =
     foldl (\<lambda>aliases (size_name, original). if original = [] then aliases
              else foldl (add_alias size_name original) aliases privacy) [] posters"

section \<open>Files and playlists\<close>

definition serve_stream_asset :: "'f server \<Rightarrow> request \<Rightarrow> headers \<Rightarrow> string \<Rightarrow> string \<Rightarrow> decision \<Rightarrow> response" where
  "serve_stream_asset sv r hs cid path d =
     (if sg_deleted (sv_storage sv) cid then not_found ''Segment not found'' hs
      else (case fetch_video_asset (sv_storage sv) cid of
          None \<Rightarrow> not_found ''Segment not found'' hs
        | Some rd \<Rightarrow>
            (let ct = stream_segment_content_type path;
                 hs1 = gm_put ''Cache-Control'' (stream_cache_control d ''public, max-age=86400'')
                         (set_user_file_headers ct (gm_put ''Content-Type'' ct hs))
             in \<lparr>rs_status = 200, rs_headers = hs1, rs_body =
                  (if ct = hls_type
                   then Body_text (write_playlist (playlist_text rd) (playlist_auth_suffix (bind_stream_root d (rq_query r))))
                   else Body_bytes (rd_bytes rd))\<rparr>)))"

definition write_linked_playlist :: "headers \<Rightarrow> string \<Rightarrow> decision \<Rightarrow> response" where
  "write_linked_playlist hs content d = \<lparr>rs_status = 200, rs_headers = gm_put ''Cache-Control''
     (stream_cache_control d ''public, max-age=3600'') (gm_put ''Content-Type'' hls_type hs), rs_body = Body_text content\<rparr>"

definition serve_linked_stream_master :: "'f server \<Rightarrow> request \<Rightarrow> headers \<Rightarrow> decision \<Rightarrow> response" where
  "serve_linked_stream_master sv r hs d = (case read_linked_master (sv_storage sv) d of
      None \<Rightarrow> not_found ''Video not found'' hs
    | Some master \<Rightarrow> (case rewrite_linked_master master (playlist_auth_suffix (rq_query r)) of
          Inl e \<Rightarrow> not_found ''Video playlist is unavailable'' hs
        | Inr content \<Rightarrow> write_linked_playlist hs content d))"

definition serve_linked_stream_playlist :: "'f server \<Rightarrow> request \<Rightarrow> headers \<Rightarrow> int \<Rightarrow> decision \<Rightarrow> response" where
  "serve_linked_stream_playlist sv r hs index d = (case read_linked_master (sv_storage sv) d of
      None \<Rightarrow> not_found ''Video not found'' hs
    | Some master \<Rightarrow> (case linked_master_playlist_cid master index of
          Inl e \<Rightarrow> not_found ''Stream playlist not found'' hs
        | Inr playlist_cid \<Rightarrow>
            if sg_deleted (sv_storage sv) playlist_cid then not_found ''Stream playlist not found'' hs
            else (case read_video_asset (sv_storage sv) playlist_cid of
                None \<Rightarrow> not_found ''Stream playlist not found'' hs
              | Some playlist \<Rightarrow> (case rewrite_linked_variant playlist index (playlist_auth_suffix (rq_query r)) of
                    Inl e \<Rightarrow> not_found ''Stream playlist is unavailable'' hs
                  | Inr content \<Rightarrow> write_linked_playlist hs content d))))"

definition serve_linked_stream_asset ::
    "'f server \<Rightarrow> request \<Rightarrow> headers \<Rightarrow> int \<Rightarrow> int \<Rightarrow> string \<Rightarrow> decision \<Rightarrow> response" where
  "serve_linked_stream_asset sv r hs playlist_index asset_index extension d = (case read_linked_master (sv_storage sv) d of
      None \<Rightarrow> not_found ''Video not found'' hs
    | Some master \<Rightarrow> (case linked_master_playlist_cid master playlist_index of
          Inl e \<Rightarrow> not_found ''Stream segment not found'' hs
        | Inr playlist_cid \<Rightarrow>
            if sg_deleted (sv_storage sv) playlist_cid then not_found ''Stream segment not found'' hs
            else (case read_video_asset (sv_storage sv) playlist_cid of
                None \<Rightarrow> not_found ''Stream playlist not found'' hs
              | Some playlist \<Rightarrow> (case linked_variant_asset_cid playlist asset_index of
                    Inl e \<Rightarrow> not_found ''Stream segment not found'' hs
                  | Inr (asset_cid, asset_extension) \<Rightarrow>
                      if sg_deleted (sv_storage sv) asset_cid \<or> (extension \<noteq> [] \<and> extension \<noteq> asset_extension)
                      then not_found ''Stream segment not found'' hs
                      else serve_stream_asset sv r hs asset_cid (''asset'' @ asset_extension) d))))"

definition serve_stream_master :: "'f server \<Rightarrow> request \<Rightarrow> headers \<Rightarrow> string \<Rightarrow> decision \<Rightarrow> string \<Rightarrow> response" where
  "serve_stream_master sv r hs cid d media_link =
     (let q = bind_stream_root d (rq_query r)
      in case fetch_video_asset (sv_storage sv) cid of
           None \<Rightarrow> not_found ''Video not found'' hs
         | Some rd \<Rightarrow> \<lparr>rs_status = 200, rs_headers = gm_put ''Cache-Control''
             (stream_cache_control d ''public, max-age=3600'') (gm_put ''Content-Type'' hls_type hs),
             rs_body = Body_text (write_playlist (playlist_text rd) (playlist_auth_suffix
               (if media_link \<noteq> [] then query_set q ''media_link'' media_link else q)))\<rparr>)"

definition serve_protected_poster ::
    "'f server \<Rightarrow> headers \<Rightarrow> string \<Rightarrow> string \<Rightarrow> decision \<Rightarrow> variant_overrides option \<Rightarrow> response" where
  "serve_protected_poster sv hs cid path d ov =
     (let sg = sv_storage sv;
          opened = (case sg_fetch sg (overridden_file ov cid) of Some rd \<Rightarrow> Some rd | None \<Rightarrow> sg_fetch sg cid);
          unavailable = json_error 403 [(''error'', ''Protected poster is unavailable'')] hs;
          ok = (\<lambda>rd. \<lparr>rs_status = 200, rs_headers = gm_put ''Cache-Control'' no_store
                 (set_user_file_headers (stream_segment_content_type path)
                   (gm_put ''Content-Type'' (stream_segment_content_type path) hs)), rs_body = Body_bytes (rd_bytes rd)\<rparr>)
      in case opened of
           Some rd \<Rightarrow> ok rd
         | None \<Rightarrow> (case read_manifest sv cid of
               None \<Rightarrow> unavailable
             | Some m \<Rightarrow> (case map_of (mf_variants m) (mode_string (dc_mode d)) of
                   None \<Rightarrow> unavailable
                 | Some v \<Rightarrow>
                     if as_bundle_path v = [] then unavailable
                     else (case sg_fetch_path sg cid (as_bundle_path v) of
                         None \<Rightarrow> not_found ''Segment not found'' hs
                       | Some rd \<Rightarrow> ok rd))))"

section \<open>Handlers\<close>

definition handle_stream_master :: "'f server \<Rightarrow> request \<Rightarrow> response" where
  "handle_stream_master sv r = (case split_char CHR ''/'' (trim_prefix (rq_path r) ''/stream/'') of
      cid # _ # _ \<Rightarrow> (case validate_cid cid of
          Some e \<Rightarrow> json_error 400 [(''error'', cid_error_text e)] initial_headers
        | None \<Rightarrow>
            if sg_deleted (sv_storage sv) cid then not_found ''Video not found'' initial_headers
            else (case server_delivery sv r cid of
                Inl e \<Rightarrow> write_media_access_error e
              | Inr d \<Rightarrow>
                  if media_delivery_hides_stream (dc_mode d) then write_stream_hidden (dc_mode d) initial_headers
                  else serve_stream_master sv r initial_headers cid d []))
    | _ \<Rightarrow> json_error 400 [(''error'', ''Invalid stream URL'')] initial_headers)"

definition serve_link_poster :: "'f server \<Rightarrow> request \<Rightarrow> decision \<Rightarrow> variant_overrides option \<Rightarrow> response" where
  "serve_link_poster sv r d ov = (case resolve_video_poster (sv_storage sv) d (dc_poster_cid d) of
      Inl e \<Rightarrow> write_media_access_error e
    | Inr found \<Rightarrow>
        (let poster_cid = (if dc_mode d \<noteq> Original then overridden_file ov found else found)
         in if validate_cid poster_cid \<noteq> None \<or> sg_deleted (sv_storage sv) poster_cid
            then not_found ''Poster not found'' initial_headers
            else serve_stream_asset sv r initial_headers poster_cid ''poster.jpg'' d))"

definition handle_stream_link :: "'f server \<Rightarrow> request \<Rightarrow> variant_overrides option \<Rightarrow> response" where
  "handle_stream_link sv r ov =
     (let parts = path_parts ''/stream/link/'' (rq_path r)
      in if length parts < 2 \<or> hd parts = [] then json_error 400 [(''error'', ''Invalid media link stream URL'')] initial_headers
         else (case server_delivery_link sv r (hd parts) of
             Inl e \<Rightarrow> write_media_access_error e
           | Inr d \<Rightarrow>
               if tl parts = [''poster.jpg''] then serve_link_poster sv r d ov
               else if media_delivery_hides_stream (dc_mode d) then write_stream_hidden (dc_mode d) initial_headers
               else if tl parts = [''master.m3u8''] then serve_linked_stream_master sv r initial_headers d
               else (case tl parts of
                   [kind, index] \<Rightarrow>
                     if kind = ''playlist'' then (case linked_stream_index index ''.m3u8'' of
                         None \<Rightarrow> not_found ''Stream playlist not found'' initial_headers
                       | Some i \<Rightarrow> serve_linked_stream_playlist sv r initial_headers i d)
                     else not_found ''Stream asset not found'' initial_headers
                 | [kind, index, file] \<Rightarrow>
                     if kind = ''segment'' then (case linked_stream_index index [] of
                         None \<Rightarrow> not_found ''Stream segment not found'' initial_headers
                       | Some i \<Rightarrow> (case linked_stream_index (trim_suffix file (file_ext file)) [] of
                           None \<Rightarrow> not_found ''Stream segment not found'' initial_headers
                         | Some j \<Rightarrow> serve_linked_stream_asset sv r initial_headers i j (file_ext file) d))
                     else not_found ''Stream asset not found'' initial_headers
                 | _ \<Rightarrow> not_found ''Stream asset not found'' initial_headers)))"

definition is_poster_path :: "string \<Rightarrow> bool" where
  "is_poster_path path \<longleftrightarrow> list_ex (equal_fold (file_ext path)) [''.jpg'', ''.jpeg'', ''.webp'', ''.png'']"

definition segment_cid :: "string \<Rightarrow> string" where
  "segment_cid path = (case last_index_char path CHR ''.'' of
      None \<Rightarrow> path
    | Some i \<Rightarrow> if i > 0 then take i path else path)"

definition handle_stream_segment :: "'f server \<Rightarrow> request \<Rightarrow> variant_overrides option \<Rightarrow> response" where
  "handle_stream_segment sv r ov =
     (let path = trim_prefix (rq_path r) ''/stream/segment/''; cid = segment_cid path
      in case validate_cid cid of
           Some e \<Rightarrow> json_error 400 [(''error'', cid_error_text e)] initial_headers
         | None \<Rightarrow>
             if sg_deleted (sv_storage sv) cid then not_found ''Segment not found'' initial_headers
             else (case server_delivery sv r cid of
                 Inl e \<Rightarrow> write_media_access_error e
               | Inr d \<Rightarrow>
                   if media_delivery_hides_stream (dc_mode d) \<and> \<not> is_poster_path path
                   then write_stream_hidden (dc_mode d) initial_headers
                   else if is_poster_path path \<and> dc_managed d then
                     (case (if dc_source_is_video d then resolve_video_poster (sv_storage sv) d cid
                            else if dc_mode d \<noteq> Original then Inl Access_denied else Inr cid) of
                        Inl e \<Rightarrow> write_media_access_error e
                      | Inr found \<Rightarrow>
                          if dc_mode d \<noteq> Original then serve_protected_poster sv initial_headers found path d ov
                          else serve_stream_asset sv r initial_headers found path d)
                   else serve_stream_asset sv r initial_headers cid path d))"

section \<open>Facts\<close>

lemma not_found_body [simp]: "rs_body (not_found msg hs) = Body_json [(''error'', msg)]" "rs_status (not_found msg hs) = 404"
  by (simp_all add: not_found_def)

lemma access_error_status [simp]: "rs_status (write_media_access_error e) \<noteq> 200"
  by (auto simp: write_media_access_error_def Let_def split: access_error.splits grant_error.splits)

lemma hidden_status [simp]: "rs_status (write_stream_hidden mode hs) = 403"
  by (simp add: write_stream_hidden_def)

lemma poster_type: "stream_segment_content_type ''poster.jpg'' = ''image/jpeg''"
  by (simp add: stream_segment_content_type_def file_ext_def last_element_def lower_char_def)

lemma serve_stream_asset_ok:
  assumes "rs_status (serve_stream_asset sv r hs cid path d) = 200"
  shows "\<exists>rd. \<not> sg_deleted (sv_storage sv) cid \<and> fetch_video_asset (sv_storage sv) cid = Some rd \<and>
    rs_body (serve_stream_asset sv r hs cid path d) = (if stream_segment_content_type path = hls_type
      then Body_text (write_playlist (playlist_text rd) (playlist_auth_suffix (bind_stream_root d (rq_query r))))
      else Body_bytes (rd_bytes rd))"
  using assms by (auto simp: serve_stream_asset_def Let_def split: if_splits option.splits)

text \<open>The poster a decision allows, and where its master binds it.\<close>

definition bound_poster :: "storage \<Rightarrow> decision \<Rightarrow> string \<Rightarrow> poster \<Rightarrow> bool" where
  "bound_poster sg d requested p \<longleftrightarrow> dc_source_is_video d \<and>
     (\<exists>master ps orig. read_linked_master sg d = Some master \<and> master_posters (lines_of master) = Some ps \<and>
        p \<in> set ps \<and> orig \<in> set ps \<and> po_variant orig = [] \<and>
        (requested = [] \<or> same_media_cid (sg_canonical sg) (po_cid orig) requested) \<and>
        (if dc_mode d = Original then p = orig else po_size p = po_size orig \<and> po_variant p = mode_string (dc_mode d)))"

lemma resolve_video_poster_bound:
  assumes "resolve_video_poster sg d requested = Inr cid"
  shows "\<exists>p. bound_poster sg d requested p \<and> cid = po_cid p"
proof -
  from assms obtain master ps where m: "dc_source_is_video d" "read_linked_master sg d = Some master"
    "master_posters (lines_of master) = Some ps" "pick_poster (sg_canonical sg) ps requested (dc_mode d) ps = Some cid"
    by (auto simp: resolve_video_poster_def video_poster_cid_def split: if_splits option.splits)
  from pick_poster_Some [OF m(4)] obtain orig where o: "orig \<in> set ps" "po_variant orig = []"
    "requested = [] \<or> same_media_cid (sg_canonical sg) (po_cid orig) requested"
    and c: "if dc_mode d = Original then cid = po_cid orig
      else \<exists>p \<in> set ps. po_size p = po_size orig \<and> po_variant p = mode_string (dc_mode d) \<and> cid = po_cid p" by blast
  show ?thesis
  proof (cases "dc_mode d = Original")
    case True
    have "bound_poster sg d requested orig" unfolding bound_poster_def if_P [OF True] using m o by blast
    with True c show ?thesis by auto
  next
    case False
    with c obtain p where "p \<in> set ps" "po_size p = po_size orig" "po_variant p = mode_string (dc_mode d)" "cid = po_cid p" by auto
    moreover from this have "bound_poster sg d requested p" unfolding bound_poster_def if_not_P [OF False] using m o by blast
    ultimately show ?thesis by blast
  qed
qed

section \<open>Properties\<close>

text \<open>
  C5: a link to a hidden video shows its protected poster and nothing else. When the decision for a media
  link is to blur the picture or the faces, the only stream URL of the link that answers 200 is the
  poster, and the bytes are those of a poster the video's own master playlist lists for that mode in the
  size of one of its original posters, or of the file that replaces that poster, which is not deleted.
\<close>

theorem hidden_video_link:
  assumes "server_delivery_link sv r (hd (path_parts ''/stream/link/'' (rq_path r))) = Inr d"
    and "dc_mode d = Blur \<or> dc_mode d = Blur_faces" and "rs_status (handle_stream_link sv r ov) = 200"
  shows "tl (path_parts ''/stream/link/'' (rq_path r)) = [''poster.jpg''] \<and>
    (\<exists>p rd. bound_poster (sv_storage sv) d (dc_poster_cid d) p \<and> po_variant p = mode_string (dc_mode d) \<and>
      \<not> sg_deleted (sv_storage sv) (overridden_file ov (po_cid p)) \<and>
      fetch_video_asset (sv_storage sv) (overridden_file ov (po_cid p)) = Some rd \<and>
      rs_body (handle_stream_link sv r ov) = Body_bytes (rd_bytes rd))"
proof -
  have hide: "media_delivery_hides_stream (dc_mode d)" "dc_mode d \<noteq> Original"
    using assms(2) by (auto simp: media_delivery_hides_stream_def)
  with assms(1,3) have t: "tl (path_parts ''/stream/link/'' (rq_path r)) = [''poster.jpg'']"
    and eq: "handle_stream_link sv r ov = serve_link_poster sv r d ov"
    by (auto simp: handle_stream_link_def Let_def split: if_splits)
  from assms(3) hide(2) obtain found where f: "resolve_video_poster (sv_storage sv) d (dc_poster_cid d) = Inr found"
    and asset: "serve_link_poster sv r d ov = serve_stream_asset sv r initial_headers (overridden_file ov found) ''poster.jpg'' d"
    unfolding eq by (auto simp: serve_link_poster_def Let_def split: sum.splits if_splits)
  from resolve_video_poster_bound [OF f] obtain p where p: "bound_poster (sv_storage sv) d (dc_poster_cid d) p" "found = po_cid p" by blast
  with hide(2) have "po_variant p = mode_string (dc_mode d)" by (auto simp: bound_poster_def)
  moreover from serve_stream_asset_ok [OF assms(3) [unfolded eq asset]] p(2) obtain rd where
    "\<not> sg_deleted (sv_storage sv) (overridden_file ov (po_cid p))"
    "fetch_video_asset (sv_storage sv) (overridden_file ov (po_cid p)) = Some rd"
    "rs_body (handle_stream_link sv r ov) = Body_bytes (rd_bytes rd)"
    by (auto simp: eq asset poster_type hls_type_def)
  ultimately show ?thesis using t p(1) by blast
qed


section \<open>An example video\<close>

definition example_files :: "(string, string) gomap" where
  "example_files = [(''posters/s.jpg'', example_cid), (''posters/blur/s.jpg'', example_cid)]"

definition example_master :: string where
  "example_master = build_master_playlist [(''medium'', example_cid)] example_files"

lemma example_posters:
  "collect_posters example_files = [\<lparr>po_cid = example_cid, po_size = ''s'', po_variant = []\<rparr>,
     \<lparr>po_cid = example_cid, po_size = ''s'', po_variant = ''blur''\<rparr>]"
proof -
  have "poster_from_path ''posters/s.jpg'' = Some \<lparr>pp_variant = [], pp_size = ''s''\<rparr>"
    "poster_from_path ''posters/blur/s.jpg'' = Some \<lparr>pp_variant = ''blur'', pp_size = ''s''\<rparr>"
    by (simp_all add: poster_from_path_def has_prefix_def has_suffix_def trim_prefix_def trim_suffix_def lower_char_def
        file_ext_def last_element_def)
  then show ?thesis by (simp add: collect_posters_def example_files_def poster_entry_def map_filter_simps poster_less_def)
qed

lemma example_names_ok: "names_ok [(''medium'', example_cid)] example_files"
  by (simp add: names_ok_def example_posters poster_ok_def attr_safe_def variant_list_def variant_order_def map_filter_simps
      example_cid_valid newline_def)

lemma example_master_posters:
  "master_posters (lines_of example_master) = Some [\<lparr>po_cid = example_cid, po_size = ''s'', po_variant = []\<rparr>,
     \<lparr>po_cid = example_cid, po_size = ''s'', po_variant = ''blur''\<rparr>]"
  unfolding example_master_def master_posters_built [OF example_names_ok] example_posters ..

definition video_storage :: storage where
  "video_storage = example_storage\<lparr>sg_fetch := (\<lambda>c. Some \<lparr>rd_bytes = bytes_of example_master, rd_fails = False\<rparr>)\<rparr>"

lemma video_storage_fields:
  "sg_fetch video_storage c = Some \<lparr>rd_bytes = bytes_of example_master, rd_fails = False\<rparr>" "sg_deleted video_storage c = False"
  by (simp_all add: video_storage_def example_storage_def)

lemma initial_poster: "dc_poster_cid initial_decision = []"
  by (simp add: initial_decision_def)

lemma example_master_length: "length (bytes_of example_master) \<le> max_playlist_bytes"
  by (simp add: bytes_of_def example_master_def build_master_playlist_def example_posters text_line_def poster_line_def
      poster_prefix_def quoted_def variant_order_def stream_line_def stream_bandwidth_def stream_resolution_def
      itoa_bandwidths example_cid_def max_playlist_bytes_def)

lemma example_master_read:
  "dc_source_cid d = example_cid \<Longrightarrow> read_linked_master video_storage d = Some example_master"
  using example_master_length
  by (simp add: read_linked_master_def example_cid_valid video_storage_fields read_video_asset_def fetch_video_asset_def)

definition linked_server :: "delivery_mode \<Rightarrow> string \<Rightarrow> storage \<Rightarrow> unit server" where
  "linked_server m cid sg = example_server (\<lambda>p. Http_ok (Some ([example_row m (''video://'' @ cid)], None))) sg"

lemma linked_server_policy:
  "trim_space cid = cid \<Longrightarrow> resolve_policy vc (\<lambda>p. Http_ok (Some ([example_row m (''video://'' @ cid)], None))) (Some rv) src c l =
     Inr (initial_decision\<lparr>dc_mode := m, dc_source_cid := cid, dc_source_is_video := True\<rparr>)"
  by (cases m)
    (simp_all add: resolve_policy_def example_row_def row_string_def parse_mode_def apply_row_def initial_decision_def
      stricter_def media_storage_cid_def has_prefix_def trim_prefix_def)

lemma initial_managed: "dc_managed initial_decision"
  by (simp add: initial_decision_def)

lemma linked_decision:
  assumes "\<not> query_has (rq_query r) ''grant''" and "trim_space cid = cid" and "cid \<noteq> []"
  shows "server_delivery_link (linked_server m cid sg) r ''7'' =
    Inr (initial_decision\<lparr>dc_mode := m, dc_source_cid := cid, dc_source_is_video := True\<rparr>)"
proof -
  have t: "trim_space ''7'' = ''7''" by (rule trim_space_plain) (simp_all add: plain_char_def ascii_space_def)
  show ?thesis
    using assms(1,3) unfolding server_delivery_link_def resolve_media_delivery_link_def resolver_resolve_link_def t linked_server_def
      example_server_fields linked_server_policy [OF assms(2)]
    by (simp add: initial_managed)
qed

lemma example_cid_trim: "trim_space example_cid = example_cid" "example_cid \<noteq> []"
  by (rule trim_space_plain) (simp_all add: example_cid_def plain_char_def ascii_space_def)

definition video_server :: "delivery_mode \<Rightarrow> unit server" where
  "video_server m = linked_server m example_cid video_storage"

lemma video_decision:
  "\<not> query_has (rq_query r) ''grant'' \<Longrightarrow> server_delivery_link (video_server m) r ''7'' =
    Inr (initial_decision\<lparr>dc_mode := m, dc_source_cid := example_cid, dc_source_is_video := True\<rparr>)"
  unfolding video_server_def by (rule linked_decision [OF _ example_cid_trim])

lemma video_server_storage [simp]: "sv_storage (video_server m) = video_storage"
  by (simp add: video_server_def linked_server_def)

definition link_request :: "string \<Rightarrow> request" where
  "link_request rest = example_request (''/stream/link/7/'' @ rest) []"

lemma link_request_parts:
  "path_parts ''/stream/link/'' (rq_path (link_request ''poster.jpg'')) = [''7'', ''poster.jpg'']"
  "path_parts ''/stream/link/'' (rq_path (link_request ''master.m3u8'')) = [''7'', ''master.m3u8'']"
  "\<not> query_has (rq_query (link_request rest)) ''grant''"
  by (simp_all add: link_request_def example_request_def path_parts_def trim_prefix_def has_prefix_def trim_char_def query_has_def)

theorem hidden_video_link_witness:
  "\<exists>p :: poster. po_variant p = ''blur'' \<and> rs_status (handle_stream_link (video_server Blur) (link_request ''poster.jpg'') None) = 200 \<and>
    po_cid p = example_cid"
proof -
  let ?d = "initial_decision\<lparr>dc_mode := Blur, dc_source_cid := example_cid, dc_source_is_video := True\<rparr>"
  let ?r = "link_request ''poster.jpg''"
  have d: "server_delivery_link (video_server Blur) ?r (hd (path_parts ''/stream/link/'' (rq_path ?r))) = Inr ?d"
    unfolding link_request_parts by (simp add: video_decision link_request_parts(3))
  have rp: "resolve_video_poster video_storage ?d [] = Inr example_cid"
    by (simp add: resolve_video_poster_def example_master_read video_poster_cid_def example_master_posters)
  have ov: "overridden_file None c = c" for c by (simp add: overridden_file_def overrides_get_def)
  have ok: "rs_status (handle_stream_link (video_server Blur) ?r None) = 200"
    unfolding handle_stream_link_def link_request_parts
    by (simp add: video_decision link_request_parts(3) serve_link_poster_def rp initial_poster ov example_cid_valid
        serve_stream_asset_def video_storage_fields fetch_video_asset_def Let_def)
  from hidden_video_link [OF d _ ok] obtain p where "bound_poster video_storage ?d [] p" "po_variant p = ''blur''"
    by (auto simp: initial_poster)
  then have "po_cid p = example_cid" by (auto simp: bound_poster_def example_master_read example_master_posters)
  with ok \<open>po_variant p = ''blur''\<close> show ?thesis by blast
qed

definition segment_request :: request where
  "segment_request = example_request (''/stream/segment/'' @ example_cid @ ''.jpg'') []"

lemma example_segment_request:
  "trim_prefix (rq_path segment_request) ''/stream/segment/'' = example_cid @ ''.jpg''"
  "segment_cid (example_cid @ ''.jpg'') = example_cid"
  "\<not> has_prefix (rq_path segment_request) ''/file/''" "has_prefix (rq_path segment_request) ''/stream/segment/''"
  "rq_query segment_request = []"
  by (simp_all add: segment_request_def example_request_def trim_prefix_def has_prefix_def segment_cid_def last_index_char_def
      example_cid_def)

lemma video_delivery:
  "server_delivery (video_server Blur) segment_request example_cid =
    Inr (initial_decision\<lparr>dc_mode := Blur, dc_source_cid := example_cid, dc_source_is_video := True\<rparr>)"
proof -
  let ?r = segment_request
  let ?d = "initial_decision\<lparr>dc_mode := Blur, dc_source_cid := example_cid, dc_source_is_video := True\<rparr>"
  have q: "query_get (rq_query ?r) k = []" "\<not> query_has (rq_query ?r) k" for k
    by (simp_all add: example_segment_request query_get_def query_has_def)
  have res: "resolver_resolve vc (\<lambda>p. Http_ok (Some ([example_row Blur (''video://'' @ example_cid)], None))) (Some rv) ?r example_cid = Inr ?d"
    for vc rv unfolding resolver_resolve_def linked_server_policy [OF example_cid_trim(1)] by (simp add: q)
  have v: "validate_media_resource video_storage ?r example_cid ?d = Inr ()"
    by (simp add: validate_media_resource_def example_segment_request video_storage_fields example_master_read video_poster_cid_def example_master_posters
        same_media_cid_def) (simp add: example_cid_def)
  show ?thesis unfolding server_delivery_def resolve_media_delivery_def video_server_def linked_server_def example_server_fields res
    by (simp add: q v initial_managed)
qed


text \<open>
  A segment URL of a media link names a position, never a file. When it answers 200, the bytes are those
  of the asset that the playlist at the first index of the video's own master playlist lists at the
  second index, under the extension the playlist gives it; neither the master, nor the playlist, nor the
  asset is deleted, and the stream is not hidden from the viewer.
\<close>

theorem linked_segment_delivers:
  assumes "path_parts ''/stream/link/'' (rq_path r) = [link, ''segment'', i, file]"
    and "rs_status (handle_stream_link sv r ov) = 200"
  shows "\<exists>d pi ai master playlist_cid playlist asset_cid ext rd. server_delivery_link sv r link = Inr d \<and>
    \<not> media_delivery_hides_stream (dc_mode d) \<and>
    linked_stream_index i [] = Some pi \<and> linked_stream_index (trim_suffix file (file_ext file)) [] = Some ai \<and>
    read_linked_master (sv_storage sv) d = Some master \<and> \<not> sg_deleted (sv_storage sv) (dc_source_cid d) \<and>
    linked_master_playlist_cid master pi = Inr playlist_cid \<and> \<not> sg_deleted (sv_storage sv) playlist_cid \<and>
    read_video_asset (sv_storage sv) playlist_cid = Some playlist \<and>
    linked_variant_asset_cid playlist ai = Inr (asset_cid, ext) \<and> \<not> sg_deleted (sv_storage sv) asset_cid \<and>
    (file_ext file = [] \<or> file_ext file = ext) \<and>
    fetch_video_asset (sv_storage sv) asset_cid = Some rd \<and>
    (stream_segment_content_type (''asset'' @ ext) \<noteq> hls_type \<longrightarrow>
      rs_body (handle_stream_link sv r ov) = Body_bytes (rd_bytes rd))"
proof -
  from assms obtain d pi ai where d: "server_delivery_link sv r link = Inr d" "\<not> media_delivery_hides_stream (dc_mode d)"
    "linked_stream_index i [] = Some pi" "linked_stream_index (trim_suffix file (file_ext file)) [] = Some ai"
    and eq: "handle_stream_link sv r ov = serve_linked_stream_asset sv r initial_headers pi ai (file_ext file) d"
    by (auto simp: handle_stream_link_def Let_def split: if_splits sum.splits option.splits)
  from assms(2) obtain master playlist_cid playlist asset_cid ext where
    a: "read_linked_master (sv_storage sv) d = Some master" "linked_master_playlist_cid master pi = Inr playlist_cid"
    "\<not> sg_deleted (sv_storage sv) playlist_cid" "read_video_asset (sv_storage sv) playlist_cid = Some playlist"
    "linked_variant_asset_cid playlist ai = Inr (asset_cid, ext)" "file_ext file = [] \<or> file_ext file = ext"
    and eq2: "handle_stream_link sv r ov = serve_stream_asset sv r initial_headers asset_cid (''asset'' @ ext) d"
    unfolding eq by (auto simp: serve_linked_stream_asset_def split: option.splits sum.splits if_splits)
  from a(1) have "\<not> sg_deleted (sv_storage sv) (dc_source_cid d)" by (auto simp: read_linked_master_def split: if_splits)
  with d a serve_stream_asset_ok [OF assms(2) [unfolded eq2]] show ?thesis unfolding eq2 by (metis (no_types, lifting))
qed

definition other_cid :: string where "other_cid = ''Qm'' @ replicate 44 CHR ''a''"

lemma other_cid_facts: "validate_cid other_cid = None" "other_cid \<noteq> example_cid" "trim_space other_cid = other_cid" "other_cid \<noteq> []"
proof -
  show "validate_cid other_cid = None"
    by (simp add: validate_cid_def cid_v0_def other_cid_def is_alnum_def is_alpha_def code_def has_prefix_def list_all_iff)
  show "other_cid \<noteq> example_cid" by (simp add: other_cid_def example_cid_def numeral_eq_Suc)
  show "trim_space other_cid = other_cid" by (rule trim_space_plain) (simp_all add: other_cid_def plain_char_def ascii_space_def)
qed (simp add: other_cid_def)

text \<open>The master playlist under one CID, a variant playlist with one segment under the other.\<close>

definition segment_storage :: storage where
  "segment_storage = example_storage\<lparr>sg_fetch := (\<lambda>c. Some \<lparr>rd_bytes =
     bytes_of (if c = example_cid then example_cid @ ''.m4s'' else example_master), rd_fails = False\<rparr>)\<rparr>"

lemma segment_storage_fields:
  "sg_fetch segment_storage c = Some \<lparr>rd_bytes = bytes_of (if c = example_cid then example_cid @ ''.m4s'' else example_master),
     rd_fails = False\<rparr>" "sg_deleted segment_storage c = False"
  by (simp_all add: segment_storage_def example_storage_def)

lemma segment_storage_reads:
  "dc_source_cid d = other_cid \<Longrightarrow> read_linked_master segment_storage d = Some example_master"
  "read_video_asset segment_storage example_cid = Some (example_cid @ ''.m4s'')"
proof -
  show "dc_source_cid d = other_cid \<Longrightarrow> read_linked_master segment_storage d = Some example_master"
    using example_master_length
    by (simp add: read_linked_master_def other_cid_facts segment_storage_fields read_video_asset_def fetch_video_asset_def)
  have "length (bytes_of (example_cid @ ''.m4s'')) \<le> max_playlist_bytes"
    by (simp add: bytes_of_def example_cid_def max_playlist_bytes_def)
  then show "read_video_asset segment_storage example_cid = Some (example_cid @ ''.m4s'')"
    by (simp add: segment_storage_fields read_video_asset_def fetch_video_asset_def)
qed

lemma example_variant_asset: "linked_variant_asset_cid (example_cid @ ''.m4s'') 0 = Inr (example_cid, ''.m4s'')"
  unfolding linked_variant_asset_cid_def stored_name_line(1) [OF example_names(1)]
  using stored_name_trim [OF example_names(1)] stored_name_line(2) [OF example_names(1)]
    stored_name_reference [OF example_names(1)] stored_name_chars [OF example_names(1)]
  by (simp add: Let_def)

theorem linked_segment_delivers_witness:
  "rs_body (handle_stream_link (linked_server Original other_cid segment_storage) (link_request ''segment/0/0.m4s'') None) =
    Body_bytes (bytes_of (example_cid @ ''.m4s''))"
proof -
  let ?sv = "linked_server Original other_cid segment_storage"
  let ?r = "link_request ''segment/0/0.m4s''"
  let ?d = "initial_decision\<lparr>dc_mode := Original, dc_source_cid := other_cid, dc_source_is_video := True\<rparr>"
  have sg: "sv_storage ?sv = segment_storage" by (simp add: linked_server_def)
  have parts: "path_parts ''/stream/link/'' (rq_path ?r) = [''7'', ''segment'', ''0'', ''0.m4s'']"
    by (simp add: link_request_def example_request_def path_parts_def trim_prefix_def has_prefix_def trim_char_def)
  have idx: "linked_stream_index ''0'' [] = Some 0" by (simp add: linked_stream_index_def) code_simp
  have ext: "file_ext ''0.m4s'' = ''.m4s''" "trim_suffix ''0.m4s'' ''.m4s'' = ''0''"
    by (simp_all add: file_ext_def last_element_def trim_suffix_def has_suffix_def)
  have dec: "server_delivery_link ?sv ?r ''7'' = Inr ?d" by (rule linked_decision [OF link_request_parts(3) other_cid_facts(3,4)])
  have v: "variant_list [(''medium'', example_cid)] = [example_cid]"
    by (simp add: variant_list_def variant_order_def map_filter_simps)
  have pl: "linked_master_playlist_cid example_master 0 = Inr example_cid"
    using linked_master_built(2) [OF example_names_ok, of 0] by (simp add: v example_master_def)
  have ct: "stream_segment_content_type ''asset.m4s'' = ''video/mp4''"
    by (simp add: stream_segment_content_type_def file_ext_def last_element_def lower_char_def hls_type_def)
  have ok: "rs_status (handle_stream_link ?sv ?r None) = 200"
    unfolding handle_stream_link_def parts
    by (simp add: dec idx ext serve_linked_stream_asset_def sg segment_storage_reads pl segment_storage_fields example_variant_asset
        serve_stream_asset_def fetch_video_asset_def Let_def media_delivery_hides_stream_def)
  from linked_segment_delivers [OF parts ok] dec show ?thesis
    by (auto simp: sg idx ext segment_storage_reads pl example_variant_asset segment_storage_fields fetch_video_asset_def ct hls_type_def)
qed

text \<open>
  C40: a denied link still streams. \<open>ResolveLink\<close> returns a decision with mode \<open>deny\<close> like any other, and
  \<open>mediaDeliveryHidesStream\<close> covers the two blurring modes only: for a media link whose policy says
  \<open>deny\<close> the master playlist of the video is served with status 200, although the documentation has every
  protected route answer 403 in this mode.
\<close>

theorem denied_link_streams:
  assumes "path_parts ''/stream/link/'' (rq_path r) = [link, ''master.m3u8'']" and "link \<noteq> []"
    and "server_delivery_link sv r link = Inr d" and "dc_mode d = Deny"
    and "read_linked_master (sv_storage sv) d = Some master"
    and "rewrite_linked_master master (playlist_auth_suffix (rq_query r)) = Inr content"
  shows "rs_status (handle_stream_link sv r ov) = 200 \<and> rs_body (handle_stream_link sv r ov) = Body_text content"
  using assms
  by (simp add: handle_stream_link_def serve_linked_stream_master_def media_delivery_hides_stream_def write_linked_playlist_def)

theorem denied_link_streams_witness:
  "\<exists>content. rs_status (handle_stream_link (video_server Deny) (link_request ''master.m3u8'') None) = 200 \<and>
    rs_body (handle_stream_link (video_server Deny) (link_request ''master.m3u8'') None) = Body_text content"
proof -
  let ?d = "initial_decision\<lparr>dc_mode := Deny, dc_source_cid := example_cid, dc_source_is_video := True\<rparr>"
  let ?r = "link_request ''master.m3u8''"
  obtain content where c: "rewrite_linked_master example_master (playlist_auth_suffix (rq_query ?r)) = Inr content"
    using linked_master_built(1) [OF example_names_ok] unfolding example_master_def by blast
  have m: "read_linked_master (sv_storage (video_server Deny)) ?d = Some example_master" by (simp add: example_master_read)
  have "server_delivery_link (video_server Deny) ?r ''7'' = Inr ?d" by (simp add: video_decision link_request_parts(3))
  from denied_link_streams [OF link_request_parts(2) _ this _ m c] show ?thesis by auto
qed

end
