(* ===== verification/Unpin_Worker.thy ===== *)
theory Unpin_Worker
  imports Unpin_Store "HOL-Library.Sublist"
begin

text \<open>
  \<open>internal/unpin/worker.go\<close>: the background collector. \<open>worker_gc\<close> is one pass of \<open>gc\<close>; which
  CIDs the cluster managed to unpin in that pass is the argument \<open>unpin_ok\<close>, how the file writes
  went \<open>wr\<close>. The life cycle (\<open>Start\<close>, \<open>Stop\<close>, the goroutine's loop) is a small machine; a \<open>None\<close>
  state is the panic of closing \<open>stopChan\<close> twice.
\<close>

section \<open>One collection pass\<close>

definition gc_loop ::
    "(string \<Rightarrow> bool) \<Rightarrow> (string \<Rightarrow> write_result) \<Rightarrow> string list \<Rightarrow> unpin_store \<Rightarrow> unpin_store" where
  "gc_loop unpin_ok wr cids s =
     foldl (\<lambda>s cid. if unpin_ok cid then store_remove (wr cid) cid s else s) s cids"

definition worker_gc ::
    "int \<Rightarrow> int \<Rightarrow> (string \<Rightarrow> bool) \<Rightarrow> (string \<Rightarrow> write_result) \<Rightarrow> unpin_store \<Rightarrow> unpin_store" where
  "worker_gc now ttl unpin_ok wr s =
     (let expired = store_expired (now - ttl) s
      in if expired = [] then s else gc_loop unpin_ok wr expired s)"

lemma worker_gc_loop: "worker_gc now ttl unpin_ok wr s = gc_loop unpin_ok wr (store_expired (now - ttl) s) s"
  by (simp add: worker_gc_def gc_loop_def Let_def)

lemma worker_gc_marks:
  "store_inv s \<Longrightarrow> store_marks (worker_gc now ttl unpin_ok wr s) cid =
     (if (\<exists>t. store_marks s cid = Some t \<and> t < now - ttl) \<and> unpin_ok cid then None
      else store_marks s cid)"
  by (simp add: worker_gc_loop gc_loop_def unpin.remove_pass unpin.expired_marks)

lemma worker_gc_groups:
  "store_inv s \<Longrightarrow> store_groups (worker_gc now ttl unpin_ok wr s) cid =
     (if (\<exists>t. store_marks s cid = Some t \<and> t < now - ttl) \<and> unpin_ok cid then None
      else store_groups s cid)"
  by (simp add: worker_gc_loop gc_loop_def unpin.remove_pass_groups unpin.expired_marks)

lemma worker_gc_inv: "store_inv s \<Longrightarrow> store_inv (worker_gc now ttl unpin_ok wr s)"
  by (simp add: worker_gc_loop gc_loop_def unpin.remove_pass_ok)

section \<open>Life cycle\<close>

record worker =
  wk_running :: bool
  wk_stop_closed :: bool
  wk_loops :: nat

datatype worker_event = Start | Stop | Loop_sees_stop

definition new_worker :: worker where
  "new_worker = \<lparr>wk_running = False, wk_stop_closed = False, wk_loops = 0\<rparr>"

definition worker_start :: "worker \<Rightarrow> worker" where
  "worker_start w = (if wk_running w then w else w\<lparr>wk_running := True, wk_loops := Suc (wk_loops w)\<rparr>)"

definition worker_stop :: "worker \<Rightarrow> worker option" where
  "worker_stop w =
     (if \<not> wk_running w then Some w
      else if wk_stop_closed w then None
      else Some (w\<lparr>wk_stop_closed := True, wk_running := False\<rparr>))"

text \<open>The goroutine leaves its \<open>select\<close> through the closed channel.\<close>

definition worker_loop_exit :: "worker \<Rightarrow> worker" where
  "worker_loop_exit w = (if wk_stop_closed w then w\<lparr>wk_loops := wk_loops w - 1\<rparr> else w)"

fun worker_step :: "worker \<Rightarrow> worker_event \<Rightarrow> worker option" where
  "worker_step w Start = Some (worker_start w)"
| "worker_step w Stop = worker_stop w"
| "worker_step w Loop_sees_stop = Some (worker_loop_exit w)"

fun worker_run :: "worker \<Rightarrow> worker_event list \<Rightarrow> worker option" where
  "worker_run w [] = Some w"
| "worker_run w (e # es) = (case worker_step w e of None \<Rightarrow> None | Some w' \<Rightarrow> worker_run w' es)"

lemmas worker_defs = worker_start_def worker_stop_def worker_loop_exit_def

lemma worker_run_no_stop: "Stop \<notin> set es \<Longrightarrow> \<exists>w'. worker_run w es = Some w'"
proof (induction es arbitrary: w)
  case (Cons e es)
  then show ?case by (cases e) auto
qed simp

lemma worker_run_open:
  "\<not> wk_stop_closed w \<Longrightarrow> count_list es Stop \<le> 1 \<Longrightarrow> \<exists>w'. worker_run w es = Some w'"
proof (induction es arbitrary: w)
  case Nil
  then show ?case by simp
next
  case (Cons e es)
  show ?case
  proof (cases e)
    case Stop
    with Cons.prems have "Stop \<notin> set es" by (auto simp: count_list_0_iff)
    with Stop Cons.prems(1) show ?thesis
      by (auto simp: worker_stop_def intro: worker_run_no_stop)
  next
    case Start
    with Cons show ?thesis by (simp add: worker_start_def)
  next
    case Loop_sees_stop
    with Cons show ?thesis by (simp add: worker_loop_exit_def)
  qed
qed

text \<open>One loop at most while the channel is open: \<open>wk_running\<close> and \<open>wk_loops\<close> agree.\<close>

definition worker_inv :: "worker \<Rightarrow> bool" where
  "worker_inv w \<longleftrightarrow> (\<not> wk_stop_closed w \<longrightarrow> wk_loops w = (if wk_running w then 1 else 0))"

lemma worker_step_inv: "worker_step w e = Some w' \<Longrightarrow> worker_inv w \<Longrightarrow> worker_inv w'"
  by (cases e) (auto simp: worker_inv_def worker_defs split: if_splits)

lemma worker_run_inv: "worker_run w es = Some w' \<Longrightarrow> worker_inv w \<Longrightarrow> worker_inv w'"
  by (induction es arbitrary: w) (auto dest: worker_step_inv split: option.splits)

text \<open>From each of the four states of the flags, the event sequences that close a closed channel.\<close>

lemma worker_run_None:
  "worker_run w es = None \<longleftrightarrow>
     subseq ((if wk_running w then [] else [Start]) @ (if wk_stop_closed w then [] else [Stop, Start]) @ [Stop]) es"
proof (induction es arbitrary: w)
  case Nil
  then show ?case by simp
next
  case (Cons e es)
  show ?case
    by (cases e; cases "wk_running w"; cases "wk_stop_closed w") (simp_all add: worker_defs Cons.IH)
qed

section \<open>Properties\<close>

text \<open>
  One pass of the collector removes exactly the marks that are older than the TTL and whose CID
  the cluster unpinned, together with the group stored under that CID; every other mark keeps its
  time and every other group its members.
\<close>

theorem worker_gc_exact:
  assumes "new_unpin_store path disk = Inr s0" and "s = store_run ops s0"
  shows "store_marks (worker_gc now ttl unpin_ok wr s) cid =
      (if (\<exists>t. store_marks s cid = Some t \<and> t < now - ttl) \<and> unpin_ok cid then None else store_marks s cid) \<and>
    store_groups (worker_gc now ttl unpin_ok wr s) cid =
      (if (\<exists>t. store_marks s cid = Some t \<and> t < now - ttl) \<and> unpin_ok cid then None else store_groups s cid)"
proof -
  have "store_inv s" using store_run_inv [OF new_unpin_store_inv [OF assms(1)]] by (simp add: assms(2))
  then show ?thesis by (simp add: worker_gc_marks worker_gc_groups)
qed

theorem worker_gc_exact_witness:
  "store_marks (worker_gc 100 10 (\<lambda>c. c = ''a'') (\<lambda>_. Written) (store_run [Op_add_group 5 Written ''m'' [''a'', ''b'']]
      \<lparr>us_path = [], us_entries = [], us_groups = [], us_disk = No_file\<rparr>)) ''a'' = None"
  using worker_gc_exact [of "[]" No_file "\<lparr>us_path = [], us_entries = [], us_groups = [], us_disk = No_file\<rparr>"
      "store_run [Op_add_group 5 Written ''m'' [''a'', ''b'']] \<lparr>us_path = [], us_entries = [], us_groups = [], us_disk = No_file\<rparr>"
      "[Op_add_group 5 Written ''m'' [''a'', ''b'']]" 100 10 "\<lambda>c. c = ''a''" "\<lambda>_. Written" "''a''"]
  by (simp add: new_unpin_store_def Let_def store_run_def store_add_group_def store_marks_def gomap_simps)

text \<open>
  A worker crashes (it closes its stop channel twice) exactly when it is started, stopped,
  started again and stopped again, in that order, whatever happens between: one start and one stop
  in any order, or repeated stops, are safe, a restarted worker is not.
\<close>

theorem worker_panics_iff_restarted_and_stopped:
  "worker_run new_worker es = None \<longleftrightarrow> subseq [Start, Stop, Start, Stop] es"
  by (simp add: worker_run_None new_worker_def)

end
