(* ===== verification/Pins.thy ===== *)
theory Pins
  imports Video_Uploader Unpin_Worker Config
begin

text \<open>
  What the nodes keep pinned: the effect of the cluster operations of \<open>internal/ipfs/cluster.go\<close> on the pins,
  and the work that goes on after an answer: \<open>replicateAsync\<close> and the unpinning goroutine of \<open>HandleDelete\<close> in
  \<open>internal/handler/handler.go\<close>, and the pass of the collector in \<open>internal/unpin/worker.go\<close> on the cluster.
  What a node has pinned is a predicate on its state with the laws kubo documents for it.
\<close>

section \<open>Background work\<close>

text \<open>The goroutines: what \<open>replicateAsync\<close> and \<open>HandleDelete\<close> start. Their errors are only logged.\<close>

datatype task = Replicate string | Unpin "string list"

definition replicate_async :: "('s, 'e) kubo \<Rightarrow> pinning_config \<Rightarrow> string \<Rightarrow> 's cluster \<Rightarrow> 's cluster" where
  "replicate_async kb pn cid cl =
     fst (cluster_replicate kb cid (pn_retries pn) (int64 (int64 (pn_retry_delay_ms pn) * 1000000)) cl)"

definition unpin_async :: "('s, 'e) kubo \<Rightarrow> string list \<Rightarrow> 's cluster \<Rightarrow> 's cluster" where
  "unpin_async kb cids cl = foldl (\<lambda>cl cid. fst (cluster_unpin_all kb cid cl)) cl cids"

fun run_task :: "('s, 'e) kubo \<Rightarrow> pinning_config \<Rightarrow> task \<Rightarrow> 's cluster \<Rightarrow> 's cluster" where
  "run_task kb pn (Replicate cid) cl = replicate_async kb pn cid cl"
| "run_task kb pn (Unpin cids) cl = unpin_async kb cids cl"

text \<open>\<open>gc\<close> on the nodes: a CID the cluster cannot unpin keeps its mark.\<close>

definition gc_step ::
    "('s, 'e) kubo \<Rightarrow> (string \<Rightarrow> write_result) \<Rightarrow> unpin_store \<times> 's cluster \<Rightarrow> string \<Rightarrow> unpin_store \<times> 's cluster" where
  "gc_step kb wr w cid = (case cluster_unpin_all kb cid (snd w) of
      (cl, Inl e) \<Rightarrow> (fst w, cl)
    | (cl, Inr u) \<Rightarrow> (store_remove (wr cid) cid (fst w), cl))"

definition gc_pass ::
    "('s, 'e) kubo \<Rightarrow> int \<Rightarrow> int \<Rightarrow> (string \<Rightarrow> write_result) \<Rightarrow> unpin_store \<times> 's cluster \<Rightarrow> unpin_store \<times> 's cluster" where
  "gc_pass kb now ttl wr w =
     (let expired = store_expired (now - ttl) (fst w)
      in if expired = [] then w else foldl (gc_step kb wr) w expired)"

section \<open>The laws of pins\<close>

text \<open>
  \<open>add\<close> pins what it stored and leaves the other pins; \<open>pin/rm\<close> removes the pin it names, and no other,
  and refuses a path that is not pinned.
\<close>

definition add_laws :: "('s, 'e) kubo \<Rightarrow> ('s \<Rightarrow> string \<Rightarrow> bool) \<Rightarrow> bool" where
  "add_laws kb pinned \<longleftrightarrow>
     (\<forall>bs s s' cid. kb_add kb bs s = (s', Inr cid) \<longrightarrow> pinned s' (ipfs_path cid)) \<and>
     (\<forall>fs s s' cid. kb_add_dir kb fs s = (s', Inr cid) \<longrightarrow> pinned s' (ipfs_path cid)) \<and>
     (\<forall>bs s p. pinned s p \<longrightarrow> pinned (fst (kb_add kb bs s)) p) \<and>
     (\<forall>fs s p. pinned s p \<longrightarrow> pinned (fst (kb_add_dir kb fs s)) p)"

definition unpin_laws :: "('s, 'e) kubo \<Rightarrow> ('s \<Rightarrow> string \<Rightarrow> bool) \<Rightarrow> bool" where
  "unpin_laws kb pinned \<longleftrightarrow>
     (\<forall>p s s' u. kb_pin_rm kb p s = (s', Inr u) \<longrightarrow> \<not> pinned s' p) \<and>
     (\<forall>p q s. pinned (fst (kb_pin_rm kb p s)) q \<longrightarrow> pinned s q) \<and>
     (\<forall>p q s. pinned s q \<and> q \<noteq> p \<longrightarrow> pinned (fst (kb_pin_rm kb p s)) q) \<and>
     (\<forall>p s. \<not> pinned s p \<longrightarrow> \<not> is_ok (snd (kb_pin_rm kb p s)))"

definition everywhere :: "('s \<Rightarrow> string \<Rightarrow> bool) \<Rightarrow> 's cluster \<Rightarrow> string \<Rightarrow> bool" where
  "everywhere pinned cl cid \<longleftrightarrow> cl_nodes cl \<noteq> [] \<and> list_all (\<lambda>n. pinned (cn_state n) (ipfs_path cid)) (cl_nodes cl)"

definition nowhere :: "('s \<Rightarrow> string \<Rightarrow> bool) \<Rightarrow> 's cluster \<Rightarrow> string \<Rightarrow> bool" where
  "nowhere pinned cl cid \<longleftrightarrow> list_all (\<lambda>n. \<not> pinned (cn_state n) (ipfs_path cid)) (cl_nodes cl)"

lemma ipfs_path_inj [simp]: "ipfs_path a = ipfs_path b \<longleftrightarrow> a = b"
  by (simp add: ipfs_path_def)

subsection \<open>Adding\<close>

text \<open>An add by a call \<open>f\<close> of the node whose answer is its CID.\<close>

lemma add_everywhere_pins:
  assumes "cl_nodes cl \<noteq> []" and "\<And>s r. snd (op s) = Inr r \<longleftrightarrow> snd (f s) = Inr (ar_cid r) \<and> ar_name r = nm"
    and "\<And>s. fst (op s) = fst (f s)" and "\<And>s s' cid. f s = (s', Inr cid) \<Longrightarrow> pinned s' (ipfs_path cid)"
    and "add_everywhere op cl = (cl', Inr r)"
  shows "everywhere pinned cl' (ar_cid r)"
proof -
  from add_everywhere_all [OF assms(1), of op f nm r, OF assms(2)] assms(5)
  have all: "list_all (\<lambda>n. snd (f (cn_state n)) = Inr (ar_cid r)) (cl_nodes cl)" by simp
  have "pinned (fst (op (cn_state n))) (ipfs_path (ar_cid r))" if "n \<in> set (cl_nodes cl)" for n
    using all that assms(3) assms(4) [of "cn_state n" "fst (f (cn_state n))" "ar_cid r"] by (auto simp: list_all_iff prod_eq_iff)
  moreover from assms(5) have "cl_nodes cl' = run_all op (cl_nodes cl)" by (auto simp: add_everywhere_def)
  ultimately show ?thesis using assms(1) by (auto simp: everywhere_def run_all_def list_all_iff)
qed

lemma run_all_keeps:
  assumes "\<And>s. pinned s (ipfs_path x) \<Longrightarrow> pinned (fst (op s)) (ipfs_path x)" and "everywhere pinned cl x"
  shows "everywhere pinned (cl\<lparr>cl_nodes := run_all op (cl_nodes cl)\<rparr>) x"
  using assms by (auto simp: everywhere_def run_all_def list_all_iff)

lemma on_result_fst [simp]: "fst (on_result f g r) = fst r"
  by (simp add: on_result_def split: prod.splits sum.splits)

lemma cluster_add_pins:
  assumes "add_laws kb pinned" and "cluster_add kb name rd cl = (cl', Inr r)"
  shows "everywhere pinned cl' (ar_cid r)"
proof -
  from assms(2) have ne: "cl_nodes cl \<noteq> []" and a: "add_everywhere (client_add kb name (rd_bytes rd)) cl = (cl', Inr r)"
    by (auto simp: cluster_add_def split: if_splits)
  show ?thesis
    by (rule add_everywhere_pins [OF ne client_add_ok _ _ a]) (use assms(1) in \<open>auto simp: client_add_def add_laws_def\<close>)
qed

lemma cluster_add_dir_pins:
  assumes "add_laws kb pinned" and "cluster_add_dir kb entries cl = (cl', Inr r)"
  shows "everywhere pinned cl' (ar_cid r)"
proof -
  from assms(2) have ne: "cl_nodes cl \<noteq> []" and a: "add_everywhere (client_add_dir kb entries) cl = (cl', Inr r)"
    by (auto simp: cluster_add_dir_def split: if_splits)
  show ?thesis
    by (rule add_everywhere_pins [OF ne client_add_dir_ok _ _ a]) (use assms(1) in \<open>auto simp: client_add_dir_def add_laws_def\<close>)
qed

lemma add_everywhere_fst: "fst (add_everywhere op cl) = cl\<lparr>cl_nodes := run_all op (cl_nodes cl)\<rparr>"
  by (simp add: add_everywhere_def)

lemma cluster_add_keeps:
  assumes "add_laws kb pinned" and "everywhere pinned cl x"
  shows "everywhere pinned (fst (cluster_add kb name rd cl)) x" and "everywhere pinned (fst (cluster_add_dir kb entries cl)) x"
proof -
  have "everywhere pinned (cl\<lparr>cl_nodes := run_all (client_add kb name (rd_bytes rd)) (cl_nodes cl)\<rparr>) x"
    by (rule run_all_keeps [OF _ assms(2)]) (use assms(1) in \<open>auto simp: client_add_def add_laws_def\<close>)
  with assms(2) show "everywhere pinned (fst (cluster_add kb name rd cl)) x" by (simp add: cluster_add_def add_everywhere_fst)
  have "everywhere pinned (cl\<lparr>cl_nodes := run_all (client_add_dir kb entries) (cl_nodes cl)\<rparr>) x"
    by (rule run_all_keeps [OF _ assms(2)]) (use assms(1) in \<open>auto simp: client_add_dir_def add_laws_def\<close>)
  with assms(2) show "everywhere pinned (fst (cluster_add_dir kb entries cl)) x" by (simp add: cluster_add_dir_def add_everywhere_fst)
qed

subsection \<open>The interface of the video upload\<close>

text \<open>
  \<open>IPFSAdder\<close> as \<open>UploadDir\<close> relies on it: what an add answered is kept, and adding drops nothing.
\<close>

locale content_adder =
  fixes add :: "('s, 'e) adder"
    and kept :: "'s \<Rightarrow> string \<Rightarrow> bool"
  assumes add_kept: "add name rd s = (s', Inr a) \<Longrightarrow> kept s' (ar_cid a)"
    and add_keeps: "kept s x \<Longrightarrow> kept (fst (add name rd s)) x"
begin

lemma reupload_kept:
  assumes "reupload_content add content name s = (s', Inr cid)"
  shows "kept s' cid" and "kept s x \<Longrightarrow> kept s' x"
proof -
  from assms obtain a where a: "add name \<lparr>rd_bytes = bytes_of content, rd_fails = False\<rparr> s = (s', Inr a)" "cid = ar_cid a"
    by (auto simp: reupload_content_def split: prod.splits sum.splits)
  from add_kept [OF a(1)] a(2) show "kept s' cid" by simp
  show "kept s x \<Longrightarrow> kept s' x" using add_keeps [of s x name "\<lparr>rd_bytes = bytes_of content, rd_fails = False\<rparr>"] a(1) by simp
qed

lemma upload_files_kept:
  "upload_files add ws files cids s = (s', Inr (files', cids')) \<Longrightarrow> (\<And>c. c \<in> set cids \<Longrightarrow> kept s c) \<Longrightarrow>
    c \<in> set cids' \<Longrightarrow> kept s' c"
proof (induction add\<equiv>add ws files cids s rule: upload_files.induct)
  case (2 rel w ws files cids s)
  show ?case
  proof (cases w)
    case (Walk_file r)
    with 2(3) obtain s1 a where a: "add (file_base rel) r s = (s1, Inr a)"
      "upload_files add ws (gm_put rel (ar_cid a) files) (cids @ [ar_cid a]) s1 = (s', Inr (files', cids'))"
      by (auto split: prod.splits sum.splits)
    have "kept s1 x" if "x \<in> set (cids @ [ar_cid a])" for x
      using that add_kept [OF a(1)] add_keeps [OF 2(4), of x "file_base rel" r] a(1) by auto
    with 2(2) [OF Walk_file a(1) [symmetric] refl a(2)] 2(5) show ?thesis by blast
  qed (use 2 in auto)
qed auto

lemma replace_in_slice_set: "set (replace_in_slice vs old new) \<subseteq> insert new (set vs)"
  by (induction vs) auto

lemma upload_variants_kept:
  "upload_variants add d files fs variants cids s = (s', Inr (variants', cids')) \<Longrightarrow> (\<And>c. c \<in> set cids \<Longrightarrow> kept s c) \<Longrightarrow>
    c \<in> set cids' \<Longrightarrow> kept s' c"
proof (induction add\<equiv>add d files fs variants cids s rule: upload_variants.induct)
  case (2 d files rel cid fs variants cids s)
  show ?case
  proof (cases "is_variant_playlist rel")
    case True
    with 2(3) obtain updated s1 new where r: "rewrite_variant_playlist d rel files = Some updated"
      "reupload_content add updated (file_base rel) s = (s1, Inr new)"
      "upload_variants add d files fs (gm_put (path_dir rel) new variants) (replace_in_slice cids cid new) s1 = (s', Inr (variants', cids'))"
      by (auto split: option.splits prod.splits sum.splits)
    have "kept s1 x" if "x \<in> set (replace_in_slice cids cid new)" for x
      using that replace_in_slice_set [of cids cid new] reupload_kept [OF r(2)] 2(4) by blast
    with 2(2) [of updated s1 "Inr new" new] True r 2(5) show ?thesis by auto
  qed (use 2 in auto)
qed auto

lemma upload_dir_kept:
  assumes "upload_dir (Some add) d s = (s', Inr r)" and "c \<in> set (ur_all_cids r)"
  shows "kept s' c"
proof -
  have frame: "ur_all_cids (fill_result fs r) = ur_all_cids r" for fs r by (simp add: fill_result_frame)
  from assms(1) obtain files cids s1 variants cids' s2 master where u:
    "upload_files add (od_walk d) [] [] s = (s1, Inr (files, cids))"
    "upload_variants add d files files [] cids s1 = (s2, Inr (variants, cids'))"
    "reupload_content add (build_master_playlist variants files) ''master.m3u8'' s2 = (s', Inr master)"
    "ur_all_cids r = cids' @ [master]"
    by (auto simp: upload_dir_def frame split: prod.splits sum.splits if_splits)
  have "kept s1 x" if "x \<in> set cids" for x using upload_files_kept [OF u(1)] that by simp
  then have "kept s2 x" if "x \<in> set cids'" for x using upload_variants_kept [OF u(2)] that by blast
  with reupload_kept [OF u(3)] u(4) assms(2) show ?thesis by auto
qed

end

interpretation cluster_content: content_adder "cluster_adder kb" "\<lambda>cl x. add_laws kb pinned \<longrightarrow> everywhere pinned cl x" for kb pinned
  by unfold_locales (auto simp: cluster_adder_def intro: cluster_add_pins cluster_add_keeps)

section \<open>Unpinning\<close>

text \<open>
  What the collector and the delete route rely on, if \<open>lawful\<close>: unpinning that succeeds, or that every node
  answers, leaves no pin, what is gone stays gone whatever else is unpinned, and unpinning what is gone fails.
  A cluster without nodes succeeds at everything, so the laws hold where it is \<open>live\<close>.
\<close>

locale unpin_service =
  fixes unpin :: "string \<Rightarrow> 'c \<Rightarrow> 'c \<times> ('e + unit)"
    and gone :: "'c \<Rightarrow> string \<Rightarrow> bool"
    and live :: "'c \<Rightarrow> bool"
    and answered :: "string \<Rightarrow> bool"
    and lawful :: bool
  assumes unpin_gone: "lawful \<Longrightarrow> is_ok (snd (unpin x c)) \<or> answered x \<Longrightarrow> gone (fst (unpin x c)) x"
    and gone_stays: "lawful \<Longrightarrow> gone c x \<Longrightarrow> gone (fst (unpin y c)) x"
    and gone_refused: "lawful \<Longrightarrow> live c \<Longrightarrow> gone c x \<Longrightarrow> \<not> is_ok (snd (unpin x c))"
    and live_stays: "live c \<Longrightarrow> live (fst (unpin x c))"
begin

lemma gone_stays_list: "lawful \<Longrightarrow> gone c x \<Longrightarrow> gone (foldl (\<lambda>c y. fst (unpin y c)) c ys) x"
  by (induction ys arbitrary: c) (auto simp: gone_stays)

lemma live_stays_list: "live c \<Longrightarrow> live (foldl (\<lambda>c y. fst (unpin y c)) c ys)"
  by (induction ys arbitrary: c) (auto simp: live_stays)

lemma unpin_list_gone: "lawful \<Longrightarrow> answered x \<Longrightarrow> x \<in> set ys \<Longrightarrow> gone (foldl (\<lambda>c y. fst (unpin y c)) c ys) x"
  by (induction ys arbitrary: c) (auto simp: gone_stays_list unpin_gone)

text \<open>A pass that removes from a list what could be unpinned leaves the entries that are gone.\<close>

lemma pass_keeps:
  assumes "lawful" and "\<And>y m. y \<noteq> x \<Longrightarrow> P m \<Longrightarrow> P (remove y m)"
  shows "live (snd w) \<Longrightarrow> gone (snd w) x \<Longrightarrow> P (fst w) \<Longrightarrow>
    P (fst (foldl (\<lambda>w y. case unpin y (snd w) of (c, Inl e) \<Rightarrow> (fst w, c) | (c, Inr u) \<Rightarrow> (remove y (fst w), c)) w ys))"
proof (induction ys arbitrary: w)
  case (Cons y ys)
  obtain c r where u: "unpin y (snd w) = (c, r)" by fastforce
  with gone_stays [OF assms(1) Cons.prems(2), of y] live_stays [OF Cons.prems(1), of y] have g: "gone c x" "live c" by auto
  from u gone_refused [OF assms(1) Cons.prems(1,2)] have "is_ok r \<Longrightarrow> y \<noteq> x" by auto
  with Cons.prems(3) assms(2) have "is_ok r \<Longrightarrow> P (remove y (fst w))" by blast
  with Cons.IH [of "(fst w, c)"] Cons.IH [of "(remove y (fst w), c)"] Cons.prems(3) g u show ?case
    by (cases r) (simp_all add: is_ok_iff)
qed simp

end

text \<open>Every node that has the pin answers a request to remove it.\<close>

definition unpin_answered :: "('s, 'e) kubo \<Rightarrow> ('s \<Rightarrow> string \<Rightarrow> bool) \<Rightarrow> string \<Rightarrow> bool" where
  "unpin_answered kb pinned cid \<longleftrightarrow> kb_valid_path kb (ipfs_path cid) \<and>
     (\<forall>s. pinned s (ipfs_path cid) \<longrightarrow> is_ok (snd (kb_pin_rm kb (ipfs_path cid) s)))"

lemma client_unpin_ok:
  assumes "unpin_laws kb pinned" and "is_ok (snd (client_unpin kb cid s))"
  shows "\<not> pinned (fst (client_unpin kb cid s)) (ipfs_path cid) \<and> pinned s (ipfs_path cid)"
proof -
  obtain s' q where c: "kb_pin_rm kb (ipfs_path cid) s = (s', q)" by fastforce
  have q: "is_ok q" and s: "fst (client_unpin kb cid s) = s'"
    using assms(2) c by (auto simp: client_unpin_def Let_def on_result_def is_ok_iff split: if_splits sum.splits)
  from q obtain u where u: "q = Inr u" by (auto simp: is_ok_iff)
  from assms(1) have l: "kb_pin_rm kb p s = (s', Inr u) \<Longrightarrow> \<not> pinned s' p" "\<not> pinned s p \<Longrightarrow> \<not> is_ok (snd (kb_pin_rm kb p s))"
    for p unfolding unpin_laws_def by blast+
  from l(1) c u s have "\<not> pinned (fst (client_unpin kb cid s)) (ipfs_path cid)" by simp
  moreover from l(2) c u have "pinned s (ipfs_path cid)" by fastforce
  ultimately show ?thesis by blast
qed

lemma client_unpin_keeps:
  assumes "unpin_laws kb pinned"
  shows "pinned (fst (client_unpin kb y s)) p \<Longrightarrow> pinned s p"
    and "pinned s p \<Longrightarrow> p \<noteq> ipfs_path y \<Longrightarrow> pinned (fst (client_unpin kb y s)) p"
proof -
  have f: "fst (client_unpin kb y s) = s \<or> fst (client_unpin kb y s) = fst (kb_pin_rm kb (ipfs_path y) s)"
    by (simp add: client_unpin_def Let_def)
  from assms have l: "pinned (fst (kb_pin_rm kb (ipfs_path y) s)) p \<Longrightarrow> pinned s p"
    "pinned s p \<Longrightarrow> p \<noteq> ipfs_path y \<Longrightarrow> pinned (fst (kb_pin_rm kb (ipfs_path y) s)) p" unfolding unpin_laws_def by blast+
  from f l(1) show "pinned (fst (client_unpin kb y s)) p \<Longrightarrow> pinned s p" by metis
  from f l(2) show "pinned s p \<Longrightarrow> p \<noteq> ipfs_path y \<Longrightarrow> pinned (fst (client_unpin kb y s)) p" by metis
qed

lemma client_unpin_answered:
  assumes "unpin_laws kb pinned" and "unpin_answered kb pinned cid"
  shows "\<not> pinned (fst (client_unpin kb cid s)) (ipfs_path cid)"
proof (cases "pinned s (ipfs_path cid)")
  case True
  with assms(2) have "is_ok (snd (client_unpin kb cid s))"
    by (auto simp: unpin_answered_def client_unpin_def Let_def on_result_def is_ok_iff split: sum.splits prod.splits)
  with client_unpin_ok [OF assms(1)] show ?thesis by blast
qed (use client_unpin_keeps(1) [OF assms(1)] in blast)

lemma nowhere_unpin_all:
  "nowhere pinned (fst (cluster_unpin_all kb y c)) x \<longleftrightarrow>
    (\<forall>n \<in> set (cl_nodes c). \<not> pinned (fst (client_unpin kb y (cn_state n))) (ipfs_path x))"
  by (simp add: nowhere_def cluster_unpin_all_def run_all_def list_all_iff)

lemma cluster_unpin_all_ok:
  "is_ok (snd (cluster_unpin_all kb x c)) \<longleftrightarrow> (\<forall>n \<in> set (cl_nodes c). is_ok (snd (client_unpin kb x (cn_state n))))"
proof -
  have "is_ok (snd (cluster_unpin_all kb x c)) \<longleftrightarrow> node_errors (client_unpin kb x) (cl_nodes c) = []"
    by (simp add: cluster_unpin_all_def node_errors_result_def is_ok_iff)
  then show ?thesis by (simp add: node_errors_Nil list_all_iff)
qed

interpretation pins: unpin_service "cluster_unpin_all kb" "nowhere pinned" "\<lambda>c. cl_nodes c \<noteq> []"
  "unpin_answered kb pinned" "unpin_laws kb pinned" for kb pinned
proof unfold_locales
  fix x and c
  assume l: "unpin_laws kb pinned" and "is_ok (snd (cluster_unpin_all kb x c)) \<or> unpin_answered kb pinned x"
  then show "nowhere pinned (fst (cluster_unpin_all kb x c)) x"
    using client_unpin_ok [OF l] client_unpin_answered [OF l] by (auto simp: nowhere_unpin_all cluster_unpin_all_ok)
next
  fix x y and c
  assume l: "unpin_laws kb pinned" and "nowhere pinned c x"
  then show "nowhere pinned (fst (cluster_unpin_all kb y c)) x"
    using client_unpin_keeps(1) [OF l] unfolding nowhere_unpin_all by (auto simp: nowhere_def list_all_iff)
next
  fix x and c
  assume l: "unpin_laws kb pinned" and "cl_nodes c \<noteq> []" "nowhere pinned c x"
  then show "\<not> is_ok (snd (cluster_unpin_all kb x c))"
    using client_unpin_ok [OF l] by (cases "cl_nodes c") (auto simp: nowhere_def cluster_unpin_all_ok)
next
  fix x and c :: "'a cluster"
  assume "cl_nodes c \<noteq> []"
  then show "cl_nodes (fst (cluster_unpin_all kb x c)) \<noteq> []" by (simp add: cluster_unpin_all_def run_all_def)
qed

section \<open>The collector on the cluster\<close>

text \<open>The CIDs of a list the nodes unpin, one after the other.\<close>

fun unpinned_in :: "('s, 'e) kubo \<Rightarrow> string list \<Rightarrow> 's cluster \<Rightarrow> string list" where
  "unpinned_in kb [] cl = []"
| "unpinned_in kb (c # cs) cl =
     (if is_ok (snd (cluster_unpin_all kb c cl)) then [c] else []) @ unpinned_in kb cs (fst (cluster_unpin_all kb c cl))"

lemma unpinned_in_subset: "set (unpinned_in kb cs cl) \<subseteq> set cs"
  by (induction kb cs cl rule: unpinned_in.induct) auto

lemma gc_loop_cong: "(\<And>c. c \<in> set cs \<Longrightarrow> p c = q c) \<Longrightarrow> gc_loop p wr cs s = gc_loop q wr cs s"
  unfolding gc_loop_def by (rule foldl_cong) auto

lemma gc_steps_eq:
  "distinct cs \<Longrightarrow> foldl (gc_step kb wr) w cs = (gc_loop (\<lambda>c. c \<in> set (unpinned_in kb cs (snd w))) wr cs (fst w), unpin_async kb cs (snd w))"
proof (induction cs arbitrary: w)
  case Nil
  then show ?case by (simp add: gc_loop_def unpin_async_def)
next
  case (Cons c cs)
  obtain cl r where u: "cluster_unpin_all kb c (snd w) = (cl, r)" by fastforce
  let ?s = "if is_ok r then store_remove (wr c) c (fst w) else fst w"
  let ?p = "\<lambda>x. x \<in> set (unpinned_in kb (c # cs) (snd w))"
  from u have step: "gc_step kb wr w c = (?s, cl)" by (cases r) (simp_all add: gc_step_def)
  have "c \<notin> set (unpinned_in kb cs cl)" using Cons.prems unpinned_in_subset [of kb cs cl] by auto
  then have "?p c = is_ok r" using u by auto
  then have "gc_loop ?p wr (c # cs) (fst w) = gc_loop ?p wr cs ?s" unfolding gc_loop_def by simp
  also have "\<dots> = gc_loop (\<lambda>x. x \<in> set (unpinned_in kb cs cl)) wr cs ?s"
    using Cons.prems u by (intro gc_loop_cong) auto
  finally show ?case using Cons.IH [of "(?s, cl)"] Cons.prems step u by (simp add: unpin_async_def)
qed

lemma store_expired_distinct: "store_inv s \<Longrightarrow> distinct (store_expired t s)"
  by (auto simp: store_inv_def store_expired_def wf_gomap_def intro: distinct_map_filter)

lemma gc_pass_eq:
  "store_inv (fst w) \<Longrightarrow> gc_pass kb now ttl wr w =
    (worker_gc now ttl (\<lambda>c. c \<in> set (unpinned_in kb (store_expired (now - ttl) (fst w)) (snd w))) wr (fst w),
     unpin_async kb (store_expired (now - ttl) (fst w)) (snd w))"
  by (simp add: gc_pass_def worker_gc_def Let_def gc_steps_eq store_expired_distinct unpin_async_def)

lemma gc_pass_gone:
  assumes law: "unpin_laws kb pinned" and "cl_nodes (snd w) \<noteq> []" and "nowhere pinned (snd w) x" and "store_inv (fst w)"
  shows "store_marks (fst (gc_pass kb now ttl wr w)) x = store_marks (fst w) x"
    and "nowhere pinned (snd (gc_pass kb now ttl wr w)) x" and "cl_nodes (snd (gc_pass kb now ttl wr w)) \<noteq> []"
    and "store_inv (fst (gc_pass kb now ttl wr w))"
proof -
  let ?cs = "store_expired (now - ttl) (fst w)"
  have k: "P (fst (foldl (gc_step kb wr) w ?cs))"
    if "P (fst w)" "\<And>y m. y \<noteq> x \<Longrightarrow> P m \<Longrightarrow> P (store_remove (wr y) y m)" for P
    using pins.pass_keeps [OF law, where x = x and P = P and remove = "\<lambda>y. store_remove (wr y) y" and w = w and ys = ?cs] that assms(2,3)
    by (simp add: gc_step_def [abs_def])
  have "store_marks (fst (foldl (gc_step kb wr) w ?cs)) x = store_marks (fst w) x"
    by (rule k [where P = "\<lambda>s. store_marks s x = store_marks (fst w) x"]) (simp_all add: unpin.marks_remove)
  then show "store_marks (fst (gc_pass kb now ttl wr w)) x = store_marks (fst w) x" by (simp add: gc_pass_def Let_def)
  show "nowhere pinned (snd (gc_pass kb now ttl wr w)) x" "cl_nodes (snd (gc_pass kb now ttl wr w)) \<noteq> []"
    using assms pins.gone_stays_list [OF law assms(3)] pins.live_stays_list [of "snd w" kb]
    by (simp_all add: gc_pass_eq unpin_async_def)
  show "store_inv (fst (gc_pass kb now ttl wr w))" using assms(4) by (simp add: gc_pass_eq worker_gc_inv)
qed

section \<open>Properties\<close>

text \<open>Nodes whose state is the list of their pins.\<close>

definition strict_kubo :: "(string list, string) kubo" where
  "strict_kubo = example_kubo\<lparr>kb_pin_rm := (\<lambda>p s. if p \<in> set s then (removeAll p s, Inr ()) else (s, Inl ''not pinned''))\<rparr>"

definition marked_store :: unpin_store where
  "marked_store = \<lparr>us_path = [], us_entries = [(''Qm'', 5)], us_groups = [], us_disk = No_file\<rparr>"

lemma strict_kubo_laws:
  "unpin_laws strict_kubo (\<lambda>s p. p \<in> set s)" "unpin_answered strict_kubo (\<lambda>s p. p \<in> set s) x" "add_laws strict_kubo (\<lambda>s p. p \<in> set s)"
  by (auto simp: unpin_laws_def unpin_answered_def add_laws_def strict_kubo_def example_kubo_def ipfs_path_def)

lemma marked_store_simps [simp]: "store_inv marked_store" "store_marks marked_store x = (if x = ''Qm'' then Some 5 else None)"
  by (simp_all add: marked_store_def store_inv_def wf_gomap_def store_marks_def)

text \<open>
  C16: the collector on the cluster refines its pass on the list. It unpins on the nodes exactly the CIDs it
  found expired, and the list becomes what the abstract pass makes of it that is told which of them the nodes
  unpinned: exactly those lose their mark and the group stored under them, every other mark keeps its time
  and every other group its members. A CID that is expired and that the nodes answered is pinned nowhere
  afterwards.
\<close>

theorem collector_refines:
  assumes "store_inv s" and "gc_pass kb now ttl wr (s, cl) = (s', cl')"
    and "done_cids = unpinned_in kb (store_expired (now - ttl) s) cl"
  shows "s' = worker_gc now ttl (\<lambda>c. c \<in> set done_cids) wr s \<and> cl' = unpin_async kb (store_expired (now - ttl) s) cl \<and>
    store_marks s' x = (if (\<exists>t. store_marks s x = Some t \<and> t < now - ttl) \<and> x \<in> set done_cids then None else store_marks s x) \<and>
    store_groups s' x = (if (\<exists>t. store_marks s x = Some t \<and> t < now - ttl) \<and> x \<in> set done_cids then None else store_groups s x) \<and>
    (unpin_laws kb pinned \<and> unpin_answered kb pinned x \<and> (\<exists>t. store_marks s x = Some t \<and> t < now - ttl) \<longrightarrow> nowhere pinned cl' x)"
proof -
  from assms(1,2) have s': "s' = worker_gc now ttl (\<lambda>c. c \<in> set done_cids) wr s" and cl': "cl' = unpin_async kb (store_expired (now - ttl) s) cl"
    by (simp_all add: gc_pass_eq assms(3))
  have "nowhere pinned cl' x" if "unpin_laws kb pinned" "unpin_answered kb pinned x" "\<exists>t. store_marks s x = Some t \<and> t < now - ttl"
    using pins.unpin_list_gone [OF that(1,2), of "store_expired (now - ttl) s" cl] that(3) unpin.expired_marks [OF assms(1), of x "now - ttl"]
    by (auto simp: cl' unpin_async_def)
  with cl' show ?thesis unfolding s' by (simp add: worker_gc_marks [OF assms(1)] worker_gc_groups [OF assms(1)])
qed

theorem collector_refines_witness:
  "\<exists>s' cl'. gc_pass strict_kubo 100 10 (\<lambda>c. Written) (marked_store, example_cluster) = (s', cl') \<and> nowhere (\<lambda>s p. p \<in> set s) cl' ''Qm''"
proof -
  obtain s' cl' where g: "gc_pass strict_kubo 100 10 (\<lambda>c. Written) (marked_store, example_cluster) = (s', cl')" by fastforce
  have "\<exists>t. store_marks marked_store ''Qm'' = Some t \<and> t < 100 - 10" by simp
  with collector_refines [OF marked_store_simps(1) g refl, of "''Qm''" "\<lambda>s p. p \<in> set s"] strict_kubo_laws(1,2)
  have "nowhere (\<lambda>s p. p \<in> set s) cl' ''Qm''" by blast
  with g show ?thesis by blast
qed

text \<open>
  C27: what the delete route unpinned is never forgotten by the collector. Once the goroutine of the delete route
  has run over the CIDs and every node answered it, no pin is left, and however often the collector comes by
  afterwards, with any TTL, the marks stay: the nodes refuse to unpin what is not pinned, and the collector
  takes the refusal for a failure it has to try again.
\<close>

theorem collector_never_forgets:
  assumes "unpin_laws kb pinned" and "unpin_answered kb pinned x" and "x \<in> set cids" and "cl_nodes cl \<noteq> []"
    and "store_inv s" and "w = (s, run_task kb pn (Unpin cids) cl)"
    and "w' = foldl (\<lambda>w (now, ttl, wr). gc_pass kb now ttl wr w) w passes"
  shows "store_marks (fst w') x = store_marks s x \<and> nowhere pinned (snd w') x"
proof -
  have keep: "store_marks (fst w) x = m \<Longrightarrow> nowhere pinned (snd w) x \<Longrightarrow> cl_nodes (snd w) \<noteq> [] \<Longrightarrow> store_inv (fst w) \<Longrightarrow>
      store_marks (fst (foldl (\<lambda>w (now, ttl, wr). gc_pass kb now ttl wr w) w passes)) x = m \<and>
      nowhere pinned (snd (foldl (\<lambda>w (now, ttl, wr). gc_pass kb now ttl wr w) w passes)) x" for w m
  proof (induction passes arbitrary: w)
    case (Cons p passes)
    obtain now ttl wr where p: "p = (now, ttl, wr)" by (cases p)
    note g = gc_pass_gone [OF assms(1) Cons.prems(3,2,4), of now ttl wr]
    from Cons.IH [OF _ g(2) g(3) g(4)] g(1) Cons.prems(1) p show ?case by simp
  qed simp
  have "nowhere pinned (snd w) x" "cl_nodes (snd w) \<noteq> []"
    using pins.unpin_list_gone [OF assms(1,2,3)] pins.live_stays_list [OF assms(4), of kb] by (simp_all add: assms(6) unpin_async_def)
  with keep [of w "store_marks s x"] assms(5) show ?thesis by (simp add: assms(6,7))
qed

theorem collector_never_forgets_witness:
  "store_marks (fst (foldl (\<lambda>w (now, ttl, wr). gc_pass strict_kubo now ttl wr w)
     (marked_store, run_task strict_kubo \<lparr>pn_retries = 1, pn_retry_delay_ms = 0\<rparr> (Unpin [''Qm'']) example_cluster)
     [(100, 10, \<lambda>c. Written), (200, 10, \<lambda>c. Written)])) ''Qm'' = Some 5"
  using collector_never_forgets [OF strict_kubo_laws(1) strict_kubo_laws(2) [of "''Qm''"], of "[''Qm'']" example_cluster marked_store
      "(marked_store, run_task strict_kubo \<lparr>pn_retries = 1, pn_retry_delay_ms = 0\<rparr> (Unpin [''Qm'']) example_cluster)"
      "\<lparr>pn_retries = 1, pn_retry_delay_ms = 0\<rparr>" _ "[(100, 10, \<lambda>c. Written), (200, 10, \<lambda>c. Written)]", OF _ _ _ refl refl]
  by (simp add: example_cluster_def)

end
