(* ===== verification/Image_Blur.thy ===== *)
theory Image_Blur
  imports Config "HOL-Library.Signed_Division"
begin

text \<open>
  The pixel work of \<open>internal/imageproc/privacy.go\<close>: the box blur with its sliding windows, the soft
  ellipse laid over a face, and the geometry of face rectangles. An \<open>image.NRGBA\<close> is its size and its
  pixels row by row; every such image of the package starts at the origin. Channels are 8 bits wide,
  sums are Go \<open>int\<close>s (they stay far below 64 bits: a line has at most 10^8 pixels).
\<close>

section \<open>Images\<close>

record pixel =
  px_red :: "8 word"
  px_green :: "8 word"
  px_blue :: "8 word"
  px_alpha :: "8 word"

definition no_pixel :: pixel where
  "no_pixel = \<lparr>px_red = 0, px_green = 0, px_blue = 0, px_alpha = 0\<rparr>"

record nrgba =
  ni_width :: nat
  ni_height :: nat
  ni_pix :: "pixel list"

definition nrgba_ok :: "nrgba \<Rightarrow> bool" where
  "nrgba_ok im \<longleftrightarrow> length (ni_pix im) = ni_width im * ni_height im"

text \<open>\<open>NRGBAAt\<close> and the construction of an image from its pixels.\<close>

definition pixel_at :: "nrgba \<Rightarrow> nat \<Rightarrow> nat \<Rightarrow> pixel" where
  "pixel_at im x y = (if x < ni_width im \<and> y < ni_height im then ni_pix im ! (y * ni_width im + x) else no_pixel)"

definition make_image :: "nat \<Rightarrow> nat \<Rightarrow> (nat \<Rightarrow> nat \<Rightarrow> pixel) \<Rightarrow> nrgba" where
  "make_image w h f = \<lparr>ni_width = w, ni_height = h, ni_pix = concat (map (\<lambda>y. map (\<lambda>x. f x y) [0..<w]) [0..<h])\<rparr>"

section \<open>The box blur\<close>

record window =
  wn_red :: int
  wn_green :: int
  wn_blue :: int
  wn_alpha :: int
  wn_count :: int

definition premultiplied :: "pixel \<Rightarrow> int \<times> int \<times> int \<times> int" where
  "premultiplied c =
     (let alpha = uint (px_alpha c)
      in (uint (px_red c) * alpha, uint (px_green c) * alpha, uint (px_blue c) * alpha, alpha))"

definition uint8 :: "int \<Rightarrow> 8 word" where
  "uint8 i = word_of_int i"

definition unpremultiplied :: "window \<Rightarrow> pixel" where
  "unpremultiplied w =
     (if wn_count w = 0 \<or> wn_alpha w = 0 then no_pixel
      else \<lparr>px_red = uint8 (min 255 (wn_red w sdiv wn_alpha w)), px_green = uint8 (min 255 (wn_green w sdiv wn_alpha w)),
            px_blue = uint8 (min 255 (wn_blue w sdiv wn_alpha w)), px_alpha = uint8 (wn_alpha w sdiv wn_count w)\<rparr>)"

definition empty_window :: window where
  "empty_window = \<lparr>wn_red = 0, wn_green = 0, wn_blue = 0, wn_alpha = 0, wn_count = 0\<rparr>"

definition add_pixel :: "window \<Rightarrow> pixel \<Rightarrow> window" where
  "add_pixel w c = (case premultiplied c of (r, g, b, a) \<Rightarrow>
     \<lparr>wn_red = wn_red w + r, wn_green = wn_green w + g, wn_blue = wn_blue w + b, wn_alpha = wn_alpha w + a,
      wn_count = wn_count w + 1\<rparr>)"

definition sub_pixel :: "window \<Rightarrow> pixel \<Rightarrow> window" where
  "sub_pixel w c = (case premultiplied c of (r, g, b, a) \<Rightarrow>
     \<lparr>wn_red = wn_red w - r, wn_green = wn_green w - g, wn_blue = wn_blue w - b, wn_alpha = wn_alpha w - a,
      wn_count = wn_count w - 1\<rparr>)"

text \<open>One line: the first window, then a window that loses the pixel behind and gains the one ahead.\<close>

definition first_window :: "nat \<Rightarrow> pixel list \<Rightarrow> window" where
  "first_window radius line = foldl add_pixel empty_window (take (radius + 1) line)"

definition move_window :: "nat \<Rightarrow> pixel list \<Rightarrow> nat \<Rightarrow> window \<Rightarrow> window" where
  "move_window radius line x w =
     (let w1 = (if radius \<le> x then sub_pixel w (line ! (x - radius)) else w)
      in if x + radius + 1 < length line then add_pixel w1 (line ! (x + radius + 1)) else w1)"

function slide :: "nat \<Rightarrow> pixel list \<Rightarrow> nat \<Rightarrow> window \<Rightarrow> pixel list" where
  "slide radius line x w =
     (if x < length line then unpremultiplied w # slide radius line (x + 1) (move_window radius line x w) else [])"
  by pat_completeness auto
termination by (relation "measure (\<lambda>(radius, line, x, w). length line - x)") auto

declare slide.simps [simp del]

definition blur_line :: "nat \<Rightarrow> pixel list \<Rightarrow> pixel list" where
  "blur_line radius line = slide radius line 0 (first_window radius line)"

definition row_of :: "nrgba \<Rightarrow> nat \<Rightarrow> pixel list" where
  "row_of im y = map (\<lambda>x. pixel_at im x y) [0..<ni_width im]"

definition column_of :: "nrgba \<Rightarrow> nat \<Rightarrow> pixel list" where
  "column_of im x = map (\<lambda>y. pixel_at im x y) [0..<ni_height im]"

definition box_blur_horizontal :: "nrgba \<Rightarrow> nat \<Rightarrow> nrgba" where
  "box_blur_horizontal im radius =
     make_image (ni_width im) (ni_height im) (\<lambda>x y. blur_line radius (row_of im y) ! x)"

definition box_blur_vertical :: "nrgba \<Rightarrow> nat \<Rightarrow> nrgba" where
  "box_blur_vertical im radius =
     make_image (ni_width im) (ni_height im) (\<lambda>x y. blur_line radius (column_of im x) ! y)"

definition blur_nrgba :: "nrgba \<Rightarrow> int \<Rightarrow> nrgba" where
  "blur_nrgba im radius =
     (if radius \<le> 0 then im
      else ((\<lambda>i. box_blur_vertical (box_blur_horizontal i (nat radius)) (nat radius)) ^^ 3) im)"

section \<open>Facts on images\<close>

lemma length_concat_rows: "length (concat (map (\<lambda>y. map (\<lambda>x. f x y) [0..<w]) [0..<h])) = w * h"
  by (induction h) (simp_all add: algebra_simps)

lemma nth_concat_rows:
  "x < w \<Longrightarrow> y < h \<Longrightarrow> concat (map (\<lambda>y. map (\<lambda>x. f x y) [0..<w]) [0..<h]) ! (y * w + x) = f x y"
proof (induction h)
  case (Suc h)
  show ?case
  proof (cases "y < h")
    case True
    have "y * w + x < h * w" using True Suc.prems(1)
      by (metis Suc_leI add.commute add_less_cancel_left le_trans less_le_trans mult.commute mult_Suc mult_le_mono1 nat_less_le)
    with Suc True show ?thesis by (simp add: nth_append length_concat_rows mult.commute)
  next
    case False
    with Suc.prems have "y = h" by simp
    with Suc.prems show ?thesis by (simp add: nth_append length_concat_rows mult.commute)
  qed
qed simp

lemma make_image_size [simp]: "ni_width (make_image w h f) = w" "ni_height (make_image w h f) = h"
  by (simp_all add: make_image_def)

lemma make_image_ok [simp, intro]: "nrgba_ok (make_image w h f)"
  by (simp add: nrgba_ok_def make_image_def length_concat_rows)

lemma make_image_at [simp]: "x < w \<Longrightarrow> y < h \<Longrightarrow> pixel_at (make_image w h f) x y = f x y"
  by (simp add: pixel_at_def make_image_def nth_concat_rows)

lemma row_of_length [simp]: "length (row_of im y) = ni_width im"
  and column_of_length [simp]: "length (column_of im x) = ni_height im"
  by (simp_all add: row_of_def column_of_def)

section \<open>The reference: a mean\<close>

text \<open>
  The mean a box blur stands for: colours are averaged with their opacity as weight, the opacity is
  averaged over the pixels; with no opacity at all there is no colour.
\<close>

definition opacity :: "pixel list \<Rightarrow> int" where
  "opacity ps = (\<Sum>p\<leftarrow>ps. uint (px_alpha p))"

definition weighted :: "(pixel \<Rightarrow> 8 word) \<Rightarrow> pixel list \<Rightarrow> int" where
  "weighted ch ps = (\<Sum>p\<leftarrow>ps. uint (ch p) * uint (px_alpha p))"

definition mean_pixel :: "pixel list \<Rightarrow> pixel" where
  "mean_pixel ps =
     (if opacity ps = 0 then no_pixel
      else \<lparr>px_red = word_of_int (weighted px_red ps div opacity ps), px_green = word_of_int (weighted px_green ps div opacity ps),
            px_blue = word_of_int (weighted px_blue ps div opacity ps), px_alpha = word_of_int (opacity ps div int (length ps))\<rparr>)"

definition window_of :: "nat \<Rightarrow> pixel list \<Rightarrow> nat \<Rightarrow> pixel list" where
  "window_of radius line x = drop (x - radius) (take (x + radius + 1) line)"

definition window_sum :: "pixel list \<Rightarrow> window" where
  "window_sum ps = \<lparr>wn_red = weighted px_red ps, wn_green = weighted px_green ps, wn_blue = weighted px_blue ps,
     wn_alpha = opacity ps, wn_count = int (length ps)\<rparr>"

lemma sums_append [simp]:
  "opacity (ps @ qs) = opacity ps + opacity qs" "weighted ch (ps @ qs) = weighted ch ps + weighted ch qs"
  by (simp_all add: opacity_def weighted_def)

lemma sums_Cons [simp]:
  "opacity (p # ps) = uint (px_alpha p) + opacity ps"
  "weighted ch (p # ps) = uint (ch p) * uint (px_alpha p) + weighted ch ps"
  "opacity [] = 0" "weighted ch [] = 0"
  by (simp_all add: opacity_def weighted_def)

lemma window_sum_add: "window_sum (ps @ [p]) = add_pixel (window_sum ps) p"
  by (simp add: window_sum_def add_pixel_def premultiplied_def Let_def)

lemma window_sum_sub: "sub_pixel (window_sum (p # ps)) p = window_sum ps"
  by (simp add: window_sum_def sub_pixel_def premultiplied_def Let_def)

lemma foldl_add_pixel: "foldl add_pixel (window_sum ps) qs = window_sum (ps @ qs)"
proof (induction qs arbitrary: ps)
  case (Cons q qs)
  from Cons [of "ps @ [q]"] show ?case by (simp add: window_sum_add)
qed simp

lemma first_window_sum: "first_window radius line = window_sum (window_of radius line 0)"
proof -
  have "empty_window = window_sum []" by (simp add: empty_window_def window_sum_def)
  then show ?thesis using foldl_add_pixel [of "[]"] by (simp add: first_window_def window_of_def)
qed

lemma move_window_sum:
  assumes "x < length line"
  shows "move_window radius line x (window_sum (window_of radius line x)) = window_sum (window_of radius line (x + 1))"
proof -
  let ?t = "take (x + radius + 1) line"
  define w1 where "w1 = (if radius \<le> x then sub_pixel (window_sum (window_of radius line x)) (line ! (x - radius))
    else window_sum (window_of radius line x))"
  have w1: "w1 = window_sum (drop (x + 1 - radius) ?t)"
  proof (cases "radius \<le> x")
    case True
    then have "x - radius < length ?t" using assms by auto
    then have "window_of radius line x = line ! (x - radius) # drop (Suc (x - radius)) ?t"
      unfolding window_of_def by (subst Cons_nth_drop_Suc [symmetric]) auto
    with True show ?thesis by (simp add: w1_def window_sum_sub Suc_diff_le)
  next
    case False
    then have "x - radius = 0" "x + 1 - radius = 0" by auto
    with False show ?thesis by (simp add: w1_def window_of_def)
  qed
  show ?thesis
  proof (cases "x + radius + 1 < length line")
    case True
    then have "take (x + radius + 2) line = ?t @ [line ! (x + radius + 1)]"
      by (simp add: take_Suc_conv_app_nth)
    moreover have "x + 1 - radius \<le> length ?t" using True by simp
    ultimately have "window_of radius line (x + 1) = drop (x + 1 - radius) ?t @ [line ! (x + radius + 1)]"
      by (auto simp: window_of_def)
    then show ?thesis using True w1 by (simp add: move_window_def w1_def [symmetric] window_sum_add Let_def)
  next
    case False
    then have "take (x + radius + 2) line = ?t" by simp
    then have "window_of radius line (x + 1) = drop (x + 1 - radius) ?t" by (simp add: window_of_def)
    then show ?thesis using False w1 by (simp add: move_window_def w1_def [symmetric] Let_def)
  qed
qed

lemma opacity_nonneg: "0 \<le> opacity ps"
  by (induction ps) auto

lemma weighted_bounds: "0 \<le> weighted ch ps \<and> weighted ch ps \<le> 255 * opacity ps"
proof (induction ps)
  case (Cons p ps)
  have "uint (ch p) \<le> 255" using uint_lt2p [of "ch p"] by simp
  then have "uint (ch p) * uint (px_alpha p) \<le> 255 * uint (px_alpha p)" by (intro mult_right_mono) auto
  with Cons show ?case by simp
qed simp

lemma unpremultiplied_sum:
  assumes "ps \<noteq> []"
  shows "unpremultiplied (window_sum ps) = mean_pixel ps"
proof (cases "opacity ps = 0")
  case False
  then have a: "0 < opacity ps" using opacity_nonneg [of ps] by simp
  have q: "weighted ch ps sdiv opacity ps = weighted ch ps div opacity ps" for ch
    using a weighted_bounds [of ch ps] by (simp add: signed_divide_int_def sgn_if)
  have m: "min 255 (weighted ch ps div opacity ps) = weighted ch ps div opacity ps" for ch
  proof -
    have "weighted ch ps div opacity ps \<le> 255 * opacity ps div opacity ps"
      using weighted_bounds [of ch ps] a by (intro zdiv_mono1) auto
    with a show ?thesis by simp
  qed
  have "opacity ps sdiv int (length ps) = opacity ps div int (length ps)"
    using a by (simp add: signed_divide_int_def sgn_if)
  with False assms m q show ?thesis by (simp add: unpremultiplied_def window_sum_def mean_pixel_def uint8_def)
next
  case True
  then show ?thesis by (simp add: unpremultiplied_def window_sum_def mean_pixel_def)
qed

lemma window_of_nonempty: "x < length line \<Longrightarrow> window_of radius line x \<noteq> []"
  by (simp add: window_of_def)

lemma slide_means:
  "slide radius line x (window_sum (window_of radius line x)) =
     map (\<lambda>i. mean_pixel (window_of radius line i)) [x..<length line]"
proof (induction "length line - x" arbitrary: x)
  case 0
  then show ?case by (subst slide.simps) simp
next
  case (Suc n)
  then have x: "x < length line" by simp
  then have "[x..<length line] = x # [x + 1..<length line]" by (simp add: upt_conv_Cons)
  with x Suc.hyps(1) [of "x + 1"] Suc.hyps(2) show ?case
    by (subst slide.simps) (simp add: move_window_sum unpremultiplied_sum window_of_nonempty)
qed

lemma blur_line_means: "blur_line radius line = map (\<lambda>x. mean_pixel (window_of radius line x)) [0..<length line]"
  by (simp add: blur_line_def first_window_sum slide_means)

lemma horizontal_at:
  "x < ni_width im \<Longrightarrow> y < ni_height im \<Longrightarrow>
    pixel_at (box_blur_horizontal im radius) x y = mean_pixel (window_of radius (row_of im y) x)"
  by (simp add: box_blur_horizontal_def blur_line_means)

lemma vertical_at:
  "x < ni_width im \<Longrightarrow> y < ni_height im \<Longrightarrow>
    pixel_at (box_blur_vertical im radius) x y = mean_pixel (window_of radius (column_of im x) y)"
  by (simp add: box_blur_vertical_def blur_line_means)

lemma blur_sizes [simp]:
  "ni_width (box_blur_horizontal im radius) = ni_width im" "ni_height (box_blur_horizontal im radius) = ni_height im"
  "ni_width (box_blur_vertical im radius) = ni_width im" "ni_height (box_blur_vertical im radius) = ni_height im"
  by (simp_all add: box_blur_horizontal_def box_blur_vertical_def)

section \<open>What a blurred pixel depends on\<close>

text \<open>Pixels that look alike: the same opacity and, unless that is zero, the same colour.\<close>

definition alike :: "pixel \<Rightarrow> pixel \<Rightarrow> bool" where
  "alike p q \<longleftrightarrow> px_alpha p = px_alpha q \<and>
     (px_alpha p \<noteq> 0 \<longrightarrow> px_red p = px_red q \<and> px_green p = px_green q \<and> px_blue p = px_blue q)"

definition images_alike :: "nrgba \<Rightarrow> nrgba \<Rightarrow> bool" where
  "images_alike im im' \<longleftrightarrow> ni_width im = ni_width im' \<and> ni_height im = ni_height im' \<and>
     (\<forall>x < ni_width im. \<forall>y < ni_height im. alike (pixel_at im x y) (pixel_at im' x y))"

lemma mean_alike: "list_all2 alike ps qs \<Longrightarrow> mean_pixel ps = mean_pixel qs"
proof -
  assume a: "list_all2 alike ps qs"
  then have "opacity ps = opacity qs" "weighted px_red ps = weighted px_red qs"
    "weighted px_green ps = weighted px_green qs" "weighted px_blue ps = weighted px_blue qs"
    by (induction rule: list_all2_induct) (auto simp: alike_def)
  with list_all2_lengthD [OF a] show ?thesis by (simp add: mean_pixel_def)
qed

lemma window_alike: "list_all2 alike l l' \<Longrightarrow> list_all2 alike (window_of radius l x) (window_of radius l' x)"
  by (simp add: window_of_def list_all2_dropI list_all2_takeI)

lemma horizontal_alike: "images_alike im im' \<Longrightarrow> box_blur_horizontal im radius = box_blur_horizontal im' radius"
proof -
  assume a: "images_alike im im'"
  have "blur_line radius (row_of im y) ! x = blur_line radius (row_of im' y) ! x" if "x < ni_width im" "y < ni_height im" for x y
  proof -
    have "list_all2 alike (row_of im y) (row_of im' y)"
      using a that by (auto simp: images_alike_def row_of_def list_all2_conv_all_nth)
    from mean_alike [OF window_alike [OF this]] a that show ?thesis by (simp add: blur_line_means images_alike_def)
  qed
  with a show ?thesis
    by (auto simp: box_blur_horizontal_def make_image_def images_alike_def intro!: arg_cong [where f = concat])
qed

text \<open>A property of visible pixels that a mean keeps is kept by every pass.\<close>

definition visible_all :: "(pixel \<Rightarrow> bool) \<Rightarrow> nrgba \<Rightarrow> bool" where
  "visible_all P im \<longleftrightarrow> (\<forall>x < ni_width im. \<forall>y < ni_height im. px_alpha (pixel_at im x y) \<noteq> 0 \<longrightarrow> P (pixel_at im x y))"

definition in_range :: "int \<Rightarrow> int \<Rightarrow> (pixel \<Rightarrow> 8 word) \<Rightarrow> pixel \<Rightarrow> bool" where
  "in_range lo hi ch p \<longleftrightarrow> lo \<le> uint (ch p) \<and> uint (ch p) \<le> hi"

lemma weighted_range:
  "(\<And>p. p \<in> set ps \<Longrightarrow> px_alpha p \<noteq> 0 \<Longrightarrow> in_range lo hi ch p) \<Longrightarrow>
    lo * opacity ps \<le> weighted ch ps \<and> weighted ch ps \<le> hi * opacity ps"
proof (induction ps)
  case (Cons p ps)
  have "lo * uint (px_alpha p) \<le> uint (ch p) * uint (px_alpha p) \<and> uint (ch p) * uint (px_alpha p) \<le> hi * uint (px_alpha p)"
  proof (cases "px_alpha p = 0")
    case False
    with Cons.prems [of p] show ?thesis by (auto simp: in_range_def intro!: mult_right_mono)
  qed simp
  with Cons show ?case by (simp add: distrib_left)
qed simp

lemma uint_word_of_int: "0 \<le> i \<Longrightarrow> i \<le> 255 \<Longrightarrow> uint (word_of_int i :: 8 word) = i"
  by (simp add: uint_word_of_int_eq take_bit_eq_mod)

lemma mean_range:
  assumes "\<And>p. p \<in> set ps \<Longrightarrow> px_alpha p \<noteq> 0 \<Longrightarrow> in_range lo hi ch p" and "px_alpha (mean_pixel ps) \<noteq> 0"
    and ch: "ch \<in> {px_red, px_green, px_blue}"
  shows "in_range lo hi ch (mean_pixel ps)"
proof -
  from assms(2) have a: "0 < opacity ps" using opacity_nonneg [of ps] by (auto simp: mean_pixel_def no_pixel_def split: if_splits)
  have "lo \<le> weighted ch ps div opacity ps" "weighted ch ps div opacity ps \<le> hi"
    using weighted_range [OF assms(1)] a zdiv_mono1 [of "lo * opacity ps" "weighted ch ps" "opacity ps"]
      zdiv_mono1 [of "weighted ch ps" "hi * opacity ps" "opacity ps"] by auto
  moreover have "0 \<le> weighted ch ps div opacity ps" "weighted ch ps div opacity ps \<le> 255"
    using weighted_bounds [of ch ps] a zdiv_mono1 [of "weighted ch ps" "255 * opacity ps" "opacity ps"]
    by (auto simp: pos_imp_zdiv_nonneg_iff)
  ultimately show ?thesis using a ch by (auto simp: in_range_def mean_pixel_def uint_word_of_int)
qed

lemma window_of_subset: "set (window_of radius line x) \<subseteq> set line"
  unfolding window_of_def by (meson order_trans set_drop_subset set_take_subset)

lemma blur_pass_range:
  assumes "ch \<in> {px_red, px_green, px_blue}" and "visible_all (in_range lo hi ch) im"
  shows "visible_all (in_range lo hi ch) (box_blur_horizontal im radius)"
    and "visible_all (in_range lo hi ch) (box_blur_vertical im radius)"
proof -
  have r: "in_range lo hi ch p" if "p \<in> set (window_of radius (row_of im y) x)" "px_alpha p \<noteq> 0" "y < ni_height im" for p x y
    using that assms(2) window_of_subset [of radius "row_of im y" x] by (auto simp: visible_all_def row_of_def)
  have c: "in_range lo hi ch p" if "p \<in> set (window_of radius (column_of im x) y)" "px_alpha p \<noteq> 0" "x < ni_width im" for p x y
    using that assms(2) window_of_subset [of radius "column_of im x" y] by (auto simp: visible_all_def column_of_def)
  show "visible_all (in_range lo hi ch) (box_blur_horizontal im radius)"
    unfolding visible_all_def using mean_range [OF r _ assms(1)] by (auto simp: horizontal_at)
  show "visible_all (in_range lo hi ch) (box_blur_vertical im radius)"
    unfolding visible_all_def using mean_range [OF c _ assms(1)] by (auto simp: vertical_at)
qed

lemma window_of_map: "window_of radius (map f [0..<n]) x = map f [x - radius..<min n (x + radius + 1)]"
proof -
  have "drop (x - radius) (take (Suc (x + radius)) [0..<n]) = [x - radius..<min n (Suc (x + radius))]"
    by (cases "Suc (x + radius) \<le> n") (simp_all add: drop_upt take_upt min_def del: upt_Suc)
  then show ?thesis by (simp add: window_of_def take_map drop_map)
qed

section \<open>Properties\<close>

text \<open>
  C23: the sliding windows compute the mean they stand for. A horizontal pass gives every pixel the mean of
  its row from \<open>radius\<close> pixels before it to \<open>radius\<close> pixels after it, as far as the row goes, and a vertical
  pass the mean of its column; colours are weighted by opacity, nothing overflows and the size of the
  image stays.
\<close>

theorem box_blur_is_mean:
  assumes "x < ni_width im" and "y < ni_height im"
  shows "pixel_at (box_blur_horizontal im radius) x y =
      mean_pixel (map (\<lambda>i. pixel_at im i y) [x - radius..<min (ni_width im) (x + radius + 1)]) \<and>
    pixel_at (box_blur_vertical im radius) x y =
      mean_pixel (map (\<lambda>j. pixel_at im x j) [y - radius..<min (ni_height im) (y + radius + 1)]) \<and>
    ni_width (blur_nrgba im r) = ni_width im \<and> ni_height (blur_nrgba im r) = ni_height im"
proof -
  have "ni_width (blur_nrgba im r) = ni_width im" "ni_height (blur_nrgba im r) = ni_height im"
    by (simp_all add: blur_nrgba_def eval_nat_numeral)
  with assms show ?thesis
    using horizontal_at [OF assms] vertical_at [OF assms] by (simp add: row_of_def column_of_def window_of_map del: upt_Suc)
qed

definition grey :: "int \<Rightarrow> pixel" where
  "grey v = \<lparr>px_red = word_of_int v, px_green = word_of_int v, px_blue = word_of_int v, px_alpha = 255\<rparr>"

definition grey_line :: nrgba where
  "grey_line = \<lparr>ni_width = 3, ni_height = 1, ni_pix = [grey 0, grey 30, grey 90]\<rparr>"

theorem box_blur_is_mean_witness: "pixel_at (box_blur_horizontal grey_line 1) 1 0 = grey 40"
  using box_blur_is_mean [of 1 grey_line 0 1]
  by (simp add: grey_line_def pixel_at_def mean_pixel_def grey_def opacity_def weighted_def upt_rec)

text \<open>
  Transparency leaves no halo. The colour a file stores for a fully transparent pixel has no influence on
  the blurred picture: pictures that look alike have the same blur; and a blur invents no colour: a range
  that holds every visible pixel of the picture in a channel holds every visible pixel of its blur.
\<close>

theorem blur_without_halo:
  assumes "0 < r" and "images_alike im im'" and "ch \<in> {px_red, px_green, px_blue}" and "visible_all (in_range lo hi ch) im"
  shows "blur_nrgba im r = blur_nrgba im' r \<and> visible_all (in_range lo hi ch) (blur_nrgba im r)"
proof -
  let ?f = "\<lambda>i. box_blur_vertical (box_blur_horizontal i (nat r)) (nat r)"
  have "?f im = ?f im'" using horizontal_alike [OF assms(2)] by simp
  then have "(?f ^^ 3) im = (?f ^^ 3) im'" by (simp add: eval_nat_numeral)
  moreover have "visible_all (in_range lo hi ch) ((?f ^^ n) im)" for n
    using blur_pass_range [OF assms(3)] by (induction n) (auto simp: assms(4))
  note this [of 3]
  ultimately show ?thesis using assms(1) by (simp add: blur_nrgba_def)
qed

definition clear_white :: pixel where
  "clear_white = \<lparr>px_red = 255, px_green = 255, px_blue = 255, px_alpha = 0\<rparr>"

theorem blur_without_halo_witness:
  "blur_nrgba \<lparr>ni_width = 2, ni_height = 1, ni_pix = [grey 10, clear_white]\<rparr> 4 =
   blur_nrgba \<lparr>ni_width = 2, ni_height = 1, ni_pix = [grey 10, no_pixel]\<rparr> 4"
proof -
  let ?a = "\<lparr>ni_width = 2, ni_height = 1, ni_pix = [grey 10, clear_white]\<rparr>"
  let ?b = "\<lparr>ni_width = 2, ni_height = 1, ni_pix = [grey 10, no_pixel]\<rparr>"
  have "images_alike ?a ?b"
    by (auto simp: images_alike_def pixel_at_def alike_def clear_white_def no_pixel_def less_Suc_eq numeral_2_eq_2)
  moreover have "visible_all (in_range 10 10 px_red) ?a"
  proof -
    have "pixel_at ?a x y \<in> {grey 10, clear_white}" if "x < 2" "y < 1" for x y
      using that by (cases x) (auto simp: pixel_at_def)
    moreover have "in_range 10 10 px_red (grey 10)" "px_alpha clear_white = 0"
      by (simp_all add: in_range_def grey_def clear_white_def)
    ultimately show ?thesis unfolding visible_all_def nrgba.select_convs by (metis empty_iff insert_iff)
  qed
  ultimately show ?thesis using blur_without_halo [of 4 ?a ?b px_red 10 10] by simp
qed

end
