(* ===== verification/Face_Blur.thy ===== *)
theory Face_Blur
  imports Image_Blur
begin

text \<open>
  Faces, the second half of \<open>internal/imageproc/privacy.go\<close>: rectangles as package \<open>image\<close> has them, the
  input of the detector and the rectangles made of its answer, and the soft elliptic mask. The detector
  (gocv) and the resampling (x/image/draw) are parameters.
\<close>

section \<open>Rectangles\<close>

record rect =
  rc_x0 :: int
  rc_y0 :: int
  rc_x1 :: int
  rc_y1 :: int

definition image_rect :: "int \<Rightarrow> int \<Rightarrow> int \<Rightarrow> int \<Rightarrow> rect" where
  "image_rect x0 y0 x1 y1 = \<lparr>rc_x0 = min x0 x1, rc_y0 = min y0 y1, rc_x1 = max x0 x1, rc_y1 = max y0 y1\<rparr>"

definition rect_empty :: "rect \<Rightarrow> bool" where
  "rect_empty r \<longleftrightarrow> rc_x0 r \<ge> rc_x1 r \<or> rc_y0 r \<ge> rc_y1 r"

definition rect_dx :: "rect \<Rightarrow> int" where "rect_dx r = rc_x1 r - rc_x0 r"
definition rect_dy :: "rect \<Rightarrow> int" where "rect_dy r = rc_y1 r - rc_y0 r"

definition rect_intersect :: "rect \<Rightarrow> rect \<Rightarrow> rect" where
  "rect_intersect r s =
     (let t = \<lparr>rc_x0 = max (rc_x0 r) (rc_x0 s), rc_y0 = max (rc_y0 r) (rc_y0 s),
               rc_x1 = min (rc_x1 r) (rc_x1 s), rc_y1 = min (rc_y1 r) (rc_y1 s)\<rparr>
      in if rect_empty t then \<lparr>rc_x0 = 0, rc_y0 = 0, rc_x1 = 0, rc_y1 = 0\<rparr> else t)"

definition rect_add :: "rect \<Rightarrow> int \<Rightarrow> int \<Rightarrow> rect" where
  "rect_add r dx dy = \<lparr>rc_x0 = rc_x0 r + dx, rc_y0 = rc_y0 r + dy, rc_x1 = rc_x1 r + dx, rc_y1 = rc_y1 r + dy\<rparr>"

definition in_rect :: "rect \<Rightarrow> int \<Rightarrow> int \<Rightarrow> bool" where
  "in_rect r x y \<longleftrightarrow> rc_x0 r \<le> x \<and> x < rc_x1 r \<and> rc_y0 r \<le> y \<and> y < rc_y1 r"

definition nrgba_bounds :: "nrgba \<Rightarrow> rect" where
  "nrgba_bounds im = image_rect 0 0 (int (ni_width im)) (int (ni_height im))"

lemma in_rect_intersect [simp]: "in_rect (rect_intersect r s) x y \<longleftrightarrow> in_rect r x y \<and> in_rect s x y"
  by (auto simp: in_rect_def rect_intersect_def rect_empty_def Let_def)

lemma in_rect_bounds [simp]: "in_rect (nrgba_bounds im) x y \<longleftrightarrow> 0 \<le> x \<and> x < int (ni_width im) \<and> 0 \<le> y \<and> y < int (ni_height im)"
  by (auto simp: in_rect_def nrgba_bounds_def image_rect_def)

section \<open>The detector\<close>

definition round_up_to_multiple :: "int \<Rightarrow> int \<Rightarrow> int" where
  "round_up_to_multiple v multiple =
     (if v \<le> 0 \<or> multiple \<le> 0 then 0 else ((v + multiple - 1) sdiv multiple) * multiple)"

definition expand_face_rect :: "rect \<Rightarrow> rect \<Rightarrow> rect" where
  "expand_face_rect r bounds =
     (let padding = max 2 (min (rect_dx r) (rect_dy r) sdiv 4)
      in rect_intersect (image_rect (rc_x0 r - padding) (rc_y0 r - padding) (rc_x1 r + padding) (rc_y1 r + padding)) bounds)"

text \<open>
  The detector as the code calls it: resampling to a size, and one run on the packed pixels of an input of
  a given size, which fails or answers with the columns and the rows of its result. \<open>dt_add32\<close> is the
  addition of \<open>float32\<close>.
\<close>

datatype detect_error = Input_failed | Run_failed | Unexpected_columns

record 'f detector =
  dt_scale :: "nrgba \<Rightarrow> nat \<Rightarrow> nat \<Rightarrow> nrgba"
  dt_run :: "bytes \<Rightarrow> int \<Rightarrow> int \<Rightarrow> detect_error + (nat \<times> 'f list list) option"
  dt_add32 :: "'f \<Rightarrow> 'f \<Rightarrow> 'f"

definition scale_for_face_detection :: "'f floats \<Rightarrow> 'f detector \<Rightarrow> nrgba \<Rightarrow> int \<Rightarrow> nrgba \<times> 'f" where
  "scale_for_face_detection fl dt im max_dimension =
     (let longest = max (int (ni_width im)) (int (ni_height im))
      in if max_dimension \<le> 0 \<or> longest \<le> max_dimension then (im, fl_lit fl 1 0)
         else
           (let scale = fl_div fl (fl_of_int fl max_dimension) (fl_of_int fl longest);
                width = max 1 (fl_to_int fl (fl_round fl (fl_mul fl (fl_of_int fl (int (ni_width im))) scale)));
                height = max 1 (fl_to_int fl (fl_round fl (fl_mul fl (fl_of_int fl (int (ni_height im))) scale)))
            in (dt_scale dt im (nat width) (nat height), scale)))"

text \<open>The packed pixels: blue, green, red, and zeros beyond the picture.\<close>

definition new_bgr_mat :: "nrgba \<Rightarrow> int \<Rightarrow> int \<Rightarrow> bytes" where
  "new_bgr_mat im width height =
     concat (map (\<lambda>y. concat (map (\<lambda>x.
       (let p = pixel_at im x y in [px_blue p, px_green p, px_red p])) [0..<nat width])) [0..<nat height])"

definition face_of_row :: "'f floats \<Rightarrow> 'f detector \<Rightarrow> 'f \<Rightarrow> rect \<Rightarrow> 'f list \<Rightarrow> rect" where
  "face_of_row fl dt scale bounds row =
     (let coord = (\<lambda>v. fl_to_int fl (fl_round fl (fl_div fl v scale)))
      in expand_face_rect (image_rect (coord (row ! 0)) (coord (row ! 1))
           (coord (dt_add32 dt (row ! 0) (row ! 2))) (coord (dt_add32 dt (row ! 1) (row ! 3)))) bounds)"

definition detect :: "'f floats \<Rightarrow> 'f detector \<Rightarrow> int \<Rightarrow> nrgba \<Rightarrow> detect_error + rect list" where
  "detect fl dt max_dimension im =
     (let (scaled, scale) = scale_for_face_detection fl dt im max_dimension;
          width = round_up_to_multiple (int (ni_width scaled)) 32;
          height = round_up_to_multiple (int (ni_height scaled)) 32
      in case dt_run dt (new_bgr_mat scaled width height) width height of
           Inl e \<Rightarrow> Inl e
         | Inr None \<Rightarrow> Inr []
         | Inr (Some (columns, rows)) \<Rightarrow>
             if columns < 15 then Inl Unexpected_columns
             else Inr (filter (\<lambda>r. \<not> rect_empty r) (map (face_of_row fl dt scale (nrgba_bounds im)) rows)))"

section \<open>The soft mask\<close>

definition face_mask_weight :: "'f floats \<Rightarrow> 'f \<Rightarrow> 'f" where
  "face_mask_weight fl distance =
     (if fl_leq fl distance (fl_lit fl 8 1) then fl_lit fl 1 0
      else if fl_leq fl (fl_lit fl 13 1) distance then fl_lit fl 0 0
      else
        (let t = fl_div fl (fl_sub fl (fl_lit fl 13 1) distance) (fl_lit fl 5 1)
         in fl_mul fl (fl_mul fl t t) (fl_sub fl (fl_lit fl 3 0) (fl_mul fl (fl_lit fl 2 0) t))))"

definition blend_channel :: "'f floats \<Rightarrow> 8 word \<Rightarrow> 8 word \<Rightarrow> 'f \<Rightarrow> 8 word" where
  "blend_channel fl base over weight =
     (let v = fl_add fl (fl_mul fl (fl_of_int fl (uint base)) (fl_sub fl (fl_lit fl 1 0) weight))
                        (fl_mul fl (fl_of_int fl (uint over)) weight)
      in uint8 (fl_to_int fl (fl_round fl (fl_max fl (fl_lit fl 0 0) (fl_min fl (fl_lit fl 255 0) v)))))"

record 'f ellipse =
  el_center_x :: 'f
  el_center_y :: 'f
  el_radius_x :: 'f
  el_radius_y :: 'f

definition ellipse_of :: "'f floats \<Rightarrow> rect \<Rightarrow> 'f ellipse" where
  "ellipse_of fl face =
     \<lparr>el_center_x = fl_div fl (fl_of_int fl (rc_x0 face + rc_x1 face - 1)) (fl_lit fl 2 0),
      el_center_y = fl_div fl (fl_of_int fl (rc_y0 face + rc_y1 face - 1)) (fl_lit fl 2 0),
      el_radius_x = fl_max fl (fl_lit fl 1 0) (fl_div fl (fl_of_int fl (rect_dx face)) (fl_lit fl 2 0)),
      el_radius_y = fl_max fl (fl_lit fl 1 0) (fl_div fl (fl_of_int fl (rect_dy face)) (fl_lit fl 2 0))\<rparr>"

definition ellipse_distance :: "'f floats \<Rightarrow> 'f ellipse \<Rightarrow> int \<Rightarrow> int \<Rightarrow> 'f" where
  "ellipse_distance fl e x y =
     (let dx = fl_div fl (fl_sub fl (fl_of_int fl x) (el_center_x e)) (el_radius_x e);
          dy = fl_div fl (fl_sub fl (fl_of_int fl y) (el_center_y e)) (el_radius_y e)
      in fl_sqrt fl (fl_add fl (fl_mul fl dx dx) (fl_mul fl dy dy)))"

definition mask_area :: "'f floats \<Rightarrow> 'f ellipse \<Rightarrow> rect" where
  "mask_area fl e =
     (let fade = fl_lit fl 13 1
      in image_rect
           (fl_to_int fl (fl_floor fl (fl_sub fl (el_center_x e) (fl_mul fl (el_radius_x e) fade))))
           (fl_to_int fl (fl_floor fl (fl_sub fl (el_center_y e) (fl_mul fl (el_radius_y e) fade))))
           (fl_to_int fl (fl_ceil fl (fl_add fl (el_center_x e) (fl_mul fl (el_radius_x e) fade))) + 1)
           (fl_to_int fl (fl_ceil fl (fl_add fl (el_center_y e) (fl_mul fl (el_radius_y e) fade))) + 1))"

text \<open>One pixel of the loop: left alone, replaced, or blended.\<close>

definition soft_pixel :: "'f floats \<Rightarrow> 'f \<Rightarrow> pixel \<Rightarrow> pixel \<Rightarrow> pixel" where
  "soft_pixel fl distance base over =
     (if fl_leq fl (fl_lit fl 13 1) distance then base
      else
        (let weight = face_mask_weight fl distance
         in if fl_leq fl (fl_lit fl 1 0) weight then over
            else \<lparr>px_red = blend_channel fl (px_red base) (px_red over) weight,
                  px_green = blend_channel fl (px_green base) (px_green over) weight,
                  px_blue = blend_channel fl (px_blue base) (px_blue over) weight,
                  px_alpha = blend_channel fl (px_alpha base) (px_alpha over) weight\<rparr>))"

definition apply_soft_ellipse :: "'f floats \<Rightarrow> nrgba \<Rightarrow> nrgba \<Rightarrow> int \<Rightarrow> int \<Rightarrow> rect \<Rightarrow> nrgba" where
  "apply_soft_ellipse fl dst blurred ox oy face =
     (let e = ellipse_of fl face;
          area = rect_intersect (rect_intersect (mask_area fl e) (nrgba_bounds dst)) (rect_add (nrgba_bounds blurred) ox oy)
      in make_image (ni_width dst) (ni_height dst) (\<lambda>x y.
           if in_rect area (int x) (int y)
           then soft_pixel fl (ellipse_distance fl e (int x) (int y)) (pixel_at dst x y)
                  (pixel_at blurred (nat (int x - ox)) (nat (int y - oy)))
           else pixel_at dst x y))"

text \<open>
  \<open>draw.Draw\<close> with \<open>draw.Src\<close> between two \<open>image.NRGBA\<close>: every pixel passes through the premultiplied 16-bit
  representation, which keeps opaque pixels as they are.
\<close>

definition redraw_channel :: "8 word \<Rightarrow> 8 word \<Rightarrow> 8 word" where
  "redraw_channel c alpha =
     (let a = uint alpha * 257; v = uint c * 257 * uint alpha div 255;
          u = (if a \<noteq> 0 \<and> a \<noteq> 65535 then v * 65535 div a else v)
      in uint8 (u div 256))"

definition redraw_pixel :: "pixel \<Rightarrow> pixel" where
  "redraw_pixel p = \<lparr>px_red = redraw_channel (px_red p) (px_alpha p), px_green = redraw_channel (px_green p) (px_alpha p),
     px_blue = redraw_channel (px_blue p) (px_alpha p), px_alpha = px_alpha p\<rparr>"

definition region_of :: "nrgba \<Rightarrow> rect \<Rightarrow> nrgba" where
  "region_of im work = make_image (nat (rect_dx work)) (nat (rect_dy work)) (\<lambda>x y.
     redraw_pixel (pixel_at im (nat (rc_x0 work + int x)) (nat (rc_y0 work + int y))))"

definition face_radius :: "int \<Rightarrow> rect \<Rightarrow> int" where
  "face_radius minimum face = max minimum (min (rect_dx face) (rect_dy face) sdiv 5)"

definition face_work :: "'f floats \<Rightarrow> nrgba \<Rightarrow> int \<Rightarrow> rect \<Rightarrow> rect" where
  "face_work fl im radius face =
     (let band = (\<lambda>d. fl_to_int fl (fl_mul fl (fl_div fl (fl_of_int fl d) (fl_lit fl 2 0)) (fl_lit fl 3 1)) + 1);
          bx = band (rect_dx face); b_y = band (rect_dy face)
      in rect_intersect (image_rect (rc_x0 face - bx - radius) (rc_y0 face - b_y - radius)
           (rc_x1 face + bx + radius) (rc_y1 face + b_y + radius)) (nrgba_bounds im))"

definition blur_face :: "'f floats \<Rightarrow> int \<Rightarrow> nrgba \<Rightarrow> rect \<Rightarrow> nrgba" where
  "blur_face fl minimum dst rect0 =
     (let face = rect_intersect rect0 (nrgba_bounds dst)
      in if rect_empty face then dst
         else
           (let radius = face_radius minimum face; work = face_work fl dst radius face
            in apply_soft_ellipse fl dst (blur_nrgba (region_of dst work) radius) (rc_x0 work) (rc_y0 work) face))"

definition blur_face_regions :: "'f floats \<Rightarrow> nrgba \<Rightarrow> rect list \<Rightarrow> int \<Rightarrow> nrgba" where
  "blur_face_regions fl im faces minimum_radius = foldl (blur_face fl minimum_radius) im faces"

section \<open>Facts\<close>

lemma blur_face_size [simp]:
  "ni_width (blur_face fl minimum im f) = ni_width im" "ni_height (blur_face fl minimum im f) = ni_height im"
  by (simp_all add: blur_face_def apply_soft_ellipse_def Let_def)

lemma blur_face_regions_size [simp]:
  "ni_width (blur_face_regions fl im faces minimum) = ni_width im"
  "ni_height (blur_face_regions fl im faces minimum) = ni_height im"
  by (induction faces arbitrary: im) (simp_all add: blur_face_regions_def)

lemma blur_face_regions_bounds [simp]: "nrgba_bounds (blur_face_regions fl im faces minimum) = nrgba_bounds im"
  by (simp add: nrgba_bounds_def)

lemma blur_face_bounds [simp]: "nrgba_bounds (blur_face fl minimum im f) = nrgba_bounds im"
  by (simp add: nrgba_bounds_def)

text \<open>Where a face has no influence, and where its mask is solid.\<close>

definition beyond_fade :: "'f floats \<Rightarrow> nrgba \<Rightarrow> rect \<Rightarrow> nat \<Rightarrow> nat \<Rightarrow> bool" where
  "beyond_fade fl im f x y \<longleftrightarrow>
     (let face = rect_intersect f (nrgba_bounds im); e = ellipse_of fl face
      in rect_empty face \<or> \<not> in_rect (mask_area fl e) (int x) (int y)
         \<or> fl_leq fl (fl_lit fl 13 1) (ellipse_distance fl e (int x) (int y)))"

definition within_solid :: "'f floats \<Rightarrow> nrgba \<Rightarrow> int \<Rightarrow> rect \<Rightarrow> nat \<Rightarrow> nat \<Rightarrow> bool" where
  "within_solid fl im minimum f x y \<longleftrightarrow>
     (let face = rect_intersect f (nrgba_bounds im); e = ellipse_of fl face
      in \<not> rect_empty face \<and> in_rect (mask_area fl e) (int x) (int y)
         \<and> in_rect (face_work fl im (face_radius minimum face) face) (int x) (int y)
         \<and> fl_leq fl (ellipse_distance fl e (int x) (int y)) (fl_lit fl 8 1))"

lemma blur_face_beyond:
  assumes "x < ni_width im" "y < ni_height im" "beyond_fade fl im f x y"
  shows "pixel_at (blur_face fl minimum im f) x y = pixel_at im x y"
  using assms by (auto simp: blur_face_def apply_soft_ellipse_def beyond_fade_def soft_pixel_def Let_def)

lemma beyond_fade_bounds:
  "nrgba_bounds im' = nrgba_bounds im \<Longrightarrow> beyond_fade fl im' f x y \<longleftrightarrow> beyond_fade fl im f x y"
  by (simp add: beyond_fade_def)

lemma blur_faces_beyond:
  "x < ni_width im \<Longrightarrow> y < ni_height im \<Longrightarrow> (\<And>f. f \<in> set faces \<Longrightarrow> beyond_fade fl im f x y) \<Longrightarrow>
    pixel_at (blur_face_regions fl im faces minimum) x y = pixel_at im x y"
proof (induction faces arbitrary: im)
  case (Cons f faces)
  have "pixel_at (blur_face_regions fl (blur_face fl minimum im f) faces minimum) x y = pixel_at (blur_face fl minimum im f) x y"
    using Cons.prems by (intro Cons.IH) (auto simp: beyond_fade_bounds [OF blur_face_bounds])
  with Cons.prems show ?case by (simp add: blur_face_regions_def blur_face_beyond)
qed (simp add: blur_face_regions_def)

lemma solid_pixel:
  assumes "float_order fl" "fl_leq fl distance (fl_lit fl 8 1)"
  shows "soft_pixel fl distance p q = q"
proof -
  have s: "short_lit 8 1" "short_lit 13 1" "short_lit 1 0" by (simp_all add: short_lit_def)
  have "fl_less fl distance (fl_lit fl 13 1)" using float_orderD(3) [OF assms(1) s(1,2) _ assms(2)] by simp
  then have "\<not> fl_leq fl (fl_lit fl 13 1) distance" using float_orderD(4) [OF assms(1)] by blast
  with assms(2) float_orderD(5) [OF assms(1) s(3)] show ?thesis by (simp add: soft_pixel_def face_mask_weight_def)
qed

lemma in_work_bounds: "in_rect (face_work fl im radius face) x y \<Longrightarrow> in_rect (nrgba_bounds im) x y"
  by (simp add: face_work_def Let_def)

lemma in_work_region:
  assumes "in_rect work x y"
  shows "in_rect (rect_add (nrgba_bounds (blur_nrgba (region_of im work) radius)) (rc_x0 work) (rc_y0 work)) x y"
proof -
  have "ni_width (blur_nrgba j radius) = ni_width j" "ni_height (blur_nrgba j radius) = ni_height j" for j
    by (simp_all add: blur_nrgba_def eval_nat_numeral)
  then have w: "ni_width (blur_nrgba (region_of im work) radius) = nat (rc_x1 work - rc_x0 work)"
    "ni_height (blur_nrgba (region_of im work) radius) = nat (rc_y1 work - rc_y0 work)"
    by (simp_all add: region_of_def rect_dx_def rect_dy_def)
  from assms have r: "rc_x0 work \<le> x" "x < rc_x1 work" "rc_y0 work \<le> y" "y < rc_y1 work" by (simp_all add: in_rect_def)
  have "in_rect (nrgba_bounds (blur_nrgba (region_of im work) radius)) (x - rc_x0 work) (y - rc_y0 work)"
    unfolding in_rect_bounds w using r by simp
  moreover have "in_rect (rect_add b dx dy) x y \<longleftrightarrow> in_rect b (x - dx) (y - dy)" for b dx dy
    unfolding in_rect_def rect_add_def rect.simps by linarith
  ultimately show ?thesis by blast
qed

lemma blur_face_solid:
  assumes "float_order fl" "within_solid fl im minimum f x y"
  defines "face \<equiv> rect_intersect f (nrgba_bounds im)"
  defines "work \<equiv> face_work fl im (face_radius minimum face) face"
  shows "pixel_at (blur_face fl minimum im f) x y =
    pixel_at (blur_nrgba (region_of im work) (face_radius minimum face)) (nat (int x - rc_x0 work)) (nat (int y - rc_y0 work))"
proof -
  from assms(2) have w: "\<not> rect_empty face" "in_rect (mask_area fl (ellipse_of fl face)) (int x) (int y)"
    "in_rect work (int x) (int y)" "fl_leq fl (ellipse_distance fl (ellipse_of fl face) (int x) (int y)) (fl_lit fl 8 1)"
    by (simp_all add: within_solid_def face_def work_def Let_def)
  have b: "x < ni_width im" "y < ni_height im" using in_work_bounds [of fl im _ face "int x" "int y"] w(3) by (auto simp: work_def)
  from w b in_work_region [OF w(3), of im "face_radius minimum face"] solid_pixel [OF assms(1) w(4)] show ?thesis
    by (simp add: blur_face_def apply_soft_ellipse_def face_def [symmetric] work_def [symmetric] Let_def)
qed

lemma detect_faces_inside:
  assumes "detect fl dt max_dimension im = Inr faces" "f \<in> set faces"
  shows "\<not> rect_empty f \<and> (\<forall>x y. in_rect f x y \<longrightarrow> 0 \<le> x \<and> x < int (ni_width im) \<and> 0 \<le> y \<and> y < int (ni_height im))"
proof -
  from assms(1) have "\<exists>rows scale. faces = filter (\<lambda>r. \<not> rect_empty r) (map (face_of_row fl dt scale (nrgba_bounds im)) rows)
      \<or> faces = []"
    by (auto simp: detect_def Let_def split: prod.splits sum.splits option.splits if_splits)
  with assms(2) obtain row scale where r: "\<not> rect_empty f" "f = face_of_row fl dt scale (nrgba_bounds im) row" by auto
  have "in_rect f x y \<Longrightarrow> in_rect (nrgba_bounds im) x y" for x y
    unfolding r(2) face_of_row_def expand_face_rect_def Let_def in_rect_intersect by blast
  with r(1) show ?thesis unfolding in_rect_bounds by blast
qed

lemma round_up_multiple:
  assumes "0 < v" "0 < m"
  shows "v \<le> round_up_to_multiple v m \<and> round_up_to_multiple v m < v + m \<and> m dvd round_up_to_multiple v m"
proof -
  have "(v + m - 1) sdiv m = (v + m - 1) div m" using assms by (simp add: signed_divide_int_def sgn_if)
  moreover have "(v + m - 1) div m * m = v + m - 1 - (v + m - 1) mod m" by (simp add: minus_mod_eq_div_mult)
  ultimately have r: "round_up_to_multiple v m = v + m - 1 - (v + m - 1) mod m" "m dvd round_up_to_multiple v m"
    using assms by (simp_all add: round_up_to_multiple_def)
  have "0 \<le> (v + m - 1) mod m" "(v + m - 1) mod m < m" using assms by simp_all
  with r show ?thesis by linarith
qed

section \<open>Properties\<close>

text \<open>
  C24: masking the faces covers them and nothing else. A pixel beyond the fade of every face is the pixel of the
  photo; a pixel in the solid part of a face's ellipse, and beyond the fade of the faces drawn after it,
  is the fully blurred pixel of the working area, with nothing of the photo left in it.
\<close>

theorem face_mask_exact:
  assumes "float_order fl" and "x < ni_width im" and "y < ni_height im"
  shows "((\<forall>f \<in> set faces. beyond_fade fl im f x y) \<longrightarrow>
      pixel_at (blur_face_regions fl im faces minimum) x y = pixel_at im x y) \<and>
    (faces = fs @ f # gs \<and> (\<forall>g \<in> set gs. beyond_fade fl im g x y) \<and>
      within_solid fl (blur_face_regions fl im fs minimum) minimum f x y \<longrightarrow>
     (let dst = blur_face_regions fl im fs minimum; face = rect_intersect f (nrgba_bounds im);
          radius = face_radius minimum face; work = face_work fl dst radius face
      in pixel_at (blur_face_regions fl im faces minimum) x y =
           pixel_at (blur_nrgba (region_of dst work) radius) (nat (int x - rc_x0 work)) (nat (int y - rc_y0 work))))"
proof (intro conjI impI)
  assume "\<forall>f \<in> set faces. beyond_fade fl im f x y"
  then show "pixel_at (blur_face_regions fl im faces minimum) x y = pixel_at im x y"
    using assms by (intro blur_faces_beyond) auto
next
  assume a: "faces = fs @ f # gs \<and> (\<forall>g \<in> set gs. beyond_fade fl im g x y) \<and>
    within_solid fl (blur_face_regions fl im fs minimum) minimum f x y"
  define dst where "dst = blur_face_regions fl im fs minimum"
  have b: "nrgba_bounds dst = nrgba_bounds im" by (simp add: dst_def)
  have "blur_face_regions fl im faces minimum = blur_face_regions fl (blur_face fl minimum dst f) gs minimum"
    using a by (simp add: blur_face_regions_def dst_def)
  moreover have "pixel_at (blur_face_regions fl (blur_face fl minimum dst f) gs minimum) x y = pixel_at (blur_face fl minimum dst f) x y"
    using a assms(2,3) b by (intro blur_faces_beyond) (auto simp: dst_def beyond_fade_def)
  moreover note blur_face_solid [OF assms(1), of dst minimum f x y]
  ultimately show "let dst = blur_face_regions fl im fs minimum; face = rect_intersect f (nrgba_bounds im);
          radius = face_radius minimum face; work = face_work fl dst radius face
      in pixel_at (blur_face_regions fl im faces minimum) x y =
           pixel_at (blur_nrgba (region_of dst work) radius) (nat (int x - rc_x0 work)) (nat (int y - rc_y0 work))"
    using a b by (simp add: dst_def [symmetric] Let_def)
qed

definition grey_square :: nrgba where
  "grey_square = make_image 5 5 (\<lambda>x y. grey (int (10 * x + y)))"

definition middle_face :: rect where
  "middle_face = image_rect 1 1 4 4"

theorem face_mask_exact_witness:
  "pixel_at (blur_face_regions rat_floats grey_square [middle_face] 1) 0 0 = grey 0 \<and>
   pixel_at (blur_face_regions rat_floats grey_square [middle_face] 1) 2 2 =
     pixel_at (blur_nrgba (region_of grey_square (image_rect 0 0 5 5)) 1) 2 2"
proof -
  have bounds: "nrgba_bounds grey_square = image_rect 0 0 5 5" by (simp add: nrgba_bounds_def grey_square_def)
  have face: "rect_intersect middle_face (image_rect 0 0 5 5) = middle_face"
    by (simp add: rect_intersect_def middle_face_def image_rect_def rect_empty_def)
  have e: "ellipse_of rat_floats middle_face = \<lparr>el_center_x = 2, el_center_y = 2, el_radius_x = 3 / 2, el_radius_y = 3 / 2\<rparr>"
    by (simp add: ellipse_of_def middle_face_def image_rect_def rect_dx_def rect_dy_def)
  have sq: "fl_sqrt rat_floats = (\<lambda>x. x)" by (simp add: rat_floats_def)
  have r: "face_radius 1 middle_face = 1"
    by (simp add: face_radius_def middle_face_def image_rect_def rect_dx_def rect_dy_def signed_divide_int_def)
  have "\<lfloor>9 / 20 :: rat\<rfloor> = 0" by (simp add: floor_eq_iff)
  then have w: "face_work rat_floats grey_square 1 middle_face = image_rect 0 0 5 5"
    by (simp add: face_work_def bounds middle_face_def image_rect_def rect_dx_def rect_dy_def rat_trunc_def rect_intersect_def rect_empty_def Let_def)
  have "\<lfloor>1 / 20 :: rat\<rfloor> = 0" "\<lceil>79 / 20 :: rat\<rceil> = 4" by (simp_all add: floor_eq_iff ceiling_eq_iff)
  then have area: "mask_area rat_floats \<lparr>el_center_x = 2, el_center_y = 2, el_radius_x = 3 / 2, el_radius_y = 3 / 2\<rparr> = image_rect 0 0 5 5"
    by (simp add: mask_area_def rat_trunc_def Let_def)
  have "beyond_fade rat_floats grey_square middle_face 0 0"
    by (simp add: beyond_fade_def bounds face e ellipse_distance_def sq Let_def)
  moreover have "\<not> rect_empty middle_face" by (simp add: rect_empty_def middle_face_def image_rect_def)
  moreover have "in_rect (image_rect 0 0 5 5) 2 2" by (simp add: in_rect_def image_rect_def)
  ultimately have s: "beyond_fade rat_floats grey_square middle_face 0 0" "within_solid rat_floats grey_square 1 middle_face 2 2"
    by (simp_all add: within_solid_def bounds face e r w area ellipse_distance_def sq Let_def)
  have id: "blur_face_regions rat_floats grey_square [] 1 = grey_square" by (simp add: blur_face_regions_def)
  have "2 < ni_width grey_square" "2 < ni_height grey_square" by (simp_all add: grey_square_def)
  from face_mask_exact [OF float_order_rat this, of "[middle_face]" 1 "[]" middle_face "[]"] s(2)
  have "pixel_at (blur_face_regions rat_floats grey_square [middle_face] 1) 2 2 =
     pixel_at (blur_nrgba (region_of grey_square (image_rect 0 0 5 5)) 1) 2 2"
    by (simp add: id bounds face r w Let_def) (simp add: image_rect_def)
  moreover have "pixel_at (blur_face_regions rat_floats grey_square [middle_face] 1) 0 0 = pixel_at grey_square 0 0"
    using face_mask_exact [OF float_order_rat, of 0 grey_square 0 "[middle_face]" 1] s(1) by (simp add: grey_square_def)
  moreover have "pixel_at grey_square 0 0 = grey 0" by (simp add: grey_square_def)
  ultimately show ?thesis by simp
qed

end
