(* ===== verification/Image_Processor.thy ===== *)
theory Image_Processor
  imports Face_Blur Delivery_Crop
begin

text \<open>
  Image processing, \<open>internal/imageproc/processor.go\<close>, \<open>heif.go\<close> and \<open>privacyVariants\<close> of \<open>privacy.go\<close>:
  which renditions of an upload are made, with which size, format and name. Codecs, resampling and the
  external programs are the parameter \<open>imaging\<close>; \<open>'i\<close> is the type of decoded pictures. What a
  \<open>CatmullRom.Scale\<close> or a \<open>draw.Draw\<close> puts into its destination is one function of that record each.
\<close>

section \<open>Data\<close>

record variant =
  va_key :: string
  va_filename :: string
  va_data :: bytes
  va_format :: string
  va_content_type :: string
  va_width :: int
  va_height :: int

record image_result =
  re_is_image :: bool
  re_format :: string
  re_width :: int
  re_height :: int
  re_variants :: "variant list"

datatype image_error =
    Image_too_large
  | Decode_failed
  | Frame_outside
  | Cancelled
  | Detector_unavailable
  | Detect_failed detect_error
  | Encode_failed string

record 'i imaging =
  im_decode_config :: "bytes \<Rightarrow> (int \<times> int \<times> string) option"
  im_decode :: "bytes \<Rightarrow> 'i option"
  im_bounds :: "'i \<Rightarrow> rect"
  im_to_nrgba :: "'i \<Rightarrow> nrgba"
  im_of_nrgba :: "nrgba \<Rightarrow> 'i"
  im_cut :: "'i \<Rightarrow> rect \<Rightarrow> nrgba"
  im_scale_over :: "nrgba \<Rightarrow> rect \<Rightarrow> 'i \<Rightarrow> nrgba"
  im_draw_over :: "nrgba \<Rightarrow> nrgba \<Rightarrow> int \<Rightarrow> int \<Rightarrow> nrgba"
  im_jpeg :: "nrgba \<Rightarrow> int \<Rightarrow> bytes option"
  im_jpegtran :: "string list \<Rightarrow> bytes \<Rightarrow> bytes option"
  im_png :: "nrgba \<Rightarrow> bytes option"
  im_ffmpeg :: "string \<Rightarrow> string list \<Rightarrow> bytes \<Rightarrow> bytes option"

record 'f processor =
  pr_cfg :: "'f image_config"
  pr_ffmpeg_path :: string
  pr_detector :: "'f detector option"
  pr_detector_failed :: bool

definition new_processor :: "'f floats \<Rightarrow> 'f image_config \<Rightarrow> string \<Rightarrow> 'f detector option \<Rightarrow> 'f processor" where
  "new_processor fl cfg ffmpeg_path detector =
     \<lparr>pr_cfg = cfg\<lparr>ic_privacy := normalize_image_privacy_config fl (ic_privacy cfg)\<rparr>, pr_ffmpeg_path = ffmpeg_path,
      pr_detector = detector, pr_detector_failed = (detector = None)\<rparr>"

definition max_decode_pixels :: int where "max_decode_pixels = 100000000"

definition too_many_pixels :: "int \<Rightarrow> int \<Rightarrow> bool" where
  "too_many_pixels w h \<longleftrightarrow> w \<le> 0 \<or> h \<le> 0 \<or> int64 (w * h) > max_decode_pixels"

section \<open>Formats\<close>

definition normalize_format :: "string \<Rightarrow> string \<Rightarrow> string" where
  "normalize_format format content_type =
     (if format = ''jpeg'' \<or> format = ''png'' \<or> format = ''webp'' then format
      else if str_contains content_type ''jpeg'' then ''jpeg''
      else if str_contains content_type ''png'' then ''png''
      else if str_contains content_type ''webp'' then ''webp''
      else format)"

definition content_type_for_format :: "string \<Rightarrow> string" where
  "content_type_for_format format = (if format = ''webp'' then ''image/webp'' else ''image/jpeg'')"

definition format_extension :: "string \<Rightarrow> string" where
  "format_extension format = (if format = ''jpeg'' then ''jpg'' else format)"

definition output_format :: "'f processor \<Rightarrow> string \<Rightarrow> string" where
  "output_format p source_format =
     (if ic_output_format (pr_cfg p) = ''jpeg'' \<or> ic_output_format (pr_cfg p) = ''webp'' then ic_output_format (pr_cfg p)
      else if source_format = ''png'' \<or> source_format = ''webp'' then ''webp'' else ''jpeg'')"

section \<open>Encoding\<close>

definition encode_with_ffmpeg :: "'i imaging \<Rightarrow> 'f processor \<Rightarrow> nrgba \<Rightarrow> string \<Rightarrow> bytes option" where
  "encode_with_ffmpeg im p picture format = (case im_png im picture of
      None \<Rightarrow> None
    | Some png \<Rightarrow>
        if format \<noteq> ''webp'' then None
        else im_ffmpeg im (if pr_ffmpeg_path p = [] then ''ffmpeg'' else pr_ffmpeg_path p)
               ([''-v'', ''error'', ''-f'', ''png_pipe'', ''-i'', ''pipe:0'', ''-frames:v'', ''1''] @
                [''-f'', ''image2pipe'', ''-vcodec'', ''libwebp'', ''-quality'', itoa (ic_webp_quality (pr_cfg p)), ''pipe:1''])
               png)"

definition encode_progressive_jpeg :: "'i imaging \<Rightarrow> bytes \<Rightarrow> bytes option" where
  "encode_progressive_jpeg im baseline = im_jpegtran im [''-progressive'', ''-copy'', ''none'', ''-optimize''] baseline"

definition encode :: "'i imaging \<Rightarrow> 'f processor \<Rightarrow> nrgba \<Rightarrow> string \<Rightarrow> bytes option" where
  "encode im p picture format =
     (if format = ''webp'' then encode_with_ffmpeg im p picture ''webp''
      else (case im_jpeg im picture (ic_jpeg_quality (pr_cfg p)) of
          None \<Rightarrow> None
        | Some baseline \<Rightarrow> if ic_jpeg_progressive (pr_cfg p) then encode_progressive_jpeg im baseline else Some baseline))"

section \<open>Sizes\<close>

definition white :: pixel where
  "white = \<lparr>px_red = 255, px_green = 255, px_blue = 255, px_alpha = 255\<rparr>"

definition blank :: "int \<Rightarrow> int \<Rightarrow> bool \<Rightarrow> nrgba" where
  "blank w h whited = make_image (nat w) (nat h) (\<lambda>x y. if whited then white else no_pixel)"

definition scaled_side :: "'f floats \<Rightarrow> int \<Rightarrow> 'f \<Rightarrow> int" where
  "scaled_side fl side scale = max 1 (fl_to_int fl (fl_round fl (fl_mul fl (fl_of_int fl side) scale)))"

definition fit_inside :: "'f floats \<Rightarrow> 'i imaging \<Rightarrow> 'i \<Rightarrow> int \<Rightarrow> nrgba" where
  "fit_inside fl im src max_side =
     (let b = im_bounds im src;
          scale = fl_min fl (fl_lit fl 1 0)
            (fl_div fl (fl_of_int fl max_side) (fl_of_int fl (max (rect_dx b) (rect_dy b))));
          width = scaled_side fl (rect_dx b) scale;
          height = scaled_side fl (rect_dy b) scale
      in im_scale_over im (blank width height True) (image_rect 0 0 width height) src)"

definition resize :: "'f floats \<Rightarrow> 'i imaging \<Rightarrow> 'i \<Rightarrow> int \<Rightarrow> int \<Rightarrow> string \<Rightarrow> bool \<Rightarrow> nrgba" where
  "resize fl im src width height policy white_background =
     (let dst = blank width height white_background; b = im_bounds im src; sw = rect_dx b; sh = rect_dy b;
          sx = fl_div fl (fl_of_int fl width) (fl_of_int fl sw); sy = fl_div fl (fl_of_int fl height) (fl_of_int fl sh)
      in if sw = 0 \<or> sh = 0 then dst
         else if policy = ''fit'' then
           (let scale = fl_min fl sx sy; nw = scaled_side fl sw scale; nh = scaled_side fl sh scale;
                left = (width - nw) sdiv 2; above = (height - nh) sdiv 2
            in im_scale_over im dst (image_rect left above (left + nw) (above + nh)) src)
         else
           (let scale = fl_max fl sx sy; nw = scaled_side fl sw scale; nh = scaled_side fl sh scale;
                scaled = im_scale_over im (blank nw nh False) (image_rect 0 0 nw nh) src
            in im_draw_over im dst scaled ((nw - width) sdiv 2) ((nh - height) sdiv 2)))"

section \<open>Previews\<close>

definition preview_of :: "'f floats \<Rightarrow> 'i imaging \<Rightarrow> 'f processor \<Rightarrow> 'i \<Rightarrow> image_variant \<Rightarrow> image_error + bytes" where
  "preview_of fl im p src v =
     (let picture = (if iv_mode v = ''fit'' then fit_inside fl im src (iv_width v)
                     else resize fl im src (iv_width v) (iv_height v) (ic_resize_policy (pr_cfg p)) True)
      in case encode im p picture ''jpeg'' of None \<Rightarrow> Inl (Encode_failed (iv_key v)) | Some bs \<Rightarrow> Inr bs)"

text \<open>The common head of the previews: the size asked for, the size announced, then the picture.\<close>

definition decode_bounded :: "'i imaging \<Rightarrow> bytes \<Rightarrow> image_variant \<Rightarrow> image_error + 'i" where
  "decode_bounded im data v =
     (if too_many_pixels (iv_width v) (iv_height v) then Inl Image_too_large
      else (case im_decode_config im data of
          None \<Rightarrow> Inl Decode_failed
        | Some (w, h, format) \<Rightarrow>
            if too_many_pixels w h then Inl Image_too_large
            else (case im_decode im data of None \<Rightarrow> Inl Decode_failed | Some src \<Rightarrow> Inr src)))"

definition configured_preview_bytes ::
    "'f floats \<Rightarrow> 'i imaging \<Rightarrow> 'f processor \<Rightarrow> bytes \<Rightarrow> image_variant \<Rightarrow> image_error + bytes" where
  "configured_preview_bytes fl im p data v =
     (case decode_bounded im data v of Inl e \<Rightarrow> Inl e | Inr src \<Rightarrow> preview_of fl im p src v)"

definition fit_preview :: "'f floats \<Rightarrow> 'i imaging \<Rightarrow> 'f processor \<Rightarrow> bytes \<Rightarrow> int \<Rightarrow> image_error + bytes" where
  "fit_preview fl im p data max_side = configured_preview_bytes fl im p data
     \<lparr>iv_key = [], iv_width = max_side, iv_height = max_side, iv_mode = ''fit''\<rparr>"

definition frame_of :: "'f floats \<Rightarrow> rect \<Rightarrow> 'f crop \<Rightarrow> rect" where
  "frame_of fl b c =
     (let place = (\<lambda>fraction side. fl_to_int fl (fl_round fl (fl_mul fl fraction (fl_of_int fl side))))
      in rect_intersect (image_rect
           (rc_x0 b + place (cr_x c) (rect_dx b)) (rc_y0 b + place (cr_y c) (rect_dy b))
           (rc_x0 b + place (fl_add fl (cr_x c) (cr_w c)) (rect_dx b))
           (rc_y0 b + place (fl_add fl (cr_y c) (cr_h c)) (rect_dy b))) b)"

definition cropped_preview ::
    "'f floats \<Rightarrow> 'i imaging \<Rightarrow> 'f processor \<Rightarrow> bytes \<Rightarrow> image_variant \<Rightarrow> 'f crop \<Rightarrow> image_error + bytes" where
  "cropped_preview fl im p data v c = (case decode_bounded im data v of
      Inl e \<Rightarrow> Inl e
    | Inr src \<Rightarrow>
        (let part = frame_of fl (im_bounds im src) c
         in if rect_dx part < 1 \<or> rect_dy part < 1 then Inl Frame_outside
            else preview_of fl im p (im_of_nrgba im (im_cut im src part)) v))"

text \<open>The choice \<open>ensureConfiguredPreview\<close> makes between the two.\<close>

definition processor_preview ::
    "'f floats \<Rightarrow> 'i imaging \<Rightarrow> 'f processor \<Rightarrow> bytes \<Rightarrow> image_variant \<Rightarrow> 'f crop option \<Rightarrow> bytes option" where
  "processor_preview fl im p data v crop =
     (case (case crop of None \<Rightarrow> configured_preview_bytes fl im p data v | Some c \<Rightarrow> cropped_preview fl im p data v c) of
        Inl e \<Rightarrow> None | Inr bs \<Rightarrow> Some bs)"

section \<open>Renditions of an upload\<close>

definition privacy_variant :: "string \<Rightarrow> string \<Rightarrow> bytes \<Rightarrow> nrgba \<Rightarrow> variant" where
  "privacy_variant key format data picture =
     \<lparr>va_key = key, va_filename = key @ ''.'' @ format_extension format, va_data = data, va_format = format,
      va_content_type = content_type_for_format format, va_width = int (ni_width picture), va_height = int (ni_height picture)\<rparr>"

definition privacy_variants ::
    "'f floats \<Rightarrow> 'i imaging \<Rightarrow> 'f processor \<Rightarrow> bool \<Rightarrow> 'i \<Rightarrow> string \<Rightarrow> image_error + variant list" where
  "privacy_variants fl im p cancelled src format =
     (if cancelled then Inl Cancelled
      else if pr_detector_failed p then Inl Detector_unavailable
      else (case pr_detector p of
          None \<Rightarrow> Inl Detector_unavailable
        | Some dt \<Rightarrow>
            (let normalized = im_to_nrgba im src; privacy = ic_privacy (pr_cfg p);
                 whole = blur_nrgba normalized (pv_blur_radius privacy)
             in case encode im p whole format of
                  None \<Rightarrow> Inl (Encode_failed privacy_blur_variant_key)
                | Some whole_encoded \<Rightarrow>
                    (case detect fl dt (pv_face_detection_max_dimension privacy) normalized of
                       Inl e \<Rightarrow> Inl (Detect_failed e)
                     | Inr faces \<Rightarrow>
                         (let masked = (if length faces > 0 then blur_face_regions fl normalized faces (pv_face_blur_radius privacy)
                                        else whole)
                          in case encode im p masked format of
                               None \<Rightarrow> Inl (Encode_failed privacy_face_blur_variant_key)
                             | Some faces_encoded \<Rightarrow> Inr
                                 [privacy_variant privacy_blur_variant_key format whole_encoded normalized,
                                  privacy_variant privacy_face_blur_variant_key format faces_encoded normalized])))))"

definition sized_variant ::
    "'f floats \<Rightarrow> 'i imaging \<Rightarrow> 'f processor \<Rightarrow> 'i \<Rightarrow> string \<Rightarrow> image_variant \<Rightarrow> variant option" where
  "sized_variant fl im p src format v =
     (if iv_mode v = ''fit'' then
        (let resized = fit_inside fl im src (iv_width v)
         in map_option (\<lambda>encoded.
              \<lparr>va_key = iv_key v, va_filename = iv_key v @ ''.jpg'', va_data = encoded, va_format = ''jpeg'',
               va_content_type = ''image/jpeg'', va_width = int (ni_width resized), va_height = int (ni_height resized)\<rparr>)
              (encode im p resized ''jpeg''))
      else
        map_option (\<lambda>encoded.
          \<lparr>va_key = iv_key v, va_filename = iv_key v @ ''.'' @ format_extension format, va_data = encoded, va_format = format,
           va_content_type = content_type_for_format format, va_width = iv_width v, va_height = iv_height v\<rparr>)
          (encode im p (resize fl im src (iv_width v) (iv_height v) (ic_resize_policy (pr_cfg p)) (format = ''jpeg'')) format))"

fun sized_variants ::
    "'f floats \<Rightarrow> 'i imaging \<Rightarrow> 'f processor \<Rightarrow> 'i \<Rightarrow> string \<Rightarrow> image_variant list \<Rightarrow> image_error + variant list" where
  "sized_variants fl im p src format [] = Inr []"
| "sized_variants fl im p src format (v # vs) =
     (if iv_width v \<le> 0 \<or> iv_height v \<le> 0 then sized_variants fl im p src format vs
      else (case sized_variant fl im p src format v of
          None \<Rightarrow> Inl (Encode_failed (iv_key v))
        | Some r \<Rightarrow> (case sized_variants fl im p src format vs of Inl e \<Rightarrow> Inl e | Inr rs \<Rightarrow> Inr (r # rs))))"

definition process ::
    "'f floats \<Rightarrow> 'i imaging \<Rightarrow> 'f processor \<Rightarrow> bool \<Rightarrow> bytes \<Rightarrow> string \<Rightarrow> image_error + image_result" where
  "process fl im p cancelled data content_type = (case im_decode_config im data of
      None \<Rightarrow> Inr \<lparr>re_is_image = False, re_format = [], re_width = 0, re_height = 0, re_variants = []\<rparr>
    | Some (w, h, decoded) \<Rightarrow>
        if too_many_pixels w h then Inl Image_too_large
        else
          (let format = normalize_format decoded content_type;
               result = \<lparr>re_is_image = True, re_format = format, re_width = w, re_height = h, re_variants = []\<rparr>
           in case im_decode im data of
                None \<Rightarrow> Inr result
              | Some src \<Rightarrow> (case privacy_variants fl im p cancelled src (output_format p format) of
                    Inl e \<Rightarrow> Inl e
                  | Inr privacy \<Rightarrow>
                      if \<not> ic_processing_enabled (pr_cfg p) \<or> ic_variants (pr_cfg p) = []
                      then Inr (result\<lparr>re_variants := privacy\<rparr>)
                      else (case sized_variants fl im p src (output_format p format) (ic_variants (pr_cfg p)) of
                          Inl e \<Rightarrow> Inl e
                        | Inr sized \<Rightarrow> Inr (result\<lparr>re_variants := privacy @ sized\<rparr>)))))"

definition process_privacy ::
    "'f floats \<Rightarrow> 'i imaging \<Rightarrow> 'f processor \<Rightarrow> bool \<Rightarrow> bytes \<Rightarrow> string \<Rightarrow> image_error + variant list" where
  "process_privacy fl im p cancelled data content_type = (case im_decode_config im data of
      None \<Rightarrow> Inr []
    | Some (w, h, decoded) \<Rightarrow> (case im_decode im data of
          None \<Rightarrow> Inr []
        | Some src \<Rightarrow> privacy_variants fl im p cancelled src (output_format p (normalize_format decoded content_type))))"

section \<open>HEIF\<close>

definition heif_brands :: "string list" where
  "heif_brands = [''heic'', ''heix'', ''heim'', ''heis'', ''hevc'', ''hevx'', ''hevm'', ''hevs'', ''mif1'', ''msf1'']"

definition is_heif :: "bytes \<Rightarrow> bool" where
  "is_heif data \<longleftrightarrow> length data \<ge> 12 \<and> text_of (take 4 (drop 4 data)) = ''ftyp'' \<and>
     to_lower (text_of (take 4 (drop 8 data))) \<in> set heif_brands"

definition jpeg_filename :: "string \<Rightarrow> string" where
  "jpeg_filename filename =
     (let base = trim_suffix (file_base filename) (file_ext filename)
      in (if trim_space base = [] then ''image'' else base) @ ''.jpg'')"

text \<open>
  The converter: \<open>None\<close> when the workspace, the source file or the program fails, otherwise the target file
  as far as it can be read and the numbered files of a source with several pictures.
\<close>

type_synonym heif_tool = "string \<Rightarrow> bytes \<Rightarrow> (bytes option \<times> bytes option list) option"

definition transcode_heif :: "heif_tool \<Rightarrow> 'f processor \<Rightarrow> bytes \<Rightarrow> bytes option" where
  "transcode_heif convert p data =
     (let quality = (if ic_jpeg_quality (pr_cfg p) < 1 \<or> ic_jpeg_quality (pr_cfg p) > 100 then 90 else ic_jpeg_quality (pr_cfg p));
          some_image = (\<lambda>f. case f of None \<Rightarrow> None | Some bs \<Rightarrow> if bs = [] then None else Some bs)
      in case convert (itoa quality) data of
           None \<Rightarrow> None
         | Some (target, numbered) \<Rightarrow> (case some_image target of
               Some bs \<Rightarrow> Some bs
             | None \<Rightarrow> (case numbered of [] \<Rightarrow> None | f # _ \<Rightarrow> some_image f)))"

section \<open>Facts\<close>

definition usable_variant :: "image_variant \<Rightarrow> bool" where
  "usable_variant v \<longleftrightarrow> 0 < iv_width v \<and> 0 < iv_height v"

lemma sized_variant_key: "sized_variant fl im p src format v = Some r \<Longrightarrow> va_key r = iv_key v"
  by (auto simp: sized_variant_def Let_def split: if_splits)

lemma sized_variants_keys:
  "sized_variants fl im p src format vs = Inr rs \<Longrightarrow> map va_key rs = map iv_key (filter usable_variant vs)"
proof (induction vs arbitrary: rs)
  case (Cons v vs)
  then show ?case
    by (auto simp: usable_variant_def sized_variant_key split: if_splits option.splits sum.splits)
qed simp

lemma privacy_variants_Inr:
  assumes "privacy_variants fl im p cancelled src format = Inr vs"
  shows "\<exists>dt faces whole masked. pr_detector p = Some dt \<and>
    detect fl dt (pv_face_detection_max_dimension (ic_privacy (pr_cfg p))) (im_to_nrgba im src) = Inr faces \<and>
    encode im p (blur_nrgba (im_to_nrgba im src) (pv_blur_radius (ic_privacy (pr_cfg p)))) format = Some whole \<and>
    (if faces = [] then masked = whole
     else encode im p (blur_face_regions fl (im_to_nrgba im src) faces (pv_face_blur_radius (ic_privacy (pr_cfg p)))) format = Some masked) \<and>
    vs = [privacy_variant privacy_blur_variant_key format whole (im_to_nrgba im src),
          privacy_variant privacy_face_blur_variant_key format masked (im_to_nrgba im src)]"
  using assms
  by (auto simp: privacy_variants_def Let_def split: if_splits option.splits sum.splits)

section \<open>Properties\<close>

text \<open>
  C10: every picture that can be decoded is stored with both protected renditions. Whatever the configuration,
  the first variant is the blur of the whole picture and the second its face mask: the picture with every
  detected face masked or, when no face is found, the whole blur again, never an unprotected copy; after
  them comes one variant for every usable configured size, unless processing is off.
\<close>

theorem privacy_always_present:
  assumes "process fl im p cancelled data content_type = Inr r" and "im_decode im data = Some src" and "re_is_image r"
  shows "\<exists>dt faces whole masked format sized n. n = im_to_nrgba im src \<and> pr_detector p = Some dt \<and>
    re_variants r = privacy_variant ''blur'' format whole n # privacy_variant ''blur_faces'' format masked n # sized \<and>
    encode im p (blur_nrgba n (pv_blur_radius (ic_privacy (pr_cfg p)))) format = Some whole \<and>
    detect fl dt (pv_face_detection_max_dimension (ic_privacy (pr_cfg p))) n = Inr faces \<and>
    (if faces = [] then masked = whole
     else encode im p (blur_face_regions fl n faces (pv_face_blur_radius (ic_privacy (pr_cfg p)))) format = Some masked) \<and>
    map va_key sized = (if ic_processing_enabled (pr_cfg p) then map iv_key (filter usable_variant (ic_variants (pr_cfg p))) else [])"
proof -
  from assms obtain format vs sized where v: "privacy_variants fl im p cancelled src format = Inr vs" "re_variants r = vs @ sized"
    and s: "(\<not> ic_processing_enabled (pr_cfg p) \<or> ic_variants (pr_cfg p) = []) \<and> sized = [] \<or>
      ic_processing_enabled (pr_cfg p) \<and> sized_variants fl im p src format (ic_variants (pr_cfg p)) = Inr sized"
    by (fastforce simp: process_def Let_def split: option.splits if_splits sum.splits)
  from s have k: "map va_key sized = (if ic_processing_enabled (pr_cfg p) then map iv_key (filter usable_variant (ic_variants (pr_cfg p))) else [])"
    by (auto dest: sized_variants_keys)
  from privacy_variants_Inr [OF v(1)] obtain dt faces whole masked where
    "pr_detector p = Some dt"
    "detect fl dt (pv_face_detection_max_dimension (ic_privacy (pr_cfg p))) (im_to_nrgba im src) = Inr faces"
    "encode im p (blur_nrgba (im_to_nrgba im src) (pv_blur_radius (ic_privacy (pr_cfg p)))) format = Some whole"
    "if faces = [] then masked = whole
     else encode im p (blur_face_regions fl (im_to_nrgba im src) faces (pv_face_blur_radius (ic_privacy (pr_cfg p)))) format = Some masked"
    "vs = [privacy_variant privacy_blur_variant_key format whole (im_to_nrgba im src),
          privacy_variant privacy_face_blur_variant_key format masked (im_to_nrgba im src)]" by blast
  with v(2) k show ?thesis
    by (intro exI [of _ dt] exI [of _ faces] exI [of _ whole] exI [of _ masked] exI [of _ format] exI [of _ sized]
        exI [of _ "im_to_nrgba im src"]) (auto simp: privacy_blur_variant_key_def privacy_face_blur_variant_key_def)
qed

definition example_imaging :: "nrgba imaging" where
  "example_imaging = \<lparr>im_decode_config = (\<lambda>b. Some (3, 1, ''jpeg'')), im_decode = (\<lambda>b. Some grey_line),
     im_bounds = nrgba_bounds, im_to_nrgba = (\<lambda>i. i), im_of_nrgba = (\<lambda>i. i), im_cut = region_of,
     im_scale_over = (\<lambda>dst r src. dst), im_draw_over = (\<lambda>dst src x y. dst),
     im_jpeg = (\<lambda>i q. Some (map px_red (ni_pix i))), im_jpegtran = (\<lambda>args. Some), im_png = (\<lambda>i. Some []), im_ffmpeg = (\<lambda>p args b. Some b)\<rparr>"

definition blind_detector :: "rat detector" where
  "blind_detector = \<lparr>dt_scale = (\<lambda>i w h. i), dt_run = (\<lambda>b w h. Inr None), dt_add32 = (+)\<rparr>"

definition example_processor :: "rat processor" where
  "example_processor = new_processor rat_floats (load_image rat_floats (\<lambda>k. if k = ''IMAGE_PROCESSING_ENABLED'' then ''0'' else []))
     ''ffmpeg'' (Some blind_detector)"

lemma example_imaging_simps:
  "im_decode_config example_imaging b = Some (3, 1, ''jpeg'')" "im_decode example_imaging b = Some grey_line"
  "im_to_nrgba example_imaging i = i"
  by (simp_all add: example_imaging_def)

lemma example_processor_simps:
  "\<not> ic_processing_enabled (pr_cfg example_processor)" "pr_detector example_processor = Some blind_detector"
  "\<not> pr_detector_failed example_processor" "detect rat_floats blind_detector m i = Inr []"
  "encode example_imaging example_processor i ''jpeg'' = Some (map px_red (ni_pix i))" "output_format example_processor ''jpeg'' = ''jpeg''"
proof -
  show "output_format example_processor ''jpeg'' = ''jpeg''"
    by (simp add: output_format_def example_processor_def new_processor_def load_image_def validate_choice_def get_env_def Let_def)
      (simp add: trim_space_plain_all plain_char_def ascii_space_def lower_char_def)
  show "detect rat_floats blind_detector m i = Inr []" by (simp add: detect_def blind_detector_def Let_def split: prod.splits)
qed (simp_all add: example_processor_def new_processor_def load_image_def get_env_bool_def get_env_parsed_def parse_bool_def
    encode_def encode_progressive_jpeg_def example_imaging_def)

lemma example_privacy:
  "\<exists>w. process_privacy rat_floats example_imaging example_processor False data ''image/jpeg'' =
     Inr [privacy_variant ''blur'' ''jpeg'' w grey_line, privacy_variant ''blur_faces'' ''jpeg'' w grey_line]"
  by (simp add: process_privacy_def example_imaging_simps normalize_format_def example_processor_simps privacy_variants_def
      privacy_blur_variant_key_def privacy_face_blur_variant_key_def Let_def) blast

theorem privacy_always_present_witness:
  "\<exists>r whole. process rat_floats example_imaging example_processor False [] ''image/jpeg'' = Inr r \<and>
    map va_key (re_variants r) = [''blur'', ''blur_faces''] \<and> map va_data (re_variants r) = [whole, whole]"
proof -
  have "\<exists>r. process rat_floats example_imaging example_processor False [] ''image/jpeg'' = Inr r \<and> re_is_image r"
    by (simp add: process_def example_imaging_simps too_many_pixels_def max_decode_pixels_def normalize_format_def
        privacy_variants_def example_processor_simps Let_def)
  then obtain r where r: "process rat_floats example_imaging example_processor False [] ''image/jpeg'' = Inr r" "re_is_image r" by blast
  from privacy_always_present [OF r(1) example_imaging_simps(2) r(2)] example_processor_simps(1,2,4) obtain whole format where
    "re_variants r = [privacy_variant ''blur'' format whole grey_line, privacy_variant ''blur_faces'' format whole grey_line]"
    by (auto simp: example_imaging_simps)
  with r(1) show ?thesis by (auto simp: privacy_variant_def)
qed

end
