(* ===== verification/Metadata_Strip.thy ===== *)
theory Metadata_Strip
  imports Go_Strings
begin

unbundle bit_operations_syntax

text \<open>
  \<open>internal/imageproc/metadata.go\<close>: what a picture says about where and how it was taken is removed before
  the picture is stored. The loops of the source walk an index \<open>i\<close> over the data; here they walk the
  rest \<open>data[i:]\<close>, so \<open>i + n <= len(data)\<close> reads \<open>n \<le> length rest\<close>. A loop that gives up (the source
  then returns the data unchanged) is \<open>None\<close>.
\<close>

section \<open>Numbers in byte strings\<close>

fun be_value :: "bytes \<Rightarrow> nat" where
  "be_value [] = 0"
| "be_value (b # bs) = unat b * 256 ^ length bs + be_value bs"

definition u16 :: "bool \<Rightarrow> bytes \<Rightarrow> nat" where
  "u16 big bs = be_value (if big then take 2 bs else rev (take 2 bs))"

definition u32 :: "bool \<Rightarrow> bytes \<Rightarrow> nat" where
  "u32 big bs = be_value (if big then take 4 bs else rev (take 4 bs))"

definition put_le32 :: "nat \<Rightarrow> bytes" where
  "put_le32 n = map (\<lambda>k. word_of_nat (n div 256 ^ k)) [0 ..< 4]"

section \<open>The orientation of a JPEG\<close>

fun tiff_entries :: "bool \<Rightarrow> bytes \<Rightarrow> nat \<Rightarrow> nat \<Rightarrow> nat" where
  "tiff_entries big tiff start 0 = 0"
| "tiff_entries big tiff start (Suc n) =
     (if start + 12 > length tiff then 0
      else if u16 big (drop start tiff) = 0x0112 then u16 big (drop (start + 8) tiff)
      else tiff_entries big tiff (start + 12) n)"

definition tiff_orientation :: "bytes \<Rightarrow> nat" where
  "tiff_orientation tiff =
     (if length tiff < 8 then 0
      else if text_of (take 2 tiff) \<noteq> ''II'' \<and> text_of (take 2 tiff) \<noteq> ''MM'' then 0
      else
        (let big = (text_of (take 2 tiff) = ''MM''); offset = u32 big (drop 4 tiff)
         in if offset < 8 \<or> offset + 2 > length tiff then 0
            else tiff_entries big tiff (offset + 2) (u16 big (drop offset tiff))))"

definition standalone :: "8 word \<Rightarrow> bool" where
  "standalone m \<longleftrightarrow> (0xD0 \<le> m \<and> m \<le> 0xD7) \<or> m = 0x01"

definition exif_header :: bytes where
  "exif_header = bytes_of ''Exif'' @ [0, 0]"

function orientation_loop :: "bytes \<Rightarrow> nat" where
  "orientation_loop rest =
     (if length rest < 4 then 0
      else if rest ! 0 \<noteq> 0xFF then 0
      else if rest ! 1 = 0xDA \<or> rest ! 1 = 0xD9 then 0
      else if standalone (rest ! 1) \<or> rest ! 1 = 0xFF then orientation_loop (drop 2 rest)
      else
        (let len = u16 True (drop 2 rest)
         in if len < 2 \<or> 2 + len > length rest then 0
            else
              (let payload = take (len - 2) (drop 4 rest);
                   found = (if rest ! 1 = 0xE1 \<and> length payload > 14 \<and> take 6 payload = exif_header
                            then tiff_orientation (drop 6 payload) else 0)
               in if found > 0 then found else orientation_loop (drop (2 + len) rest))))"
  by pat_completeness auto
termination by (relation "measure length") auto

declare orientation_loop.simps [simp del]

definition jpeg_orientation :: "bytes \<Rightarrow> nat" where
  "jpeg_orientation data = orientation_loop (drop 2 data)"

definition orientation_tiff :: "nat \<Rightarrow> bytes" where
  "orientation_tiff orientation =
     bytes_of ''MM'' @ [0x00, 0x2A, 0x00, 0x00, 0x00, 0x08, 0x00, 0x01,
       0x01, 0x12, 0x00, 0x03, 0x00, 0x00, 0x00, 0x01, 0x00, word_of_nat orientation, 0x00, 0x00,
       0x00, 0x00, 0x00, 0x00]"

definition jpeg_orientation_segment :: "nat \<Rightarrow> bytes" where
  "jpeg_orientation_segment orientation =
     (let payload = exif_header @ orientation_tiff orientation; n = length payload + 2
      in [0xFF, 0xE1, word_of_nat (n div 256), word_of_nat n] @ payload)"

section \<open>JPEG\<close>

function jpeg_loop :: "bytes \<Rightarrow> bytes \<Rightarrow> bytes option" where
  "jpeg_loop rest out =
     (if length rest < 2 then None
      else if rest ! 0 \<noteq> 0xFF then None
      else if rest ! 1 = 0xFF then jpeg_loop (drop 1 rest) out
      else if rest ! 1 = 0xDA \<or> rest ! 1 = 0xD9 then Some (out @ rest)
      else if standalone (rest ! 1) then jpeg_loop (drop 2 rest) (out @ take 2 rest)
      else if length rest < 4 then None
      else
        (let len = u16 True (drop 2 rest)
         in if len < 2 \<or> 2 + len > length rest then None
            else jpeg_loop (drop (2 + len) rest)
                   (if rest ! 1 \<noteq> 0xE1 \<and> rest ! 1 \<noteq> 0xED \<and> rest ! 1 \<noteq> 0xFE then out @ take (2 + len) rest else out)))"
  by pat_completeness auto
termination by (relation "measure (length \<circ> fst)") auto

declare jpeg_loop.simps [simp del]

definition strip_jpeg_metadata :: "bytes \<Rightarrow> bytes" where
  "strip_jpeg_metadata data =
     (let orientation = jpeg_orientation data;
          out = [0xFF, 0xD8] @ (if orientation > 1 \<and> orientation \<le> 8 then jpeg_orientation_segment orientation else [])
      in case jpeg_loop (drop 2 data) out of None \<Rightarrow> data | Some result \<Rightarrow> result)"

section \<open>PNG\<close>

function png_loop :: "bytes \<Rightarrow> bytes \<Rightarrow> bytes option" where
  "png_loop rest out =
     (if length rest < 12 then None
      else
        (let len = u32 True rest; kind = text_of (take 4 (drop 4 rest))
         in if 12 + len > length rest then None
            else
              (let out1 = (if kind \<in> {''eXIf'', ''tEXt'', ''zTXt'', ''iTXt'', ''tIME''} then out
                             else out @ take (12 + len) rest)
               in if kind = ''IEND'' then Some out1 else png_loop (drop (12 + len) rest) out1)))"
  by pat_completeness auto
termination by (relation "measure (length \<circ> fst)") auto

declare png_loop.simps [simp del]

definition strip_png_metadata :: "bytes \<Rightarrow> bytes" where
  "strip_png_metadata data = (case png_loop (drop 8 data) (take 8 data) of None \<Rightarrow> data | Some out \<Rightarrow> out)"

section \<open>WebP\<close>

definition clean_vp8x :: "bytes \<Rightarrow> bytes" where
  "clean_vp8x chunk = (if length chunk > 8 then chunk[8 := (chunk ! 8) AND NOT (0x08 OR 0x04)] else chunk)"

definition webp_chunk_length :: "bytes \<Rightarrow> nat option" where
  "webp_chunk_length rest =
     (let n = u32 False (drop 4 rest); padded = n + n mod 2
      in if 8 + padded > length rest then (if 8 + n = length rest then Some (8 + n) else None)
         else Some (8 + padded))"

function webp_loop :: "bytes \<Rightarrow> bytes \<Rightarrow> bytes option" where
  "webp_loop rest out =
     (if length rest < 8 then Some out
      else (case webp_chunk_length rest of
          None \<Rightarrow> None
        | Some len \<Rightarrow>
            (let kind = text_of (take 4 rest); chunk = take len rest
             in webp_loop (drop len rest)
                  (if kind = ''EXIF'' \<or> kind = ''XMP '' then out
                   else if kind = ''VP8X'' then out @ clean_vp8x chunk
                   else out @ chunk))))"
  by pat_completeness auto
termination
  by (relation "measure (length \<circ> fst)") (auto simp: webp_chunk_length_def Let_def split: if_splits)

declare webp_loop.simps [simp del]

definition strip_webp_metadata :: "bytes \<Rightarrow> bytes" where
  "strip_webp_metadata data = (case webp_loop (drop 12 data) (take 12 data) of
      None \<Rightarrow> data
    | Some out \<Rightarrow> take 4 out @ put_le32 (length out - 8) @ drop 8 out)"

definition png_signature :: bytes where
  "png_signature = [0x89] @ bytes_of ''PNG'' @ [0x0D, 0x0A, 0x1A, 0x0A]"

definition strip_metadata :: "bytes \<Rightarrow> bytes" where
  "strip_metadata data =
     (if length data > 4 \<and> data ! 0 = 0xFF \<and> data ! 1 = 0xD8 then strip_jpeg_metadata data
      else if length data > 8 \<and> take 8 data = png_signature then strip_png_metadata data
      else if length data > 12 \<and> text_of (take 4 data) = ''RIFF'' \<and> text_of (take 4 (drop 8 data)) = ''WEBP''
      then strip_webp_metadata data
      else data)"

section \<open>The segments of a JPEG\<close>

text \<open>
  What a JPEG header consists of, read independently of what is kept: the segments before the picture data,
  each with its marker and its bytes, and the tail that starts with the scan (or the end of image).
\<close>

type_synonym segment = "8 word \<times> bytes"

function jpeg_segments :: "bytes \<Rightarrow> (segment list \<times> bytes) option" where
  "jpeg_segments rest =
     (if length rest < 2 \<or> rest ! 0 \<noteq> 0xFF then None
      else if rest ! 1 = 0xFF then jpeg_segments (drop 1 rest)
      else if rest ! 1 = 0xDA \<or> rest ! 1 = 0xD9 then Some ([], rest)
      else
        (let n = (if standalone (rest ! 1) then 2 else if length rest < 4 then 0
                  else if u16 True (drop 2 rest) < 2 then 0 else 2 + u16 True (drop 2 rest))
         in if n = 0 \<or> n > length rest then None
            else map_option (\<lambda>(segs, tail). ((rest ! 1, take n rest) # segs, tail)) (jpeg_segments (drop n rest))))"
  by pat_completeness auto
termination by (relation "measure length") (auto split: if_splits)

declare jpeg_segments.simps [simp del]

text \<open>The segments that carry EXIF or XMP (APP1), IPTC (APP13) and comments.\<close>

definition dropped_marker :: "8 word \<Rightarrow> bool" where
  "dropped_marker m \<longleftrightarrow> m = 0xE1 \<or> m = 0xED \<or> m = 0xFE"

definition kept_segments :: "segment list \<Rightarrow> segment list" where
  "kept_segments segs = filter (\<lambda>s. \<not> dropped_marker (fst s)) segs"

definition joined :: "segment list \<Rightarrow> bytes" where
  "joined segs = concat (map snd segs)"

lemma joined_simps [simp]: "joined [] = []" "joined (s # ss) = snd s @ joined ss" "joined (xs @ ys) = joined xs @ joined ys"
  by (simp_all add: joined_def)

lemma standalone_kept: "standalone m \<Longrightarrow> \<not> dropped_marker m"
  by (auto simp: standalone_def dropped_marker_def)

lemma jpeg_loop_segments:
  "jpeg_loop rest out = map_option (\<lambda>(segs, tail). out @ joined (kept_segments segs) @ tail) (jpeg_segments rest)"
proof (induction rest out rule: jpeg_loop.induct)
  case (1 rest out)
  consider (bad) "length rest < 2 \<or> rest ! 0 \<noteq> 0xFF" | (fill) "\<not> length rest < 2" "rest ! 0 = 0xFF" "rest ! 1 = 0xFF"
    | (scan) "\<not> length rest < 2" "rest ! 0 = 0xFF" "rest ! 1 = 0xDA \<or> rest ! 1 = 0xD9"
    | (single) "\<not> length rest < 2" "rest ! 0 = 0xFF" "rest ! 1 \<noteq> 0xFF" "\<not> (rest ! 1 = 0xDA \<or> rest ! 1 = 0xD9)" "standalone (rest ! 1)"
    | (seg) "\<not> length rest < 2" "rest ! 0 = 0xFF" "rest ! 1 \<noteq> 0xFF" "\<not> (rest ! 1 = 0xDA \<or> rest ! 1 = 0xD9)" "\<not> standalone (rest ! 1)"
    by blast
  then show ?case
  proof cases
    case bad
    then show ?thesis by (subst jpeg_loop.simps, subst jpeg_segments.simps) auto
  next
    case fill
    with "1.IH"(1) show ?thesis by (subst jpeg_loop.simps, subst jpeg_segments.simps) auto
  next
    case scan
    then show ?thesis by (subst jpeg_loop.simps, subst jpeg_segments.simps) (auto simp: kept_segments_def)
  next
    case single
    with "1.IH"(2) standalone_kept show ?thesis
      by (subst jpeg_loop.simps, subst jpeg_segments.simps)
        (auto simp: kept_segments_def option.map_comp comp_def case_prod_beta intro!: option.map_cong)
  next
    case seg
    with "1.IH"(3) show ?thesis
      by (subst jpeg_loop.simps, subst jpeg_segments.simps)
        (auto simp: kept_segments_def dropped_marker_def option.map_comp comp_def case_prod_beta Let_def intro!: option.map_cong)
  qed
qed

definition segment_ok :: "segment \<Rightarrow> bool" where
  "segment_ok s \<longleftrightarrow> length (snd s) \<ge> 2 \<and> snd s ! 0 = 0xFF \<and> snd s ! 1 = fst s \<and> fst s \<notin> {0xFF, 0xDA, 0xD9} \<and>
     (if standalone (fst s) then length (snd s) = 2
      else length (snd s) \<ge> 4 \<and> u16 True (drop 2 (snd s)) \<ge> 2 \<and> length (snd s) = 2 + u16 True (drop 2 (snd s)))"

definition tail_ok :: "bytes \<Rightarrow> bool" where
  "tail_ok t \<longleftrightarrow> length t \<ge> 2 \<and> t ! 0 = 0xFF \<and> (t ! 1 = 0xDA \<or> t ! 1 = 0xD9)"

lemma u16_take: "4 \<le> n \<Longrightarrow> u16 big (drop 2 (take n xs)) = u16 big (drop 2 xs)"
  by (simp add: u16_def drop_take min_def)

lemma u16_append: "4 \<le> length xs \<Longrightarrow> u16 big (drop 2 (xs @ ys)) = u16 big (drop 2 xs)"
  by (simp add: u16_def)

lemma jpeg_segments_ok:
  "jpeg_segments rest = Some (segs, tail) \<Longrightarrow> list_all segment_ok segs \<and> tail_ok tail"
proof (induction rest arbitrary: segs tail rule: jpeg_segments.induct)
  case (1 rest)
  define n where "n = (if standalone (rest ! 1) then 2 else if length rest < 4 then 0
    else if u16 True (drop 2 rest) < 2 then 0 else 2 + u16 True (drop 2 rest))"
  from "1.prems" have a: "\<not> (length rest < 2 \<or> rest ! 0 \<noteq> 0xFF)" by (subst (asm) jpeg_segments.simps) (auto split: if_splits)
  show ?case
  proof (cases "rest ! 1 = 0xFF")
    case True
    with "1.prems" a have "jpeg_segments (drop 1 rest) = Some (segs, tail)" by (subst (asm) jpeg_segments.simps) auto
    with "1.IH"(1) [OF a True] show ?thesis by blast
  next
    case nf: False
    show ?thesis
    proof (cases "rest ! 1 = 0xDA \<or> rest ! 1 = 0xD9")
      case True
      with "1.prems" a nf show ?thesis by (subst (asm) jpeg_segments.simps) (auto simp: tail_ok_def)
    next
      case False
      have "jpeg_segments rest = (if n = 0 \<or> n > length rest then None
          else map_option (\<lambda>(segs, tail). ((rest ! 1, take n rest) # segs, tail)) (jpeg_segments (drop n rest)))"
        unfolding n_def using a nf False by (subst jpeg_segments.simps) (simp add: Let_def)
      with "1.prems" obtain segs' where s: "n \<noteq> 0" "n \<le> length rest" "segs = (rest ! 1, take n rest) # segs'"
        "jpeg_segments (drop n rest) = Some (segs', tail)" by (auto split: if_splits)
      have "n \<ge> 2" using s(1) by (auto simp: n_def split: if_splits)
      have "segment_ok (rest ! 1, take n rest)"
        using a nf False s(1,2) \<open>n \<ge> 2\<close> by (auto simp: segment_ok_def n_def u16_take split: if_splits)
      with "1.IH"(2) [OF a nf False n_def _ s(4)] s show ?thesis by simp
    qed
  qed
qed

lemma jpeg_segments_Cons:
  assumes "segment_ok s"
  shows "jpeg_segments (snd s @ rest) = map_option (\<lambda>(segs, tail). (s # segs, tail)) (jpeg_segments rest)"
proof -
  let ?r = "snd s @ rest"
  from assms have l: "length (snd s) \<ge> 2" "snd s ! 0 = 0xFF" "snd s ! 1 = fst s" "fst s \<noteq> 0xFF" "fst s \<noteq> 0xDA" "fst s \<noteq> 0xD9"
    by (simp_all add: segment_ok_def)
  then have r: "?r ! 0 = 0xFF" "?r ! 1 = fst s" by (simp_all only: nth_append) auto
  have n: "(if standalone (fst s) then 2 else if length ?r < 4 then 0
      else if u16 True (drop 2 ?r) < 2 then 0 else 2 + u16 True (drop 2 ?r)) = length (snd s)"
  proof (cases "standalone (fst s)")
    case True
    with assms show ?thesis by (simp add: segment_ok_def)
  next
    case False
    with assms have f: "length (snd s) \<ge> 4" "u16 True (drop 2 (snd s)) \<ge> 2" "length (snd s) = 2 + u16 True (drop 2 (snd s))"
      by (simp_all add: segment_ok_def)
    with False u16_append [OF f(1)] show ?thesis by simp
  qed
  have "jpeg_segments ?r = map_option (\<lambda>(segs, tail). ((fst s, take (length (snd s)) ?r) # segs, tail)) (jpeg_segments (drop (length (snd s)) ?r))"
    unfolding jpeg_segments.simps [of ?r] Let_def r n using l(1,4-6) by (cases "snd s") auto
  then show ?thesis by simp
qed

lemma jpeg_segments_joined:
  "list_all segment_ok segs \<Longrightarrow> tail_ok tail \<Longrightarrow> jpeg_segments (joined segs @ tail) = Some (segs, tail)"
proof (induction segs)
  case Nil
  then show ?case by (subst jpeg_segments.simps) (auto simp: tail_ok_def)
next
  case (Cons s segs)
  then show ?case using jpeg_segments_Cons [of s "joined segs @ tail"] by simp
qed

section \<open>The orientation survives\<close>

lemma orientation_value:
  assumes "1 < n" and "n \<le> 8"
  shows "tiff_orientation (orientation_tiff n) = n"
proof -
  from assms have "unat (word_of_nat n :: 8 word) = n" by (simp add: unat_of_nat)
  let ?t = "orientation_tiff n"
  have t: "?t = [77, 77, 0, 42, 0, 0, 0, 8, 0, 1, 1, 18, 0, 3, 0, 0, 0, 1, 0, word_of_nat n, 0, 0, 0, 0, 0, 0]"
    by (simp add: orientation_tiff_def bytes_of_def)
  have "take 2 ?t = bytes_of ''MM''" by (simp add: orientation_tiff_def bytes_of_def)
  then have mm: "text_of (take 2 ?t) = ''MM''" "length ?t = 26" by (simp_all only: text_of_bytes_of) (simp add: t)
  have u: "u32 True (drop 4 ?t) = 8" "u16 True (drop 8 ?t) = 1" "u16 True (drop 10 ?t) = 0x0112"
    by (simp_all add: t u16_def u32_def)
  have v: "u16 True (drop 18 ?t) = n" using \<open>unat (word_of_nat n :: 8 word) = n\<close> by (simp add: t u16_def)
  have "tiff_entries True ?t 10 1 = n" using u(3) v mm(2) by (simp only: One_nat_def tiff_entries.simps) simp
  with mm u(1,2) show ?thesis by (simp add: tiff_orientation_def Let_def)
qed

lemma orientation_segment_shape:
  "jpeg_orientation_segment n = [0xFF, 0xE1, 0, 34] @ exif_header @ orientation_tiff n"
  "length (jpeg_orientation_segment n) = 36" "length (exif_header @ orientation_tiff n) = 32"
  by (simp_all add: jpeg_orientation_segment_def exif_header_def orientation_tiff_def bytes_of_def Let_def)

lemma orientation_segment_ok: "segment_ok (0xE1, jpeg_orientation_segment n)"
  by (simp add: segment_ok_def orientation_segment_shape(2)) (simp add: orientation_segment_shape(1) standalone_def u16_def)

lemma orientation_loop_segment:
  assumes "1 < n" and "n \<le> 8"
  shows "orientation_loop (jpeg_orientation_segment n @ rest) = n"
proof -
  let ?p = "exif_header @ orientation_tiff n"
  let ?r = "jpeg_orientation_segment n @ rest"
  have r: "?r = [0xFF, 0xE1, 0, 34] @ ?p @ rest" by (simp add: orientation_segment_shape(1))
  have p: "take 32 (drop 4 ?r) = ?p" unfolding r using orientation_segment_shape(3) [of n] by simp
  have u: "u16 True (drop 2 ?r) = 34" unfolding r by (simp add: u16_def)
  have x: "?r ! 0 = 0xFF" "?r ! 1 = 0xE1" "\<not> length ?r < 4" unfolding r by simp_all
  have l: "\<not> 2 + 34 > length ?r" using orientation_segment_shape(2) [of n] by simp
  have e: "take 6 ?p = exif_header" "drop 6 ?p = orientation_tiff n" by (simp_all add: exif_header_def bytes_of_def)
  have m: "\<not> standalone 0xE1" by (simp add: standalone_def)
  show ?thesis
    unfolding orientation_loop.simps [of ?r] Let_def u x(1,2)
    using x(3) l p m orientation_value [OF assms] assms e orientation_segment_shape(3) [of n] by simp
qed

lemma orientation_loop_none:
  "list_all segment_ok segs \<Longrightarrow> list_all (\<lambda>s. fst s \<noteq> 0xE1) segs \<Longrightarrow> tail_ok tail \<Longrightarrow> orientation_loop (joined segs @ tail) = 0"
proof (induction segs)
  case Nil
  then show ?case by (subst orientation_loop.simps) (auto simp: tail_ok_def)
next
  case (Cons s segs)
  let ?r = "snd s @ joined segs @ tail"
  from Cons.prems have ok: "segment_ok s" "fst s \<noteq> 0xE1" by auto
  then have l: "length (snd s) \<ge> 2" "snd s ! 0 = 0xFF" "snd s ! 1 = fst s" by (simp_all add: segment_ok_def)
  then have r: "?r ! 0 = 0xFF" "?r ! 1 = fst s" by (simp_all only: nth_append) auto
  have IH: "orientation_loop (joined segs @ tail) = 0" using Cons by simp
  have "orientation_loop ?r = 0"
  proof (cases "standalone (fst s)")
    case True
    with ok have "length (snd s) = 2" by (simp add: segment_ok_def)
    then have d: "drop 2 ?r = joined segs @ tail" by simp
    show ?thesis unfolding orientation_loop.simps [of ?r] r d using True IH by simp
  next
    case False
    with ok have f: "length (snd s) \<ge> 4" "length (snd s) = 2 + u16 True (drop 2 (snd s))" by (simp_all add: segment_ok_def)
    have "u16 True (drop 2 ?r) = u16 True (drop 2 (snd s))" by (rule u16_append [OF f(1)])
    with f(2) have d: "u16 True (drop 2 ?r) = length (snd s) - 2" by linarith
    have "drop (2 + (length (snd s) - 2)) ?r = joined segs @ tail" using f by simp
    moreover have "fst s \<noteq> 0xFF" using ok by (simp add: segment_ok_def)
    ultimately show ?thesis
      using f(1) False ok IH unfolding orientation_loop.simps [of ?r] Let_def d r by simp
  qed
  then show ?case by simp
qed

lemma strip_jpeg_value:
  assumes "length data > 4" and "data ! 0 = 0xFF" and "data ! 1 = 0xD8" and "jpeg_segments (drop 2 data) = Some (segs, tail)"
  shows "strip_metadata data = [0xFF, 0xD8] @
    (if jpeg_orientation data > 1 \<and> jpeg_orientation data \<le> 8 then jpeg_orientation_segment (jpeg_orientation data) else []) @
    joined (kept_segments segs) @ tail"
  using assms by (simp add: strip_metadata_def strip_jpeg_metadata_def Let_def jpeg_loop_segments)

lemma kept_segments_ok: "list_all segment_ok segs \<Longrightarrow> list_all segment_ok (kept_segments segs)"
  by (auto simp: kept_segments_def list_all_iff)

lemma kept_segments_twice [simp]: "kept_segments (kept_segments segs) = kept_segments segs"
  by (simp add: kept_segments_def)

lemma kept_no_exif: "list_all (\<lambda>s. fst s \<noteq> 0xE1) (kept_segments segs)"
  by (auto simp: kept_segments_def list_all_iff dropped_marker_def)

section \<open>The chunks of a PNG\<close>

function png_chunks :: "bytes \<Rightarrow> (string \<times> bytes) list option" where
  "png_chunks rest =
     (if length rest < 12 \<or> 12 + u32 True rest > length rest then None
      else
        (let kind = text_of (take 4 (drop 4 rest)); n = 12 + u32 True rest
         in if kind = ''IEND'' then Some [(kind, take n rest)]
            else map_option (Cons (kind, take n rest)) (png_chunks (drop n rest))))"
  by pat_completeness auto
termination by (relation "measure length") auto

declare png_chunks.simps [simp del]

text \<open>The chunks that carry EXIF, text and the time of the last change.\<close>

definition png_metadata :: "string \<Rightarrow> bool" where
  "png_metadata kind \<longleftrightarrow> kind \<in> {''eXIf'', ''tEXt'', ''zTXt'', ''iTXt'', ''tIME''}"

definition kept_chunks :: "(string \<times> bytes) list \<Rightarrow> (string \<times> bytes) list" where
  "kept_chunks cs = filter (\<lambda>c. \<not> png_metadata (fst c)) cs"

lemma png_loop_chunks:
  "png_loop rest out = map_option (\<lambda>cs. out @ concat (map snd (kept_chunks cs))) (png_chunks rest)"
proof (induction rest out rule: png_loop.induct)
  case (1 rest out)
  have iend: "\<not> png_metadata ''IEND''" by (simp add: png_metadata_def)
  show ?case
  proof (cases "length rest < 12 \<or> 12 + u32 True rest > length rest")
    case True
    then show ?thesis by (subst png_loop.simps, subst png_chunks.simps) (auto simp: Let_def)
  next
    case ok: False
    let ?n = "12 + u32 True rest"
    let ?kind = "text_of (take 4 (drop 4 rest))"
    show ?thesis
    proof (cases "?kind = ''IEND''")
      case True
      with ok iend show ?thesis by (subst png_loop.simps, subst png_chunks.simps) (simp add: Let_def kept_chunks_def)
    next
      case False
      have IH: "png_loop (drop ?n rest) o' = map_option (\<lambda>cs. o' @ concat (map snd (kept_chunks cs))) (png_chunks (drop ?n rest))"
        if "o' = (if png_metadata ?kind then out else out @ take ?n rest)" for o'
        using "1.IH" [OF _ refl refl _ that [unfolded png_metadata_def] False] ok by auto
      have "png_loop rest out = png_loop (drop ?n rest) (if png_metadata ?kind then out else out @ take ?n rest)"
        using ok False by (subst png_loop.simps) (simp add: Let_def png_metadata_def)
      moreover have "png_chunks rest = map_option (Cons (?kind, take ?n rest)) (png_chunks (drop ?n rest))"
        using ok False by (subst png_chunks.simps) (simp add: Let_def)
      ultimately show ?thesis
        using IH [OF refl] by (auto simp: option.map_comp comp_def kept_chunks_def intro!: option.map_cong)
    qed
  qed
qed

definition chunk_ok :: "string \<times> bytes \<Rightarrow> bool" where
  "chunk_ok c \<longleftrightarrow> length (snd c) \<ge> 12 \<and> length (snd c) = 12 + u32 True (snd c) \<and> fst c = text_of (take 4 (drop 4 (snd c)))"

lemma png_chunks_ok:
  "png_chunks rest = Some cs \<Longrightarrow> list_all chunk_ok cs \<and> cs \<noteq> [] \<and> fst (last cs) = ''IEND'' \<and>
    list_all (\<lambda>c. fst c \<noteq> ''IEND'') (butlast cs)"
proof (induction rest arbitrary: cs rule: png_chunks.induct)
  case (1 rest)
  let ?n = "12 + u32 True rest"
  let ?c = "(text_of (take 4 (drop 4 rest)), take ?n rest)"
  from "1.prems" have a: "\<not> (length rest < 12 \<or> ?n > length rest)" by (subst (asm) png_chunks.simps) (auto split: if_splits)
  have ok: "chunk_ok ?c" using a by (simp add: chunk_ok_def u32_def drop_take min_def)
  show ?case
  proof (cases "fst ?c = ''IEND''")
    case True
    with "1.prems" a have "cs = [?c]" by (subst (asm) png_chunks.simps) (simp add: Let_def)
    with ok True show ?thesis by simp
  next
    case False
    have "png_chunks rest = map_option (Cons ?c) (png_chunks (drop ?n rest))"
      using a False by (subst png_chunks.simps) (simp add: Let_def)
    with "1.prems" obtain cs' where cs: "cs = ?c # cs'" "png_chunks (drop ?n rest) = Some cs'" by auto
    from "1.IH" [OF a refl refl _ cs(2)] False ok show ?thesis by (simp add: cs(1))
  qed
qed

lemma png_chunks_concat:
  "list_all chunk_ok cs \<Longrightarrow> cs \<noteq> [] \<Longrightarrow> fst (last cs) = ''IEND'' \<Longrightarrow> list_all (\<lambda>c. fst c \<noteq> ''IEND'') (butlast cs) \<Longrightarrow>
    png_chunks (concat (map snd cs)) = Some cs"
proof (induction cs)
  case (Cons c cs)
  let ?r = "snd c @ concat (map snd cs)"
  from Cons.prems have ok: "chunk_ok c" by simp
  then have l: "length (snd c) \<ge> 12" "length (snd c) = 12 + u32 True (snd c)" "text_of (take 4 (drop 4 (snd c))) = fst c"
    by (simp_all add: chunk_ok_def)
  have u: "u32 True ?r = u32 True (snd c)" using l(1) by (simp add: u32_def)
  have k: "text_of (take 4 (drop 4 ?r)) = fst c" using l by simp
  have n: "take (12 + u32 True ?r) ?r = snd c" "drop (12 + u32 True ?r) ?r = concat (map snd cs)"
    unfolding u l(2) [symmetric] by simp_all
  have len: "\<not> (length ?r < 12 \<or> 12 + u32 True ?r > length ?r)" unfolding u l(2) [symmetric] using l(1) by simp
  have "png_chunks ?r = (if fst c = ''IEND'' then Some [c] else map_option (Cons c) (png_chunks (concat (map snd cs))))"
    unfolding png_chunks.simps [of ?r] Let_def k n if_not_P [OF len] by (cases c) simp
  with Cons show ?case by (cases "cs = []") auto
qed simp

section \<open>The chunks of a WebP\<close>

function webp_chunks :: "bytes \<Rightarrow> (string \<times> bytes) list option" where
  "webp_chunks rest =
     (if length rest < 8 then Some []
      else (case webp_chunk_length rest of
          None \<Rightarrow> None
        | Some n \<Rightarrow> map_option (Cons (text_of (take 4 rest), take n rest)) (webp_chunks (drop n rest))))"
  by pat_completeness auto
termination
  by (relation "measure length") (auto simp: webp_chunk_length_def Let_def split: if_splits)

declare webp_chunks.simps [simp del]

definition webp_metadata :: "string \<Rightarrow> bool" where
  "webp_metadata kind \<longleftrightarrow> kind = ''EXIF'' \<or> kind = ''XMP ''"

definition clean_chunk :: "string \<times> bytes \<Rightarrow> string \<times> bytes" where
  "clean_chunk c = (if fst c = ''VP8X'' then (fst c, clean_vp8x (snd c)) else c)"

definition clean_chunks :: "(string \<times> bytes) list \<Rightarrow> (string \<times> bytes) list" where
  "clean_chunks cs = map clean_chunk (filter (\<lambda>c. \<not> webp_metadata (fst c)) cs)"

lemma webp_loop_chunks:
  "webp_loop rest out = map_option (\<lambda>cs. out @ concat (map snd (clean_chunks cs))) (webp_chunks rest)"
proof (induction rest out rule: webp_loop.induct)
  case (1 rest out)
  show ?case
  proof (cases "length rest < 8")
    case True
    then show ?thesis by (subst webp_loop.simps, subst webp_chunks.simps) (simp add: clean_chunks_def)
  next
    case ok: False
    show ?thesis
    proof (cases "webp_chunk_length rest")
      case None
      with ok show ?thesis by (subst webp_loop.simps, subst webp_chunks.simps) simp
    next
      case (Some n)
      let ?kind = "text_of (take 4 rest)"
      define o' where "o' = (if ?kind = ''EXIF'' \<or> ?kind = ''XMP '' then out
        else if ?kind = ''VP8X'' then out @ clean_vp8x (take n rest) else out @ take n rest)"
      have IH: "webp_loop (drop n rest) o' = map_option (\<lambda>cs. o' @ concat (map snd (clean_chunks cs))) (webp_chunks (drop n rest))"
        unfolding o'_def by (rule "1.IH" [OF ok Some refl refl])
      have "webp_loop rest out = webp_loop (drop n rest) o'"
        using ok Some by (subst webp_loop.simps) (simp add: Let_def o'_def)
      moreover have "webp_chunks rest = map_option (Cons (?kind, take n rest)) (webp_chunks (drop n rest))"
        using ok Some by (subst webp_chunks.simps) simp
      moreover have "o' = out @ concat (map snd (clean_chunks [(?kind, take n rest)]))"
        by (auto simp: o'_def clean_chunks_def clean_chunk_def webp_metadata_def)
      ultimately show ?thesis
        using IH by (auto simp: option.map_comp comp_def clean_chunks_def intro!: option.map_cong)
    qed
  qed
qed

lemma length_clean_vp8x [simp]: "length (clean_vp8x c) = length c"
  by (simp add: clean_vp8x_def)

text \<open>
  A chunk has an 8-byte header that says how long its payload is and is padded to an even length;
  only the last chunk of a file may lack the padding.
\<close>

definition chunk_payload :: "string \<times> bytes \<Rightarrow> nat" where
  "chunk_payload c = u32 False (drop 4 (snd c))"

fun webp_ok :: "(string \<times> bytes) list \<Rightarrow> bool" where
  "webp_ok [] = True"
| "webp_ok (c # cs) \<longleftrightarrow> length (snd c) \<ge> 8 \<and> fst c = text_of (take 4 (snd c)) \<and>
     (length (snd c) = 8 + chunk_payload c + chunk_payload c mod 2 \<or> (length (snd c) = 8 + chunk_payload c \<and> cs = [])) \<and> webp_ok cs"

lemma u32_append: "8 \<le> length xs \<Longrightarrow> u32 big (drop 4 (xs @ ys)) = u32 big (drop 4 xs)"
  by (simp add: u32_def)

lemma webp_chunks_ok: "webp_chunks rest = Some cs \<Longrightarrow> webp_ok cs"
proof (induction rest arbitrary: cs rule: webp_chunks.induct)
  case (1 rest)
  show ?case
  proof (cases "length rest < 8")
    case True
    with "1.prems" show ?thesis by (subst (asm) webp_chunks.simps) simp
  next
    case ok: False
    with "1.prems" obtain n where n: "webp_chunk_length rest = Some n" by (subst (asm) webp_chunks.simps) (auto split: option.splits)
    have "webp_chunks rest = map_option (Cons (text_of (take 4 rest), take n rest)) (webp_chunks (drop n rest))"
      using ok n by (subst webp_chunks.simps) simp
    with "1.prems" obtain cs' where cs: "cs = (text_of (take 4 rest), take n rest) # cs'" "webp_chunks (drop n rest) = Some cs'" by auto
    let ?p = "u32 False (drop 4 rest)"
    from n have b: "n \<ge> 8" "n \<le> length rest" "n = 8 + ?p + ?p mod 2 \<or> (n = 8 + ?p \<and> n = length rest)"
      by (auto simp: webp_chunk_length_def Let_def split: if_splits)
    have p: "chunk_payload (text_of (take 4 rest), take n rest) = ?p"
      using u32_append [of "take n rest" False "drop n rest"] b by (simp add: chunk_payload_def)
    have "n = length rest \<Longrightarrow> cs' = []" using cs(2) by (subst (asm) webp_chunks.simps) simp
    with b p "1.IH" [OF ok n cs(2)] show ?thesis by (auto simp: cs(1) min_def)
  qed
qed

lemma webp_chunks_concat: "webp_ok cs \<Longrightarrow> webp_chunks (concat (map snd cs)) = Some cs"
proof (induction cs)
  case Nil
  then show ?case by (subst webp_chunks.simps) simp
next
  case (Cons c cs)
  let ?r = "snd c @ concat (map snd cs)"
  from Cons.prems have l: "length (snd c) \<ge> 8" "fst c = text_of (take 4 (snd c))"
    "length (snd c) = 8 + chunk_payload c + chunk_payload c mod 2 \<or> (length (snd c) = 8 + chunk_payload c \<and> cs = [])" by auto
  have u: "u32 False (drop 4 ?r) = chunk_payload c" using u32_append [OF l(1)] by (simp add: chunk_payload_def)
  have n: "webp_chunk_length ?r = Some (length (snd c))"
    unfolding webp_chunk_length_def u Let_def using l(3)
  proof (elim disjE)
    assume "length (snd c) = 8 + chunk_payload c \<and> cs = []"
    then show "(if 8 + (chunk_payload c + chunk_payload c mod 2) > length ?r
        then if 8 + chunk_payload c = length ?r then Some (8 + chunk_payload c) else None
        else Some (8 + (chunk_payload c + chunk_payload c mod 2))) = Some (length (snd c))"
      by (cases "chunk_payload c mod 2 = 0") simp_all
  qed simp
  have "webp_chunks ?r = map_option (Cons (text_of (take 4 ?r), take (length (snd c)) ?r)) (webp_chunks (drop (length (snd c)) ?r))"
    using l(1) by (subst webp_chunks.simps) (simp add: n)
  with l Cons show ?case by (cases c) simp
qed

lemma clean_chunk_shape:
  "length (snd c) \<ge> 8 \<Longrightarrow> fst c = text_of (take 4 (snd c)) \<Longrightarrow>
    length (snd (clean_chunk c)) = length (snd c) \<and> fst (clean_chunk c) = fst c \<and>
    take 8 (snd (clean_chunk c)) = take 8 (snd c) \<and> chunk_payload (clean_chunk c) = chunk_payload c"
proof -
  assume a: "length (snd c) \<ge> 8" "fst c = text_of (take 4 (snd c))"
  have t: "take 8 (clean_vp8x (snd c)) = take 8 (snd c)" by (simp add: clean_vp8x_def)
  then have "take 4 (drop 4 (clean_vp8x (snd c))) = take 4 (drop 4 (snd c))" by (metis numeral_Bit0 take_drop)
  with t show ?thesis by (simp add: clean_chunk_def chunk_payload_def u32_def)
qed

lemma clean_chunks_ok: "webp_ok cs \<Longrightarrow> webp_ok (clean_chunks cs)"
proof (induction cs)
  case (Cons c cs)
  have "take 4 (snd (clean_chunk c)) = take 4 (snd c)" if "take 8 (snd (clean_chunk c)) = take 8 (snd c)"
    using arg_cong [OF that, of "take 4"] by simp
  with Cons clean_chunk_shape [of c] show ?case by (auto simp: clean_chunks_def)
qed (simp add: clean_chunks_def)

lemma put_le32_length [simp]: "length (put_le32 n) = 4"
  by (simp add: put_le32_def)

lemma u32_put_le32: "n < 2 ^ 32 \<Longrightarrow> u32 False (put_le32 n @ bs) = n"
proof -
  assume n: "n < 2 ^ 32"
  have b: "unat (word_of_nat m :: 8 word) = m mod 256" for m by (simp add: unat_of_nat)
  have "put_le32 n = [word_of_nat n, word_of_nat (n div 256), word_of_nat (n div 65536), word_of_nat (n div 16777216)]"
    by (simp add: put_le32_def upt_rec)
  then have "u32 False (put_le32 n @ bs) = (n div 16777216 mod 256) * 16777216 + ((n div 65536 mod 256) * 65536 + ((n div 256 mod 256) * 256 + n mod 256))"
    by (simp add: u32_def b)
  also have "\<dots> = n"
  proof -
    have "n div 256 = (n div 65536) * 256 + n div 256 mod 256"
      using div_mult_mod_eq [of "n div 256" 256] by (simp add: div_mult2_eq [symmetric])
    moreover have "n div 65536 = (n div 16777216) * 256 + n div 65536 mod 256"
      using div_mult_mod_eq [of "n div 65536" 256] by (simp add: div_mult2_eq [symmetric])
    moreover have "n div 16777216 mod 256 = n div 16777216" using n by (simp add: less_mult_imp_div_less)
    moreover have "n = (n div 256) * 256 + n mod 256" by simp
    ultimately show ?thesis by linarith
  qed
  finally show ?thesis .
qed

section \<open>Properties\<close>

text \<open>
  C18: a stored JPEG says nothing about where it was taken. For a JPEG whose header can be read up to its first
  scan, the stored file consists of the start marker, at most one EXIF block that holds the orientation
  alone, the header segments that are not EXIF or XMP (APP1), IPTC (APP13) or comments, in their order
  and byte for byte, and the picture data byte for byte; read again, it has exactly these segments.
\<close>

theorem jpeg_metadata_removed:
  assumes "length data > 4" and "data ! 0 = 0xFF" and "data ! 1 = 0xD8" and "jpeg_segments (drop 2 data) = Some (segs, tail)"
  shows "\<exists>orient. strip_metadata data = [0xFF, 0xD8] @ joined (orient @ kept_segments segs) @ tail \<and>
    jpeg_segments (drop 2 (strip_metadata data)) = Some (orient @ kept_segments segs, tail) \<and>
    (orient = [] \<or> orient = [(0xE1, jpeg_orientation_segment (jpeg_orientation data))])"
proof -
  define orient where "orient = (if jpeg_orientation data > 1 \<and> jpeg_orientation data \<le> 8
    then [(0xE1 :: 8 word, jpeg_orientation_segment (jpeg_orientation data))] else [])"
  have s: "strip_metadata data = [0xFF, 0xD8] @ joined (orient @ kept_segments segs) @ tail"
    unfolding strip_jpeg_value [OF assms] orient_def by simp
  from jpeg_segments_ok [OF assms(4)] have "list_all segment_ok (orient @ kept_segments segs)" "tail_ok tail"
    by (auto simp: orient_def kept_segments_ok orientation_segment_ok)
  from jpeg_segments_joined [OF this] s have "jpeg_segments (drop 2 (strip_metadata data)) = Some (orient @ kept_segments segs, tail)"
    by simp
  with s show ?thesis by (intro exI [of _ orient]) (auto simp: orient_def)
qed

text \<open>A JPEG with a comment: the comment is gone.\<close>

definition example_jpeg :: bytes where
  "example_jpeg = [0xFF, 0xD8, 0xFF, 0xFE, 0, 3, 65, 0xFF, 0xDA, 1, 2]"

lemma example_jpeg_segments: "jpeg_segments (drop 2 example_jpeg) = Some ([(0xFE, [0xFF, 0xFE, 0, 3, 65])], [0xFF, 0xDA, 1, 2])"
proof -
  have "drop 2 example_jpeg = joined [(0xFE, [0xFF, 0xFE, 0, 3, 65])] @ [0xFF, 0xDA, 1, 2]" by (simp add: example_jpeg_def)
  moreover have "list_all segment_ok [(0xFE, [0xFF, 0xFE, 0, 3, 65])]" "tail_ok [0xFF, 0xDA, 1, 2]"
    by (simp_all add: segment_ok_def tail_ok_def standalone_def u16_def)
  ultimately show ?thesis using jpeg_segments_joined by metis
qed

theorem jpeg_metadata_removed_witness:
  "jpeg_segments (drop 2 (strip_metadata example_jpeg)) = Some ([], [0xFF, 0xDA, 1, 2])"
proof -
  have "jpeg_orientation example_jpeg = 0"
    using orientation_loop_none [of "[(0xFE, [0xFF, 0xFE, 0, 3, 65])]" "[0xFF, 0xDA, 1, 2]"]
    by (simp add: jpeg_orientation_def example_jpeg_def segment_ok_def tail_ok_def standalone_def u16_def)
  then have "strip_metadata example_jpeg = [0xFF, 0xD8, 0xFF, 0xDA, 1, 2]"
    using strip_jpeg_value [of example_jpeg, OF _ _ _ example_jpeg_segments]
    by (simp add: example_jpeg_def kept_segments_def dropped_marker_def)
  moreover have h: "length example_jpeg > 4" "example_jpeg ! 0 = 0xFF" "example_jpeg ! 1 = 0xD8" by (simp_all add: example_jpeg_def)
  from jpeg_metadata_removed [OF h example_jpeg_segments] obtain orient where "jpeg_segments (drop 2 (strip_metadata example_jpeg)) =
      Some (orient @ kept_segments [(0xFE, [0xFF, 0xFE, 0, 3, 65])], [0xFF, 0xDA, 1, 2])"
    "strip_metadata example_jpeg = [0xFF, 0xD8] @ joined (orient @ kept_segments [(0xFE, [0xFF, 0xFE, 0, 3, 65])]) @ [0xFF, 0xDA, 1, 2]"
    "orient = [] \<or> orient = [(0xE1, jpeg_orientation_segment (jpeg_orientation example_jpeg))]" by blast
  ultimately show ?thesis by (auto simp: kept_segments_def dropped_marker_def orientation_segment_shape(1))
qed

text \<open>
  Stripping keeps a photo upright and is stable. The orientation that is read from the stripped JPEG is
  the one that was read from the upload when that is one of the seven turned orientations (2 to 8), and
  none otherwise; stripping a second time changes nothing.
\<close>

theorem jpeg_orientation_kept:
  assumes "length data > 4" and "data ! 0 = 0xFF" and "data ! 1 = 0xD8" and "jpeg_segments (drop 2 data) = Some (segs, tail)"
  shows "jpeg_orientation (strip_metadata data) =
      (if jpeg_orientation data > 1 \<and> jpeg_orientation data \<le> 8 then jpeg_orientation data else 0) \<and>
    strip_metadata (strip_metadata data) = strip_metadata data"
proof -
  let ?o = "jpeg_orientation data"
  let ?turned = "?o > 1 \<and> ?o \<le> 8"
  define orient where "orient = (if ?turned then [(0xE1 :: 8 word, jpeg_orientation_segment ?o)] else [])"
  have s: "strip_metadata data = [0xFF, 0xD8] @ joined (orient @ kept_segments segs) @ tail"
    unfolding strip_jpeg_value [OF assms] orient_def by simp
  from jpeg_segments_ok [OF assms(4)] have ok: "list_all segment_ok (orient @ kept_segments segs)" "list_all segment_ok (kept_segments segs)" "tail_ok tail"
    by (auto simp: orient_def kept_segments_ok orientation_segment_ok)
  have o: "jpeg_orientation (strip_metadata data) = (if ?turned then ?o else 0)"
    using orientation_loop_segment [of ?o] orientation_loop_none [OF ok(2) kept_no_exif ok(3)]
    by (simp add: jpeg_orientation_def s orient_def)
  have p: "jpeg_segments (drop 2 (strip_metadata data)) = Some (orient @ kept_segments segs, tail)"
    using jpeg_segments_joined [OF ok(1,3)] s by simp
  have "length (strip_metadata data) > 4 \<or> orient @ kept_segments segs = []"
  proof (cases "orient @ kept_segments segs")
    case (Cons x xs)
    with ok have "length (snd x) \<ge> 2" "length tail \<ge> 2" by (auto simp: segment_ok_def tail_ok_def)
    then show ?thesis using Cons by (simp add: s del: append_is_Nil_conv)
  qed simp
  then have "strip_metadata (strip_metadata data) = strip_metadata data"
  proof
    assume l: "length (strip_metadata data) > 4"
    have k: "kept_segments (orient @ kept_segments segs) = kept_segments segs"
      by (simp add: kept_segments_def orient_def dropped_marker_def)
    show ?thesis
      unfolding strip_jpeg_value [OF l _ _ p] using strip_jpeg_value [OF l _ _ p] s o k by (auto simp: orient_def)
  next
    assume e: "orient @ kept_segments segs = []"
    show ?thesis
    proof (cases "length (strip_metadata data) > 4")
      case True
      with strip_jpeg_value [OF True _ _ p] s o e show ?thesis by (auto simp: kept_segments_def orient_def split: if_splits)
    next
      case False
      have "\<not> (length (strip_metadata data) > 8 \<and> P)" "\<not> (length (strip_metadata data) > 12 \<and> P)" for P using False by auto
      with False show ?thesis by (simp only: strip_metadata_def [of "strip_metadata data"]) simp
    qed
  qed
  with o show ?thesis by simp
qed

definition turned_jpeg :: bytes where
  "turned_jpeg = [0xFF, 0xD8] @ jpeg_orientation_segment 6 @ [0xFF, 0xDA, 1, 2]"

theorem jpeg_orientation_kept_witness: "jpeg_orientation (strip_metadata turned_jpeg) = 6"
proof -
  have "jpeg_segments (joined [(0xE1, jpeg_orientation_segment 6)] @ [0xFF, 0xDA, 1, 2]) =
      Some ([(0xE1, jpeg_orientation_segment 6)], [0xFF, 0xDA, 1, 2])"
    by (rule jpeg_segments_joined) (simp_all add: orientation_segment_ok tail_ok_def)
  then have s: "jpeg_segments (drop 2 turned_jpeg) = Some ([(0xE1, jpeg_orientation_segment 6)], [0xFF, 0xDA, 1, 2])"
    by (simp add: turned_jpeg_def)
  have h: "length turned_jpeg > 4" "turned_jpeg ! 0 = 0xFF" "turned_jpeg ! 1 = 0xD8" by (simp_all add: turned_jpeg_def)
  have "jpeg_orientation turned_jpeg = 6"
    using orientation_loop_segment [of 6 "[0xFF, 0xDA, 1, 2]"] by (simp add: jpeg_orientation_def turned_jpeg_def)
  with jpeg_orientation_kept [OF h s] show ?thesis by simp
qed

text \<open>
  A fill byte costs a photo its orientation. JPEG allows any number of 0xFF bytes before a marker;
  \<open>stripJPEGMetadata\<close> skips one such byte at a time but \<open>jpegOrientation\<close> skips two bytes, so with a single
  fill byte before the EXIF block no orientation is found although the block holds one, and the stored
  photo has neither the block nor the orientation.
\<close>

theorem fill_byte_loses_orientation:
  assumes "1 < n" and "n \<le> 8" and "tail_ok tail"
  shows "jpeg_orientation ([0xFF, 0xD8] @ jpeg_orientation_segment n @ tail) = n \<and>
    jpeg_orientation ([0xFF, 0xD8, 0xFF] @ jpeg_orientation_segment n @ tail) = 0 \<and>
    strip_metadata ([0xFF, 0xD8, 0xFF] @ jpeg_orientation_segment n @ tail) = [0xFF, 0xD8] @ tail"
proof -
  let ?d = "[0xFF, 0xD8, 0xFF] @ jpeg_orientation_segment n @ tail"
  let ?r = "0xFF # jpeg_orientation_segment n @ tail"
  have seg: "\<exists>xs. jpeg_orientation_segment n = 0xFF # 0xE1 # xs" by (simp add: orientation_segment_shape(1))
  then obtain xs where xs: "jpeg_orientation_segment n = 0xFF # 0xE1 # xs" by blast
  have z: "orientation_loop (0xE1 # xs @ tail) = 0" by (subst orientation_loop.simps) simp
  have "orientation_loop ?r = 0"
    unfolding xs by (subst orientation_loop.simps) (simp add: z)
  then have o: "jpeg_orientation ?d = 0" by (simp add: jpeg_orientation_def)
  have "jpeg_segments ?r = jpeg_segments (jpeg_orientation_segment n @ tail)"
    unfolding xs by (subst jpeg_segments.simps) simp
  also have "\<dots> = Some ([(0xE1, jpeg_orientation_segment n)], tail)"
    using jpeg_segments_joined [of "[(0xE1, jpeg_orientation_segment n)]" tail] assms(3) by (simp add: orientation_segment_ok)
  finally have s: "jpeg_segments (drop 2 ?d) = Some ([(0xE1, jpeg_orientation_segment n)], tail)" by simp
  have "strip_metadata ?d = [0xFF, 0xD8] @ tail"
    using strip_jpeg_value [OF _ _ _ s] o orientation_segment_shape(2) [of n] by (simp add: kept_segments_def dropped_marker_def)
  with o orientation_loop_segment [OF assms(1,2)] show ?thesis by (simp add: jpeg_orientation_def)
qed

theorem fill_byte_loses_orientation_witness:
  "jpeg_orientation ([0xFF, 0xD8, 0xFF] @ jpeg_orientation_segment 6 @ [0xFF, 0xDA]) = 0"
  using fill_byte_loses_orientation [of 6 "[0xFF, 0xDA]"] by (simp add: tail_ok_def)

text \<open>
  The same for a PNG: of a file that can be read up to its end chunk, exactly the chunks that are not
  EXIF, text or time stay, in their order and byte for byte with their checksums; what follows the end
  chunk is dropped.
\<close>

theorem png_metadata_removed:
  assumes "length data > 8" and "take 8 data = png_signature" and "png_chunks (drop 8 data) = Some cs"
  shows "strip_metadata data = png_signature @ concat (map snd (kept_chunks cs)) \<and>
    png_chunks (drop 8 (strip_metadata data)) = Some (kept_chunks cs) \<and>
    list_all (\<lambda>c. \<not> png_metadata (fst c)) (kept_chunks cs)"
proof -
  have nj: "data ! 0 \<noteq> 0xFF"
  proof -
    have "data ! 0 = take 8 data ! 0" using assms(1) by simp
    then show ?thesis by (simp add: assms(2) png_signature_def)
  qed
  have len: "length png_signature = 8" by (simp add: png_signature_def bytes_of_def)
  have s: "strip_metadata data = png_signature @ concat (map snd (kept_chunks cs))"
    using assms nj by (simp add: strip_metadata_def strip_png_metadata_def png_loop_chunks)
  from png_chunks_ok [OF assms(3)] have ok: "list_all chunk_ok cs" "cs \<noteq> []" "fst (last cs) = ''IEND''"
    "list_all (\<lambda>c. fst c \<noteq> ''IEND'') (butlast cs)" by auto
  define bs c where "bs = butlast cs" and "c = last cs"
  have cs: "cs = bs @ [c]" using ok(2) by (simp add: bs_def c_def)
  have k: "kept_chunks cs = kept_chunks bs @ [c]" using ok(3) by (simp add: cs kept_chunks_def png_metadata_def)
  have "list_all chunk_ok (kept_chunks bs)" "chunk_ok c" "fst c = ''IEND''" "list_all (\<lambda>c. fst c \<noteq> ''IEND'') (kept_chunks bs)"
    using ok by (auto simp: cs kept_chunks_def list_all_iff)
  then have "png_chunks (concat (map snd (kept_chunks bs @ [c]))) = Some (kept_chunks bs @ [c])"
    by (intro png_chunks_concat) simp_all
  then have "png_chunks (concat (map snd (kept_chunks cs))) = Some (kept_chunks cs)" by (simp only: k)
  with s len show ?thesis by (auto simp: kept_chunks_def list_all_iff)
qed

definition example_png :: bytes where
  "example_png = png_signature @ [0, 0, 0, 0] @ bytes_of ''tEXt'' @ [1, 2, 3, 4] @ [0, 0, 0, 0] @ bytes_of ''IEND'' @ [5, 6, 7, 8]"

theorem png_metadata_removed_witness:
  "strip_metadata example_png = png_signature @ [0, 0, 0, 0] @ bytes_of ''IEND'' @ [5, 6, 7, 8]"
proof -
  let ?t = "(''tEXt'', [0, 0, 0, 0] @ bytes_of ''tEXt'' @ [1, 2, 3, 4])"
  let ?e = "(''IEND'', [0, 0, 0, 0] @ bytes_of ''IEND'' @ [5, 6, 7, 8])"
  have b: "length (bytes_of s) = length s" for s by (simp add: bytes_of_def)
  have ok: "chunk_ok ?t" "chunk_ok ?e" by (simp_all add: chunk_ok_def b u32_def)
  have l: "length png_signature = 8" by (simp add: png_signature_def b)
  have p: "png_chunks (concat (map snd [?t, ?e])) = Some [?t, ?e]" using ok by (intro png_chunks_concat) simp_all
  have d: "drop 8 example_png = concat (map snd [?t, ?e])" by (simp add: example_png_def l)
  have "length example_png > 8" "take 8 example_png = png_signature" by (simp_all add: example_png_def l b)
  from png_metadata_removed [OF this p [folded d]] show ?thesis by (simp add: kept_chunks_def png_metadata_def)
qed

text \<open>
  The same for a WebP: EXIF and XMP chunks are gone, every other chunk stays in its order, the extended
  header no longer announces them and is otherwise unchanged, and the size in the RIFF header is that
  of the new file.
\<close>

theorem webp_metadata_removed:
  assumes "length data > 12" and "text_of (take 4 data) = ''RIFF''" and "text_of (take 4 (drop 8 data)) = ''WEBP''"
    and "webp_chunks (drop 12 data) = Some cs" and "length (strip_metadata data) < 2 ^ 32"
  shows "take 4 (strip_metadata data) = take 4 data \<and> take 4 (drop 8 (strip_metadata data)) = take 4 (drop 8 data) \<and>
    u32 False (drop 4 (strip_metadata data)) = length (strip_metadata data) - 8 \<and>
    webp_chunks (drop 12 (strip_metadata data)) = Some (clean_chunks cs) \<and>
    list_all (\<lambda>c. \<not> webp_metadata (fst c)) (clean_chunks cs) \<and>
    (\<forall>c \<in> set (clean_chunks cs). fst c = ''VP8X'' \<and> length (snd c) > 8 \<longrightarrow> \<not> bit (snd c ! 8) 2 \<and> \<not> bit (snd c ! 8) 3)"
proof -
  let ?cs = "concat (map snd (clean_chunks cs))"
  have nj: "\<not> (length data > 4 \<and> data ! 0 = 0xFF \<and> data ! 1 = 0xD8)" "\<not> (length data > 8 \<and> take 8 data = png_signature)"
  proof -
    from assms(1) obtain b bs where d: "data = b # bs" by (cases data) auto
    have "char_of (unat b) = CHR ''R''" using assms(2) by (simp add: d text_of_def numeral_eq_Suc)
    from arg_cong [OF this, of "of_char :: char \<Rightarrow> nat"] have "unat b = 82" using unsigned_less [of b, where ?'a = nat] by simp
    then have b: "data ! 0 = 82" by (simp add: d word_unat_eq_iff)
    then show "\<not> (length data > 4 \<and> data ! 0 = 0xFF \<and> data ! 1 = 0xD8)" by simp
    have "take 8 data ! 0 = 82" using b by simp
    moreover have "png_signature ! 0 \<noteq> 82" by (simp add: png_signature_def)
    ultimately show "\<not> (length data > 8 \<and> take 8 data = png_signature)" by metis
  qed
  let ?out = "take 12 data @ ?cs"
  have s: "strip_metadata data = take 4 data @ put_le32 (length ?out - 8) @ take 4 (drop 8 data) @ ?cs"
    using assms(1-4) nj
    by (auto simp: strip_metadata_def strip_webp_metadata_def webp_loop_chunks drop_take)
  have len: "length (strip_metadata data) = length ?out" using assms(1) by (simp add: s)
  have d4: "drop 4 (strip_metadata data) = put_le32 (length ?out - 8) @ take 4 (drop 8 data) @ ?cs" using assms(1) by (simp add: s)
  have "u32 False (drop 4 (strip_metadata data)) = length (strip_metadata data) - 8"
    unfolding d4 len using assms(5) len by (intro u32_put_le32) linarith
  moreover have "webp_chunks (drop 12 (strip_metadata data)) = Some (clean_chunks cs)"
  proof -
    have "drop 12 (strip_metadata data) = ?cs" using assms(1) by (simp add: s)
    with webp_chunks_concat [OF clean_chunks_ok [OF webp_chunks_ok [OF assms(4)]]] show ?thesis by simp
  qed
  moreover have "take 4 (strip_metadata data) = take 4 data" "take 4 (drop 8 (strip_metadata data)) = take 4 (drop 8 data)"
    using assms(1) by (simp_all add: s)
  moreover have "list_all (\<lambda>c. \<not> webp_metadata (fst c)) (clean_chunks cs)"
    by (auto simp: clean_chunks_def list_all_iff clean_chunk_def)
  moreover have "fst c = ''VP8X'' \<and> length (snd c) > 8 \<longrightarrow> \<not> bit (snd c ! 8) 2 \<and> \<not> bit (snd c ! 8) 3"
    if "c \<in> set (clean_chunks cs)" for c
    using that by (auto simp: clean_chunks_def clean_chunk_def clean_vp8x_def bit_simps split: if_splits)
  ultimately show ?thesis by blast
qed

definition example_webp :: bytes where
  "example_webp = bytes_of ''RIFF'' @ [12, 0, 0, 0] @ bytes_of ''WEBP'' @ bytes_of ''EXIF'' @ [0, 0, 0, 0]"

theorem webp_metadata_removed_witness:
  "webp_chunks (drop 12 (strip_metadata example_webp)) = Some [] \<and> length (strip_metadata example_webp) = 12"
proof -
  have b: "length (bytes_of s) = length s" for s by (simp add: bytes_of_def)
  have t: "text_of (take 4 example_webp) = ''RIFF''" "text_of (take 4 (drop 8 example_webp)) = ''WEBP''"
    by (simp_all add: example_webp_def b)
  have l: "length example_webp > 12" by (simp add: example_webp_def b)
  have "webp_ok [(''EXIF'', bytes_of ''EXIF'' @ [0, 0, 0, 0])]" by (simp add: b chunk_payload_def u32_def)
  from webp_chunks_concat [OF this] have c: "webp_chunks (drop 12 example_webp) = Some [(''EXIF'', bytes_of ''EXIF'' @ [0, 0, 0, 0])]"
    by (simp add: example_webp_def b)
  have hd: "example_webp ! 0 = 82" "\<not> take 8 example_webp = png_signature"
    by (simp_all add: example_webp_def bytes_of_def png_signature_def)
  have len: "length (strip_metadata example_webp) = 12"
    using l t c hd by (simp add: strip_metadata_def strip_webp_metadata_def webp_loop_chunks clean_chunks_def webp_metadata_def)
  with webp_metadata_removed [OF l t c] show ?thesis by (simp add: clean_chunks_def webp_metadata_def)
qed

end
