(* ===== verification/Upload_Handlers.thy ===== *)
theory Upload_Handlers
  imports Image_Processor Metadata_Strip Cluster Upload_Budget Media_Access "HOL-Library.Multiset"
begin

text \<open>
  Uploading files: the first half of \<open>internal/handler/handler.go\<close> with \<open>helpers.go\<close>, \<open>upload_request.go\<close>
  and \<open>upload_errors.go\<close>. An \<open>upload_env\<close> holds the configuration and what lies outside the package:
  the Kubo nodes, the image processor and its tools, the multipart parser, content sniffing, the JSON of a
  manifest. The state is the cluster, the daily budget and the CIDs handed to \<open>replicateAsync\<close>. An error
  reply carries its status, code, details and the locale its message is written in; the message texts are
  left out.
\<close>

section \<open>Requests and replies\<close>

record upload_file =
  uf_filename :: string
  uf_content_type :: string
  uf_size :: int
  uf_open :: "reader option"

type_synonym form = "(string, upload_file list) gomap"

text \<open>
  What the multipart parser makes of the bytes it is given: a form once it has seen the final boundary, a
  failure on malformed input, or the need for more input.
\<close>

datatype multipart = Parsed form | Malformed | Needs_more

record upload_request =
  uq_request :: request
  uq_content_length :: int
  uq_body :: reader

datatype detail = Detail_number int | Detail_strings "string list"

record file_response =
  fr_cid :: string
  fr_name :: string
  fr_size :: int
  fr_pinned :: bool
  fr_type :: string
  fr_original :: asset
  fr_variants :: "(string, asset) gomap"

datatype upload_reply =
    Upload_refused nat string "(string, detail) gomap" string
  | Upload_one file_response
  | Upload_many "file_response list"

record ('s, 'e, 'f, 'i) upload_env =
  ue_cfg :: "'f config"
  ue_kubo :: "('s, 'e) kubo"
  ue_floats :: "'f floats"
  ue_imaging :: "'i imaging"
  ue_processor :: "'f processor"
  ue_heif :: heif_tool
  ue_detect_type :: "bytes \<Rightarrow> string"
  ue_mime_type :: "string \<Rightarrow> string"
  ue_multipart :: "bytes \<Rightarrow> multipart"
  ue_manifest_json :: "manifest \<Rightarrow> bytes option"
  ue_session :: "request \<Rightarrow> string"
  ue_today :: string
  ue_cancelled :: bool

record 's upload_state =
  st_cluster :: "'s cluster"
  st_budget :: "upload_budget option"
  st_replicated :: "string list"

section \<open>Errors\<close>

definition upload_locale :: "request \<Rightarrow> string" where
  "upload_locale r =
     (if has_prefix (to_lower (trim_space (query_get (rq_query r) ''lang''))) ''ru'' then ''ru''
      else if has_prefix (to_lower (header_get r ''Accept-Language'')) ''ru'' then ''ru''
      else ''en'')"

definition write_upload_error :: "request \<Rightarrow> nat \<Rightarrow> string \<Rightarrow> (string, detail) gomap \<Rightarrow> upload_reply" where
  "write_upload_error r status err details = Upload_refused status err details (upload_locale r)"

section \<open>The form\<close>

text \<open>
  \<open>parseUploadForm\<close>. Behind \<open>http.MaxBytesReader\<close> the parser sees at most \<open>limit\<close> bytes and then the size
  error; after the final boundary the rest of the body is read too.
\<close>

definition form_limit :: "'f config \<Rightarrow> int \<Rightarrow> int" where
  "form_limit cfg route_limit =
     (let request_size = up_max_request_size (cf_upload cfg)
      in if request_size > 0 \<and> (route_limit \<le> 0 \<or> request_size < route_limit) then request_size else route_limit)"

definition too_large_reply :: "request \<Rightarrow> int \<Rightarrow> upload_reply" where
  "too_large_reply r limit = write_upload_error r 413 ''upload_request_too_large'' [(''max_request_bytes'', Detail_number limit)]"

definition form_invalid_reply :: "request \<Rightarrow> upload_reply" where
  "form_invalid_reply r = write_upload_error r 400 ''upload_form_invalid'' []"

definition parse_upload_form ::
    "('s, 'e, 'f, 'i) upload_env \<Rightarrow> int \<Rightarrow> upload_request \<Rightarrow> upload_reply + form" where
  "parse_upload_form env route_limit q =
     (let limit = form_limit (ue_cfg env) route_limit; r = uq_request q; body = rd_bytes (uq_body q);
          over = (limit > 0 \<and> int (length body) > limit);
          seen = (if limit > 0 then take (nat limit) body else body)
      in if limit > 0 \<and> uq_content_length q > limit then Inl (too_large_reply r limit)
         else (case ue_multipart env seen of
             Parsed form \<Rightarrow>
               if over then Inl (too_large_reply r limit)
               else if limit > 0 \<and> rd_fails (uq_body q) then Inl (form_invalid_reply r)
               else Inr form
           | Malformed \<Rightarrow> Inl (form_invalid_reply r)
           | Needs_more \<Rightarrow> if over then Inl (too_large_reply r limit) else Inl (form_invalid_reply r)))"

text \<open>\<open>r.FormFile\<close>: the first file under a name, opened.\<close>

definition form_file :: "form \<Rightarrow> string \<Rightarrow> (upload_file \<times> reader) option" where
  "form_file f name = (case map_of f name of
      Some (file # _) \<Rightarrow> map_option (\<lambda>rd. (file, rd)) (uf_open file)
    | _ \<Rightarrow> None)"

definition form_files :: "form \<Rightarrow> string \<Rightarrow> upload_file list" where
  "form_files f name = (case map_of f name of None \<Rightarrow> [] | Some files \<Rightarrow> files)"

definition validate_file :: "(string \<Rightarrow> string) \<Rightarrow> upload_config \<Rightarrow> string \<Rightarrow> string \<Rightarrow> bool" where
  "validate_file mime_type cfg filename content_type =
     (let ext = to_lower (trim_prefix (file_ext filename) ''.'');
          ct = (if content_type = [] \<or> content_type = ''application/octet-stream'' then mime_type (file_ext filename)
                else content_type);
          by_ext = mime_type (''.'' @ ext)
      in ext \<in> set (up_allowed_extensions cfg) \<and>
         (map_of (up_allowed_mime_types cfg) ct \<noteq> None
          \<or> by_ext \<noteq> [] \<and> map_of (up_allowed_mime_types cfg) by_ext \<noteq> None))"

text \<open>
  Reading through \<open>countingReader\<close> and \<open>io.LimitReader\<close> of one byte more than allowed: \<open>None\<close> when the
  reader fails within that many bytes, otherwise the bytes, whose number is the count.
\<close>

definition read_limited :: "int \<Rightarrow> reader \<Rightarrow> bytes option" where
  "read_limited limit r =
     (let n = nat (int64 (limit + 1))
      in if rd_fails r \<and> length (rd_bytes r) < n then None else Some (take n (rd_bytes r)))"

section \<open>Building a bundle\<close>

definition format_from_filename :: "string \<Rightarrow> string" where
  "format_from_filename filename =
     (let ext = trim_prefix (to_lower (file_ext filename)) ''.''
      in if ext = ''jpg'' then ''jpeg'' else if ext = [] then ''bin'' else ext)"

definition variant_asset :: "variant \<Rightarrow> asset" where
  "variant_asset v = empty_asset\<lparr>as_bundle_path := va_filename v, as_format := va_format v,
     as_content_type := va_content_type v, as_width := va_width v, as_height := va_height v,
     as_size := int (length (va_data v))\<rparr>"

definition image_manifest :: "image_result \<Rightarrow> manifest \<Rightarrow> manifest" where
  "image_manifest res m =
     (if re_is_image res then
        m\<lparr>mf_type := ''image'',
          mf_original := (mf_original m)\<lparr>as_format := re_format res, as_width := re_width res, as_height := re_height res\<rparr>,
          mf_variants := foldl (\<lambda>vs v. gm_put (va_key v) (variant_asset v) vs) (mf_variants m) (re_variants res)\<rparr>
      else m)"

definition bundle_entries :: "bytes \<Rightarrow> image_result \<Rightarrow> (string, bytes) gomap" where
  "bundle_entries data res =
     (let original = [(original_filename, data)]
      in if re_is_image res then foldl (\<lambda>es v. gm_put (va_filename v) (va_data v) es) original (re_variants res) else original)"

definition build_file_bundle ::
    "('s, 'e, 'f, 'i) upload_env \<Rightarrow> string \<Rightarrow> bytes \<Rightarrow> string \<Rightarrow> 's cluster \<Rightarrow> 's cluster \<times> manifest option" where
  "build_file_bundle env filename raw content_type cl =
     (let data = strip_metadata raw;
          m0 = new_file_manifest filename content_type (format_from_filename filename) (int (length data))
      in case process (ue_floats env) (ue_imaging env) (ue_processor env) (ue_cancelled env) data content_type of
           Inl e \<Rightarrow> (cl, None)
         | Inr res \<Rightarrow>
             (let m = image_manifest res m0
              in case ue_manifest_json env m of
                   None \<Rightarrow> (cl, None)
                 | Some json \<Rightarrow>
                     (case cluster_add_dir (ue_kubo env) (gm_put manifest_filename json (bundle_entries data res)) cl of
                        (cl1, Inl e) \<Rightarrow> (cl1, None)
                      | (cl1, Inr added) \<Rightarrow> (cl1, Some (manifest_finalize (ar_cid added) m)))))"

definition response_from_manifest :: "manifest \<Rightarrow> bool \<Rightarrow> file_response" where
  "response_from_manifest m pinned = \<lparr>fr_cid = mf_cid m, fr_name = mf_name m, fr_size = mf_size m, fr_pinned = pinned,
     fr_type = mf_type m, fr_original = mf_original m, fr_variants = mf_variants m\<rparr>"

text \<open>
  From the bytes of one file to its bundle: the conversion of a HEIF photo, the bundle, the replication.
  \<open>Inl\<close> is the code of the failure.
\<close>

definition store_upload ::
    "('s, 'e, 'f, 'i) upload_env \<Rightarrow> string \<Rightarrow> bytes \<Rightarrow> 's upload_state \<Rightarrow> 's upload_state \<times> (string + file_response)" where
  "store_upload env name data st =
     (case (if is_heif data then map_option (\<lambda>c. (jpeg_filename name, c, ''image/jpeg'')) (transcode_heif (ue_heif env) (ue_processor env) data)
            else Some (name, data, ue_detect_type env data)) of
        None \<Rightarrow> (st, Inl ''unsupported_file_type'')
      | Some (filename, bs, content_type) \<Rightarrow>
          (case build_file_bundle env filename bs content_type (st_cluster st) of
             (cl, None) \<Rightarrow> (st\<lparr>st_cluster := cl\<rparr>, Inl ''upload_failed'')
           | (cl, Some m) \<Rightarrow> (st\<lparr>st_cluster := cl, st_replicated := st_replicated st @ [mf_cid m]\<rparr>,
                              Inr (response_from_manifest m True))))"

section \<open>One file\<close>

definition take_budget :: "('s, 'e, 'f, 'i) upload_env \<Rightarrow> request \<Rightarrow> int \<Rightarrow> 's upload_state \<Rightarrow> 's upload_state \<times> bool" where
  "take_budget env r n st = (case budget_take (ue_today env) (ue_session env r) n (st_budget st) of
      (b, ok) \<Rightarrow> (st\<lparr>st_budget := b\<rparr>, ok))"

definition unsupported_reply :: "('s, 'e, 'f, 'i) upload_env \<Rightarrow> request \<Rightarrow> upload_reply" where
  "unsupported_reply env r = write_upload_error r 400 ''unsupported_file_type''
     [(''allowed_extensions'', Detail_strings (up_allowed_extensions (cf_upload (ue_cfg env))))]"

definition handle_upload ::
    "('s, 'e, 'f, 'i) upload_env \<Rightarrow> upload_request \<Rightarrow> 's upload_state \<Rightarrow> 's upload_state \<times> upload_reply" where
  "handle_upload env q st =
     (let r = uq_request q; up = cf_upload (ue_cfg env)
      in case parse_upload_form env 0 q of
           Inl reply \<Rightarrow> (st, reply)
         | Inr form \<Rightarrow> (case form_file form ''file'' of
               None \<Rightarrow> (st, write_upload_error r 400 ''upload_missing_file'' [])
             | Some (file, rd) \<Rightarrow>
                 if \<not> validate_file (ue_mime_type env) up (uf_filename file) (uf_content_type file)
                 then (st, unsupported_reply env r)
                 else (case read_limited (up_max_file_size up) rd of
                     None \<Rightarrow> (st, write_upload_error r 500 ''upload_failed'' [])
                   | Some data \<Rightarrow>
                       if int (length data) > up_max_file_size up
                       then (st, write_upload_error r 413 ''file_too_large'' [(''max_bytes'', Detail_number (up_max_file_size up))])
                       else (case take_budget env r (int (length data)) st of
                           (st1, False) \<Rightarrow> (st1, write_upload_error r 429 ''upload_quota_exceeded'' [])
                         | (st1, True) \<Rightarrow> (case store_upload env (uf_filename file) data st1 of
                               (st2, Inr resp) \<Rightarrow> (st2, Upload_one resp)
                             | (st2, Inl err) \<Rightarrow>
                                 (st2, if err = ''unsupported_file_type'' then unsupported_reply env r
                                       else write_upload_error r 500 ''upload_failed'' []))))))"

section \<open>Several files\<close>

definition max_files_per_upload :: nat where "max_files_per_upload = 20"

text \<open>The body of one goroutine; \<open>Inl\<close> is the code of the recorded failure.\<close>

definition upload_part ::
    "('s, 'e, 'f, 'i) upload_env \<Rightarrow> upload_file \<Rightarrow> 's upload_state \<Rightarrow> 's upload_state \<times> (string + file_response)" where
  "upload_part env file st =
     (let limit = up_max_file_size (cf_upload (ue_cfg env))
      in case uf_open file of
           None \<Rightarrow> (st, Inl ''upload_failed'')
         | Some rd \<Rightarrow> (case read_limited limit rd of
               None \<Rightarrow> (st, Inl ''upload_failed'')
             | Some data \<Rightarrow>
                 if int (length data) > limit then (st, Inl ''file_too_large'')
                 else store_upload env (uf_filename file) data st))"

text \<open>
  The goroutines in the order in which they do their work: the state, the failures (code and file name) in
  the order they are recorded, and the results by position.
\<close>

fun run_parts ::
    "('s, 'e, 'f, 'i) upload_env \<Rightarrow> upload_file list \<Rightarrow> nat list \<Rightarrow> 's upload_state
       \<Rightarrow> (string \<times> string) list \<Rightarrow> (nat, file_response) gomap
       \<Rightarrow> 's upload_state \<times> (string \<times> string) list \<times> (nat, file_response) gomap" where
  "run_parts env files [] st failures results = (st, failures, results)"
| "run_parts env files (i # order) st failures results = (case upload_part env (files ! i) st of
      (st1, Inl err) \<Rightarrow> run_parts env files order st1 (failures @ [(err, uf_filename (files ! i))]) results
    | (st1, Inr resp) \<Rightarrow> run_parts env files order st1 failures (gm_put i resp results))"

definition empty_response :: file_response where
  "empty_response = \<lparr>fr_cid = [], fr_name = [], fr_size = 0, fr_pinned = False, fr_type = [], fr_original = empty_asset, fr_variants = []\<rparr>"

definition failures_reply :: "('s, 'e, 'f, 'i) upload_env \<Rightarrow> request \<Rightarrow> (string \<times> string) list \<Rightarrow> upload_reply" where
  "failures_reply env r failures =
     (let failed = [(''failed_files'', Detail_strings (map snd failures))]
      in if ''file_too_large'' \<in> set (map fst failures)
         then write_upload_error r 413 ''file_too_large''
                (gm_put ''max_bytes'' (Detail_number (up_max_file_size (cf_upload (ue_cfg env)))) failed)
         else write_upload_error r 500 ''upload_failed'' failed)"

definition multiple_route_limit :: "upload_config \<Rightarrow> int" where
  "multiple_route_limit up =
     (if up_max_file_size up > 0 then int64 (int64 (up_max_file_size up * int max_files_per_upload) + 2 ^ 20) else 0)"

definition batch_bytes :: "upload_file list \<Rightarrow> int" where
  "batch_bytes files = foldl (\<lambda>n f. int64 (n + uf_size f)) 0 files"

definition handle_upload_multiple ::
    "('s, 'e, 'f, 'i) upload_env \<Rightarrow> nat list \<Rightarrow> upload_request \<Rightarrow> 's upload_state \<Rightarrow> 's upload_state \<times> upload_reply" where
  "handle_upload_multiple env order q st =
     (let r = uq_request q; up = cf_upload (ue_cfg env)
      in case parse_upload_form env (multiple_route_limit up) q of
           Inl reply \<Rightarrow> (st, reply)
         | Inr form \<Rightarrow>
             (let files = form_files form ''files''
              in if files = [] then (st, write_upload_error r 400 ''upload_missing_file'' [])
                 else if length files > max_files_per_upload then (st, form_invalid_reply r)
                 else (case take_budget env r (batch_bytes files) st of
                     (st1, False) \<Rightarrow> (st1, write_upload_error r 429 ''upload_quota_exceeded'' [])
                   | (st1, True) \<Rightarrow>
                       (let invalid = map uf_filename (filter (\<lambda>f. \<not> validate_file (ue_mime_type env) up (uf_filename f) (uf_content_type f)) files)
                        in if invalid \<noteq> []
                           then (st1, write_upload_error r 400 ''unsupported_file_type''
                                  [(''allowed_extensions'', Detail_strings (up_allowed_extensions up)), (''invalid_files'', Detail_strings invalid)])
                           else (case run_parts env files order st1 [] [] of
                               (st2, failures, results) \<Rightarrow>
                                 (st2, if failures \<noteq> [] then failures_reply env r failures
                                       else Upload_many (map (\<lambda>i. case map_of results i of None \<Rightarrow> empty_response | Some x \<Rightarrow> x)
                                              [0..<length files])))))))"

section \<open>Facts\<close>

lemma parse_upload_form_bounded:
  assumes "parse_upload_form env route_limit q = Inr form" "form_limit (ue_cfg env) route_limit > 0"
  shows "int (length (rd_bytes (uq_body q))) \<le> form_limit (ue_cfg env) route_limit \<and>
    uq_content_length q \<le> form_limit (ue_cfg env) route_limit \<and> \<not> rd_fails (uq_body q) \<and>
    ue_multipart env (rd_bytes (uq_body q)) = Parsed form"
proof -
  have "take (nat limit) bs = bs" if "\<not> int (length bs) > limit" for bs :: bytes and limit using that by simp
  with assms show ?thesis by (auto simp: parse_upload_form_def Let_def split: if_splits multipart.splits)
qed

lemma privacy_variant_filename: "CHR ''.'' \<in> set (va_filename (privacy_variant key format data im))"
  by (simp add: privacy_variant_def)

lemma sized_variants_filename:
  "sized_variants fl im p src format vs = Inr rs \<Longrightarrow> \<forall>v \<in> set rs. CHR ''.'' \<in> set (va_filename v)"
proof (induction vs arbitrary: rs)
  case (Cons v vs)
  then show ?case
    by (auto simp: sized_variant_def Let_def split: if_splits option.splits sum.splits)
qed simp

lemma process_filenames:
  "process fl im p c data ct = Inr res \<Longrightarrow> \<forall>v \<in> set (re_variants res). CHR ''.'' \<in> set (va_filename v)"
  by (auto simp: process_def Let_def privacy_variant_filename dest!: privacy_variants_Inr sized_variants_filename
      split: option.splits if_splits sum.splits)

lemma original_not_manifest: "original_filename \<noteq> manifest_filename"
  by (simp add: original_filename_def manifest_filename_def)

lemma bundle_entries_original:
  assumes "process fl im p c data ct = Inr res"
  shows "map_of (gm_put manifest_filename json (bundle_entries data res)) original_filename = Some data"
proof -
  have "map_of (foldl (\<lambda>es v. gm_put (va_filename v) (va_data v) es) es0 vs) original_filename = map_of es0 original_filename"
    if "\<forall>v \<in> set vs. CHR ''.'' \<in> set (va_filename v)" for vs :: "variant list" and es0 :: "(string, bytes) gomap"
  proof -
    have "CHR ''.'' \<notin> set original_filename" by (simp add: original_filename_def)
    with that have n: "original_filename \<noteq> va_filename v" if "v \<in> set vs" for v using that by metis
    then show ?thesis by (induction vs arbitrary: es0) (auto simp: gomap_simps)
  qed
  with process_filenames [OF assms] show ?thesis
    using original_not_manifest by (simp add: bundle_entries_def gomap_simps Let_def)
qed

lemma build_file_bundle_Some:
  assumes "build_file_bundle env filename raw ct cl = (cl', Some m)"
  shows "\<exists>entries added. cluster_add_dir (ue_kubo env) entries cl = (cl', Inr added) \<and> mf_cid m = ar_cid added \<and>
    map_of entries original_filename = Some (strip_metadata raw) \<and> mf_size m = int (length (strip_metadata raw))"
proof -
  from assms obtain res json added m0 where r: "process (ue_floats env) (ue_imaging env) (ue_processor env) (ue_cancelled env) (strip_metadata raw) ct = Inr res"
    "cluster_add_dir (ue_kubo env) (gm_put manifest_filename json (bundle_entries (strip_metadata raw) res)) cl = (cl', Inr added)"
    "m = manifest_finalize (ar_cid added) (image_manifest res m0)"
    "m0 = new_file_manifest filename ct (format_from_filename filename) (int (length (strip_metadata raw)))"
    by (auto simp: build_file_bundle_def Let_def split: sum.splits option.splits prod.splits)
  have "mf_size (image_manifest res m0) = int (length (strip_metadata raw))"
    by (simp add: image_manifest_def r(4) new_file_manifest_def)
  then have "mf_size m = int (length (strip_metadata raw))" by (simp add: r(3) manifest_finalize_def)
  with r bundle_entries_original [OF r(1)] show ?thesis by auto
qed

lemma store_upload_Inr:
  assumes "store_upload env name data st = (st', Inr resp)"
  shows "\<exists>entries added bs. (if is_heif data then transcode_heif (ue_heif env) (ue_processor env) data = Some bs else bs = data) \<and>
    cluster_add_dir (ue_kubo env) entries (st_cluster st) = (st_cluster st', Inr added) \<and>
    map_of entries original_filename = Some (strip_metadata bs) \<and>
    fr_cid resp = ar_cid added \<and> fr_size resp = int (length (strip_metadata bs)) \<and> fr_pinned resp \<and>
    st_replicated st' = st_replicated st @ [ar_cid added] \<and> st_budget st' = st_budget st"
proof -
  from assms obtain filename bs ct cl m where s:
    "if is_heif data then transcode_heif (ue_heif env) (ue_processor env) data = Some bs else bs = data"
    "build_file_bundle env filename bs ct (st_cluster st) = (cl, Some m)"
    "st' = st\<lparr>st_cluster := cl, st_replicated := st_replicated st @ [mf_cid m]\<rparr>" "resp = response_from_manifest m True"
    by (auto simp: store_upload_def split: if_splits option.splits prod.splits)
  from build_file_bundle_Some [OF s(2)] obtain entries added where
    "cluster_add_dir (ue_kubo env) entries (st_cluster st) = (cl, Inr added)" "mf_cid m = ar_cid added"
    "map_of entries original_filename = Some (strip_metadata bs)" "mf_size m = int (length (strip_metadata bs))" by blast
  with s show ?thesis
    by (intro exI [of _ entries] exI [of _ added] exI [of _ bs]) (simp add: response_from_manifest_def)
qed

lemma take_budget_frame [simp]:
  "st_cluster (fst (take_budget env r n st)) = st_cluster st" "st_replicated (fst (take_budget env r n st)) = st_replicated st"
  by (simp_all add: take_budget_def split: prod.splits)

lemma run_parts_ok:
  assumes "run_parts env files order st fs rs = (st', fs', rs')" "distinct order"
  shows "length fs \<le> length fs' \<and> st_budget st' = st_budget st \<and>
    (fs' = fs \<longrightarrow> (\<forall>i \<in> set order. \<exists>s s' x. map_of rs' i = Some x \<and> upload_part env (files ! i) s = (s', Inr x)) \<and>
      st_replicated st' = st_replicated st @ map (\<lambda>i. fr_cid (the (map_of rs' i))) order) \<and>
    (\<forall>i. i \<notin> set order \<longrightarrow> map_of rs' i = map_of rs i)"
  using assms
proof (induction env files order st fs rs arbitrary: st' fs' rs' rule: run_parts.induct)
  case (2 env files i order st fs rs)
  obtain s1 r where p: "upload_part env (files ! i) st = (s1, r)" by (cases "upload_part env (files ! i) st")
  have b: "st_budget s1 = st_budget st"
    using p by (auto simp: upload_part_def store_upload_def Let_def split: option.splits if_splits prod.splits)
  show ?case
  proof (cases r)
    case (Inl err)
    with p "2.prems" have "run_parts env files order s1 (fs @ [(err, uf_filename (files ! i))]) rs = (st', fs', rs')" by simp
    from "2.IH"(1) [OF p [symmetric] Inl this] "2.prems"(2) b show ?thesis by auto
  next
    case (Inr x)
    with p "2.prems" have run: "run_parts env files order s1 fs (gm_put i x rs) = (st', fs', rs')" by simp
    have rep: "st_replicated s1 = st_replicated st @ [fr_cid x]"
    proof -
      from p Inr obtain data where "store_upload env (uf_filename (files ! i)) data st = (s1, Inr x)"
        by (auto simp: upload_part_def Let_def split: option.splits if_splits)
      from store_upload_Inr [OF this] show ?thesis by auto
    qed
    from "2.prems"(2) have d: "distinct order" "i \<notin> set order" by auto
    note IH = "2.IH"(2) [OF p [symmetric] Inr run d(1)]
    from IH d(2) have i: "map_of rs' i = Some x" by (simp add: gomap_simps)
    from IH b rep i p Inr d(2) show ?thesis by (auto simp: gomap_simps)
  qed
qed simp

section \<open>Properties\<close>

lemma handle_upload_one:
  assumes "handle_upload env q st = (st', Upload_one resp)"
  shows "\<exists>form file rd data bs entries added. parse_upload_form env 0 q = Inr form \<and> form_file form ''file'' = Some (file, rd) \<and>
    to_lower (trim_prefix (file_ext (uf_filename file)) ''.'') \<in> set (up_allowed_extensions (cf_upload (ue_cfg env))) \<and>
    int (length data) \<le> up_max_file_size (cf_upload (ue_cfg env)) \<and> read_limited (up_max_file_size (cf_upload (ue_cfg env))) rd = Some data \<and>
    budget_take (ue_today env) (ue_session env (uq_request q)) (int (length data)) (st_budget st) = (st_budget st', True) \<and>
    (if is_heif data then transcode_heif (ue_heif env) (ue_processor env) data = Some bs else bs = data) \<and>
    cluster_add_dir (ue_kubo env) entries (st_cluster st) = (st_cluster st', Inr added) \<and>
    map_of entries original_filename = Some (strip_metadata bs) \<and> fr_cid resp = ar_cid added \<and>
    fr_size resp = int (length (strip_metadata bs)) \<and> st_replicated st' = st_replicated st @ [ar_cid added]"
proof -
  from assms obtain form uf rd data st1 where h: "parse_upload_form env 0 q = Inr form" "form_file form ''file'' = Some (uf, rd)"
    "validate_file (ue_mime_type env) (cf_upload (ue_cfg env)) (uf_filename uf) (uf_content_type uf)"
    "read_limited (up_max_file_size (cf_upload (ue_cfg env))) rd = Some data"
    "int (length data) \<le> up_max_file_size (cf_upload (ue_cfg env))"
    "take_budget env (uq_request q) (int (length data)) st = (st1, True)"
    "store_upload env (uf_filename uf) data st1 = (st', Inr resp)"
    by (auto simp: handle_upload_def Let_def write_upload_error_def unsupported_reply_def
        split: sum.splits option.splits if_splits prod.splits bool.splits)
       (auto simp: parse_upload_form_def too_large_reply_def form_invalid_reply_def write_upload_error_def Let_def split: if_splits multipart.splits)
  have st1: "st_cluster st1 = st_cluster st" "st_replicated st1 = st_replicated st"
    "budget_take (ue_today env) (ue_session env (uq_request q)) (int (length data)) (st_budget st) = (st_budget st1, True)"
    using h(6) by (auto simp: take_budget_def split: prod.splits)
  from store_upload_Inr [OF h(7)] h st1 show ?thesis by (fastforce simp: validate_file_def Let_def)
qed

text \<open>
  C9: an upload is stored without what it says about its origin, within its limits, and accounted for. When
  \<open>POST /upload\<close> answers 200, the file had at most the allowed size and an allowed name, its bytes were
  charged to the session's budget, every node accepted one directory whose \<open>original\<close> is the stripped
  photo (of the converted JPEG for a HEIF photo), the answer names that directory's CID, and the same CID
  was handed to replication.
\<close>

theorem upload_stored_stripped:
  assumes "handle_upload env q st = (st', Upload_one resp)"
  shows "\<exists>form file rd data bs entries added. parse_upload_form env 0 q = Inr form \<and> form_file form ''file'' = Some (file, rd) \<and>
    to_lower (trim_prefix (file_ext (uf_filename file)) ''.'') \<in> set (up_allowed_extensions (cf_upload (ue_cfg env))) \<and>
    int (length data) \<le> up_max_file_size (cf_upload (ue_cfg env)) \<and> read_limited (up_max_file_size (cf_upload (ue_cfg env))) rd = Some data \<and>
    budget_take (ue_today env) (ue_session env (uq_request q)) (int (length data)) (st_budget st) = (st_budget st', True) \<and>
    (if is_heif data then transcode_heif (ue_heif env) (ue_processor env) data = Some bs else bs = data) \<and>
    cluster_add_dir (ue_kubo env) entries (st_cluster st) = (st_cluster st', Inr added) \<and>
    map_of entries original_filename = Some (strip_metadata bs) \<and> fr_cid resp = ar_cid added \<and>
    fr_size resp = int (length (strip_metadata bs)) \<and> st_replicated st' = st_replicated st @ [ar_cid added]"
  using assms by (rule handle_upload_one)

text \<open>
  No upload route accepts a longer body than its limit, however the length is declared: with a limit in
  force (the configured request size, or the route's own, whichever is smaller) the whole body,
  epilogue included, has at most that many bytes, was read to its end, and is what the parser saw.
\<close>

theorem form_within_limit:
  assumes "parse_upload_form env route_limit q = Inr form" and "0 < route_limit \<or> 0 < up_max_request_size (cf_upload (ue_cfg env))"
  shows "int (length (rd_bytes (uq_body q))) \<le> form_limit (ue_cfg env) route_limit \<and>
    (0 < up_max_request_size (cf_upload (ue_cfg env)) \<longrightarrow>
      int (length (rd_bytes (uq_body q))) \<le> up_max_request_size (cf_upload (ue_cfg env))) \<and>
    (0 < route_limit \<longrightarrow> int (length (rd_bytes (uq_body q))) \<le> route_limit) \<and>
    \<not> rd_fails (uq_body q) \<and> ue_multipart env (rd_bytes (uq_body q)) = Parsed form"
proof -
  have "form_limit (ue_cfg env) route_limit > 0" using assms(2) by (auto simp: form_limit_def Let_def)
  from parse_upload_form_bounded [OF assms(1) this] show ?thesis by (auto simp: form_limit_def Let_def split: if_splits)
qed

text \<open>
  C31: a batch answers for every file in its place. Whatever order the parallel uploads finish in, an answer
  with results has one per file, at most 20, the one at position \<open>i\<close> made from file \<open>i\<close>; exactly the CIDs
  of the answer were handed to replication, and the declared sizes were charged to the budget once.
\<close>

theorem batch_in_place:
  assumes "handle_upload_multiple env order q st = (st', Upload_many rs)"
    and "parse_upload_form env (multiple_route_limit (cf_upload (ue_cfg env))) q = Inr form"
    and "files = form_files form ''files''" and "mset order = mset [0..<length files]"
  shows "length rs = length files \<and> 0 < length files \<and> length files \<le> 20 \<and>
    (\<forall>i < length files. \<exists>s s'. upload_part env (files ! i) s = (s', Inr (rs ! i))) \<and>
    mset (st_replicated st') = mset (st_replicated st) + mset (map fr_cid rs) \<and>
    budget_take (ue_today env) (ue_session env (uq_request q)) (batch_bytes files) (st_budget st) = (st_budget st', True)"
proof -
  from assms(1-3) obtain st1 results where h: "files \<noteq> []" "length files \<le> max_files_per_upload"
    "take_budget env (uq_request q) (batch_bytes files) st = (st1, True)" "run_parts env files order st1 [] [] = (st', [], results)"
    and rs: "rs = map (\<lambda>i. case map_of results i of None \<Rightarrow> empty_response | Some x \<Rightarrow> x) [0..<length files]"
    by (auto simp: handle_upload_multiple_def Let_def write_upload_error_def form_invalid_reply_def failures_reply_def
        split: if_splits prod.splits bool.splits)
  have d: "distinct order" "set order = {0..<length files}"
    using assms(4) by (metis distinct_upt mset_eq_imp_distinct_iff) (metis assms(4) set_mset_mset set_upt)
  from run_parts_ok [OF h(4) d(1)] d(2) have r:
    "\<forall>i < length files. \<exists>s s' x. map_of results i = Some x \<and> upload_part env (files ! i) s = (s', Inr x)"
    "st_replicated st' = st_replicated st1 @ map (\<lambda>i. fr_cid (the (map_of results i))) order" "st_budget st' = st_budget st1"
    by auto
  have nth: "rs ! i = the (map_of results i)" if "i < length files" for i
    using that r(1) by (fastforce simp: rs)
  have "map fr_cid rs = map (\<lambda>i. fr_cid (the (map_of results i))) [0..<length files]"
    using nth by (intro nth_equalityI) (simp_all add: rs)
  moreover have "mset (map (\<lambda>i. fr_cid (the (map_of results i))) order) = mset (map (\<lambda>i. fr_cid (the (map_of results i))) [0..<length files])"
    using assms(4) by (metis mset_map)
  moreover have "st_replicated st1 = st_replicated st"
    "budget_take (ue_today env) (ue_session env (uq_request q)) (batch_bytes files) (st_budget st) = (st_budget st1, True)"
    using h(3) by (auto simp: take_budget_def split: prod.splits)
  moreover have "\<forall>i < length files. \<exists>s s'. upload_part env (files ! i) s = (s', Inr (rs ! i))" using r(1) nth by fastforce
  moreover have "length rs = length files" "0 < length files" "length files \<le> 20"
    using h(1,2) by (simp_all add: rs max_files_per_upload_def)
  ultimately show ?thesis using r(2,3) by (simp only: mset_append)
qed

section \<open>Witnesses\<close>

definition text_file :: upload_file where
  "text_file = \<lparr>uf_filename = ''a.txt'', uf_content_type = ''text/plain'', uf_size = 2, uf_open = Some \<lparr>rd_bytes = [1, 2], rd_fails = False\<rparr>\<rparr>"

definition small_config :: "rat config" where
  "small_config = (load rat_floats (\<lambda>s. None) (\<lambda>k. []))\<lparr>cf_upload :=
     \<lparr>up_max_file_size = 10, up_max_request_size = 100, up_daily_bytes_per_session = 50, up_allowed_extensions = [''txt''],
      up_allowed_mime_types = [(''text/plain'', True)]\<rparr>\<rparr>"

definition text_env :: "(unit, unit, rat, nrgba) upload_env" where
  "text_env = \<lparr>ue_cfg = small_config,
     ue_kubo = \<lparr>kb_valid_path = (\<lambda>p. True), kb_valid_cid = (\<lambda>c. True), kb_error_text = (\<lambda>e. []), kb_add = (\<lambda>b s. (s, Inr ''Qm'')),
       kb_add_dir = (\<lambda>d s. (s, Inr ''Qd'')), kb_is_pinned = (\<lambda>p s. (s, Inr True)), kb_pin_add = (\<lambda>p s. (s, Inr ())),
       kb_pin_rm = (\<lambda>p s. (s, Inr ())), kb_cat = (\<lambda>p s. (s, Inl ())), kb_get = (\<lambda>p s. (s, Inl ())), kb_dag_get = (\<lambda>p s. (s, Inl ()))\<rparr>,
     ue_floats = rat_floats, ue_imaging = example_imaging\<lparr>im_decode_config := (\<lambda>b. None)\<rparr>, ue_processor = example_processor,
     ue_heif = (\<lambda>q b. None), ue_detect_type = (\<lambda>b. ''text/plain''), ue_mime_type = (\<lambda>e. []),
     ue_multipart = (\<lambda>b. Parsed [(''file'', [text_file]), (''files'', [text_file])]), ue_manifest_json = (\<lambda>m. Some [0]),
     ue_session = (\<lambda>r. ''s''), ue_today = ''d'', ue_cancelled = False\<rparr>"

definition post_request :: upload_request where
  "post_request = \<lparr>uq_request = \<lparr>rq_method = ''POST'', rq_path = ''/upload'', rq_query = [], rq_headers = []\<rparr>,
     uq_content_length = 3, uq_body = \<lparr>rd_bytes = [0, 0, 0], rd_fails = False\<rparr>\<rparr>"

definition one_node :: "unit upload_state" where
  "one_node = \<lparr>st_cluster = \<lparr>cl_nodes = [\<lparr>cn_url = ''u'', cn_state = ()\<rparr>], cl_read_next = 0\<rparr>, st_budget = None, st_replicated = []\<rparr>"

lemma text_env_parse: "parse_upload_form text_env n post_request = Inr [(''file'', [text_file]), (''files'', [text_file])]"
  if "n = 0 \<or> 3 \<le> n"
  using that by (auto simp: parse_upload_form_def form_limit_def text_env_def small_config_def post_request_def Let_def)

lemma text_env_upload: "\<exists>resp. store_upload text_env ''a.txt'' [1, 2] one_node = (one_node\<lparr>st_replicated := [''Qd'']\<rparr>, Inr resp)"
proof -
  have s: "strip_metadata [1, 2] = [1, 2]" by (simp add: strip_metadata_def)
  have "cluster_add_dir (ue_kubo text_env) es (st_cluster one_node) = (st_cluster one_node, Inr \<lparr>ar_cid = ''Qd'', ar_name = []\<rparr>)" for es
    by (simp add: cluster_add_dir_def one_node_def add_everywhere_def run_all_def client_add_dir_def
        on_result_def text_env_def collect_cluster_errors_def)
  then show ?thesis
    by (simp add: store_upload_def is_heif_def build_file_bundle_def s process_def Let_def)
      (simp add: text_env_def one_node_def process_def image_manifest_def Let_def)
qed

lemma text_upload_one:
  "\<exists>resp. handle_upload text_env post_request one_node = (one_node\<lparr>st_replicated := [''Qd'']\<rparr>, Upload_one resp)"
proof -
  obtain resp where s: "store_upload text_env ''a.txt'' [1, 2] one_node = (one_node\<lparr>st_replicated := [''Qd'']\<rparr>, Inr resp)"
    using text_env_upload by blast
  have v: "validate_file (ue_mime_type text_env) (cf_upload (ue_cfg text_env)) ''a.txt'' ''text/plain''"
    by (simp add: validate_file_def text_env_def small_config_def file_ext_def last_element_def trim_prefix_def has_prefix_def lower_char_def ex_bool_eq Let_def)
  have f: "form_file [(''file'', [text_file]), (''files'', [text_file])] ''file'' = Some (text_file, \<lparr>rd_bytes = [1, 2], rd_fails = False\<rparr>)"
    by (simp add: form_file_def text_file_def)
  have t: "take_budget text_env r n one_node = (one_node, True)" for r n by (simp add: take_budget_def one_node_def budget_take_def)
  have m: "up_max_file_size (cf_upload (ue_cfg text_env)) = 10" by (simp add: text_env_def small_config_def)
  have n: "uf_filename text_file = ''a.txt''" "uf_content_type text_file = ''text/plain''" by (simp_all add: text_file_def)
  have r: "read_limited 10 \<lparr>rd_bytes = [1, 2], rd_fails = False\<rparr> = Some [1, 2]" by code_simp
  have "handle_upload text_env post_request one_node = (one_node\<lparr>st_replicated := [''Qd'']\<rparr>, Upload_one resp)"
    using v s by (simp add: handle_upload_def text_env_parse f m n r t Let_def)
  then show ?thesis by blast
qed

theorem upload_stored_stripped_witness:
  "\<exists>resp. handle_upload text_env post_request one_node = (one_node\<lparr>st_replicated := [''Qd'']\<rparr>, Upload_one resp) \<and> fr_cid resp = ''Qd''"
proof -
  obtain resp where r: "handle_upload text_env post_request one_node = (one_node\<lparr>st_replicated := [''Qd'']\<rparr>, Upload_one resp)"
    using text_upload_one by blast
  from upload_stored_stripped [OF r] have "fr_cid resp = ''Qd''" by (auto simp: one_node_def)
  with r show ?thesis by blast
qed

theorem form_within_limit_witness: "int (length (rd_bytes (uq_body post_request))) \<le> 100"
  using form_within_limit [OF text_env_parse [of 0]] by (simp add: text_env_def small_config_def)

theorem batch_in_place_witness:
  "\<exists>st' rs. handle_upload_multiple text_env [0] post_request one_node = (st', Upload_many rs) \<and> length rs = 1 \<and> st_replicated st' = [''Qd'']"
proof -
  obtain resp where s: "store_upload text_env ''a.txt'' [1, 2] one_node = (one_node\<lparr>st_replicated := [''Qd'']\<rparr>, Inr resp)"
    using text_env_upload by blast
  have v: "validate_file (ue_mime_type text_env) (cf_upload (ue_cfg text_env)) ''a.txt'' ''text/plain''"
    by (simp add: validate_file_def text_env_def small_config_def file_ext_def last_element_def trim_prefix_def has_prefix_def lower_char_def ex_bool_eq Let_def)
  have t: "take_budget text_env r n one_node = (one_node, True)" for r n by (simp add: take_budget_def one_node_def budget_take_def)
  have m: "up_max_file_size (cf_upload (ue_cfg text_env)) = 10" by (simp add: text_env_def small_config_def)
  have l: "multiple_route_limit (cf_upload (ue_cfg text_env)) = 1048776" by (simp add: multiple_route_limit_def m max_files_per_upload_def)
  have f: "form_files [(''file'', [text_file]), (''files'', [text_file])] ''files'' = [text_file]" by (simp add: form_files_def)
  have n: "uf_filename text_file = ''a.txt''" "uf_content_type text_file = ''text/plain''"
    "uf_open text_file = Some \<lparr>rd_bytes = [1, 2], rd_fails = False\<rparr>" by (simp_all add: text_file_def)
  have p: "upload_part text_env text_file one_node = (one_node\<lparr>st_replicated := [''Qd'']\<rparr>, Inr resp)"
    using s by (simp add: upload_part_def n m read_limited_def Let_def)
  have "handle_upload_multiple text_env [0] post_request one_node = (one_node\<lparr>st_replicated := [''Qd'']\<rparr>, Upload_many [resp])"
    using v p by (simp add: handle_upload_multiple_def l text_env_parse f t n max_files_per_upload_def Let_def)
  from this batch_in_place [OF this text_env_parse [of "multiple_route_limit (cf_upload (ue_cfg text_env))"] refl] show ?thesis
    by (auto simp: l f one_node_def)
qed

end
