(* ===== verification/Service.thy ===== *)
theory Service
  imports Unpin_Worker Manifest_Cache File_Cache Upload_Handlers Media_Access Variant_Overrides
begin

text \<open>
  How a process of the service comes up: \<open>newMediaGrantVerifier\<close>, \<open>newMediaAccessResolver\<close> and \<open>NewHandler\<close>
  of \<open>internal/handler\<close>. What the files, Redis, the nodes and the detector hold at that moment is a record of
  arguments; \<open>url.Parse\<close> gives the scheme, host, path and query of an address.
\<close>

section \<open>The parts of a handler\<close>

record 'f startup =
  su_parse_url :: "string \<Rightarrow> (string \<times> string \<times> string \<times> query) option"
  su_decode_keys :: "string \<Rightarrow> (string, string) gomap option"
  su_valid_redis_url :: "string \<Rightarrow> bool"
  su_epoch_present :: bool
  su_valid_multiaddr :: "string \<Rightarrow> bool"
  su_unpin_disk :: "string \<Rightarrow> unpin_disk"
  su_override_disk :: "string \<Rightarrow> override_disk"
  su_cache_mkdir :: "string \<Rightarrow> bool"
  su_cache_listing :: "string \<Rightarrow> (string \<times> bool) list option"
  su_cache_remove :: "string \<Rightarrow> bool"
  su_detector :: "'f detector option"

record ('s, 'f) service =
  sr_grants :: "(grant_codec \<times> string) option"
  sr_cluster :: "'s cluster"
  sr_unpin :: "unpin_store option"
  sr_overrides :: "variant_overrides option"
  sr_files :: "file_cache option"
  sr_manifests :: "manifest_cache option"
  sr_processor :: "'f processor"
  sr_resolver :: "(resolver \<times> int) option"
  sr_uploads :: "upload_budget option"
  sr_worker :: "worker option"

text \<open>\<open>Crashed\<close>: the goroutine of the collector asks for a ticker of no positive period, which panics.\<close>

datatype grant_init_error = Keys_not_json | Codec_refused codec_error | State_refused state_error | Epoch_unknown

datatype ('s, 'f) started = Not_started grant_init_error | Crashed | Running "('s, 'f) service"

definition new_media_grant_verifier :: "'f startup \<Rightarrow> media_grant_config \<Rightarrow> grant_init_error + (grant_codec \<times> string) option" where
  "new_media_grant_verifier su cfg =
     (if \<not> mg_enabled cfg then Inr None
      else (case su_decode_keys su (mg_keys cfg) of
          None \<Rightarrow> Inl Keys_not_json
        | Some keys \<Rightarrow> (case new_codec (mg_active_key cfg) (mg_audience cfg) keys of
              Inl e \<Rightarrow> Inl (Codec_refused e)
            | Inr codec \<Rightarrow> (case new_state (su_valid_redis_url su) (mg_redis_url cfg) (mg_namespace cfg) of
                  Inl e \<Rightarrow> Inl (State_refused e)
                | Inr pre \<Rightarrow> if \<not> su_epoch_present su then Inl Epoch_unknown else Inr (Some (codec, pre))))))"

text \<open>The resolver comes with the timeout of its client, in nanoseconds.\<close>

definition new_media_access_resolver :: "'f startup \<Rightarrow> access_config \<Rightarrow> (resolver \<times> int) option" where
  "new_media_access_resolver su cfg = (case su_parse_url su (trim_space (ac_url cfg)) of
      None \<Rightarrow> None
    | Some (scheme, host, path, query) \<Rightarrow>
        if scheme = [] \<or> host = [] then None
        else
          (let configured = trim_space (ac_link_url cfg);
               link = (if configured = [] then Some (scheme, host, path, query) else su_parse_url su configured);
               timeout = int64 (ac_timeout_ms cfg * 1000000)
           in case link of
                None \<Rightarrow> None
              | Some (link_scheme, link_host, link_path, link_query) \<Rightarrow>
                  if link_scheme = [] \<or> link_host = [] then None
                  else Some (\<lparr>mr_cid_host = host, mr_cid_path = path, mr_cid_query = query, mr_link_host = link_host,
                         mr_link_path = link_path\<rparr>, if timeout \<le> 0 then 2500 * 1000000 else timeout)))"

definition fallback_store_path :: string where
  "fallback_store_path = ''/tmp/unpin-store.json''"

text \<open>The soft-delete store: the configured file, else the fallback; \<open>None\<close> when that one fails as well.\<close>

definition open_unpin_store :: "'f startup \<Rightarrow> string \<Rightarrow> unpin_store option" where
  "open_unpin_store su path = (case new_unpin_store path (su_unpin_disk su path) of
      Inr s \<Rightarrow> Some s
    | Inl e \<Rightarrow> (case new_unpin_store fallback_store_path (su_unpin_disk su fallback_store_path) of
          Inr s \<Rightarrow> Some s
        | Inl e' \<Rightarrow> None))"

definition sum_option :: "'e + 'a \<Rightarrow> 'a option" where
  "sum_option r = (case r of Inl e \<Rightarrow> None | Inr a \<Rightarrow> Some a)"

text \<open>\<open>NewCluster\<close> never answers nil, so the branch that would connect to \<open>LocalURL\<close> is never taken.\<close>

definition new_handler :: "'f floats \<Rightarrow> 'f startup \<Rightarrow> (string \<Rightarrow> 's) \<Rightarrow> 'f config \<Rightarrow> ('s, 'f) started" where
  "new_handler fl su connect cfg =
     (case new_media_grant_verifier su (cf_media_grants cfg) of
        Inl e \<Rightarrow> Not_started e
      | Inr grants \<Rightarrow>
          (let store_path = un_store_path (cf_unpin cfg); dir = path_dir store_path;
               cache_dir = path_join dir ''file-cache'';
               overrides = path_join dir ''variant-overrides.json'';
               ttl = un_ttl (cf_unpin cfg);
               s = \<lparr>sr_grants = grants,
                    sr_cluster = new_cluster (su_valid_multiaddr su) connect (ip_cluster_nodes (cf_ipfs cfg)),
                    sr_unpin = open_unpin_store su store_path,
                    sr_overrides = sum_option (new_variant_overrides overrides (su_override_disk su overrides)),
                    sr_files = (case new_file_cache (ip_file_cache_bytes (cf_ipfs cfg)) (su_cache_mkdir su cache_dir)
                                  (su_cache_listing su cache_dir) (su_cache_remove su) of
                        Inl e \<Rightarrow> None | Inr (c, _) \<Rightarrow> c),
                    sr_manifests = new_manifest_cache (ip_manifest_cache_bytes (cf_ipfs cfg)),
                    sr_processor = new_processor fl (cf_image cfg) (vc_ffmpeg_path (cf_video cfg)) (su_detector su),
                    sr_resolver = new_media_access_resolver su (cf_media_access cfg),
                    sr_uploads = new_upload_budget (up_daily_bytes_per_session (cf_upload cfg)),
                    sr_worker = (if ttl > 0 then Some (worker_start new_worker) else None)\<rparr>
           in if ttl > 0 \<and> un_gc_interval (cf_unpin cfg) \<le> 0 then Crashed else Running s))"

section \<open>Facts\<close>

lemma new_handler_running:
  assumes "new_handler fl su connect cfg = Running s"
  shows "sr_unpin s = open_unpin_store su (un_store_path (cf_unpin cfg)) \<and>
    sr_cluster s = new_cluster (su_valid_multiaddr su) connect (ip_cluster_nodes (cf_ipfs cfg)) \<and>
    sr_resolver s = new_media_access_resolver su (cf_media_access cfg) \<and>
    sr_overrides s = sum_option (new_variant_overrides (path_join (path_dir (un_store_path (cf_unpin cfg))) ''variant-overrides.json'')
      (su_override_disk su (path_join (path_dir (un_store_path (cf_unpin cfg))) ''variant-overrides.json''))) \<and>
    sr_worker s = (if un_ttl (cf_unpin cfg) > 0 then Some \<lparr>wk_running = True, wk_stop_closed = False, wk_loops = 1\<rparr> else None)"
  using assms
  by (auto simp: new_handler_def Let_def worker_start_def new_worker_def split: sum.splits if_splits)

lemma load_entries_has: "store_has (s\<lparr>us_entries := load_entries es []\<rparr>) c \<longleftrightarrow> c \<in> fst ` set es"
proof -
  have "map_of (load_entries es m) c \<noteq> None \<longleftrightarrow> c \<in> fst ` set es \<or> map_of m c \<noteq> None" for m
  proof (induction es arbitrary: m)
    case (Cons e es)
    show ?case using Cons.IH [of "gm_put (fst e) (snd e) m"] by (cases e) (auto simp: gomap_simps simp del: not_None_eq)
  qed simp
  from this [of "[]"] show ?thesis by (simp add: store_has_def)
qed

section \<open>Properties\<close>

text \<open>
  What was deleted stays deleted over a restart, as long as the list can be read. A process that starts on
  a list in the current format hides exactly the CIDs of the list and writes to the same file. If the file
  exists but cannot be read or decoded, the process starts all the same, on the list in \<open>/tmp\<close>: with nothing
  there, it hides no CID at all, so that every file deleted before is served again.
\<close>

theorem startup_keeps_deletions:
  assumes "new_handler fl su connect cfg = Running s" and "path = un_store_path (cf_unpin cfg)"
  shows "(su_unpin_disk su path = Json_v2 es gs \<longrightarrow>
      (\<exists>st. sr_unpin s = Some st \<and> us_path st = path \<and> (\<forall>c. store_has st c \<longleftrightarrow> c \<in> fst ` set es))) \<and>
    (su_unpin_disk su path \<in> {Unreadable, Not_json} \<and> su_unpin_disk su fallback_store_path = No_file \<longrightarrow>
      (\<exists>st. sr_unpin s = Some st \<and> us_path st = fallback_store_path \<and> (\<forall>c. \<not> store_has st c)))"
proof -
  have u: "sr_unpin s = open_unpin_store su path" using new_handler_running [OF assms(1)] assms(2) by simp
  have h: "store_has \<lparr>us_path = p, us_entries = load_entries es [], us_groups = g, us_disk = d\<rparr> c \<longleftrightarrow> c \<in> fst ` set es" for p g d c
    using load_entries_has [where s = "\<lparr>us_path = p, us_entries = [], us_groups = g, us_disk = d\<rparr>" and es = es and c = c] by simp
  show ?thesis unfolding u
    by (auto simp: open_unpin_store_def new_unpin_store_def h Let_def) (simp add: store_has_def)+
qed

definition lost_list :: "rat startup" where
  "lost_list = \<lparr>su_parse_url = (\<lambda>u. None), su_decode_keys = (\<lambda>k. None), su_valid_redis_url = (\<lambda>u. False), su_epoch_present = False,
     su_valid_multiaddr = (\<lambda>u. True), su_unpin_disk = (\<lambda>p. if p = fallback_store_path then No_file else Not_json),
     su_override_disk = (\<lambda>p. Ov_missing), su_cache_mkdir = (\<lambda>p. True), su_cache_listing = (\<lambda>p. Some []),
     su_cache_remove = (\<lambda>p. True), su_detector = None\<rparr>"

theorem startup_keeps_deletions_witness:
  "\<exists>s st. new_handler rat_floats lost_list (\<lambda>u. ()) small_config = Running s \<and> sr_unpin s = Some st \<and> \<not> store_has st ''Qm''"
proof -
  have u: "un_store_path (cf_unpin small_config) = ''/data/unpin-store.json''" "un_ttl (cf_unpin small_config) = 86400000000000"
    "un_gc_interval (cf_unpin small_config) = 3600000000000" "\<not> mg_enabled (cf_media_grants small_config)"
    by (simp_all add: small_config_def load_def get_env_def get_env_duration_def get_env_parsed_def get_env_bool_def
        nanoseconds_per_hour_def)
  then obtain s where s: "new_handler rat_floats lost_list (\<lambda>u. ()) small_config = Running s"
    by (simp add: new_handler_def new_media_grant_verifier_def Let_def)
  have d: "su_unpin_disk lost_list (un_store_path (cf_unpin small_config)) = Not_json" "su_unpin_disk lost_list fallback_store_path = No_file"
    by (simp_all add: u(1) lost_list_def fallback_store_path_def)
  from startup_keeps_deletions [OF s refl] d obtain st where "sr_unpin s = Some st" "\<forall>c. \<not> store_has st c" by auto
  with s show ?thesis by blast
qed

end
