(* ===== verification/Face_Masks.thy ===== *)
theory Face_Masks
  imports Stream_Handlers Image_Processor
begin

text \<open>
  \<open>internal/handler/face_masks.go\<close>: drawing the face masks of stored pictures again and serving the new ones
  in place of the old. The state is the table of replaced variants; the cluster is read and written through
  the \<open>server\<close>, the picture library and the detector are those of \<open>Image_Processor\<close>. Of an error text only
  its presence is kept.
\<close>

section \<open>Requests and results\<close>

record face_mask_poster =
  fp_source :: string
  fp_mask :: string

record face_mask_request =
  fq_bundles :: "string list"
  fq_posters :: "face_mask_poster list"

record face_mask_result =
  fm_cid :: string
  fm_status :: string
  fm_new_cid :: string
  fm_error :: bool

datatype refresh_reply = Refresh_error nat string | Refresh_results "face_mask_result list"

record ('f, 'i) mask_env =
  me_server :: "'f server"
  me_imaging :: "'i imaging"
  me_processor :: "'f processor"
  me_cancelled :: bool

definition face_mask_refresh_max_items :: nat where "face_mask_refresh_max_items = 50"

definition face_mask_refresh_max_source :: nat where "face_mask_refresh_max_source = 100 * 2 ^ 20"

definition new_mask_result :: "string \<Rightarrow> face_mask_result" where
  "new_mask_result cid = \<lparr>fm_cid = cid, fm_status = [], fm_new_cid = [], fm_error = False\<rparr>"

definition failed_face_mask :: "face_mask_result \<Rightarrow> string \<Rightarrow> bool \<Rightarrow> face_mask_result" where
  "failed_face_mask result status err = (if err then result\<lparr>fm_status := status, fm_error := True\<rparr> else result\<lparr>fm_status := status\<rparr>)"

section \<open>Drawing and storing\<close>

text \<open>\<open>redrawFaceMask\<close>: the mask, or the status of its failure (with every status the code returns an error too).\<close>

definition redraw_face_mask :: "('f, 'i) mask_env \<Rightarrow> reader \<Rightarrow> string \<Rightarrow> string + variant" where
  "redraw_face_mask env rd content_type =
     (if rd_fails rd \<and> length (rd_bytes rd) \<le> face_mask_refresh_max_source then Inl ''source_missing''
      else
        (let source = take (face_mask_refresh_max_source + 1) (rd_bytes rd)
         in if length source > face_mask_refresh_max_source then Inl ''too_large''
            else (case im_decode_config (me_imaging env) source of
                None \<Rightarrow> Inl ''not_image''
              | Some (w, h, format) \<Rightarrow>
                  if int64 (w * h) > max_decode_pixels then Inl ''too_large''
                  else (case process_privacy (sv_floats (me_server env)) (me_imaging env) (me_processor env) (me_cancelled env) source content_type of
                      Inl e \<Rightarrow> Inl ''failed''
                    | Inr variants \<Rightarrow> (case find (\<lambda>v. va_key v = privacy_face_blur_variant_key) variants of
                          Some v \<Rightarrow> Inr v
                        | None \<Rightarrow> Inl ''not_image'')))))"

definition store_face_mask ::
    "('f, 'i) mask_env \<Rightarrow> face_mask_result \<Rightarrow> string \<Rightarrow> variant \<Rightarrow> variant_overrides option
       \<Rightarrow> variant_overrides option \<times> face_mask_result" where
  "store_face_mask env result key mask_variant ov = (case sv_add (me_server env) (va_filename mask_variant) (va_data mask_variant) of
      None \<Rightarrow> (ov, failed_face_mask result ''add_failed'' True)
    | Some cid \<Rightarrow> (case overrides_set (sv_set_outcome (me_server env)) key cid ov of
          (ov1, Inl e) \<Rightarrow> (ov1, failed_face_mask result ''save_failed'' True)
        | (ov1, Inr u) \<Rightarrow> (ov1, result\<lparr>fm_status := ''refreshed'', fm_new_cid := cid\<rparr>)))"

definition refresh_bundle_face_mask ::
    "('f, 'i) mask_env \<Rightarrow> string \<Rightarrow> variant_overrides option \<Rightarrow> variant_overrides option \<times> face_mask_result" where
  "refresh_bundle_face_mask env cid ov =
     (let result = new_mask_result cid; sv = me_server env
      in if validate_cid cid \<noteq> None then (ov, failed_face_mask result ''invalid'' True)
         else (case read_manifest sv cid of
             None \<Rightarrow> (ov, failed_face_mask result ''not_bundle'' True)
           | Some m \<Rightarrow> (case map_of (mf_variants m) privacy_face_blur_variant_key of
                 None \<Rightarrow> (ov, result\<lparr>fm_status := ''no_mask''\<rparr>)
               | Some variant \<Rightarrow> (case sg_fetch_path (sv_storage sv) cid (as_bundle_path (mf_original m)) of
                     None \<Rightarrow> (ov, failed_face_mask result ''source_missing'' True)
                   | Some rd \<Rightarrow> (case redraw_face_mask env rd (as_content_type (mf_original m)) of
                         Inl status \<Rightarrow> (ov, failed_face_mask result status True)
                       | Inr redrawn \<Rightarrow>
                           if as_content_type variant \<noteq> [] \<and> va_content_type redrawn \<noteq> as_content_type variant
                           then (ov, failed_face_mask result ''format_changed'' True)
                           else store_face_mask env result (variant_override_key cid privacy_face_blur_variant_key) redrawn ov)))))"

definition refresh_poster_face_mask ::
    "('f, 'i) mask_env \<Rightarrow> face_mask_poster \<Rightarrow> variant_overrides option \<Rightarrow> variant_overrides option \<times> face_mask_result" where
  "refresh_poster_face_mask env poster ov =
     (let result = new_mask_result (fp_mask poster)
      in if validate_cid (fp_source poster) \<noteq> None then (ov, failed_face_mask result ''invalid'' True)
         else if validate_cid (fp_mask poster) \<noteq> None then (ov, failed_face_mask result ''invalid'' True)
         else (case fetch_video_asset (sv_storage (me_server env)) (fp_source poster) of
             None \<Rightarrow> (ov, failed_face_mask result ''source_missing'' True)
           | Some rd \<Rightarrow> (case redraw_face_mask env rd ''image/jpeg'' of
                 Inl status \<Rightarrow> (ov, failed_face_mask result status True)
               | Inr redrawn \<Rightarrow> store_face_mask env result (variant_override_key (fp_mask poster) []) redrawn ov)))"

section \<open>The handler\<close>

text \<open>One loop over the items; each sees the table the one before it left.\<close>

fun refresh_all ::
    "('x \<Rightarrow> variant_overrides option \<Rightarrow> variant_overrides option \<times> face_mask_result) \<Rightarrow> 'x list
       \<Rightarrow> variant_overrides option \<Rightarrow> variant_overrides option \<times> face_mask_result list" where
  "refresh_all f [] ov = (ov, [])"
| "refresh_all f (x # xs) ov = (case f x ov of (ov1, r) \<Rightarrow> (case refresh_all f xs ov1 of (ov2, rs) \<Rightarrow> (ov2, r # rs)))"

text \<open>\<open>body\<close> is the decoded request, \<open>None\<close> when it is no JSON of that form or longer than 1 MiB.\<close>

definition handle_refresh_face_masks ::
    "('f, 'i) mask_env \<Rightarrow> string \<Rightarrow> face_mask_request option \<Rightarrow> variant_overrides option \<Rightarrow> variant_overrides option \<times> refresh_reply" where
  "handle_refresh_face_masks env user body ov =
     (if user \<noteq> ''api-key'' then (ov, Refresh_error 403 ''Refreshing face masks is not allowed'')
      else (case body of
          None \<Rightarrow> (ov, Refresh_error 400 ''Invalid request'')
        | Some q \<Rightarrow>
            (let total = length (fq_bundles q) + length (fq_posters q)
             in if total = 0 \<or> total > face_mask_refresh_max_items then (ov, Refresh_error 400 ''Send 1 to 50 items at a time'')
                else (case refresh_all (refresh_bundle_face_mask env) (fq_bundles q) ov of
                    (ov1, rs) \<Rightarrow> (case refresh_all (refresh_poster_face_mask env) (fq_posters q) ov1 of
                        (ov2, rs') \<Rightarrow> (ov2, Refresh_results (rs @ rs')))))))"

section \<open>Facts\<close>

text \<open>
  What one item may do to the table: nothing, or put under its key the CID of a mask that was drawn for it.
\<close>

definition mask_step ::
    "('f, 'i) mask_env \<Rightarrow> string \<Rightarrow> (variant \<Rightarrow> bool) \<Rightarrow> variant_overrides option \<Rightarrow> variant_overrides option \<times> face_mask_result \<Rightarrow> bool" where
  "mask_step env key redrawn ov out \<longleftrightarrow>
     (fst out = ov \<and> fm_status (snd out) \<noteq> ''refreshed'' \<or>
      (\<exists>v cid. redrawn v \<and> sv_add (me_server env) (va_filename v) (va_data v) = Some cid \<and>
        fst out = fst (overrides_set (sv_set_outcome (me_server env)) key cid ov) \<and>
        (fm_status (snd out) = ''refreshed'' \<longrightarrow> fm_new_cid (snd out) = cid \<and> ov \<noteq> None \<and> sv_set_outcome (me_server env) = Set_ok)))"

lemma store_face_mask_step: "redrawn v \<Longrightarrow> mask_step env key redrawn ov (store_face_mask env result key v ov)"
  by (auto simp: store_face_mask_def mask_step_def failed_face_mask_def overrides_set_def Let_def split: option.splits prod.splits if_splits)

lemma redraw_status: "redraw_face_mask env rd ct = Inl status \<Longrightarrow> status \<noteq> ''refreshed''"
  by (auto simp: redraw_face_mask_def Let_def split: if_splits option.splits sum.splits)

lemma redraw_key: "redraw_face_mask env rd ct = Inr v \<Longrightarrow> va_key v = privacy_face_blur_variant_key"
  by (auto simp: redraw_face_mask_def Let_def find_Some_iff split: if_splits option.splits sum.splits)

text \<open>The mask an item gets: drawn from the source by the code an upload uses.\<close>

definition bundle_mask :: "('f, 'i) mask_env \<Rightarrow> string \<Rightarrow> variant \<Rightarrow> bool" where
  "bundle_mask env cid v \<longleftrightarrow> (\<exists>m rd. read_manifest (me_server env) cid = Some m \<and>
     sg_fetch_path (sv_storage (me_server env)) cid (as_bundle_path (mf_original m)) = Some rd \<and>
     redraw_face_mask env rd (as_content_type (mf_original m)) = Inr v)"

definition poster_mask :: "('f, 'i) mask_env \<Rightarrow> face_mask_poster \<Rightarrow> variant \<Rightarrow> bool" where
  "poster_mask env p v \<longleftrightarrow> (\<exists>rd. fetch_video_asset (sv_storage (me_server env)) (fp_source p) = Some rd \<and>
     redraw_face_mask env rd ''image/jpeg'' = Inr v)"

lemma mask_step_failed: "status \<noteq> ''refreshed'' \<Longrightarrow> mask_step env key dr ov (ov, failed_face_mask result status b)"
  by (simp add: mask_step_def failed_face_mask_def)

lemma refresh_bundle_step:
  "mask_step env (variant_override_key cid privacy_face_blur_variant_key) (bundle_mask env cid) ov (refresh_bundle_face_mask env cid ov)"
proof -
  have "mask_step env key dr ov (ov, new_mask_result cid\<lparr>fm_status := ''no_mask''\<rparr>)" for key dr by (simp add: mask_step_def)
  then show ?thesis
    unfolding refresh_bundle_face_mask_def Let_def
    by (auto intro!: mask_step_failed store_face_mask_step simp: bundle_mask_def dest: redraw_status split: option.splits sum.splits)
qed

lemma refresh_poster_step:
  "mask_step env (variant_override_key (fp_mask p) []) (poster_mask env p) ov (refresh_poster_face_mask env p ov)"
  unfolding refresh_poster_face_mask_def Let_def
  by (auto intro!: mask_step_failed store_face_mask_step simp: poster_mask_def dest: redraw_status split: option.splits sum.splits)

lemma mask_step_other: "mask_step env key dr ov out \<Longrightarrow> k \<noteq> key \<Longrightarrow> overrides_get (fst out) k = overrides_get ov k"
  by (cases ov) (auto simp: mask_step_def overrides_set_def overrides_get_def gomap_simps Let_def)

lemma mask_step_own:
  assumes "mask_step env key dr ov out" "overrides_get (fst out) key \<noteq> overrides_get ov key"
  shows "\<exists>v. dr v \<and> sv_add (me_server env) (va_filename v) (va_data v) = Some (fst (overrides_get (fst out) key))"
proof -
  from assms obtain v cid where "dr v" "sv_add (me_server env) (va_filename v) (va_data v) = Some cid"
    "fst out = fst (overrides_set (sv_set_outcome (me_server env)) key cid ov)" by (auto simp: mask_step_def)
  moreover from this(3) assms(2) have "fst (overrides_get (fst out) key) = cid"
    by (cases ov) (auto simp: overrides_set_def overrides_get_def gomap_simps Let_def)
  ultimately show ?thesis by blast
qed

lemma refresh_all_other:
  assumes "\<And>x ov. mask_step env (key x) (dr x) ov (f x ov)" "refresh_all f xs ov = (ov', rs)"
  shows "length rs = length xs \<and>
    (overrides_get ov' k \<noteq> overrides_get ov k \<longrightarrow>
      (\<exists>x \<in> set xs. k = key x \<and> (\<exists>v. dr x v \<and> sv_add (me_server env) (va_filename v) (va_data v) = Some (fst (overrides_get ov' k)))))"
  using assms(2)
proof (induction xs arbitrary: ov rs)
  case (Cons x xs)
  then obtain ov1 r rs1 where s: "f x ov = (ov1, r)" "refresh_all f xs ov1 = (ov', rs1)" "rs = r # rs1"
    by (auto split: prod.splits)
  from assms(1) [of x ov] s(1) have step: "mask_step env (key x) (dr x) ov (ov1, r)" by simp
  show ?case
  proof (cases "overrides_get ov' k = overrides_get ov1 k")
    case True
    with mask_step_other [OF step, of k] mask_step_own [OF step] Cons.IH [OF s(2)] s(3) show ?thesis by auto
  next
    case False
    with Cons.IH [OF s(2)] s(3) show ?thesis by auto
  qed
qed simp

lemma refresh_all_cids:
  assumes "\<And>x ov. fm_cid (snd (f x ov)) = g x" "refresh_all f xs ov = (ov', rs)"
  shows "map fm_cid rs = map g xs"
  using assms(2)
proof (induction xs arbitrary: ov rs)
  case (Cons x xs)
  then show ?case using assms(1) [of x ov] by (auto split: prod.splits)
qed simp

lemma store_face_mask_cid: "fm_cid (snd (store_face_mask env result key v ov)) = fm_cid result"
  by (simp add: store_face_mask_def failed_face_mask_def split: option.splits prod.splits sum.splits)

lemma refresh_cid:
  "fm_cid (snd (refresh_bundle_face_mask env cid ov)) = cid" "fm_cid (snd (refresh_poster_face_mask env p ov)) = fp_mask p"
  by (simp_all add: refresh_bundle_face_mask_def refresh_poster_face_mask_def store_face_mask_cid failed_face_mask_def
      new_mask_result_def Let_def split: option.splits sum.splits)

section \<open>Properties\<close>

text \<open>
  C13: refreshing masks replaces masks with masks and nothing else. Only the platform may ask, for 1 to 50 items;
  there is one result per item, in order; and every entry of the table that differs afterwards is the
  face-mask entry of a photo in the request, or the entry of a poster's mask in it, and names the CID of a
  mask drawn from that item's own source, never an unprotected picture.
\<close>

theorem refresh_replaces_masks_only:
  assumes "handle_refresh_face_masks env user body ov = (ov', reply)"
  shows "(user \<noteq> ''api-key'' \<longrightarrow> ov' = ov \<and> (\<exists>e. reply = Refresh_error 403 e)) \<and>
    (\<forall>rs. reply = Refresh_results rs \<longrightarrow> (\<exists>q. body = Some q \<and>
       map fm_cid rs = fq_bundles q @ map fp_mask (fq_posters q) \<and> 0 < length rs \<and> length rs \<le> 50)) \<and>
    (overrides_get ov' k \<noteq> overrides_get ov k \<longrightarrow> user = ''api-key'' \<and>
      (\<exists>q v. body = Some q \<and> sv_add (me_server env) (va_filename v) (va_data v) = Some (fst (overrides_get ov' k)) \<and>
        va_key v = ''blur_faces'' \<and>
        ((\<exists>cid \<in> set (fq_bundles q). k = variant_override_key cid ''blur_faces'' \<and> bundle_mask env cid v) \<or>
         (\<exists>p \<in> set (fq_posters q). k = variant_override_key (fp_mask p) [] \<and> poster_mask env p v))))"
proof -
  consider (refused) "ov' = ov" "user \<noteq> ''api-key''" "\<exists>e. reply = Refresh_error 403 e"
    | (invalid) "ov' = ov" "user = ''api-key''" "\<exists>e. reply = Refresh_error 400 e"
    | (run) q ov1 rs rs' where "user = ''api-key''" "body = Some q" "0 < length (fq_bundles q) + length (fq_posters q)"
      "length (fq_bundles q) + length (fq_posters q) \<le> 50"
      "refresh_all (refresh_bundle_face_mask env) (fq_bundles q) ov = (ov1, rs)"
      "refresh_all (refresh_poster_face_mask env) (fq_posters q) ov1 = (ov', rs')" "reply = Refresh_results (rs @ rs')"
    using assms by (auto simp: handle_refresh_face_masks_def face_mask_refresh_max_items_def Let_def split: if_splits option.splits prod.splits)
  then show ?thesis
  proof cases
    case run
    note b = refresh_all_other [OF refresh_bundle_step run(5), of k] and p = refresh_all_other [OF refresh_poster_step run(6), of k]
    have "map fm_cid rs = fq_bundles q" "map fm_cid rs' = map fp_mask (fq_posters q)"
      using refresh_all_cids [OF refresh_cid(1) run(5)] refresh_all_cids [OF refresh_cid(2) run(6)] by simp_all
    moreover have "va_key v = ''blur_faces''" if "bundle_mask env c v \<or> poster_mask env x v" for c x v
      using that redraw_key by (auto simp: bundle_mask_def poster_mask_def privacy_face_blur_variant_key_def)
    moreover have "overrides_get ov' k = overrides_get ov1 k \<or> overrides_get ov' k \<noteq> overrides_get ov1 k" by blast
    ultimately show ?thesis using b p run(1-4,7) unfolding privacy_face_blur_variant_key_def by fastforce
  qed auto
qed

text \<open>
  A refreshed photo is served with its new mask. Once the refresh of a photo has answered \<open>refreshed\<close> with a
  CID, a request for the whole photo under the decision that shows it with masked faces gets the bytes of
  that CID, as long as they can be read; and the entry is on disk.
\<close>

theorem refreshed_mask_served:
  assumes "refresh_bundle_face_mask env cid ov = (ov', result)" and "fm_status result = ''refreshed''" and "fm_new_cid result \<noteq> []"
    and "dc_managed d" and "dc_mode d = Blur_faces" and "delivery_crop_for (me_server env) m [] d = ([], None)"
    and "read_manifest (me_server env) cid = Some m" and "configured_preview (me_server env) [] = None"
    and "map_of (mf_variants m) ''blur_faces'' = Some asset" and "as_content_type asset \<noteq> []"
    and "read_file (me_server env) (fm_new_cid result) [] = Some (\<lparr>rd_bytes = bs, rd_fails = False\<rparr>, hit)"
    and "hit \<in> {None, Some (int (length bs))}" and "rq_method r = ''GET''"
  shows "rs_body (snd (snd (serve_file (me_server env) r hs cid [] d ov'))) = Body_bytes bs \<and>
    (\<exists>s es. ov' = Some s \<and> vo_disk s = Ov_json es \<and> map_of es (variant_override_key cid ''blur_faces'') = Some (fm_new_cid result))"
proof -
  from refresh_bundle_step [of env cid ov] assms(1-3) obtain s where s: "ov = Some s"
    "ov' = fst (overrides_set Set_ok (variant_override_key cid ''blur_faces'') (fm_new_cid result) (Some s))"
    by (auto simp: mask_step_def privacy_face_blur_variant_key_def)
  then have e: "overrides_entry ov' (variant_override_key cid ''blur_faces'') = fm_new_cid result"
    by (simp add: overrides_set_def overrides_get_def gomap_simps Let_def)
  have src: "source_variant_for d [] = ''blur_faces''" using assms(4,5) by (simp add: source_variant_for_def privacy_blur_variant_key_def)
  have "snd (snd (serve_file (me_server env) r hs cid [] d ov')) =
      serve_stored (me_server env) r hs cid (as_bundle_path asset) (as_content_type asset) (fm_new_cid result) d"
    using assms(4-9) e by (simp add: serve_file_def requested_variant_def src Let_def)
  moreover have "rs_body (serve_stored (me_server env) r hs cid (as_bundle_path asset) (as_content_type asset) (fm_new_cid result) d) = Body_bytes bs"
    using assms(3,10-13) by (auto simp: serve_stored_def respond_file_def copy_cached_file_def Let_def)
  ultimately show ?thesis using s(2) by (simp add: overrides_set_def gomap_simps Let_def)
qed

section \<open>Witnesses\<close>

definition mask_manifest :: manifest where
  "mask_manifest = (new_file_manifest ''a.jpg'' ''image/jpeg'' ''jpeg'' 3)\<lparr>mf_type := ''image'',
     mf_variants := [(''blur_faces'', empty_asset\<lparr>as_bundle_path := ''m.jpg'', as_content_type := ''image/jpeg''\<rparr>)]\<rparr>"

definition mask_server :: "rat server" where
  "mask_server = \<lparr>sv_image = None, sv_access = None, sv_resolver = Some example_resolver, sv_policy = (\<lambda>p. Transport_error),
     sv_crypto = example_crypto, sv_codec = None, sv_check = (\<lambda>c. Inr ()), sv_revoke = (\<lambda>c. Inr ()), sv_digest = (\<lambda>s. s),
     sv_now = 0, sv_floats = rat_floats, sv_storage = blurred_storage\<lparr>sg_fetch := (\<lambda>c. Some \<lparr>rd_bytes = [9], rd_fails = False\<rparr>)\<rparr>,
     sv_decode_manifest = (\<lambda>b. Some mask_manifest), sv_manifests = (\<lambda>c m. m), sv_files = (\<lambda>k r. map_option (\<lambda>rd. (rd, None)) r),
     sv_preview = None, sv_add = (\<lambda>n b. Some ''Qn''), sv_set_outcome = Set_ok, sv_detect = (\<lambda>b. ''text/plain'')\<rparr>"

definition example_masks :: "(rat, nrgba) mask_env" where
  "example_masks = \<lparr>me_server = mask_server, me_imaging = example_imaging, me_processor = example_processor, me_cancelled = False\<rparr>"

lemma example_redraw: "\<exists>w. redraw_face_mask example_masks \<lparr>rd_bytes = [1, 2, 3], rd_fails = False\<rparr> ''image/jpeg'' =
    Inr (privacy_variant ''blur_faces'' ''jpeg'' w grey_line)"
proof -
  have s: "length [1, 2, 3 :: 8 word] \<le> face_mask_refresh_max_source" "take (face_mask_refresh_max_source + 1) [1, 2, 3 :: 8 word] = [1, 2, 3]"
    by (simp_all add: face_mask_refresh_max_source_def)
  from example_privacy [of "[1, 2, 3]"] obtain w where "process_privacy rat_floats example_imaging example_processor False [1, 2, 3] ''image/jpeg'' =
     Inr [privacy_variant ''blur'' ''jpeg'' w grey_line, privacy_variant ''blur_faces'' ''jpeg'' w grey_line]" by blast
  then show ?thesis using s by (simp add: redraw_face_mask_def example_masks_def mask_server_def example_imaging_simps max_decode_pixels_def
        privacy_face_blur_variant_key_def privacy_variant_def int64_id Let_def)
qed

lemma example_mask_server: "read_manifest mask_server c = Some (manifest_finalize c mask_manifest)"
  "map_of (mf_variants (manifest_finalize c mask_manifest)) ''blur_faces'' \<noteq> None"
  by (simp_all add: read_manifest_def fetch_manifest_def mask_server_def blurred_storage_def mask_manifest_def manifest_finalize_def)

lemma example_refresh: "\<exists>ov' r. refresh_bundle_face_mask example_masks example_cid empty_overrides = (ov', r) \<and>
    fm_status r = ''refreshed'' \<and> fm_new_cid r = ''Qn'' \<and> overrides_get ov' (variant_override_key example_cid ''blur_faces'') = (''Qn'', True)"
proof -
  obtain w where w: "redraw_face_mask example_masks \<lparr>rd_bytes = [1, 2, 3], rd_fails = False\<rparr> ''image/jpeg'' =
      Inr (privacy_variant ''blur_faces'' ''jpeg'' w grey_line)" using example_redraw by blast
  have m: "map_of (mf_variants (manifest_finalize example_cid mask_manifest)) ''blur_faces'' =
      Some (empty_asset\<lparr>as_bundle_path := ''m.jpg'', as_content_type := ''image/jpeg'', as_path := ''/file/'' @ example_cid @ ''/blur_faces''\<rparr>)"
    by (simp add: finalize_variants_get mask_manifest_def)
  have o: "as_bundle_path (mf_original mask_manifest) = original_filename"
    "as_content_type (mf_original mask_manifest) = ''image/jpeg''"
    by (simp_all add: mask_manifest_def manifest_finalize_def new_file_manifest_def)
  have f: "sg_fetch_path (sv_storage mask_server) example_cid original_filename = Some \<lparr>rd_bytes = [1, 2, 3], rd_fails = False\<rparr>"
    by (simp add: mask_server_def blurred_storage_def original_filename_def)
  have e: "me_server example_masks = mask_server" by (simp add: example_masks_def)
  have a: "sv_add mask_server n b = Some ''Qn''" "sv_set_outcome mask_server = Set_ok" for n b by (simp_all add: mask_server_def)
  have "refresh_bundle_face_mask example_masks example_cid empty_overrides = store_face_mask example_masks (new_mask_result example_cid)
      (variant_override_key example_cid ''blur_faces'') (privacy_variant ''blur_faces'' ''jpeg'' w grey_line) empty_overrides"
    by (simp add: refresh_bundle_face_mask_def e example_mask_server(1) m o f w example_cid_valid privacy_face_blur_variant_key_def
        privacy_variant_def content_type_for_format_def Let_def)
  then show ?thesis
    by (simp add: store_face_mask_def e a overrides_set_def overrides_get_def empty_overrides_def gomap_simps Let_def)
qed

lemma example_refresh_request: "\<exists>ov' rs. handle_refresh_face_masks example_masks ''api-key'' (Some \<lparr>fq_bundles = [example_cid], fq_posters = []\<rparr>) empty_overrides =
    (ov', Refresh_results rs) \<and> overrides_get ov' (variant_override_key example_cid ''blur_faces'') = (''Qn'', True)"
  using example_refresh by (auto simp: handle_refresh_face_masks_def face_mask_refresh_max_items_def)

theorem refresh_replaces_masks_only_witness:
  "\<exists>v. bundle_mask example_masks example_cid v \<and> sv_add (me_server example_masks) (va_filename v) (va_data v) = Some ''Qn'' \<and> va_key v = ''blur_faces''"
proof -
  obtain ov' rs where r: "handle_refresh_face_masks example_masks ''api-key'' (Some \<lparr>fq_bundles = [example_cid], fq_posters = []\<rparr>) empty_overrides =
      (ov', Refresh_results rs)" "overrides_get ov' (variant_override_key example_cid ''blur_faces'') = (''Qn'', True)"
    using example_refresh_request by blast
  have "overrides_get empty_overrides k = ([], False)" for k by (simp add: overrides_get_def empty_overrides_def)
  with refresh_replaces_masks_only [OF r(1), of "variant_override_key example_cid ''blur_faces''"] r(2) show ?thesis by auto
qed

theorem refreshed_mask_served_witness:
  "\<exists>ov' r. refresh_bundle_face_mask example_masks example_cid empty_overrides = (ov', r) \<and>
    rs_body (snd (snd (serve_file mask_server (example_request [] []) [] example_cid []
      (initial_decision\<lparr>dc_managed := True, dc_mode := Blur_faces\<rparr>) ov'))) = Body_bytes [9]"
proof -
  obtain ov' r where r: "refresh_bundle_face_mask example_masks example_cid empty_overrides = (ov', r)"
    "fm_status r = ''refreshed''" "fm_new_cid r = ''Qn''" using example_refresh by blast
  have e: "me_server example_masks = mask_server" by (simp add: example_masks_def)
  let ?d = "initial_decision\<lparr>dc_managed := True, dc_mode := Blur_faces\<rparr>" and ?m = "manifest_finalize example_cid mask_manifest"
  have crop: "delivery_crop_for mask_server ?m [] ?d = ([], None)"
    by (simp add: delivery_crop_for_def initial_decision_def parse_delivery_crop_def mask_server_def)
  have "rq_method (example_request [] []) = ''GET''" by (simp add: example_request_def)
  moreover have "read_file mask_server ''Qn'' [] = Some (\<lparr>rd_bytes = [9], rd_fails = False\<rparr>, None)" "configured_preview mask_server [] = None"
    by (simp_all add: read_file_def mask_server_def configured_preview_def)
  moreover have "map_of (mf_variants ?m) ''blur_faces'' =
      Some (empty_asset\<lparr>as_bundle_path := ''m.jpg'', as_content_type := ''image/jpeg'', as_path := ''/file/'' @ example_cid @ ''/blur_faces''\<rparr>)"
    by (simp add: finalize_variants_get mask_manifest_def)
  ultimately show ?thesis
    using refreshed_mask_served [OF r(1,2), of ?d ?m _ "[9]" None "example_request [] []" "[]"] r crop example_mask_server(1) by (simp add: e)
qed

end
