(* ===== verification/Transcoder.thy ===== *)
theory Transcoder
  imports Video_Uploader Config
begin

text \<open>
  Validation and transcoding of a video, \<open>internal/video/validator.go\<close> and \<open>transcoder.go\<close>. Running
  ffprobe and ffmpeg is a parameter: a probe answers with the decoded JSON of ffprobe, a run of ffmpeg
  with its arguments succeeds or fails.
\<close>

section \<open>Probing\<close>

record 'f video_info =
  vi_duration :: 'f
  vi_width :: int
  vi_height :: int
  vi_rotation :: int
  vi_codec_name :: string
  vi_frame_rate :: 'f
  vi_bit_rate :: int

record 'f probe_stream =
  ps_duration :: string
  ps_width :: int
  ps_height :: int
  ps_codec_name :: string
  ps_avg_frame_rate :: string
  ps_rotate :: string
  ps_side_rotations :: "'f list"

record 'f probe_output =
  po_format_duration :: string
  po_format_bit_rate :: string
  po_streams :: "'f probe_stream list"

datatype probe_error = Ffprobe_failed | No_video_streams | Bad_duration

definition parse_frame_rate :: "'f floats \<Rightarrow> string \<Rightarrow> 'f" where
  "parse_frame_rate fl v = (case split_char CHR ''/'' (trim_space v) of
      [num, den] \<Rightarrow> (case fl_parse fl num of
          None \<Rightarrow> fl_lit fl 0 0
        | Some n \<Rightarrow> (case fl_parse fl den of
            None \<Rightarrow> fl_lit fl 0 0
          | Some d \<Rightarrow> if fl_leq fl d (fl_lit fl 0 0) then fl_lit fl 0 0 else fl_div fl n d))
    | _ \<Rightarrow> fl_lit fl 0 0)"

text \<open>
  \<open>strconv.Atoi\<close> and \<open>strconv.ParseInt\<close> whose error is ignored: on a number out of range the value is the
  nearest bound of the range, on anything else zero.
\<close>

definition parse_int_lenient :: "string \<Rightarrow> int" where
  "parse_int_lenient s = (case parse_int s of
      Some i \<Rightarrow> i
    | None \<Rightarrow>
        (let neg = has_prefix s ''-''; ds = (if neg \<or> has_prefix s ''+'' then tl s else s)
         in if ds \<noteq> [] \<and> list_all is_digit ds then (if neg then - (2 ^ 63) else 2 ^ 63 - 1) else 0))"

definition stream_rotation :: "'f floats \<Rightarrow> 'f probe_stream \<Rightarrow> int" where
  "stream_rotation fl s = (case find (\<lambda>r. fl_less fl r (fl_lit fl 0 0) \<or> fl_less fl (fl_lit fl 0 0) r \<or> fl_is_nan fl r) (ps_side_rotations s) of
      Some r \<Rightarrow> fl_to_int fl r
    | None \<Rightarrow> parse_int_lenient (trim_space (ps_rotate s)))"

definition probe_video_info :: "'f floats \<Rightarrow> (string \<Rightarrow> 'f probe_output option) \<Rightarrow> string \<Rightarrow> probe_error + 'f video_info" where
  "probe_video_info fl ffprobe path = (case ffprobe path of
      None \<Rightarrow> Inl Ffprobe_failed
    | Some out \<Rightarrow> (case po_streams out of
          [] \<Rightarrow> Inl No_video_streams
        | s # _ \<Rightarrow>
            (let duration = (if po_format_duration out = [] then ps_duration s else po_format_duration out)
             in case fl_parse fl (trim_space duration) of
                  None \<Rightarrow> Inl Bad_duration
                | Some d \<Rightarrow> Inr \<lparr>vi_duration = d, vi_width = ps_width s, vi_height = ps_height s,
                    vi_rotation = stream_rotation fl s, vi_codec_name = ps_codec_name s,
                    vi_frame_rate = parse_frame_rate fl (ps_avg_frame_rate s),
                    vi_bit_rate = parse_int_lenient (trim_space (po_format_bit_rate out))\<rparr>)))"

section \<open>Validation\<close>

record validation_error =
  ve_code :: string
  ve_max_size_bytes :: int
  ve_max_duration_sec :: int

definition validation_error_text :: "validation_error option \<Rightarrow> string" where
  "validation_error_text e = (case e of
      None \<Rightarrow> ''video validation failed''
    | Some v \<Rightarrow> if ve_code v = [] then ''video validation failed'' else ve_code v)"

definition max_video_side :: int where "max_video_side = 4096"

definition validate ::
    "'f floats \<Rightarrow> (string \<Rightarrow> probe_error + 'f video_info) \<Rightarrow> 'f video_config \<Rightarrow> string \<Rightarrow> int \<Rightarrow> validation_error option" where
  "validate fl prober cfg path file_size =
     (if file_size > vc_max_size_bytes cfg
      then Some \<lparr>ve_code = ''video_file_too_large'', ve_max_size_bytes = vc_max_size_bytes cfg, ve_max_duration_sec = 0\<rparr>
      else (case prober path of
          Inl e \<Rightarrow> Some \<lparr>ve_code = ''video_metadata_invalid'', ve_max_size_bytes = 0, ve_max_duration_sec = 0\<rparr>
        | Inr info \<Rightarrow>
            if fl_less fl (fl_of_int fl (vc_max_duration_sec cfg)) (vi_duration info)
            then Some \<lparr>ve_code = ''video_duration_exceeded'', ve_max_size_bytes = 0, ve_max_duration_sec = vc_max_duration_sec cfg\<rparr>
            else if vi_width info > max_video_side \<or> vi_height info > max_video_side
                    \<or> fl_less fl (fl_lit fl 120 0) (vi_frame_rate info)
            then Some \<lparr>ve_code = ''video_resolution_exceeded'', ve_max_size_bytes = 0, ve_max_duration_sec = 0\<rparr>
            else None))"

section \<open>Bitrates\<close>

definition strip_k :: "string \<Rightarrow> string" where
  "strip_k br = trim_suffix (trim_suffix br ''k'') ''K''"

definition bitrate_to_name :: "string \<Rightarrow> string" where
  "bitrate_to_name br = (case scan_decimal (strip_k br) of
      None \<Rightarrow> br
    | Some (v, rest) \<Rightarrow> if v \<le> 700 then ''low'' else if v \<le> 2000 then ''medium'' else ''high'')"

definition multiply_bitrate :: "string \<Rightarrow> int \<Rightarrow> string" where
  "multiply_bitrate br factor = (case scan_decimal (strip_k br) of
      None \<Rightarrow> br
    | Some (v, rest) \<Rightarrow> itoa (int64 (v * factor)) @ ''k'')"

definition bitrate_value :: "string \<Rightarrow> int option" where
  "bitrate_value bitrate =
     (let v = trim_space (to_lower bitrate); multiplier = (if has_suffix v ''k'' then 1000 else 1)
      in case parse_int (trim_suffix v ''k'') of
           None \<Rightarrow> None
         | Some n \<Rightarrow> if n \<le> 0 then None else Some (int64 (n * multiplier)))"

section \<open>The ladder\<close>

record hls_variant =
  hv_name :: string
  hv_bitrate :: string

fun select_loop :: "int \<Rightarrow> string list \<Rightarrow> hls_variant list \<Rightarrow> hls_variant list" where
  "select_loop max_bitrate [] variants = variants"
| "select_loop max_bitrate (bitrate # bs) variants =
     (let name = bitrate_to_name bitrate
      in if name \<in> hv_name ` set variants then select_loop max_bitrate bs variants
         else if variants \<noteq> [] \<and> max_bitrate > 0
                 \<and> (case bitrate_value bitrate of None \<Rightarrow> True | Some v \<Rightarrow> v > max_bitrate)
         then select_loop max_bitrate bs variants
         else select_loop max_bitrate bs (variants @ [\<lparr>hv_name = name, hv_bitrate = bitrate\<rparr>]))"

definition max_bitrate_of :: "'f floats \<Rightarrow> 'f video_info option \<Rightarrow> int" where
  "max_bitrate_of fl info = (case info of
      None \<Rightarrow> 0
    | Some i \<Rightarrow> if vi_bit_rate i > 0 then fl_to_int fl (fl_mul fl (fl_of_int fl (vi_bit_rate i)) (fl_lit fl 12 1)) else 0)"

definition select_variants :: "'f floats \<Rightarrow> 'f video_config \<Rightarrow> 'f video_info option \<Rightarrow> hls_variant list" where
  "select_variants fl cfg info =
     (let variants = select_loop (max_bitrate_of fl info) (vc_bitrates cfg) []
      in if variants = [] \<and> vc_bitrates cfg \<noteq> []
         then [\<lparr>hv_name = bitrate_to_name (hd (vc_bitrates cfg)), hv_bitrate = hd (vc_bitrates cfg)\<rparr>]
         else variants)"

definition gop_size :: "'f floats \<Rightarrow> 'f video_config \<Rightarrow> 'f \<Rightarrow> int" where
  "gop_size fl cfg frame_rate =
     (let rate = (if fl_leq fl frame_rate (fl_lit fl 0 0) then fl_lit fl 30 0 else frame_rate);
          segment = (if vc_segment_duration_sec cfg \<le> 0 then 4 else vc_segment_duration_sec cfg)
      in max 1 (fl_to_int fl (fl_round fl (fl_mul fl rate (fl_of_int fl segment)))))"

definition variant_args :: "'f floats \<Rightarrow> 'f video_config \<Rightarrow> string \<Rightarrow> 'f \<Rightarrow> hls_variant \<Rightarrow> string list" where
  "variant_args fl cfg output_dir frame_rate v =
     (let gop = itoa (gop_size fl cfg frame_rate); seconds = itoa (vc_segment_duration_sec cfg);
          dir = path_join output_dir (hv_name v)
      in [''-map'', ''v:0'', ''-map'', ''0:a?'', ''-c:v'', ''libx264'', ''-b:v'', hv_bitrate v, ''-maxrate'', hv_bitrate v,
          ''-bufsize'', multiply_bitrate (hv_bitrate v) 2, ''-preset'', ''fast'', ''-g'', gop, ''-keyint_min'', gop,
          ''-sc_threshold'', ''0'', ''-force_key_frames'', ''expr:gte(t,n_forced*'' @ seconds @ '')'', ''-c:a'', ''aac'',
          ''-b:a'', ''128k'', ''-f'', ''hls'', ''-hls_time'', seconds, ''-hls_list_size'', ''0'',
          ''-hls_flags'', ''independent_segments'', ''-hls_segment_type'', ''1'',
          ''-hls_segment_filename'', path_join dir ''seg_%d.m4s'', path_join dir ''playlist.m3u8''])"

definition build_hls_args_for_variants ::
    "'f floats \<Rightarrow> 'f video_config \<Rightarrow> string \<Rightarrow> string \<Rightarrow> hls_variant list \<Rightarrow> 'f \<Rightarrow> string list" where
  "build_hls_args_for_variants fl cfg input_path output_dir variants frame_rate =
     [''-i'', input_path, ''-y''] @ concat (map (variant_args fl cfg output_dir frame_rate) variants)"

definition build_hls_args :: "'f floats \<Rightarrow> 'f video_config \<Rightarrow> string \<Rightarrow> string \<Rightarrow> string list" where
  "build_hls_args fl cfg input_path output_dir =
     build_hls_args_for_variants fl cfg input_path output_dir (select_variants fl cfg None) (fl_lit fl 0 0)"

section \<open>Thumbnails\<close>

definition replace_key_char :: "char \<Rightarrow> char" where
  "replace_key_char c = (if c = CHR ''/'' \<or> c = CHR 0x5C \<or> c = CHR '':'' \<or> c = CHR '' '' then CHR ''_'' else c)"

definition thumbnail_filename :: "image_variant \<Rightarrow> string" where
  "thumbnail_filename v =
     (let key = trim_space (iv_key v);
          named = (if key = [] then itoa (iv_width v) @ ''x'' @ itoa (iv_height v) else key)
      in map replace_key_char named @ ''.jpg'')"

definition build_thumbnail_args :: "'f floats \<Rightarrow> 'f video_config \<Rightarrow> string \<Rightarrow> string \<Rightarrow> image_variant \<Rightarrow> string list" where
  "build_thumbnail_args fl cfg input_path output_path v =
     [''-ss'', fl_fixed fl 3 (vc_thumbnail_time_sec cfg), ''-i'', input_path, ''-frames:v'', ''1'', ''-vf'',
      ''scale='' @ itoa (iv_width v) @ '':'' @ itoa (iv_height v) @ '':force_original_aspect_ratio=decrease'',
      ''-q:v'', itoa (vc_thumbnail_qscale cfg), ''-y'', output_path]"

text \<open>Every command that is run, in order; a command that fails ends the loop.\<close>

fun generate_thumbnails ::
    "'f floats \<Rightarrow> (string list \<Rightarrow> bool) \<Rightarrow> 'f video_config \<Rightarrow> string \<Rightarrow> string \<Rightarrow> image_variant list \<Rightarrow> string list list \<times> bool" where
  "generate_thumbnails fl ffmpeg cfg input_path output_dir [] = ([], True)"
| "generate_thumbnails fl ffmpeg cfg input_path output_dir (v # vs) =
     (if iv_width v \<le> 0 \<or> iv_height v \<le> 0 then generate_thumbnails fl ffmpeg cfg input_path output_dir vs
      else
        (let args = build_thumbnail_args fl cfg input_path
               (path_join (path_join output_dir ''posters'') (thumbnail_filename v)) v
         in if \<not> ffmpeg args then ([args], False)
            else (case generate_thumbnails fl ffmpeg cfg input_path output_dir vs of (cmds, ok) \<Rightarrow> (args # cmds, ok))))"

section \<open>Transcoding\<close>

record 'f transcode_result =
  tr_output_dir :: string
  tr_variants :: "(string, string) gomap"
  tr_duration :: 'f

datatype transcode_error = Make_dir_failed | Probe_failed probe_error | Too_long | Thumbnails_failed | Ffmpeg_failed

text \<open>\<open>mkdir\<close> says whether a directory can be created; the commands that are run are part of the result.\<close>

definition transcode ::
    "'f floats \<Rightarrow> (string \<Rightarrow> bool) \<Rightarrow> (string \<Rightarrow> 'f probe_output option) \<Rightarrow> (string list \<Rightarrow> bool) \<Rightarrow> 'f video_config
       \<Rightarrow> string \<Rightarrow> string \<Rightarrow> string list list \<times> (transcode_error + 'f transcode_result)" where
  "transcode fl mkdir ffprobe ffmpeg cfg input_path output_dir =
     (if \<not> mkdir output_dir then ([], Inl Make_dir_failed)
      else (case probe_video_info fl ffprobe input_path of
          Inl e \<Rightarrow> ([], Inl (Probe_failed e))
        | Inr info \<Rightarrow>
            if fl_less fl (fl_of_int fl (vc_max_duration_sec cfg)) (vi_duration info) then ([], Inl Too_long)
            else if vc_thumbnail_variants cfg \<noteq> [] \<and> \<not> mkdir (path_join output_dir ''posters'') then ([], Inl Thumbnails_failed)
            else
              (case generate_thumbnails fl ffmpeg cfg input_path output_dir (vc_thumbnail_variants cfg) of
                 (cmds, False) \<Rightarrow> (cmds, Inl Thumbnails_failed)
               | (cmds, True) \<Rightarrow>
                   (let variants = select_variants fl cfg (Some info);
                        args = build_hls_args_for_variants fl cfg input_path output_dir variants (vi_frame_rate info)
                    in if \<not> list_all (\<lambda>v. mkdir (path_join output_dir (hv_name v))) variants then (cmds, Inl Make_dir_failed)
                       else if \<not> ffmpeg args then (cmds @ [args], Inl Ffmpeg_failed)
                       else (cmds @ [args], Inr \<lparr>tr_output_dir = output_dir,
                         tr_variants = foldl (\<lambda>m v. gm_put (hv_name v) (path_join output_dir (hv_name v)) m) [] variants,
                         tr_duration = vi_duration info\<rparr>)))))"

section \<open>Facts\<close>

definition fits_bitrate :: "int \<Rightarrow> hls_variant \<Rightarrow> bool" where
  "fits_bitrate max_bitrate v \<longleftrightarrow> max_bitrate \<le> 0 \<or> (\<exists>n. bitrate_value (hv_bitrate v) = Some n \<and> n \<le> max_bitrate)"

definition ladder_ok :: "int \<Rightarrow> hls_variant list \<Rightarrow> bool" where
  "ladder_ok max_bitrate vs \<longleftrightarrow> distinct (map hv_name vs) \<and> list_all (\<lambda>v. hv_name v = bitrate_to_name (hv_bitrate v)) vs \<and>
     list_all (fits_bitrate max_bitrate) (tl vs)"

lemma select_loop_ok:
  "ladder_ok m vs \<Longrightarrow> ladder_ok m (select_loop m bs vs) \<and> set (map hv_bitrate (select_loop m bs vs)) \<subseteq> set bs \<union> set (map hv_bitrate vs) \<and>
     (\<exists>ws. select_loop m bs vs = vs @ ws)"
proof (induction m bs vs rule: select_loop.induct)
  case (2 m b bs vs)
  let ?v = "\<lparr>hv_name = bitrate_to_name b, hv_bitrate = b\<rparr>"
  show ?case
  proof (cases "bitrate_to_name b \<in> hv_name ` set vs")
    case True
    with 2 show ?thesis by (auto simp: Let_def)
  next
    case new: False
    let ?skip = "vs \<noteq> [] \<and> m > 0 \<and> (case bitrate_value b of None \<Rightarrow> True | Some v \<Rightarrow> v > m)"
    show ?thesis
    proof (cases ?skip)
      case True
      with new 2 show ?thesis by (auto simp: Let_def)
    next
      case False
      then have "vs = [] \<or> fits_bitrate m ?v" by (auto simp: fits_bitrate_def split: option.splits)
      with new "2.prems" have "ladder_ok m (vs @ [?v])" by (cases vs) (auto simp: ladder_ok_def)
      from "2.IH"(3) [OF refl new False this] new False show ?thesis by (auto simp: Let_def)
    qed
  qed
qed simp

lemma select_loop_first: "bs \<noteq> [] \<Longrightarrow> \<exists>ws. select_loop m bs [] = \<lparr>hv_name = bitrate_to_name (hd bs), hv_bitrate = hd bs\<rparr> # ws"
proof -
  assume "bs \<noteq> []"
  then obtain b bs' where bs: "bs = b # bs'" by (cases bs) auto
  have "ladder_ok m [\<lparr>hv_name = bitrate_to_name b, hv_bitrate = b\<rparr>]" by (simp add: ladder_ok_def)
  from select_loop_ok [OF this, of bs'] show ?thesis by (auto simp: bs)
qed

lemma to_lower_jpg: "has_suffix (to_lower (s @ ''.jpg'')) ''.jpg''"
  by (simp add: to_lower_append has_suffix_iff del: to_lower.simps) (simp add: lower_char_def)

lemma poster_from_path_flat:
  assumes "name \<noteq> []" "CHR ''/'' \<notin> set name"
  shows "poster_from_path (''posters/'' @ name @ ''.jpg'') = Some \<lparr>pp_variant = [], pp_size = name\<rparr>"
proof -
  have l: "has_suffix (to_lower (''posters/'' @ name @ ''.jpg'')) ''.jpg''"
    using to_lower_jpg [of "''posters/'' @ name"] by (simp only: append_assoc)
  have e: "file_ext (name @ ''.jpg'') = ''.jpg''" using file_ext_append [of name "''jpg''"] assms(2) by simp
  have s: "split_char CHR ''/'' (name @ ''.jpg'') = [name @ ''.jpg'']" using assms(2) by (intro split_char_free) simp
  have t: "trim_suffix (name @ ''.jpg'') ''.jpg'' = name" by (rule trim_suffix_append)
  have p: "trim_prefix (''posters/'' @ name @ ''.jpg'') ''posters/'' = name @ ''.jpg''" "has_prefix (''posters/'' @ name @ ''.jpg'') ''posters/''"
    by (rule trim_prefix_append, rule has_prefix_append)
  show ?thesis unfolding poster_from_path_def p Let_def s e using l assms(1) t by simp
qed

lemma select_loop_complete:
  "b \<in> set bs \<Longrightarrow> fits_bitrate m \<lparr>hv_name = bitrate_to_name b, hv_bitrate = b\<rparr> \<Longrightarrow> ladder_ok m vs \<Longrightarrow>
     bitrate_to_name b \<in> hv_name ` set (select_loop m bs vs)"
proof (induction m bs vs rule: select_loop.induct)
  case (2 m c bs vs)
  have grow: "hv_name ` set us \<subseteq> hv_name ` set (select_loop m bs us)" if "ladder_ok m us" for us
    using select_loop_ok [OF that, of bs] by auto
  let ?v = "\<lparr>hv_name = bitrate_to_name c, hv_bitrate = c\<rparr>"
  show ?case
  proof (cases "bitrate_to_name c \<in> hv_name ` set vs")
    case True
    then show ?thesis
      using 2 grow [OF "2.prems"(3)] by (cases "b = c") (auto simp: Let_def)
  next
    case new: False
    let ?skip = "vs \<noteq> [] \<and> m > 0 \<and> (case bitrate_value c of None \<Rightarrow> True | Some v \<Rightarrow> v > m)"
    show ?thesis
    proof (cases ?skip)
      case True
      with "2.prems"(2) have "b \<noteq> c" by (auto simp: fits_bitrate_def)
      with True new 2 show ?thesis by (auto simp: Let_def)
    next
      case False
      then have "vs = [] \<or> fits_bitrate m ?v" by (auto simp: fits_bitrate_def split: option.splits)
      with new "2.prems"(3) have l: "ladder_ok m (vs @ [?v])" by (cases vs) (auto simp: ladder_ok_def)
      show ?thesis
      proof (cases "b = c")
        case True
        with grow [OF l] new False show ?thesis by (auto simp: Let_def)
      next
        case False
        with "2.IH"(3) [OF refl new \<open>\<not> ?skip\<close> _ "2.prems"(2) l] "2.prems"(1) new \<open>\<not> ?skip\<close> show ?thesis by (auto simp: Let_def)
      qed
    qed
  qed
qed simp

section \<open>Properties\<close>


definition example_ladder :: "rat video_config" where
  "example_ladder = (load_video rat_floats (\<lambda>k. []))\<lparr>vc_bitrates := [''500k'']\<rparr>"


text \<open>
  The uploader knows the posters by the names the transcoder gives them. The file of every configured
  thumbnail, whatever its key contains, lies directly in the posters directory and is taken for an
  unprotected poster whose size is that name without its extension.
\<close>

theorem thumbnails_are_posters:
  "\<exists>name. thumbnail_filename v = name @ ''.jpg'' \<and> name \<noteq> [] \<and> CHR ''/'' \<notin> set name \<and>
     poster_from_path (''posters/'' @ thumbnail_filename v) = Some \<lparr>pp_variant = [], pp_size = name\<rparr>"
proof -
  define named where "named = (if trim_space (iv_key v) = [] then itoa (iv_width v) @ ''x'' @ itoa (iv_height v) else trim_space (iv_key v))"
  define name where "name = map replace_key_char named"
  have f: "thumbnail_filename v = name @ ''.jpg''" by (simp add: thumbnail_filename_def name_def named_def Let_def)
  have n: "name \<noteq> []" by (auto simp: name_def named_def)
  have "replace_key_char c \<noteq> CHR ''/''" for c by (simp add: replace_key_char_def)
  then have c: "CHR ''/'' \<notin> set name" unfolding name_def by (metis ex_map_conv)
  from poster_from_path_flat [OF n c] f n c show ?thesis by auto
qed

text \<open>
  Validation and transcoding agree. A video that passed validation is never refused by the transcoder for
  its length or because it cannot be probed: if the transcode of the same file fails, a directory could
  not be made or ffmpeg failed; and if it succeeds, the result names one directory per selected rendition.
\<close>

theorem validated_transcodes:
  assumes "validate fl (probe_video_info fl ffprobe) cfg path n = None"
    and "transcode fl mkdir ffprobe ffmpeg cfg path dir = (cmds, result)"
  shows "(case result of
      Inl e \<Rightarrow> e \<in> {Make_dir_failed, Thumbnails_failed, Ffmpeg_failed} \<and>
        ((\<exists>d. \<not> mkdir d) \<or> (\<exists>args \<in> set cmds. \<not> ffmpeg args))
    | Inr r \<Rightarrow> (\<exists>info. probe_video_info fl ffprobe path = Inr info \<and> tr_duration r = vi_duration info \<and>
        (\<forall>args \<in> set cmds. ffmpeg args) \<and>
        set (gm_keys (tr_variants r)) = hv_name ` set (select_variants fl cfg (Some info))))"
proof -
  have gen: "generate_thumbnails fl ffmpeg cfg path dir vs = (cs, ok) \<Longrightarrow> (ok \<longleftrightarrow> (\<forall>args \<in> set cs. ffmpeg args))" for vs cs ok
    by (induction vs arbitrary: cs) (auto simp: Let_def split: if_splits prod.splits)
  have put: "set (gm_keys (foldl (\<lambda>m v. gm_put (hv_name v) (f v) m) m0 vs)) = set (gm_keys m0) \<union> hv_name ` set vs" for f m0 vs
    by (induction vs arbitrary: m0) (auto simp: keys_gm_put simp del: set_map)
  from assms(1) obtain info where i: "probe_video_info fl ffprobe path = Inr info"
    "\<not> fl_less fl (fl_of_int fl (vc_max_duration_sec cfg)) (vi_duration info)"
    by (auto simp: validate_def split: if_splits sum.splits)
  show ?thesis
  proof (cases "generate_thumbnails fl ffmpeg cfg path dir (vc_thumbnail_variants cfg)")
    case (Pair cs ok)
    from gen [OF Pair] assms(2) i show ?thesis
      by (auto simp: transcode_def Pair put Let_def list_all_iff simp del: set_map split: if_splits bool.splits)
  qed
qed

theorem validated_transcodes_witness:
  "\<exists>r. transcode rat_floats (\<lambda>d. True) (\<lambda>p. Some \<lparr>po_format_duration = ''7'', po_format_bit_rate = [], po_streams =
      [\<lparr>ps_duration = [], ps_width = 9, ps_height = 16, ps_codec_name = [], ps_avg_frame_rate = [], ps_rotate = [], ps_side_rotations = []\<rparr>]\<rparr>)
     (\<lambda>a. True) (example_ladder\<lparr>vc_thumbnail_variants := []\<rparr>) ''in'' ''out'' = r \<and> (\<exists>cmds t. r = (cmds, Inr t) \<and> tr_duration t = 7)"
proof -
  let ?probe = "\<lambda>p :: string. Some \<lparr>po_format_duration = ''7'', po_format_bit_rate = [], po_streams =
      [\<lparr>ps_duration = [], ps_width = 9, ps_height = 16, ps_codec_name = [], ps_avg_frame_rate = [], ps_rotate = [], ps_side_rotations = []\<rparr>]\<rparr>"
  let ?cfg = "example_ladder\<lparr>vc_thumbnail_variants := []\<rparr>"
  have seven: "parse_int ''7'' = Some 7" "trim_space ''7'' = ''7''"
    by (simp_all add: parse_int_def is_digit_def trim_space_plain_all plain_char_def ascii_space_def)
  have "\<exists>info. probe_video_info rat_floats ?probe ''in'' = Inr info \<and> vi_duration info = 7 \<and> vi_width info = 9 \<and> vi_height info = 16 \<and>
      vi_frame_rate info = 0"
    by (simp add: probe_video_info_def seven parse_frame_rate_def)
  then obtain info where i: "probe_video_info rat_floats ?probe ''in'' = Inr info" "vi_duration info = 7" "vi_width info = 9"
    "vi_height info = 16" "vi_frame_rate info = 0" by blast
  have cfg: "vc_max_duration_sec ?cfg = 2400" "vc_max_size_bytes ?cfg = 1073741824"
    by (simp_all add: example_ladder_def load_video_def get_env_int_def get_env_int64_def get_env_parsed_def)
  have v: "validate rat_floats (probe_video_info rat_floats ?probe) ?cfg ''in'' 5 = None"
    using i cfg by (simp add: validate_def max_video_side_def)
  obtain cmds r where t: "transcode rat_floats (\<lambda>d. True) ?probe (\<lambda>a. True) ?cfg ''in'' ''out'' = (cmds, r)" by (cases "transcode rat_floats (\<lambda>d. True) ?probe (\<lambda>a. True) ?cfg ''in'' ''out''")
  from validated_transcodes [OF v t] i show ?thesis unfolding t by (auto split: sum.splits)
qed

end
