(* ===== verification/Video_Upload.thy ===== *)
theory Video_Upload
  imports Transcoder Upload_Handlers Stream_Handlers
begin

text \<open>
  \<open>HandleUploadVideo\<close> of \<open>internal/handler/video_handler.go\<close>, \<open>internal/handler/video_privacy.go\<close> and
  \<open>checkDiskSpace\<close> of \<open>handler.go\<close>: from the form to the playlist group on the soft-delete list. The output
  directory is a map from the paths of its files, relative to it, to their bytes. What ffmpeg and ffprobe
  do, which paths can be read, written and created and the outcome of the wait for a transcoding slot are
  in a \<open>video_tools\<close>.
\<close>

section \<open>The machine\<close>

type_synonym file_tree = "(string, bytes) gomap"

record 'f video_tools =
  vt_temp_dir_made :: bool
  vt_statfs :: "(int \<times> int) option"
  vt_input_file :: "string option"
  vt_input_saved :: bool
  vt_output_made :: "string option"
  vt_slot_acquired :: bool
  vt_mkdir :: "string \<Rightarrow> bool"
  vt_ffprobe :: "string \<Rightarrow> 'f probe_output option"
  vt_ffmpeg :: "string list \<Rightarrow> bool"
  vt_written :: "string list list \<Rightarrow> file_tree"
  vt_posters_listed :: bool
  vt_readable :: "string \<Rightarrow> bool"
  vt_writable :: "string \<Rightarrow> bool"
  vt_track :: write_result

record 's video_state =
  vs_upload :: "'s upload_state"
  vs_unpin :: unpin_store

record 'f video_response =
  vr_master_cid :: string
  vr_variant_cids :: "(string, string) gomap"
  vr_poster_cids :: "(string, string) gomap"
  vr_privacy_poster_cids :: "(string, (string, string) gomap) gomap"
  vr_stream_cids :: "string list"
  vr_poster_aliases :: "(string, (string, string) gomap) gomap"
  vr_duration_sec :: 'f
  vr_status :: string

datatype 'f video_reply = Video_refused upload_reply | Video_done "'f video_response"

text \<open>\<open>checkDiskSpace\<close>: true when the operation may go on; without an answer from the system it may.\<close>

definition check_disk_space :: "(int \<times> int) option \<Rightarrow> int \<Rightarrow> bool" where
  "check_disk_space statfs required = (case statfs of
      None \<Rightarrow> True
    | Some (bavail, bsize) \<Rightarrow> \<not> int64 (int64 bavail * int64 bsize) < required)"

section \<open>Protected posters\<close>

text \<open>The posters directory, relative to the output directory.\<close>

definition posters_prefix :: string where "posters_prefix = ''posters/''"

definition is_poster_image :: "string \<Rightarrow> bool" where
  "is_poster_image name \<longleftrightarrow> to_lower (file_ext name) \<in> {''.jpg'', ''.jpeg'', ''.png'', ''.webp''}"

definition extension_for_format :: "string \<Rightarrow> string" where
  "extension_for_format format = (if format = ''jpeg'' then ''jpg'' else format)"

text \<open>\<open>os.ReadDir\<close> of the posters directory: the names of the files directly in it, sorted.\<close>

definition poster_entries :: "file_tree \<Rightarrow> string list" where
  "poster_entries t = sort (filter (\<lambda>n. CHR ''/'' \<notin> set n)
     (map (\<lambda>p. trim_prefix p posters_prefix) (filter (\<lambda>p. has_prefix p posters_prefix) (gm_keys t))))"

definition privacy_poster_path :: "string \<Rightarrow> variant \<Rightarrow> string" where
  "privacy_poster_path name v =
     posters_prefix @ va_key v @ ''/'' @ trim_suffix name (file_ext name) @ ''.'' @ extension_for_format (va_format v)"

fun write_privacy_posters :: "'f video_tools \<Rightarrow> string \<Rightarrow> string \<Rightarrow> variant list \<Rightarrow> file_tree \<Rightarrow> file_tree option" where
  "write_privacy_posters vt out name [] t = Some t"
| "write_privacy_posters vt out name (v # vs) t =
     (if \<not> vt_mkdir vt (path_join (path_join out ''posters'') (va_key v)) \<or> \<not> vt_writable vt (privacy_poster_path name v) then None
      else write_privacy_posters vt out name vs (gm_put (privacy_poster_path name v) (va_data v) t))"

fun privacy_poster_loop ::
    "('s, 'e, 'f, 'i) upload_env \<Rightarrow> 'f video_tools \<Rightarrow> string \<Rightarrow> string list \<Rightarrow> file_tree \<Rightarrow> file_tree option" where
  "privacy_poster_loop env vt out [] t = Some t"
| "privacy_poster_loop env vt out (name # names) t =
     (if \<not> is_poster_image name then privacy_poster_loop env vt out names t
      else if ue_cancelled env then None
      else (case (if vt_readable vt (posters_prefix @ name) then map_of t (posters_prefix @ name) else None) of
          None \<Rightarrow> None
        | Some data \<Rightarrow>
            (case process_privacy (ue_floats env) (ue_imaging env) (ue_processor env) (ue_cancelled env) data ''image/jpeg'' of
               Inl e \<Rightarrow> None
             | Inr variants \<Rightarrow> (case write_privacy_posters vt out name variants t of
                   None \<Rightarrow> None
                 | Some t1 \<Rightarrow> privacy_poster_loop env vt out names t1))))"

definition build_video_privacy_posters ::
    "('s, 'e, 'f, 'i) upload_env \<Rightarrow> 'f video_tools \<Rightarrow> string \<Rightarrow> file_tree \<Rightarrow> file_tree option" where
  "build_video_privacy_posters env vt out t =
     (if \<not> list_ex (\<lambda>p. has_prefix p posters_prefix) (gm_keys t) then Some t
      else if \<not> vt_posters_listed vt then None
      else privacy_poster_loop env vt out (poster_entries t) t)"

section \<open>The upload\<close>

text \<open>
  \<open>filepath.Walk\<close> visits the entries of a directory in the order of their names and a directory's contents
  where its name stands, so the files come in the order of the element lists of their paths.
\<close>

definition walk_tree :: "'f video_tools \<Rightarrow> file_tree \<Rightarrow> output_dir" where
  "walk_tree vt t =
     \<lparr>od_walk = map (\<lambda>(p, bs). (p, if vt_readable vt p then Walk_file \<lparr>rd_bytes = bs, rd_fails = False\<rparr> else Walk_unopenable))
        (sort_key (\<lambda>(p, bs). split_char CHR ''/'' p) t),
      od_read = (\<lambda>p. if vt_readable vt p then map_of t p else None)\<rparr>"

definition video_exts :: "string list" where
  "video_exts = [''mp4'', ''mov'', ''webm'', ''avi'', ''mkv'']"

definition validation_details :: "validation_error \<Rightarrow> (string, detail) gomap" where
  "validation_details e =
     (if ve_max_size_bytes e > 0 then [(''max_bytes'', Detail_number (ve_max_size_bytes e))] else [])
     @ (if ve_max_duration_sec e > 0 then [(''max_duration_sec'', Detail_number (ve_max_duration_sec e))] else [])"

definition video_response_of :: "upload_result \<Rightarrow> 'f \<Rightarrow> 'f video_response" where
  "video_response_of u duration =
     \<lparr>vr_master_cid = ur_master_cid u, vr_variant_cids = ur_variant_cids u, vr_poster_cids = ur_poster_cids u,
      vr_privacy_poster_cids = ur_privacy_poster_cids u, vr_stream_cids = ur_all_cids u,
      vr_poster_aliases = video_poster_aliases (ur_poster_cids u) (ur_privacy_poster_cids u),
      vr_duration_sec = duration, vr_status = ''processing_done''\<rparr>"

text \<open>From the saved input file to the stored video.\<close>

definition store_video ::
    "('s, 'e, 'f, 'i) upload_env \<Rightarrow> 'f video_tools \<Rightarrow> request \<Rightarrow> string \<Rightarrow> 's video_state \<Rightarrow> 's video_state \<times> 'f video_reply" where
  "store_video env vt r input st =
     (let vc = cf_video (ue_cfg env);
          refuse = (\<lambda>status err. Video_refused (write_upload_error r status err []))
      in case vt_output_made vt of
           None \<Rightarrow> (st, refuse 500 ''upload_storage_unavailable'')
         | Some out \<Rightarrow>
             if \<not> vt_slot_acquired vt then (st, refuse 503 ''upload_busy'')
             else (case transcode (ue_floats env) (vt_mkdir vt) (vt_ffprobe vt) (vt_ffmpeg vt) vc input out of
                 (cmds, Inl e) \<Rightarrow> (st, refuse 500 ''upload_failed'')
               | (cmds, Inr result) \<Rightarrow>
                   (case build_video_privacy_posters env vt out (vt_written vt cmds) of
                      None \<Rightarrow> (st, refuse 500 ''upload_failed'')
                    | Some t \<Rightarrow>
                        (case upload_dir (Some (cluster_adder (ue_kubo env))) (walk_tree vt t) (st_cluster (vs_upload st)) of
                           (cl, Inl e) \<Rightarrow> (st\<lparr>vs_upload := (vs_upload st)\<lparr>st_cluster := cl\<rparr>\<rparr>, refuse 503 ''upload_storage_unavailable'')
                         | (cl, Inr u) \<Rightarrow>
                             (st\<lparr>vs_upload := (vs_upload st)\<lparr>st_cluster := cl\<rparr>,
                                 vs_unpin := store_track_group (vt_track vt) (ur_master_cid u) (ur_all_cids u) (vs_unpin st)\<rparr>,
                              Video_done (video_response_of u (tr_duration result)))))))"

definition handle_upload_video ::
    "('s, 'e, 'f, 'i) upload_env \<Rightarrow> 'f video_tools \<Rightarrow> upload_request \<Rightarrow> 's video_state \<Rightarrow> 's video_state \<times> 'f video_reply" where
  "handle_upload_video env vt q st =
     (let r = uq_request q; vc = cf_video (ue_cfg env); limit = vc_max_size_bytes vc;
          refuse = (\<lambda>status err details. Video_refused (write_upload_error r status err details))
      in case parse_upload_form env 0 q of
           Inl reply \<Rightarrow> (st, Video_refused reply)
         | Inr form \<Rightarrow> (case form_file form ''file'' of
               None \<Rightarrow> (st, refuse 400 ''upload_missing_file'' [])
             | Some (file, rd) \<Rightarrow>
                 if to_lower (trim_prefix (file_ext (uf_filename file)) ''.'') \<notin> set video_exts
                 then (st, refuse 400 ''unsupported_video_format'' [(''allowed_extensions'', Detail_strings video_exts)])
                 else if \<not> vt_temp_dir_made vt then (st, refuse 500 ''upload_storage_unavailable'' [])
                 else if \<not> check_disk_space (vt_statfs vt) (int64 (limit * 3))
                 then (st, refuse 507 ''upload_storage_unavailable'' [])
                 else (case vt_input_file vt of
                     None \<Rightarrow> (st, refuse 500 ''upload_storage_unavailable'' [])
                   | Some input \<Rightarrow> (case (if vt_input_saved vt then read_limited limit rd else None) of
                         None \<Rightarrow> (st, refuse 500 ''upload_failed'' [])
                       | Some data \<Rightarrow>
                           if int (length data) > limit
                           then (st, refuse 413 ''video_file_too_large'' [(''max_bytes'', Detail_number limit)])
                           else (case take_budget env r (int (length data)) (vs_upload st) of
                               (up, False) \<Rightarrow> (st\<lparr>vs_upload := up\<rparr>, refuse 429 ''upload_quota_exceeded'' [])
                             | (up, True) \<Rightarrow>
                                 (case validate (ue_floats env) (probe_video_info (ue_floats env) (vt_ffprobe vt)) vc input (int (length data)) of
                                    Some e \<Rightarrow> (st\<lparr>vs_upload := up\<rparr>, refuse 400 (ve_code e) (validation_details e))
                                  | None \<Rightarrow> store_video env vt r input (st\<lparr>vs_upload := up\<rparr>)))))))"

section \<open>Facts\<close>

lemma poster_from_path_nested:
  assumes "name \<noteq> []" "CHR ''/'' \<notin> set name" "CHR ''/'' \<notin> set key"
  shows "poster_from_path (''posters/'' @ key @ ''/'' @ name @ ''.jpg'') = Some \<lparr>pp_variant = key, pp_size = name\<rparr>"
proof -
  let ?rel = "''posters/'' @ key @ ''/'' @ name @ ''.jpg''"
  have l: "has_suffix (to_lower ?rel) ''.jpg''"
    using to_lower_jpg [of "''posters/'' @ key @ ''/'' @ name"] by (simp only: append_assoc)
  have le: "last_element (key @ ''/'' @ name @ ''.jpg'') = name @ ''.jpg''" "last_element (name @ ''.jpg'') = name @ ''.jpg''"
    using assms(2) using last_element_append [of "name @ ''.jpg''" key] last_element_free [of "name @ ''.jpg''"] by simp_all
  have e: "file_ext (key @ ''/'' @ name @ ''.jpg'') = ''.jpg''"
    using file_ext_append [of name "''jpg''"] assms(2) unfolding file_ext_def le by simp
  have s: "split_char CHR ''/'' (key @ ''/'' @ name @ ''.jpg'') = [key, name @ ''.jpg'']"
    using split_char_append [OF assms(3), of "name @ ''.jpg''"] split_char_free [of "CHR ''/''" "name @ ''.jpg''"] assms(2) by simp
  have t: "trim_suffix (name @ ''.jpg'') ''.jpg'' = name" by (rule trim_suffix_append)
  have p: "trim_prefix ?rel ''posters/'' = key @ ''/'' @ name @ ''.jpg''" "has_prefix ?rel ''posters/''"
    by (rule trim_prefix_append, rule has_prefix_append)
  show ?thesis unfolding poster_from_path_def p Let_def s e using l assms(1) t by simp
qed

text \<open>What the result says of a poster, once the files have been sorted into it.\<close>

definition names_poster :: "upload_result \<Rightarrow> poster_path \<Rightarrow> bool" where
  "names_poster r p \<longleftrightarrow>
     (if pp_variant p = [] then map_of (ur_poster_cids r) (pp_size p) \<noteq> None
      else map_of (gm_get_map (ur_privacy_poster_cids r) (pp_variant p)) (pp_size p) \<noteq> None)"

lemma gm_get_map_put [gomap_simps]: "gm_get_map (gm_put k v m) k' = (if k' = k then v else gm_get_map m k')"
  by (simp add: gm_get_map_def gomap_simps)

text \<open>One step of \<open>fill_result\<close>.\<close>

definition fill_one :: "string \<Rightarrow> string \<Rightarrow> upload_result \<Rightarrow> upload_result" where
  "fill_one rel cid r =
     (let r1 = (if has_suffix rel ''.m4s'' then r\<lparr>ur_segment_cids := gm_put rel cid (ur_segment_cids r)\<rparr> else r)
      in case poster_from_path rel of
           None \<Rightarrow> r1
         | Some p \<Rightarrow>
             if pp_variant p = [] then r1\<lparr>ur_poster_cids := gm_put (pp_size p) cid (ur_poster_cids r1)\<rparr>
             else r1\<lparr>ur_privacy_poster_cids := gm_put (pp_variant p)
                    (gm_put (pp_size p) cid (gm_get_map (ur_privacy_poster_cids r1) (pp_variant p))) (ur_privacy_poster_cids r1)\<rparr>)"

lemma fill_result_Cons: "fill_result (f # fs) r = fill_result fs (fill_one (fst f) (snd f) r)"
  by (cases f) (simp add: fill_one_def Let_def split: option.splits)

lemma fill_one_keeps: "names_poster r p \<Longrightarrow> names_poster (fill_one rel cid r) p"
  by (auto simp: fill_one_def names_poster_def gomap_simps Let_def split: option.splits)

lemma fill_one_names: "poster_from_path rel = Some p \<Longrightarrow> names_poster (fill_one rel cid r) p"
  by (simp add: fill_one_def names_poster_def gomap_simps Let_def)

lemma fill_result_keeps: "names_poster r p \<Longrightarrow> names_poster (fill_result fs r) p"
  by (induction fs arbitrary: r) (simp_all add: fill_result_Cons fill_one_keeps del: fill_result.simps(2))

lemma fill_result_names:
  "rel \<in> set (gm_keys fs) \<Longrightarrow> poster_from_path rel = Some p \<Longrightarrow> names_poster (fill_result fs r) p"
  by (induction fs arbitrary: r) (auto simp add: fill_result_Cons fill_one_names fill_result_keeps simp del: fill_result.simps(2))

lemma fill_result_unprotected:
  "\<forall>rel \<in> set (gm_keys fs). \<forall>p. poster_from_path rel = Some p \<longrightarrow> pp_variant p = [] \<Longrightarrow>
    ur_privacy_poster_cids (fill_result fs r) = ur_privacy_poster_cids r"
proof (induction fs arbitrary: r)
  case (Cons f fs)
  then have "ur_privacy_poster_cids (fill_one (fst f) (snd f) r) = ur_privacy_poster_cids r"
    by (auto simp: fill_one_def Let_def split: option.splits)
  with Cons show ?case by (simp add: fill_result_Cons del: fill_result.simps(2))
qed simp

lemma upload_files_opened: "upload_files add ws files cids s = (s', Inr x) \<Longrightarrow> \<forall>(rel, w) \<in> set ws. w \<noteq> Walk_unopenable"
  by (induction ws arbitrary: files cids s) (force split: walked.splits prod.splits sum.splits)+

lemma walk_tree_keys: "set (map fst (od_walk (walk_tree vt t))) = set (gm_keys t)"
  "wf_gomap t \<Longrightarrow> distinct (map fst (od_walk (walk_tree vt t)))"
proof -
  have m: "map fst (od_walk (walk_tree vt t)) = map fst (sort_key (\<lambda>(p, bs). split_char CHR ''/'' p) t)"
    by (simp add: walk_tree_def comp_def case_prod_beta)
  show "set (map fst (od_walk (walk_tree vt t))) = set (gm_keys t)" by (simp only: m set_map set_sort)
  have "mset (map fst (sort_key (\<lambda>(p, bs). split_char CHR ''/'' p) t)) = mset (gm_keys t)" by simp
  then show "wf_gomap t \<Longrightarrow> distinct (map fst (od_walk (walk_tree vt t)))"
    unfolding m wf_gomap_def by (metis mset_eq_imp_distinct_iff)
qed

lemma upload_dir_files:
  assumes "upload_dir (Some add) (walk_tree vt t) s = (s', Inr u)" "wf_gomap t"
  shows "\<exists>files r. u = fill_result files r \<and> ur_privacy_poster_cids r = [] \<and> set (gm_keys files) = set (gm_keys t)"
proof -
  let ?d = "walk_tree vt t"
  from assms(1) obtain s1 files cids r where u: "upload_files add (od_walk ?d) [] [] s = (s1, Inr (files, cids))"
    "u = fill_result files r" "ur_privacy_poster_cids r = []"
    by (auto simp: upload_dir_def split: prod.splits sum.splits if_splits)
  from upload_files_opened [OF u(1)] have "walked_files (od_walk ?d) = map fst (od_walk ?d)"
    unfolding walked_files_def by (subst filter_True) (auto simp: walk_tree_def split: if_splits)
  moreover from upload_files_cids [OF u(1) walk_tree_keys(2) [OF assms(2)]] have "gm_keys files = walked_files (od_walk ?d)" by simp
  ultimately have "set (gm_keys files) = set (gm_keys t)" using walk_tree_keys(1) [of vt t] by simp
  with u(2,3) show ?thesis by blast
qed

lemma privacy_poster_path_nested: "CHR ''/'' \<notin> set n \<Longrightarrow> privacy_poster_path name v \<noteq> posters_prefix @ n"
  by (auto simp: privacy_poster_path_def)

lemma write_privacy_posters_Some:
  assumes "write_privacy_posters vt out name vs t = Some t'"
  shows "set (gm_keys t') = set (gm_keys t) \<union> privacy_poster_path name ` set vs \<and> (wf_gomap t \<longrightarrow> wf_gomap t') \<and>
    (\<forall>n. CHR ''/'' \<notin> set n \<longrightarrow> map_of t' (posters_prefix @ n) = map_of t (posters_prefix @ n))"
  using assms
proof (induction vs arbitrary: t)
  case (Cons v vs)
  then have "write_privacy_posters vt out name vs (gm_put (privacy_poster_path name v) (va_data v) t) = Some t'"
    by (simp split: if_splits)
  from Cons.IH [OF this] show ?case
    by (auto simp: keys_gm_put gomap_simps privacy_poster_path_nested privacy_poster_path_nested [symmetric] simp del: set_map)
qed simp

abbreviation privacy_of :: "('s, 'e, 'f, 'i) upload_env \<Rightarrow> bytes \<Rightarrow> image_error + variant list" where
  "privacy_of env data \<equiv>
     process_privacy (ue_floats env) (ue_imaging env) (ue_processor env) (ue_cancelled env) data ''image/jpeg''"

lemma privacy_poster_loop_Some:
  assumes "privacy_poster_loop env vt out names t = Some t'" "\<forall>n \<in> set names. CHR ''/'' \<notin> set n"
  shows "set (gm_keys t) \<subseteq> set (gm_keys t') \<and> (wf_gomap t \<longrightarrow> wf_gomap t') \<and>
    (\<forall>n \<in> set names. is_poster_image n \<longrightarrow> (\<exists>data vs. map_of t (posters_prefix @ n) = Some data \<and> privacy_of env data = Inr vs \<and>
      privacy_poster_path n ` set vs \<subseteq> set (gm_keys t'))) \<and>
    (\<forall>p \<in> set (gm_keys t') - set (gm_keys t). \<exists>n data vs v. privacy_of env data = Inr vs \<and> v \<in> set vs \<and> n \<in> set names \<and> p = privacy_poster_path n v)"
  using assms
proof (induction names arbitrary: t)
  case (Cons n names)
  show ?case
  proof (cases "is_poster_image n")
    case False
    with Cons.prems have "privacy_poster_loop env vt out names t = Some t'" "\<forall>n \<in> set names. CHR ''/'' \<notin> set n" by simp_all
    from Cons.IH [OF this] False show ?thesis by simp meson
  next
    case True
    with Cons.prems(1) obtain data vs t1 where s: "map_of t (posters_prefix @ n) = Some data" "privacy_of env data = Inr vs"
      "write_privacy_posters vt out n vs t = Some t1" "privacy_poster_loop env vt out names t1 = Some t'"
      by (auto split: if_splits option.splits sum.splits)
    note w = write_privacy_posters_Some [OF s(3)]
    from Cons.IH [OF s(4)] Cons.prems(2) have IH: "set (gm_keys t1) \<subseteq> set (gm_keys t')" "wf_gomap t1 \<longrightarrow> wf_gomap t'"
      "\<forall>n \<in> set names. is_poster_image n \<longrightarrow> (\<exists>data vs. map_of t1 (posters_prefix @ n) = Some data \<and> privacy_of env data = Inr vs \<and>
        privacy_poster_path n ` set vs \<subseteq> set (gm_keys t'))"
      "\<forall>p \<in> set (gm_keys t') - set (gm_keys t1). \<exists>n data vs v. privacy_of env data = Inr vs \<and> v \<in> set vs \<and> n \<in> set names \<and> p = privacy_poster_path n v"
      by auto
    have a: "set (gm_keys t) \<subseteq> set (gm_keys t')" "wf_gomap t \<longrightarrow> wf_gomap t'" using w IH(1,2) by auto
    have b: "\<exists>data vs. map_of t (posters_prefix @ n') = Some data \<and> privacy_of env data = Inr vs \<and> privacy_poster_path n' ` set vs \<subseteq> set (gm_keys t')"
      if "n' \<in> set (n # names)" "is_poster_image n'" for n'
    proof (cases "n' = n")
      case True
      with s w IH(1) show ?thesis by blast
    next
      case False
      with that IH(3) Cons.prems(2) w show ?thesis by (metis insert_iff list.simps(15))
    qed
    have c: "\<exists>n' data vs v. privacy_of env data = Inr vs \<and> v \<in> set vs \<and> n' \<in> set (n # names) \<and> p = privacy_poster_path n' v"
      if "p \<in> set (gm_keys t') - set (gm_keys t)" for p
    proof (cases "p \<in> set (gm_keys t1)")
      case True
      with that w have "p \<in> privacy_poster_path n ` set vs" by blast
      with s(2) show ?thesis by auto
    next
      case False
      with that IH(4) show ?thesis by (metis Diff_iff list.set_intros(2))
    qed
    from a b c show ?thesis by blast
  qed
qed simp

lemma poster_entries_iff: "n \<in> set (poster_entries t) \<longleftrightarrow> CHR ''/'' \<notin> set n \<and> posters_prefix @ n \<in> set (gm_keys t)"
proof -
  have p: "p = posters_prefix @ trim_prefix p posters_prefix" if "has_prefix p posters_prefix" for p
    using that by (metis has_prefix_iff trim_prefix_append)
  have "n \<in> (\<lambda>p. trim_prefix p posters_prefix) ` {p \<in> K. has_prefix p posters_prefix} \<longleftrightarrow> posters_prefix @ n \<in> K" for K :: "string set"
  proof
    assume "posters_prefix @ n \<in> K"
    then show "n \<in> (\<lambda>p. trim_prefix p posters_prefix) ` {p \<in> K. has_prefix p posters_prefix}"
      by (intro image_eqI [where x = "posters_prefix @ n"]) simp_all
  qed (use p in auto)
  then show ?thesis unfolding poster_entries_def by (simp only: set_sort set_filter set_map mem_Collect_eq) blast
qed

lemma build_video_privacy_posters_Some:
  assumes "build_video_privacy_posters env vt out t = Some t'"
  shows "set (gm_keys t) \<subseteq> set (gm_keys t') \<and> (wf_gomap t \<longrightarrow> wf_gomap t') \<and>
    (\<forall>n. CHR ''/'' \<notin> set n \<and> posters_prefix @ n \<in> set (gm_keys t) \<and> is_poster_image n \<longrightarrow>
      (\<exists>data vs. map_of t (posters_prefix @ n) = Some data \<and> privacy_of env data = Inr vs \<and>
        privacy_poster_path n ` set vs \<subseteq> set (gm_keys t'))) \<and>
    (\<forall>p \<in> set (gm_keys t') - set (gm_keys t). \<exists>n data vs v. privacy_of env data = Inr vs \<and> v \<in> set vs \<and> CHR ''/'' \<notin> set n \<and> p = privacy_poster_path n v)"
proof (cases "list_ex (\<lambda>p. has_prefix p posters_prefix) (gm_keys t)")
  case True
  with assms have "privacy_poster_loop env vt out (poster_entries t) t = Some t'"
    by (simp add: build_video_privacy_posters_def split: if_splits)
  note l = privacy_poster_loop_Some [OF this, unfolded poster_entries_iff]
  show ?thesis
  proof (intro conjI)
    show "\<forall>n. CHR ''/'' \<notin> set n \<and> posters_prefix @ n \<in> set (gm_keys t) \<and> is_poster_image n \<longrightarrow>
      (\<exists>data vs. map_of t (posters_prefix @ n) = Some data \<and> privacy_of env data = Inr vs \<and>
        privacy_poster_path n ` set vs \<subseteq> set (gm_keys t'))"
      using l poster_entries_iff [of _ t] by meson
    show "\<forall>p \<in> set (gm_keys t') - set (gm_keys t). \<exists>n data vs v. privacy_of env data = Inr vs \<and> v \<in> set vs \<and>
      CHR ''/'' \<notin> set n \<and> p = privacy_poster_path n v" using l poster_entries_iff [of _ t] by meson
  qed (use l poster_entries_iff [of _ t] in blast)+
next
  case False
  then have "posters_prefix @ n \<notin> set (gm_keys t)" for n unfolding list_ex_iff by (metis has_prefix_append)
  with False assms show ?thesis by (simp add: build_video_privacy_posters_def)
qed

lemma process_privacy_format:
  assumes "process_privacy fl im p c data ct = Inr vs" "im_decode_config im data = Some (w, h, decoded)" "im_decode im data = Some src"
  shows "\<exists>a b. vs = [a, b] \<and> va_key a = privacy_blur_variant_key \<and> va_key b = privacy_face_blur_variant_key \<and>
    va_format a = output_format p (normalize_format decoded ct) \<and> va_format b = output_format p (normalize_format decoded ct)"
  using assms by (auto simp: process_privacy_def privacy_variant_def dest!: privacy_variants_Inr)

lemma process_privacy_webp:
  assumes "process_privacy fl im p c data ct = Inr vs" "ic_output_format (pr_cfg p) = ''webp''" "v \<in> set vs"
  shows "va_format v = ''webp'' \<and> CHR ''/'' \<notin> set (va_key v)"
  using assms by (auto simp: process_privacy_def privacy_variant_def output_format_def privacy_blur_variant_key_def
      privacy_face_blur_variant_key_def dest!: privacy_variants_Inr split: option.splits)

lemma handle_upload_video_done:
  assumes "handle_upload_video env vt q st = (st', Video_done resp)"
  shows "\<exists>input out cmds result t cl u. transcode (ue_floats env) (vt_mkdir vt) (vt_ffprobe vt) (vt_ffmpeg vt) (cf_video (ue_cfg env)) input out = (cmds, Inr result) \<and>
    build_video_privacy_posters env vt out (vt_written vt cmds) = Some t \<and>
    upload_dir (Some (cluster_adder (ue_kubo env))) (walk_tree vt t) (st_cluster (vs_upload st)) = (cl, Inr u) \<and>
    resp = video_response_of u (tr_duration result) \<and>
    vs_unpin st' = store_track_group (vt_track vt) (ur_master_cid u) (ur_all_cids u) (vs_unpin st) \<and>
    st_cluster (vs_upload st') = cl"
proof -
  from assms obtain input up r n where h: "take_budget env r n (vs_upload st) = (up, True)"
    "store_video env vt r input (st\<lparr>vs_upload := up\<rparr>) = (st', Video_done resp)"
    by (auto simp: handle_upload_video_def Let_def split: sum.splits option.splits if_splits prod.splits bool.splits)
  from h(1) take_budget_frame(1) [of env r n "vs_upload st"] have "st_cluster up = st_cluster (vs_upload st)" by simp
  with h(2) obtain out cmds result t cl u where
    "transcode (ue_floats env) (vt_mkdir vt) (vt_ffprobe vt) (vt_ffmpeg vt) (cf_video (ue_cfg env)) input out = (cmds, Inr result)"
    "build_video_privacy_posters env vt out (vt_written vt cmds) = Some t"
    "upload_dir (Some (cluster_adder (ue_kubo env))) (walk_tree vt t) (st_cluster (vs_upload st)) = (cl, Inr u)"
    "resp = video_response_of u (tr_duration result)"
    "vs_unpin st' = store_track_group (vt_track vt) (ur_master_cid u) (ur_all_cids u) (vs_unpin st)"
    "st_cluster (vs_upload st') = cl"
    by (auto simp: store_video_def Let_def split: sum.splits option.splits if_splits prod.splits)
  then show ?thesis by blast
qed

text \<open>An adder that takes everything, as long as the state is good, and keeps it good.\<close>

definition accepts :: "('s \<Rightarrow> bool) \<Rightarrow> ('s, 'e) adder \<Rightarrow> bool" where
  "accepts ok add \<longleftrightarrow> (\<forall>n bs s. ok s \<longrightarrow> (\<exists>s' a. add n \<lparr>rd_bytes = bs, rd_fails = False\<rparr> s = (s', Inr a) \<and> ok s'))"

lemma acceptsD: "accepts ok add \<Longrightarrow> ok s \<Longrightarrow> \<exists>s' a. add n \<lparr>rd_bytes = bs, rd_fails = False\<rparr> s = (s', Inr a) \<and> ok s'"
  by (simp add: accepts_def)

lemma upload_files_total:
  assumes "accepts ok add" "ok s" "\<forall>(rel, w) \<in> set ws. \<exists>bs. w = Walk_file \<lparr>rd_bytes = bs, rd_fails = False\<rparr>"
  shows "\<exists>s' files cids. upload_files add ws fs cs s = (s', Inr (files, cids)) \<and> ok s'"
  using assms(2,3)
proof (induction ws arbitrary: fs cs s)
  case (Cons x ws)
  then obtain rel bs where x: "x = (rel, Walk_file \<lparr>rd_bytes = bs, rd_fails = False\<rparr>)" by (cases x) auto
  from acceptsD [OF assms(1) Cons.prems(1)] obtain s' a where
    "add (file_base rel) \<lparr>rd_bytes = bs, rd_fails = False\<rparr> s = (s', Inr a)" "ok s'" by blast
  with Cons x show ?case by simp
qed simp

lemma upload_variants_total:
  assumes "accepts ok add" "ok s" "\<forall>rel \<in> set (gm_keys fs). od_read d rel \<noteq> None"
  shows "\<exists>s' vs' cids. upload_variants add d files fs vs cs s = (s', Inr (vs', cids)) \<and> ok s'"
  using assms(2,3)
proof (induction fs arbitrary: vs cs s)
  case (Cons f fs)
  obtain rel cid where f: "f = (rel, cid)" by (cases f)
  with Cons.prems obtain updated where u: "rewrite_variant_playlist d rel files = Some updated"
    by (auto simp: rewrite_variant_playlist_def)
  from acceptsD [OF assms(1) Cons.prems(1)] obtain s' a where
    "add (file_base rel) \<lparr>rd_bytes = bytes_of updated, rd_fails = False\<rparr> s = (s', Inr a)" "ok s'" by blast
  with Cons f u show ?case by (simp add: reupload_content_def)
qed simp

lemma upload_dir_total:
  assumes "accepts ok add" "ok s" "wf_gomap t" "t \<noteq> []" "\<And>p. vt_readable vt p"
  shows "\<exists>s' u. upload_dir (Some add) (walk_tree vt t) s = (s', Inr u)"
proof -
  let ?d = "walk_tree vt t"
  have files: "\<forall>(rel, w) \<in> set (od_walk ?d). \<exists>bs. w = Walk_file \<lparr>rd_bytes = bs, rd_fails = False\<rparr>"
    using assms(5) by (auto simp: walk_tree_def)
  from upload_files_total [OF assms(1,2) this] obtain s1 files cids where
    u: "upload_files add (od_walk ?d) [] [] s = (s1, Inr (files, cids))" "ok s1" by blast
  from upload_files_cids [OF u(1) walk_tree_keys(2) [OF assms(3)]] have "gm_keys files = walked_files (od_walk ?d)" by simp
  moreover have "walked_files (od_walk ?d) = map fst (od_walk ?d)"
    unfolding walked_files_def using files by (subst filter_True) auto
  ultimately have k: "set (gm_keys files) = set (gm_keys t)" using walk_tree_keys(1) [of vt t] by simp
  then have ne: "files \<noteq> []" using assms(4) by auto
  have "\<forall>rel \<in> set (gm_keys files). od_read ?d rel \<noteq> None"
    using k assms(5) by (simp add: walk_tree_def map_of_eq_None_iff del: set_map) (simp add: domIff map_of_eq_None_iff)
  from upload_variants_total [OF assms(1) u(2) this] obtain s2 vs cids' where
    v: "upload_variants add ?d files files [] cids s1 = (s2, Inr (vs, cids'))" "ok s2" by blast
  from acceptsD [OF assms(1) v(2)] obtain s3 a where
    "add ''master.m3u8'' \<lparr>rd_bytes = bytes_of (build_master_playlist vs files), rd_fails = False\<rparr> s2 = (s3, Inr a)" by blast
  with u v ne show ?thesis by (simp add: upload_dir_def reupload_content_def)
qed

lemma transcode_total:
  assumes "validate fl (probe_video_info fl ffprobe) cfg path n = None" "\<And>p. mkdir p" "\<And>args. ffmpeg args"
  shows "\<exists>cmds r. transcode fl mkdir ffprobe ffmpeg cfg path dir = (cmds, Inr r)"
proof -
  from assms(1) obtain info where i: "probe_video_info fl ffprobe path = Inr info"
    "\<not> fl_less fl (fl_of_int fl (vc_max_duration_sec cfg)) (vi_duration info)"
    by (auto simp: validate_def split: if_splits sum.splits)
  have "\<exists>cs. generate_thumbnails fl ffmpeg cfg path dir vs = (cs, True)" for vs
    using assms(3) by (induction vs) (auto simp: Let_def)
  then obtain cs where "generate_thumbnails fl ffmpeg cfg path dir (vc_thumbnail_variants cfg) = (cs, True)" by blast
  with i assms(2,3) show ?thesis by (simp add: transcode_def Let_def list_all_iff)
qed

lemma write_privacy_posters_total:
  assumes "\<And>p. vt_mkdir vt p" "\<And>p. vt_writable vt p"
  shows "\<exists>t'. write_privacy_posters vt out name vs t = Some t'"
  using assms by (induction vs arbitrary: t) auto

lemma privacy_poster_loop_total:
  assumes "\<And>p. vt_mkdir vt p" "\<And>p. vt_writable vt p" "\<And>p. vt_readable vt p" "\<not> ue_cancelled env"
    "\<And>data. \<exists>vs. privacy_of env data = Inr vs"
  shows "\<forall>n \<in> set names. posters_prefix @ n \<in> set (gm_keys t) \<Longrightarrow> \<exists>t'. privacy_poster_loop env vt out names t = Some t'"
proof (induction names arbitrary: t)
  case (Cons n names)
  show ?case
  proof (cases "is_poster_image n")
    case True
    from Cons.prems obtain data where d: "map_of t (posters_prefix @ n) = Some data"
      by (metis list.set_intros(1) map_of_eq_None_iff not_Some_eq set_map)
    from assms(5) obtain vs where vs: "privacy_of env data = Inr vs" by blast
    from write_privacy_posters_total [OF assms(1,2)] obtain t1 where t1: "write_privacy_posters vt out n vs t = Some t1" by blast
    have "\<forall>n \<in> set names. posters_prefix @ n \<in> set (gm_keys t1)" using Cons.prems write_privacy_posters_Some [OF t1] by auto
    with Cons.IH d vs t1 True assms(3,4) show ?thesis by simp
  qed (use Cons in auto)
qed simp

lemma build_video_privacy_posters_total:
  assumes "\<And>p. vt_mkdir vt p" "\<And>p. vt_writable vt p" "\<And>p. vt_readable vt p" "\<not> ue_cancelled env"
    "\<And>data. \<exists>vs. privacy_of env data = Inr vs" "vt_posters_listed vt"
  shows "\<exists>t'. build_video_privacy_posters env vt out t = Some t'"
  using privacy_poster_loop_total [OF assms(1-5), of "poster_entries t" t out] assms(6)
  by (simp add: build_video_privacy_posters_def poster_entries_iff)

section \<open>Properties\<close>

text \<open>
  C11: a hidden video has its protected posters. After the privacy step and the upload of the output directory,
  every poster of the size \<open>name\<close> that can be decoded and is written as JPEG is named among the posters and,
  for each protected mode the access layer knows, among the privacy posters of that mode with the same size.
\<close>

theorem protected_posters_named:
  assumes "build_video_privacy_posters env vt out t = Some t'" and "wf_gomap t"
    and "upload_dir (Some add) (walk_tree vt t') s = (s', Inr u)"
    and "map_of t (posters_prefix @ name @ ''.jpg'') = Some data" and "name \<noteq> []" and "CHR ''/'' \<notin> set name"
    and "im_decode_config (ue_imaging env) data = Some (w, h, decoded)" and "im_decode (ue_imaging env) data = Some src"
    and "output_format (ue_processor env) (normalize_format decoded ''image/jpeg'') = ''jpeg''"
    and "mode \<in> {Blur, Blur_faces}"
  shows "map_of (ur_poster_cids u) name \<noteq> None \<and> map_of (gm_get_map (ur_privacy_poster_cids u) (mode_string mode)) name \<noteq> None"
proof -
  note b = build_video_privacy_posters_Some [OF assms(1)]
  let ?n = "name @ ''.jpg''"
  have key: "posters_prefix @ ?n \<in> set (gm_keys t)" using assms(4) by (metis map_of_eq_None_iff option.distinct(1) set_map)
  have slash: "CHR ''/'' \<notin> set ?n" using assms(6) by simp
  have ext: "file_ext ?n = ''.jpg''" using file_ext_append [of name "''jpg''"] assms(6) by simp
  then have img: "is_poster_image ?n" by (simp add: is_poster_image_def lower_char_def)
  from b slash key img obtain data' vs where p: "map_of t (posters_prefix @ ?n) = Some data'" "privacy_of env data' = Inr vs"
    "privacy_poster_path ?n ` set vs \<subseteq> set (gm_keys t')" by blast
  with assms(4) have "privacy_of env data = Inr vs" by simp
  from process_privacy_format [OF this assms(7,8)] assms(9) obtain x y where v: "vs = [x, y]"
    "va_key x = privacy_blur_variant_key" "va_key y = privacy_face_blur_variant_key" "va_format x = ''jpeg''" "va_format y = ''jpeg''" by auto
  obtain v where "v \<in> set vs" "va_key v = mode_string mode" "va_format v = ''jpeg''"
  proof (cases "mode = Blur")
    case True
    with v that [of x] show ?thesis by (simp add: privacy_blur_variant_key_def)
  next
    case False
    with v assms(10) that [of y] show ?thesis by (simp add: privacy_face_blur_variant_key_def)
  qed
  moreover have "trim_suffix ?n (file_ext ?n) = name" unfolding ext by (rule trim_suffix_append)
  ultimately have path: "posters_prefix @ mode_string mode @ ''/'' @ ?n \<in> set (gm_keys t')"
    using p(3) by (force simp: privacy_poster_path_def extension_for_format_def posters_prefix_def)
  from upload_dir_files [OF assms(3)] b assms(2) obtain files r where
    u: "u = fill_result files r" "set (gm_keys files) = set (gm_keys t')" by auto
  have m: "CHR ''/'' \<notin> set (mode_string mode)" "mode_string mode \<noteq> []" using assms(10) by auto
  have "names_poster u \<lparr>pp_variant = [], pp_size = name\<rparr>"
    using fill_result_names [OF _ poster_from_path_flat [OF assms(5,6)], of files r] key b u(2) unfolding u(1) posters_prefix_def by blast
  moreover have "names_poster u \<lparr>pp_variant = mode_string mode, pp_size = name\<rparr>"
    using fill_result_names [OF _ poster_from_path_nested [OF assms(5,6) m(1)], of files r] path u(2) unfolding u(1) posters_prefix_def by blast
  ultimately show ?thesis using m(2) by (simp add: names_poster_def)
qed

lemma handle_upload_video_total:
  assumes "parse_upload_form env 0 q = Inr form" and "form_file form ''file'' = Some (uf, rd)"
    and "to_lower (trim_prefix (file_ext (uf_filename uf)) ''.'') \<in> {''mp4'', ''mov'', ''webm'', ''avi'', ''mkv''}"
    and "read_limited (vc_max_size_bytes (cf_video (ue_cfg env))) rd = Some data"
    and "int (length data) \<le> vc_max_size_bytes (cf_video (ue_cfg env))"
    and "budget_take (ue_today env) (ue_session env (uq_request q)) (int (length data)) (st_budget (vs_upload st)) = (b, True)"
    and "check_disk_space (vt_statfs vt) (int64 (vc_max_size_bytes (cf_video (ue_cfg env)) * 3))"
    and "vt_temp_dir_made vt \<and> vt_input_saved vt \<and> vt_slot_acquired vt \<and> vt_posters_listed vt"
    and "vt_input_file vt = Some input" and "vt_output_made vt = Some out"
    and "validate (ue_floats env) (probe_video_info (ue_floats env) (vt_ffprobe vt)) (cf_video (ue_cfg env)) input (int (length data)) = None"
    and "\<And>p. vt_mkdir vt p \<and> vt_readable vt p \<and> vt_writable vt p" and "\<And>args. vt_ffmpeg vt args"
    and "\<And>cmds. wf_gomap (vt_written vt cmds) \<and> vt_written vt cmds \<noteq> []"
    and "\<not> ue_cancelled env" and "\<And>bs. \<exists>vs. privacy_of env bs = Inr vs"
    and "accepts ok (cluster_adder (ue_kubo env))" and "ok (st_cluster (vs_upload st))"
  shows "\<exists>st' resp. handle_upload_video env vt q st = (st', Video_done resp) \<and> vr_status resp = ''processing_done'' \<and>
    st_budget (vs_upload st') = b \<and> vr_stream_cids resp \<noteq> [] \<and>
    store_get_group (vs_unpin st') (vr_master_cid resp) = vr_stream_cids resp"
proof -
  let ?vc = "cf_video (ue_cfg env)" and ?st = "st\<lparr>vs_upload := (vs_upload st)\<lparr>st_budget := b\<rparr>\<rparr>"
  from assms(12) have io: "vt_mkdir vt p" "vt_readable vt p" "vt_writable vt p" for p by simp_all
  have budget: "take_budget env (uq_request q) (int (length data)) (vs_upload st) = ((vs_upload st)\<lparr>st_budget := b\<rparr>, True)"
    using assms(6) by (simp add: take_budget_def)
  from transcode_total [OF assms(11), of "vt_mkdir vt" "vt_ffmpeg vt" out] io(1) assms(13) obtain cmds result where
    tr: "transcode (ue_floats env) (vt_mkdir vt) (vt_ffprobe vt) (vt_ffmpeg vt) ?vc input out = (cmds, Inr result)" by blast
  from build_video_privacy_posters_total [OF io(1,3,2) assms(15,16)] assms(8) obtain t where
    t: "build_video_privacy_posters env vt out (vt_written vt cmds) = Some t" by blast
  have "wf_gomap t" "t \<noteq> []" using build_video_privacy_posters_Some [OF t] assms(14) [of cmds] by auto
  from upload_dir_total [OF assms(17,18) this io(2)] obtain cl u where
    u: "upload_dir (Some (cluster_adder (ue_kubo env))) (walk_tree vt t) (st_cluster (vs_upload st)) = (cl, Inr u)" by blast
  then have ne: "ur_all_cids u \<noteq> []" by (auto simp: upload_dir_def split: prod.splits sum.splits if_splits)
  have store: "store_video env vt (uq_request q) input ?st = (?st\<lparr>vs_upload := (vs_upload ?st)\<lparr>st_cluster := cl\<rparr>,
      vs_unpin := store_track_group (vt_track vt) (ur_master_cid u) (ur_all_cids u) (vs_unpin st)\<rparr>, Video_done (video_response_of u (tr_duration result)))"
    using assms(8,10) tr t u by (simp add: store_video_def Let_def)
  have "to_lower (trim_prefix (file_ext (uf_filename uf)) ''.'') \<in> set video_exts" using assms(3) by (simp add: video_exts_def)
  with assms(1,2,4,5,7-9,11) budget have "handle_upload_video env vt q st = store_video env vt (uq_request q) input ?st"
    by (simp add: handle_upload_video_def Let_def)
  moreover have "store_get_group (store_track_group w m cs un) m = cs" for w m cs un
    by (cases w) (simp_all add: store_get_group_def store_track_group_def gomap_simps)
  ultimately show ?thesis using store ne by (simp add: video_response_of_def)
qed

text \<open>
  C12: an acceptable video is stored. When the form holds a file with a video extension that is read within the
  size limit, the session's budget has room, validation has no objection, a slot was acquired, the disk and
  ffmpeg do what they are asked, every poster can be made private and the nodes take what they are given,
  then the upload ends with the answer \<open>processing_done\<close> and the group of its CIDs is on record: none of
  the steps refuses, and none is left out.
\<close>

theorem video_upload_succeeds:
  assumes "parse_upload_form env 0 q = Inr form" and "form_file form ''file'' = Some (uf, rd)"
    and "to_lower (trim_prefix (file_ext (uf_filename uf)) ''.'') \<in> {''mp4'', ''mov'', ''webm'', ''avi'', ''mkv''}"
    and "read_limited (vc_max_size_bytes (cf_video (ue_cfg env))) rd = Some data"
    and "int (length data) \<le> vc_max_size_bytes (cf_video (ue_cfg env))"
    and "budget_take (ue_today env) (ue_session env (uq_request q)) (int (length data)) (st_budget (vs_upload st)) = (b, True)"
    and "check_disk_space (vt_statfs vt) (int64 (vc_max_size_bytes (cf_video (ue_cfg env)) * 3))"
    and "vt_temp_dir_made vt \<and> vt_input_saved vt \<and> vt_slot_acquired vt \<and> vt_posters_listed vt"
    and "vt_input_file vt = Some input" and "vt_output_made vt = Some out"
    and "validate (ue_floats env) (probe_video_info (ue_floats env) (vt_ffprobe vt)) (cf_video (ue_cfg env)) input (int (length data)) = None"
    and "\<And>p. vt_mkdir vt p \<and> vt_readable vt p \<and> vt_writable vt p" and "\<And>args. vt_ffmpeg vt args"
    and "\<And>cmds. wf_gomap (vt_written vt cmds) \<and> vt_written vt cmds \<noteq> []"
    and "\<not> ue_cancelled env" and "\<And>bs. \<exists>vs. privacy_of env bs = Inr vs"
    and "accepts ok (cluster_adder (ue_kubo env))" and "ok (st_cluster (vs_upload st))"
  shows "\<exists>st' resp. handle_upload_video env vt q st = (st', Video_done resp) \<and> vr_status resp = ''processing_done'' \<and>
    st_budget (vs_upload st') = b \<and> vr_stream_cids resp \<noteq> [] \<and>
    store_get_group (vs_unpin st') (vr_master_cid resp) = vr_stream_cids resp"
  using assms by (rule handle_upload_video_total)

text \<open>
  C39: with \<open>IMAGE_OUTPUT_FORMAT=webp\<close> no protected poster is ever named: the renditions are written with the
  extension webp, which \<open>posterFromPath\<close> does not take for a poster, so that the result of an upload whose
  ffmpeg output had none has an empty map of privacy posters.
\<close>

theorem webp_posters_lost:
  assumes "build_video_privacy_posters env vt out t = Some t'" and "wf_gomap t"
    and "upload_dir (Some add) (walk_tree vt t') s = (s', Inr u)"
    and "ic_output_format (pr_cfg (ue_processor env)) = ''webp''"
    and "\<forall>rel \<in> set (gm_keys t). \<forall>p. poster_from_path rel = Some p \<longrightarrow> pp_variant p = []"
  shows "ur_privacy_poster_cids u = []"
proof -
  note b = build_video_privacy_posters_Some [OF assms(1)]
  have lost: "poster_from_path rel = None" if "rel \<in> set (gm_keys t') - set (gm_keys t)" for rel
  proof -
    from that b obtain n data vs v where v: "privacy_of env data = Inr vs" "v \<in> set vs" "rel = privacy_poster_path n v" by blast
    from process_privacy_webp [OF v(1) assms(4) v(2)] have "va_format v = ''webp''" by simp
    then have "\<exists>q. rel = q @ ''.webp''" using v(3) by (simp add: privacy_poster_path_def extension_for_format_def)
    then obtain q where "rel = q @ ''.webp''" by blast
    then have "\<not> has_suffix (to_lower rel) ''.jpg''"
      by (simp add: to_lower_append del: to_lower.simps) (simp add: lower_char_def has_suffix_iff)
    then show ?thesis by (simp add: poster_from_path_def)
  qed
  from upload_dir_files [OF assms(3)] b assms(2) obtain files r where
    u: "u = fill_result files r" "ur_privacy_poster_cids r = []" "set (gm_keys files) = set (gm_keys t')" by auto
  have "\<forall>rel \<in> set (gm_keys files). \<forall>p. poster_from_path rel = Some p \<longrightarrow> pp_variant p = []"
    using lost assms(5) u(3) by (metis Diff_iff option.distinct(1))
  from fill_result_unprotected [OF this, of r] u show ?thesis by simp
qed

section \<open>Witnesses\<close>

definition clip_probe :: "string \<Rightarrow> rat probe_output option" where
  "clip_probe p = Some \<lparr>po_format_duration = ''7'', po_format_bit_rate = [], po_streams =
     [\<lparr>ps_duration = [], ps_width = 9, ps_height = 16, ps_codec_name = [], ps_avg_frame_rate = [], ps_rotate = [], ps_side_rotations = []\<rparr>]\<rparr>"

definition clip_tools :: "rat video_tools" where
  "clip_tools = \<lparr>vt_temp_dir_made = True, vt_statfs = None, vt_input_file = Some ''in'', vt_input_saved = True, vt_output_made = Some ''out'',
     vt_slot_acquired = True, vt_mkdir = (\<lambda>p. True), vt_ffprobe = clip_probe, vt_ffmpeg = (\<lambda>a. True),
     vt_written = (\<lambda>cmds. [(posters_prefix @ ''p.jpg'', [1])]), vt_posters_listed = True, vt_readable = (\<lambda>p. True),
     vt_writable = (\<lambda>p. True), vt_track = Written\<rparr>"

definition clip_file :: upload_file where
  "clip_file = \<lparr>uf_filename = ''a.mp4'', uf_content_type = [], uf_size = 2, uf_open = Some \<lparr>rd_bytes = [1, 2], rd_fails = False\<rparr>\<rparr>"

definition clip_env :: "string \<Rightarrow> (unit, unit, rat, nrgba) upload_env" where
  "clip_env format = text_env\<lparr>ue_kubo := (ue_kubo text_env)\<lparr>kb_add := (\<lambda>b s. (s, Inr example_cid))\<rparr>, ue_imaging := example_imaging, ue_multipart := (\<lambda>b. Parsed [(''file'', [clip_file])]),
     ue_processor := example_processor\<lparr>pr_cfg := (pr_cfg example_processor)\<lparr>ic_output_format := format\<rparr>\<rparr>\<rparr>"

definition clip_state :: "unit video_state" where
  "clip_state = \<lparr>vs_upload = one_node, vs_unpin = \<lparr>us_path = [], us_entries = [], us_groups = [], us_disk = No_file\<rparr>\<rparr>"

lemma clip_tools_simps [simp]:
  "vt_temp_dir_made clip_tools" "vt_statfs clip_tools = None" "vt_input_file clip_tools = Some ''in''" "vt_input_saved clip_tools"
  "vt_output_made clip_tools = Some ''out''" "vt_slot_acquired clip_tools" "vt_mkdir clip_tools p" "vt_ffprobe clip_tools = clip_probe"
  "vt_ffmpeg clip_tools args" "vt_written clip_tools cmds = [(posters_prefix @ ''p.jpg'', [1])]" "vt_posters_listed clip_tools"
  "vt_readable clip_tools p" "vt_writable clip_tools p"
  by (simp_all add: clip_tools_def)

lemma clip_env_simps [simp]:
  "ue_cfg (clip_env f) = small_config" "ue_floats (clip_env f) = rat_floats" "ue_imaging (clip_env f) = example_imaging"
  "\<not> ue_cancelled (clip_env f)" "kb_add (ue_kubo (clip_env f)) b s = (s, Inr example_cid)" "pr_detector (ue_processor (clip_env f)) = Some blind_detector"
  "\<not> pr_detector_failed (ue_processor (clip_env f))" "ic_output_format (pr_cfg (ue_processor (clip_env f))) = f"
  by (simp_all add: clip_env_def text_env_def example_processor_def new_processor_def)

lemma clip_privacy: "f \<in> {''jpeg'', ''webp''} \<Longrightarrow> \<exists>vs. privacy_of (clip_env f) bs = Inr vs"
proof -
  assume f: "f \<in> {''jpeg'', ''webp''}"
  have run: "detect rat_floats blind_detector m i = Inr []" for m i
    by (simp add: detect_def blind_detector_def Let_def split: prod.splits)
  have enc: "\<exists>b. encode example_imaging (ue_processor (clip_env f)) i f = Some b" for i
    using f by (auto simp: encode_def encode_progressive_jpeg_def encode_with_ffmpeg_def example_imaging_def)
  have fmt: "output_format (ue_processor (clip_env f)) g = f" for g using f by (auto simp: output_format_def)
  obtain whole where "encode example_imaging (ue_processor (clip_env f)) (blur_nrgba grey_line (pv_blur_radius (ic_privacy (pr_cfg (ue_processor (clip_env f)))))) f = Some whole"
    using enc by blast
  then show ?thesis by (simp add: process_privacy_def example_imaging_simps privacy_variants_def run fmt Let_def)
qed

lemma clip_valid: "validate rat_floats (probe_video_info rat_floats clip_probe) (cf_video small_config) ''in'' 2 = None"
proof -
  have seven: "parse_int ''7'' = Some 7" "trim_space ''7'' = ''7''"
    by (simp_all add: parse_int_def is_digit_def trim_space_plain_all plain_char_def ascii_space_def)
  have "\<exists>info. probe_video_info rat_floats clip_probe ''in'' = Inr info \<and> vi_duration info = 7 \<and> vi_width info = 9 \<and> vi_height info = 16 \<and>
      vi_frame_rate info = 0"
    by (simp add: clip_probe_def probe_video_info_def seven parse_frame_rate_def)
  then obtain info where i: "probe_video_info rat_floats clip_probe ''in'' = Inr info" "vi_duration info = 7" "vi_width info = 9"
    "vi_height info = 16" "vi_frame_rate info = 0" by blast
  have "vc_max_duration_sec (cf_video small_config) = 2400" "vc_max_size_bytes (cf_video small_config) = 1073741824"
    by (simp_all add: small_config_def load_def load_video_def get_env_int_def get_env_int64_def get_env_parsed_def)
  with i show ?thesis by (simp add: validate_def max_video_side_def)
qed

lemma clip_cluster: "accepts (\<lambda>cl. cl = st_cluster one_node) (cluster_adder (ue_kubo (clip_env f)))"
  by (simp add: accepts_def cluster_adder_def cluster_add_def one_node_def add_everywhere_def run_all_def client_add_def on_result_def
      collect_cluster_errors_def)

lemma clip_form: "parse_upload_form (clip_env f) 0 post_request = Inr [(''file'', [clip_file])]"
  by (simp add: parse_upload_form_def form_limit_def clip_env_def text_env_def small_config_def post_request_def Let_def)

lemma clip_limit: "vc_max_size_bytes (cf_video small_config) = 1073741824"
  by (simp add: small_config_def load_def load_video_def get_env_int64_def get_env_parsed_def)

text \<open>The example is stored; every file of it gets the same CID.\<close>

lemma clip_hypotheses:
  "form_file [(''file'', [clip_file])] ''file'' = Some (clip_file, \<lparr>rd_bytes = [1, 2], rd_fails = False\<rparr>)"
  "to_lower (trim_prefix (file_ext (uf_filename clip_file)) ''.'') \<in> {''mp4'', ''mov'', ''webm'', ''avi'', ''mkv''}"
  "read_limited (vc_max_size_bytes (cf_video (ue_cfg (clip_env f)))) \<lparr>rd_bytes = [1, 2], rd_fails = False\<rparr> = Some [1, 2]"
  "budget_take (ue_today (clip_env f)) (ue_session (clip_env f) (uq_request post_request)) (int (length ([1, 2] :: bytes)))
      (st_budget (vs_upload clip_state)) = (None, True)"
  using clip_limit
  by (simp_all add: form_file_def clip_file_def file_ext_def last_element_def trim_prefix_def has_prefix_def lower_char_def
      read_limited_def int64_id clip_state_def one_node_def budget_take_def Let_def)

lemma clip_node: "st_cluster (vs_upload clip_state) = st_cluster one_node" by (simp add: clip_state_def)

lemma clip_uploaded: "\<exists>st' resp. handle_upload_video (clip_env ''jpeg'') clip_tools post_request clip_state = (st', Video_done resp)"
  using handle_upload_video_total [where env = "clip_env ''jpeg''" and st = clip_state and vt = clip_tools and
      ok = "\<lambda>cl. cl = st_cluster one_node" and input = "''in''" and out = "''out''", OF clip_form clip_hypotheses(1-3) _ clip_hypotheses(4)]
    clip_limit clip_valid clip_privacy [of "''jpeg''"] clip_cluster [of "''jpeg''"]
  by (auto simp: check_disk_space_def wf_gomap_def clip_node)

lemma clip_adder: "cluster_adder (ue_kubo (clip_env f)) n rd cl = (cl', Inr a) \<Longrightarrow> ar_cid a = example_cid"
proof -
  let ?op = "client_add (ue_kubo (clip_env f)) n (rd_bytes rd)"
  assume "cluster_adder (ue_kubo (clip_env f)) n rd cl = (cl', Inr a)"
  then have "cl_nodes cl \<noteq> []" "snd (add_everywhere ?op cl) = Inr a"
    by (auto simp: cluster_adder_def cluster_add_def split: if_splits)
  then have "snd (?op (cn_state (hd (cl_nodes cl)))) = Inr a" using add_everywhere_Inr [of cl ?op a] by simp
  then show ?thesis by (auto simp: client_add_def on_result_def)
qed

lemma clip_master:
  assumes "handle_upload_video (clip_env f) clip_tools post_request clip_state = (st', Video_done resp)"
  shows "vr_master_cid resp = example_cid"
proof -
  from handle_upload_video_done [OF assms] obtain t cl u d where
    u: "upload_dir (Some (cluster_adder (ue_kubo (clip_env f)))) (walk_tree clip_tools t) (st_cluster (vs_upload clip_state)) = (cl, Inr u)"
    and r: "resp = video_response_of u d" by blast
  from u have "ur_master_cid u = example_cid"
    by (auto simp: upload_dir_def reupload_content_def split: prod.splits sum.splits if_splits dest: clip_adder)
  with r show ?thesis by (simp add: video_response_of_def)
qed

theorem video_upload_succeeds_witness:
  "\<exists>st' resp. handle_upload_video (clip_env ''jpeg'') clip_tools post_request clip_state = (st', Video_done resp) \<and>
     vr_stream_cids resp \<noteq> [] \<and> store_get_group (vs_unpin st') (vr_master_cid resp) = vr_stream_cids resp"
  using video_upload_succeeds [where env = "clip_env ''jpeg''" and st = clip_state and vt = clip_tools and
      ok = "\<lambda>cl. cl = st_cluster one_node" and input = "''in''" and out = "''out''", OF clip_form clip_hypotheses(1-3) _ clip_hypotheses(4)]
    clip_limit clip_valid clip_privacy [of "''jpeg''"] clip_cluster [of "''jpeg''"]
  by (auto simp: check_disk_space_def wf_gomap_def clip_node)

text \<open>The posters of the example, made private and uploaded.\<close>

abbreviation clip_tree :: file_tree where
  "clip_tree \<equiv> [(posters_prefix @ ''p.jpg'', [1])]"

lemma clip_posters:
  assumes "f \<in> {''jpeg'', ''webp''}"
  shows "\<exists>t s u. build_video_privacy_posters (clip_env f) clip_tools ''out'' clip_tree = Some t \<and>
    upload_dir (Some counting_adder) (walk_tree clip_tools t) 0 = (s, Inr u)"
proof -
  from build_video_privacy_posters_total [of clip_tools "clip_env f" "''out''" clip_tree] clip_privacy [OF assms]
  obtain t where t: "build_video_privacy_posters (clip_env f) clip_tools ''out'' clip_tree = Some t" by auto
  have "accepts (\<lambda>n. True) counting_adder" by (simp add: accepts_def counting_adder_def)
  moreover have "wf_gomap t" "t \<noteq> []" using build_video_privacy_posters_Some [OF t] by (auto simp: wf_gomap_def)
  ultimately show ?thesis using upload_dir_total [of "\<lambda>n. True" counting_adder 0 t clip_tools] t by auto
qed

theorem protected_posters_named_witness:
  "\<exists>t s u. build_video_privacy_posters (clip_env ''jpeg'') clip_tools ''out'' clip_tree = Some t \<and>
    upload_dir (Some counting_adder) (walk_tree clip_tools t) 0 = (s, Inr u) \<and>
    map_of (gm_get_map (ur_privacy_poster_cids u) ''blur_faces'') ''p'' \<noteq> None"
proof -
  from clip_posters [of "''jpeg''"] obtain t s u where
    b: "build_video_privacy_posters (clip_env ''jpeg'') clip_tools ''out'' clip_tree = Some t"
    and u: "upload_dir (Some counting_adder) (walk_tree clip_tools t) 0 = (s, Inr u)" by auto
  have "output_format (ue_processor (clip_env ''jpeg'')) g = ''jpeg''" for g by (simp add: output_format_def)
  with protected_posters_named [OF b _ u, of "''p''" "[1]" 3 1 "''jpeg''" grey_line Blur_faces] b u
  show ?thesis by (auto simp: wf_gomap_def example_imaging_simps)
qed

theorem webp_posters_lost_witness:
  "\<exists>t s u. build_video_privacy_posters (clip_env ''webp'') clip_tools ''out'' clip_tree = Some t \<and>
    upload_dir (Some counting_adder) (walk_tree clip_tools t) 0 = (s, Inr u) \<and> ur_privacy_poster_cids u = []"
proof -
  from clip_posters [of "''webp''"] obtain t s u where
    b: "build_video_privacy_posters (clip_env ''webp'') clip_tools ''out'' clip_tree = Some t"
    and u: "upload_dir (Some counting_adder) (walk_tree clip_tools t) 0 = (s, Inr u)" by auto
  have "poster_from_path (posters_prefix @ ''p.jpg'') = Some \<lparr>pp_variant = [], pp_size = ''p''\<rparr>"
    using poster_from_path_flat [of "''p''"] by (simp add: posters_prefix_def)
  with webp_posters_lost [OF b _ u] b u show ?thesis by (auto simp: wf_gomap_def)
qed

end
