(* ===== verification/Public_Config.thy ===== *)
theory Public_Config
  imports Upload_Handlers
begin

text \<open>
  What clients are told: the messages of \<open>internal/handler/upload_errors.go\<close> in both languages and the public
  configuration of \<open>config_handler.go\<close>. Russian texts are their UTF-8 bytes.
\<close>

section \<open>Texts\<close>

definition utf8 :: "nat list \<Rightarrow> string" where
  "utf8 bs = map char_of bs"

definition ru_missing :: string where
  "ru_missing = utf8
     [0xD0, 0x92, 0xD1, 0x8B, 0xD0, 0xB1, 0xD0, 0xB5, 0xD1, 0x80, 0xD0, 0xB8, 0xD1, 0x82, 0xD0, 0xB5, 0x20, 0xD1,
       0x84, 0xD0, 0xB0, 0xD0, 0xB9, 0xD0, 0xBB, 0x20, 0xD0, 0xB4, 0xD0, 0xBB, 0xD1, 0x8F, 0x20, 0xD0, 0xB7, 0xD0,
       0xB0, 0xD0, 0xB3, 0xD1, 0x80, 0xD1, 0x83, 0xD0, 0xB7, 0xD0, 0xBA, 0xD0, 0xB8, 0x2E]"

definition ru_format :: string where
  "ru_format = utf8
     [0xD0, 0xAD, 0xD1, 0x82, 0xD0, 0xBE, 0xD1, 0x82, 0x20, 0xD1, 0x84, 0xD0, 0xBE, 0xD1, 0x80, 0xD0, 0xBC, 0xD0,
       0xB0, 0xD1, 0x82, 0x20, 0xD1, 0x84, 0xD0, 0xB0, 0xD0, 0xB9, 0xD0, 0xBB, 0xD0, 0xB0, 0x20, 0xD0, 0xBD, 0xD0,
       0xB5, 0x20, 0xD0, 0xBF, 0xD0, 0xBE, 0xD0, 0xB4, 0xD0, 0xB4, 0xD0, 0xB5, 0xD1, 0x80, 0xD0, 0xB6, 0xD0, 0xB8,
       0xD0, 0xB2, 0xD0, 0xB0, 0xD0, 0xB5, 0xD1, 0x82, 0xD1, 0x81, 0xD1, 0x8F, 0x2E]"

definition ru_large1 :: string where
  "ru_large1 = utf8
     [0xD0, 0xA0, 0xD0, 0xB0, 0xD0, 0xB7, 0xD0, 0xBC, 0xD0, 0xB5, 0xD1, 0x80, 0x20, 0xD1, 0x84, 0xD0, 0xB0, 0xD0,
       0xB9, 0xD0, 0xBB, 0xD0, 0xB0, 0x20, 0xD0, 0xBF, 0xD1, 0x80, 0xD0, 0xB5, 0xD0, 0xB2, 0xD1, 0x8B, 0xD1, 0x88,
       0xD0, 0xB0, 0xD0, 0xB5, 0xD1, 0x82, 0x20, 0xD0, 0xB4, 0xD0, 0xBE, 0xD0, 0xBF, 0xD1, 0x83, 0xD1, 0x81, 0xD1,
       0x82, 0xD0, 0xB8, 0xD0, 0xBC, 0xD1, 0x8B, 0xD0, 0xB5, 0x20]"

definition ru_request1 :: string where
  "ru_request1 = utf8
     [0xD0, 0x9E, 0xD0, 0xB1, 0xD1, 0x89, 0xD0, 0xB8, 0xD0, 0xB9, 0x20, 0xD1, 0x80, 0xD0, 0xB0, 0xD0, 0xB7, 0xD0,
       0xBC, 0xD0, 0xB5, 0xD1, 0x80, 0x20, 0xD0, 0xB7, 0xD0, 0xB0, 0xD0, 0xB3, 0xD1, 0x80, 0xD1, 0x83, 0xD0, 0xB7,
       0xD0, 0xBA, 0xD0, 0xB8, 0x20, 0xD0, 0xBF, 0xD1, 0x80, 0xD0, 0xB5, 0xD0, 0xB2, 0xD1, 0x8B, 0xD1, 0x88, 0xD0,
       0xB0, 0xD0, 0xB5, 0xD1, 0x82, 0x20, 0xD0, 0xBB, 0xD0, 0xB8, 0xD0, 0xBC, 0xD0, 0xB8, 0xD1, 0x82, 0x20]"

definition ru_request2 :: string where
  "ru_request2 = utf8
     [0x20, 0xD0, 0xB1, 0xD0, 0xB0, 0xD0, 0xB9, 0xD1, 0x82, 0x2E, 0x20, 0xD0, 0x9E, 0xD1, 0x82, 0xD0, 0xBF, 0xD1,
       0x80, 0xD0, 0xB0, 0xD0, 0xB2, 0xD1, 0x8C, 0xD1, 0x82, 0xD0, 0xB5, 0x20, 0xD1, 0x84, 0xD0, 0xB0, 0xD0, 0xB9,
       0xD0, 0xBB, 0xD1, 0x8B, 0x20, 0xD0, 0xBC, 0xD0, 0xB5, 0xD0, 0xBD, 0xD1, 0x8C, 0xD1, 0x88, 0xD0, 0xB8, 0xD0,
       0xBC, 0xD0, 0xB8, 0x20, 0xD0, 0xB3, 0xD1, 0x80, 0xD1, 0x83, 0xD0, 0xBF, 0xD0, 0xBF, 0xD0, 0xB0, 0xD0, 0xBC,
       0xD0, 0xB8, 0x2E]"

definition ru_duration1 :: string where
  "ru_duration1 = utf8
     [0xD0, 0x94, 0xD0, 0xBB, 0xD0, 0xB8, 0xD1, 0x82, 0xD0, 0xB5, 0xD0, 0xBB, 0xD1, 0x8C, 0xD0, 0xBD, 0xD0, 0xBE,
       0xD1, 0x81, 0xD1, 0x82, 0xD1, 0x8C, 0x20, 0xD0, 0xB2, 0xD0, 0xB8, 0xD0, 0xB4, 0xD0, 0xB5, 0xD0, 0xBE, 0x20,
       0xD0, 0xBF, 0xD1, 0x80, 0xD0, 0xB5, 0xD0, 0xB2, 0xD1, 0x8B, 0xD1, 0x88, 0xD0, 0xB0, 0xD0, 0xB5, 0xD1, 0x82,
       0x20, 0xD0, 0xB4, 0xD0, 0xBE, 0xD0, 0xBF, 0xD1, 0x83, 0xD1, 0x81, 0xD1, 0x82, 0xD0, 0xB8, 0xD0, 0xBC, 0xD1,
       0x8B, 0xD0, 0xB5, 0x20]"

definition ru_sec :: string where
  "ru_sec = utf8
     [0x20, 0xD1, 0x81, 0xD0, 0xB5, 0xD0, 0xBA, 0x2E]"

definition ru_metadata :: string where
  "ru_metadata = utf8
     [0xD0, 0x9D, 0xD0, 0xB5, 0x20, 0xD1, 0x83, 0xD0, 0xB4, 0xD0, 0xB0, 0xD0, 0xBB, 0xD0, 0xBE, 0xD1, 0x81, 0xD1,
       0x8C, 0x20, 0xD0, 0xBE, 0xD0, 0xBF, 0xD1, 0x80, 0xD0, 0xB5, 0xD0, 0xB4, 0xD0, 0xB5, 0xD0, 0xBB, 0xD0, 0xB8,
       0xD1, 0x82, 0xD1, 0x8C, 0x20, 0xD0, 0xBF, 0xD0, 0xB0, 0xD1, 0x80, 0xD0, 0xB0, 0xD0, 0xBC, 0xD0, 0xB5, 0xD1,
       0x82, 0xD1, 0x80, 0xD1, 0x8B, 0x20, 0xD0, 0xB2, 0xD0, 0xB8, 0xD0, 0xB4, 0xD0, 0xB5, 0xD0, 0xBE, 0x2E, 0x20,
       0xD0, 0x92, 0xD1, 0x8B, 0xD0, 0xB1, 0xD0, 0xB5, 0xD1, 0x80, 0xD0, 0xB8, 0xD1, 0x82, 0xD0, 0xB5, 0x20, 0xD0,
       0xBA, 0xD0, 0xBE, 0xD1, 0x80, 0xD1, 0x80, 0xD0, 0xB5, 0xD0, 0xBA, 0xD1, 0x82, 0xD0, 0xBD, 0xD1, 0x8B, 0xD0,
       0xB9, 0x20, 0xD0, 0xB2, 0xD0, 0xB8, 0xD0, 0xB4, 0xD0, 0xB5, 0xD0, 0xBE, 0xD1, 0x84, 0xD0, 0xB0, 0xD0, 0xB9,
       0xD0, 0xBB, 0x2E]"

definition ru_form :: string where
  "ru_form = utf8
     [0xD0, 0x9D, 0xD0, 0xB5, 0x20, 0xD1, 0x83, 0xD0, 0xB4, 0xD0, 0xB0, 0xD0, 0xBB, 0xD0, 0xBE, 0xD1, 0x81, 0xD1,
       0x8C, 0x20, 0xD0, 0xBE, 0xD0, 0xB1, 0xD1, 0x80, 0xD0, 0xB0, 0xD0, 0xB1, 0xD0, 0xBE, 0xD1, 0x82, 0xD0, 0xB0,
       0xD1, 0x82, 0xD1, 0x8C, 0x20, 0xD1, 0x84, 0xD0, 0xBE, 0xD1, 0x80, 0xD0, 0xBC, 0xD1, 0x83, 0x20, 0xD0, 0xB7,
       0xD0, 0xB0, 0xD0, 0xB3, 0xD1, 0x80, 0xD1, 0x83, 0xD0, 0xB7, 0xD0, 0xBA, 0xD0, 0xB8, 0x2E, 0x20, 0xD0, 0x9F,
       0xD0, 0xBE, 0xD0, 0xB2, 0xD1, 0x82, 0xD0, 0xBE, 0xD1, 0x80, 0xD0, 0xB8, 0xD1, 0x82, 0xD0, 0xB5, 0x20, 0xD0,
       0xBF, 0xD0, 0xBE, 0xD0, 0xBF, 0xD1, 0x8B, 0xD1, 0x82, 0xD0, 0xBA, 0xD1, 0x83, 0x2E]"

definition ru_storage :: string where
  "ru_storage = utf8
     [0xD0, 0xA5, 0xD1, 0x80, 0xD0, 0xB0, 0xD0, 0xBD, 0xD0, 0xB8, 0xD0, 0xBB, 0xD0, 0xB8, 0xD1, 0x89, 0xD0, 0xB5,
       0x20, 0xD0, 0xB2, 0xD1, 0x80, 0xD0, 0xB5, 0xD0, 0xBC, 0xD0, 0xB5, 0xD0, 0xBD, 0xD0, 0xBD, 0xD0, 0xBE, 0x20,
       0xD0, 0xBD, 0xD0, 0xB5, 0xD0, 0xB4, 0xD0, 0xBE, 0xD1, 0x81, 0xD1, 0x82, 0xD1, 0x83, 0xD0, 0xBF, 0xD0, 0xBD,
       0xD0, 0xBE, 0x2E, 0x20, 0xD0, 0x9F, 0xD0, 0xBE, 0xD0, 0xB2, 0xD1, 0x82, 0xD0, 0xBE, 0xD1, 0x80, 0xD0, 0xB8,
       0xD1, 0x82, 0xD0, 0xB5, 0x20, 0xD0, 0xBF, 0xD0, 0xBE, 0xD0, 0xBF, 0xD1, 0x8B, 0xD1, 0x82, 0xD0, 0xBA, 0xD1,
       0x83, 0x20, 0xD0, 0xBF, 0xD0, 0xBE, 0xD0, 0xB7, 0xD0, 0xB6, 0xD0, 0xB5, 0x2E]"

definition ru_quota :: string where
  "ru_quota = utf8
     [0xD0, 0x9B, 0xD0, 0xB8, 0xD0, 0xBC, 0xD0, 0xB8, 0xD1, 0x82, 0x20, 0xD0, 0xB7, 0xD0, 0xB0, 0xD0, 0xB3, 0xD1,
       0x80, 0xD1, 0x83, 0xD0, 0xB7, 0xD0, 0xBE, 0xD0, 0xBA, 0x20, 0xD0, 0xBD, 0xD0, 0xB0, 0x20, 0xD1, 0x81, 0xD0,
       0xB5, 0xD0, 0xB3, 0xD0, 0xBE, 0xD0, 0xB4, 0xD0, 0xBD, 0xD1, 0x8F, 0x20, 0xD0, 0xB8, 0xD1, 0x81, 0xD1, 0x87,
       0xD0, 0xB5, 0xD1, 0x80, 0xD0, 0xBF, 0xD0, 0xB0, 0xD0, 0xBD, 0x2E, 0x20, 0xD0, 0x9F, 0xD0, 0xBE, 0xD0, 0xBF,
       0xD1, 0x80, 0xD0, 0xBE, 0xD0, 0xB1, 0xD1, 0x83, 0xD0, 0xB9, 0xD1, 0x82, 0xD0, 0xB5, 0x20, 0xD0, 0xB7, 0xD0,
       0xB0, 0xD0, 0xB2, 0xD1, 0x82, 0xD1, 0x80, 0xD0, 0xB0, 0x2E]"

definition ru_busy :: string where
  "ru_busy = utf8
     [0xD0, 0xA1, 0xD0, 0xB5, 0xD0, 0xB9, 0xD1, 0x87, 0xD0, 0xB0, 0xD1, 0x81, 0x20, 0xD0, 0xBE, 0xD0, 0xB1, 0xD1,
       0x80, 0xD0, 0xB0, 0xD0, 0xB1, 0xD0, 0xB0, 0xD1, 0x82, 0xD1, 0x8B, 0xD0, 0xB2, 0xD0, 0xB0, 0xD0, 0xB5, 0xD1,
       0x82, 0xD1, 0x81, 0xD1, 0x8F, 0x20, 0xD0, 0xBC, 0xD0, 0xBD, 0xD0, 0xBE, 0xD0, 0xB3, 0xD0, 0xBE, 0x20, 0xD0,
       0xB2, 0xD0, 0xB8, 0xD0, 0xB4, 0xD0, 0xB5, 0xD0, 0xBE, 0x2E, 0x20, 0xD0, 0x9F, 0xD0, 0xBE, 0xD0, 0xB2, 0xD1,
       0x82, 0xD0, 0xBE, 0xD1, 0x80, 0xD0, 0xB8, 0xD1, 0x82, 0xD0, 0xB5, 0x20, 0xD0, 0xB7, 0xD0, 0xB0, 0xD0, 0xB3,
       0xD1, 0x80, 0xD1, 0x83, 0xD0, 0xB7, 0xD0, 0xBA, 0xD1, 0x83, 0x20, 0xD1, 0x87, 0xD0, 0xB5, 0xD1, 0x80, 0xD0,
       0xB5, 0xD0, 0xB7, 0x20, 0xD0, 0xBD, 0xD0, 0xB5, 0xD1, 0x81, 0xD0, 0xBA, 0xD0, 0xBE, 0xD0, 0xBB, 0xD1, 0x8C,
       0xD0, 0xBA, 0xD0, 0xBE, 0x20, 0xD0, 0xBC, 0xD0, 0xB8, 0xD0, 0xBD, 0xD1, 0x83, 0xD1, 0x82, 0x2E]"

definition ru_resolution :: string where
  "ru_resolution = utf8
     [0xD0, 0xA0, 0xD0, 0xB0, 0xD0, 0xB7, 0xD1, 0x80, 0xD0, 0xB5, 0xD1, 0x88, 0xD0, 0xB5, 0xD0, 0xBD, 0xD0, 0xB8,
       0xD0, 0xB5, 0x20, 0xD0, 0xB2, 0xD0, 0xB8, 0xD0, 0xB4, 0xD0, 0xB5, 0xD0, 0xBE, 0x20, 0xD1, 0x81, 0xD0, 0xBB,
       0xD0, 0xB8, 0xD1, 0x88, 0xD0, 0xBA, 0xD0, 0xBE, 0xD0, 0xBC, 0x20, 0xD0, 0xB1, 0xD0, 0xBE, 0xD0, 0xBB, 0xD1,
       0x8C, 0xD1, 0x88, 0xD0, 0xBE, 0xD0, 0xB5, 0x3A, 0x20, 0xD0, 0xBD, 0xD0, 0xB5, 0x20, 0xD0, 0xB1, 0xD0, 0xBE,
       0xD0, 0xBB, 0xD1, 0x8C, 0xD1, 0x88, 0xD0, 0xB5, 0x20, 0x34, 0x30, 0x39, 0x36, 0x20, 0xD1, 0x82, 0xD0, 0xBE,
       0xD1, 0x87, 0xD0, 0xB5, 0xD0, 0xBA, 0x20, 0xD0, 0xBF, 0xD0, 0xBE, 0x20, 0xD1, 0x81, 0xD1, 0x82, 0xD0, 0xBE,
       0xD1, 0x80, 0xD0, 0xBE, 0xD0, 0xBD, 0xD0, 0xB5, 0x20, 0xD0, 0xB8, 0x20, 0x31, 0x32, 0x30, 0x20, 0xD0, 0xBA,
       0xD0, 0xB0, 0xD0, 0xB4, 0xD1, 0x80, 0xD0, 0xBE, 0xD0, 0xB2, 0x20, 0xD0, 0xB2, 0x20, 0xD1, 0x81, 0xD0, 0xB5,
       0xD0, 0xBA, 0xD1, 0x83, 0xD0, 0xBD, 0xD0, 0xB4, 0xD1, 0x83, 0x2E]"

definition ru_failed :: string where
  "ru_failed = utf8
     [0xD0, 0x9D, 0xD0, 0xB5, 0x20, 0xD1, 0x83, 0xD0, 0xB4, 0xD0, 0xB0, 0xD0, 0xBB, 0xD0, 0xBE, 0xD1, 0x81, 0xD1,
       0x8C, 0x20, 0xD0, 0xB7, 0xD0, 0xB0, 0xD0, 0xB3, 0xD1, 0x80, 0xD1, 0x83, 0xD0, 0xB7, 0xD0, 0xB8, 0xD1, 0x82,
       0xD1, 0x8C, 0x20, 0xD1, 0x84, 0xD0, 0xB0, 0xD0, 0xB9, 0xD0, 0xBB, 0x2E, 0x20, 0xD0, 0x9F, 0xD0, 0xBE, 0xD0,
       0xB2, 0xD1, 0x82, 0xD0, 0xBE, 0xD1, 0x80, 0xD0, 0xB8, 0xD1, 0x82, 0xD0, 0xB5, 0x20, 0xD0, 0xBF, 0xD0, 0xBE,
       0xD0, 0xBF, 0xD1, 0x8B, 0xD1, 0x82, 0xD0, 0xBA, 0xD1, 0x83, 0x2E]"

definition ru_configured :: string where
  "ru_configured = utf8
     [0xD1, 0x83, 0xD1, 0x81, 0xD1, 0x82, 0xD0, 0xB0, 0xD0, 0xBD, 0xD0, 0xBE, 0xD0, 0xB2, 0xD0, 0xBB, 0xD0, 0xB5,
       0xD0, 0xBD, 0xD0, 0xBD, 0xD1, 0x8B, 0xD0, 0xB9]"

definition ru_gb :: string where
  "ru_gb = utf8
     [0xD0, 0x93, 0xD0, 0x91]"

definition ru_mb :: string where
  "ru_mb = utf8
     [0xD0, 0x9C, 0xD0, 0x91]"

definition ru_kb :: string where
  "ru_kb = utf8
     [0xD0, 0x9A, 0xD0, 0x91]"

definition ru_min :: string where
  "ru_min = utf8
     [0x20, 0xD0, 0xBC, 0xD0, 0xB8, 0xD0, 0xBD, 0x2E]"

definition ru_upto :: string where
  "ru_upto = utf8
     [0x20, 0xD0, 0xB4, 0xD0, 0xBE, 0x20]"

definition ru_comma_upto :: string where
  "ru_comma_upto = utf8
     [0x2C, 0x20, 0xD0, 0xB4, 0xD0, 0xBE, 0x20]"

section \<open>Numbers for people\<close>

definition megabyte :: int where "megabyte = 1024 * 1024"

definition gigabyte :: int where "gigabyte = 1024 * megabyte"

definition human_file_size :: "'f floats \<Rightarrow> int \<Rightarrow> string \<Rightarrow> string" where
  "human_file_size fl nbytes locale =
     (if nbytes \<le> 0 then (if locale = ''ru'' then ru_configured else ''configured'')
      else if nbytes mod gigabyte = 0 then itoa (nbytes div gigabyte) @ '' '' @ (if locale = ''ru'' then ru_gb else ''GB'')
      else if nbytes mod megabyte = 0 then itoa (nbytes div megabyte) @ '' '' @ (if locale = ''ru'' then ru_mb else ''MB'')
      else fl_fixed fl 1 (fl_div fl (fl_of_int fl nbytes) (fl_lit fl 1024 0)) @ '' '' @ (if locale = ''ru'' then ru_kb else ''KB''))"

definition human_duration :: "int \<Rightarrow> string \<Rightarrow> string" where
  "human_duration seconds locale =
     (if seconds \<ge> 120 \<and> seconds mod 60 = 0
      then itoa (seconds div 60) @ (if locale = ''ru'' then ru_min else '' min'')
      else itoa seconds @ (if locale = ''ru'' then ru_sec else '' sec''))"

definition number_detail :: "(string, detail) gomap \<Rightarrow> string \<Rightarrow> int" where
  "number_detail details key = (case map_of details key of Some (Detail_number n) \<Rightarrow> n | _ \<Rightarrow> 0)"

section \<open>Messages\<close>

definition russian_message :: "string \<Rightarrow> string \<Rightarrow> int \<Rightarrow> int \<Rightarrow> string" where
  "russian_message err max_size max_request max_duration =
     (if err = ''upload_missing_file'' then ru_missing
      else if err = ''unsupported_file_type'' \<or> err = ''unsupported_video_format'' then ru_format
      else if err = ''file_too_large'' \<or> err = ''video_file_too_large'' then ru_large1 @ max_size @ ''.''
      else if err = ''upload_request_too_large'' then ru_request1 @ itoa max_request @ ru_request2
      else if err = ''video_duration_exceeded'' then ru_duration1 @ itoa max_duration @ ru_sec
      else if err = ''video_metadata_invalid'' then ru_metadata
      else if err = ''upload_form_invalid'' then ru_form
      else if err = ''upload_storage_unavailable'' then ru_storage
      else if err = ''upload_quota_exceeded'' then ru_quota
      else if err = ''upload_busy'' then ru_busy
      else if err = ''video_resolution_exceeded'' then ru_resolution
      else ru_failed)"

definition english_message :: "string \<Rightarrow> string \<Rightarrow> int \<Rightarrow> int \<Rightarrow> string" where
  "english_message err max_size max_request max_duration =
     (if err = ''upload_missing_file'' then ''Choose a file to upload.''
      else if err = ''unsupported_file_type'' \<or> err = ''unsupported_video_format'' then ''This file format is not supported.''
      else if err = ''file_too_large'' \<or> err = ''video_file_too_large'' then ''The file exceeds the '' @ max_size @ '' limit.''
      else if err = ''upload_request_too_large''
      then ''The complete upload exceeds the '' @ itoa max_request @ '' byte limit. Send files in smaller batches.''
      else if err = ''video_duration_exceeded'' then ''The video exceeds the '' @ itoa max_duration @ '' second duration limit.''
      else if err = ''video_metadata_invalid'' then ''Video details could not be read. Choose a valid video file.''
      else if err = ''upload_form_invalid'' then ''The upload form could not be processed. Try again.''
      else if err = ''upload_storage_unavailable'' then ''Storage is temporarily unavailable. Try again later.''
      else if err = ''upload_quota_exceeded'' then ''Today'' @ [CHR 0x27] @ ''s upload limit is used up. Try again tomorrow.''
      else if err = ''upload_busy'' then ''Many videos are being processed. Try the upload again in a few minutes.''
      else if err = ''video_resolution_exceeded''
      then ''The video resolution is too high: at most 4096 pixels a side and 120 frames per second.''
      else ''The file could not be uploaded. Try again.'')"

definition localized_upload_message :: "'f floats \<Rightarrow> string \<Rightarrow> string \<Rightarrow> (string, detail) gomap \<Rightarrow> string" where
  "localized_upload_message fl locale err details =
     (let max_size = human_file_size fl (number_detail details ''max_bytes'') locale;
          max_duration = number_detail details ''max_duration_sec'';
          max_request = number_detail details ''max_request_bytes''
      in if locale = ''ru'' then russian_message err max_size max_request max_duration
         else english_message err max_size max_request max_duration)"

text \<open>The body of an error reply.\<close>

definition upload_error_message :: "'f floats \<Rightarrow> upload_reply \<Rightarrow> string option" where
  "upload_error_message fl reply = (case reply of
      Upload_refused status err details locale \<Rightarrow> Some (localized_upload_message fl locale err details)
    | _ \<Rightarrow> None)"

section \<open>The public configuration\<close>

record privacy_variant_config =
  pc_key :: string
  pc_purpose :: string
  pc_fallback :: string

record image_public_config =
  ip_enabled :: bool
  ip_variants :: "image_variant list"
  ip_privacy_variants :: "privacy_variant_config list"
  ip_output_format :: string
  ip_jpeg_progressive :: bool
  ip_resize_policy :: string
  ip_url_template :: string
  ip_bundle_template :: string

record media_upload_policy =
  mp_accept :: string
  mp_mime_types :: "string list"
  mp_max_bytes :: int
  mp_max_size_label :: string
  mp_description :: string
  mp_too_large_message :: string

record public_config =
  pb_image :: image_public_config
  pb_max_request_bytes :: int
  pb_media_image :: media_upload_policy
  pb_media_video :: media_upload_policy
  pb_max_duration_sec :: int

definition media_image_mime_types :: "(string, bool) gomap \<Rightarrow> string list" where
  "media_image_mime_types allowed =
     sort (filter (\<lambda>t. map_of allowed t = Some True) [''image/jpeg'', ''image/png'', ''image/webp'', ''image/heic'', ''image/heif''])"

definition video_types :: "string list" where
  "video_types = [''video/mp4'', ''video/quicktime'', ''video/webm'', ''video/x-msvideo'', ''video/x-matroska'']"

definition handle_config :: "'f floats \<Rightarrow> request \<Rightarrow> 'f config \<Rightarrow> public_config" where
  "handle_config fl r cfg =
     (let locale = upload_locale r; ru = (locale = ''ru''); up = cf_upload cfg; vc = cf_video cfg; ic = cf_image cfg;
          image_types = media_image_mime_types (up_allowed_mime_types up);
          image_max = human_file_size fl (up_max_file_size up) locale;
          video_max = human_file_size fl (vc_max_size_bytes vc) locale;
          video_duration = human_duration (vc_max_duration_sec vc) locale;
          too_large = (\<lambda>label. if ru then ru_large1 @ label @ ''.'' else ''The file exceeds the '' @ label @ '' limit.'')
      in \<lparr>pb_image = \<lparr>ip_enabled = ic_processing_enabled ic, ip_variants = ic_variants ic,
            ip_privacy_variants =
              [\<lparr>pc_key = privacy_blur_variant_key, pc_purpose = ''full_image_blur'', pc_fallback = []\<rparr>,
               \<lparr>pc_key = privacy_face_blur_variant_key, pc_purpose = ''detected_faces_blur'', pc_fallback = privacy_blur_variant_key\<rparr>],
            ip_output_format = ic_output_format ic, ip_jpeg_progressive = ic_jpeg_progressive ic, ip_resize_policy = ic_resize_policy ic,
            ip_url_template = ''/file/{cid}/{size}'', ip_bundle_template = ''/file/{cid}/bundle''\<rparr>,
          pb_max_request_bytes = up_max_request_size up,
          pb_media_image = \<lparr>mp_accept = str_join '','' (image_types @ [''.heic'', ''.heif'']), mp_mime_types = image_types,
            mp_max_bytes = up_max_file_size up, mp_max_size_label = image_max,
            mp_description = (if ru then ''JPEG, PNG, WebP, HEIC'' @ ru_upto @ image_max else ''JPEG, PNG, WebP, HEIC up to '' @ image_max),
            mp_too_large_message = too_large image_max\<rparr>,
          pb_media_video = \<lparr>mp_accept = str_join '','' (video_types @ [''.mp4'', ''.mov'', ''.webm'', ''.avi'', ''.mkv'']), mp_mime_types = video_types,
            mp_max_bytes = vc_max_size_bytes vc, mp_max_size_label = video_max,
            mp_description = (if ru then ''MP4, MOV, WebM, AVI, MKV'' @ ru_upto @ video_max @ ru_comma_upto @ video_duration
              else ''MP4, MOV, WebM, AVI, MKV up to '' @ video_max @ '', up to '' @ video_duration),
            mp_too_large_message = too_large video_max\<rparr>,
          pb_max_duration_sec = vc_max_duration_sec vc\<rparr>)"

section \<open>Properties\<close>

text \<open>The codes of the handlers' errors, but for \<open>upload_failed\<close>.\<close>

definition error_codes :: "string list" where
  "error_codes = [''upload_missing_file'', ''unsupported_file_type'', ''unsupported_video_format'', ''file_too_large'', ''video_file_too_large'',
     ''upload_request_too_large'', ''video_duration_exceeded'', ''video_metadata_invalid'', ''upload_form_invalid'',
     ''upload_storage_unavailable'', ''upload_quota_exceeded'', ''upload_busy'', ''video_resolution_exceeded'']"

lemma utf8_eq_iff: "utf8 as = utf8 bs \<longleftrightarrow> map (\<lambda>n. n mod 256) as = map (\<lambda>n. n mod 256) bs"
proof -
  have c: "char_of m = (char_of n :: char) \<longleftrightarrow> m mod 256 = n mod 256" for m n :: nat
    by (metis char_of_mod_256 of_char_of)
  show ?thesis unfolding utf8_def by (induction as arbitrary: bs) (auto simp: Cons_eq_map_conv c)
qed

lemma utf8_append_eq: "utf8 as @ s = utf8 bs \<Longrightarrow> map (\<lambda>n. n mod 256) as = map (\<lambda>n. n mod 256) (take (length as) bs)"
proof -
  assume "utf8 as @ s = utf8 bs"
  then have "utf8 as = utf8 (take (length as) bs)"
    by (metis append_eq_conv_conj length_map take_map utf8_def)
  then show ?thesis by (simp only: utf8_eq_iff)
qed

lemma ru_differ:
  "ru_missing \<noteq> ru_failed" "ru_format \<noteq> ru_failed" "ru_metadata \<noteq> ru_failed" "ru_form \<noteq> ru_failed"
  "ru_storage \<noteq> ru_failed" "ru_quota \<noteq> ru_failed" "ru_busy \<noteq> ru_failed" "ru_resolution \<noteq> ru_failed"
  unfolding ru_missing_def ru_format_def ru_metadata_def ru_form_def ru_storage_def ru_quota_def ru_busy_def ru_resolution_def ru_failed_def utf8_eq_iff
  by simp_all

lemma ru_differ_prefix: "ru_large1 @ s \<noteq> ru_failed" "ru_request1 @ s \<noteq> ru_failed" "ru_duration1 @ s \<noteq> ru_failed"
  unfolding ru_large1_def ru_request1_def ru_duration1_def ru_failed_def by (auto dest!: utf8_append_eq)



text \<open>
  The limits the public configuration announces are the enforced ones. A file \<open>POST /upload\<close> stores has at
  most the announced size and came in a request of at most the announced length, when one is announced;
  and the image part and the privacy renditions it lists say nothing of keys, paths or nodes: two
  configurations that agree on images, uploads and the video limits announce the same.
\<close>

theorem announced_limits_enforced:
  assumes "handle_upload env q st = (st', Upload_one resp)" and "pb = handle_config (ue_floats env) (uq_request q) (ue_cfg env)"
    and "cf_image cfg' = cf_image (ue_cfg env)" and "cf_upload cfg' = cf_upload (ue_cfg env)" and "cf_video cfg' = cf_video (ue_cfg env)"
  shows "(\<exists>form file rd data. parse_upload_form env 0 q = Inr form \<and> form_file form ''file'' = Some (file, rd) \<and>
      read_limited (mp_max_bytes (pb_media_image pb)) rd = Some data \<and> int (length data) \<le> mp_max_bytes (pb_media_image pb)) \<and>
    (0 < pb_max_request_bytes pb \<longrightarrow> int (length (rd_bytes (uq_body q))) \<le> pb_max_request_bytes pb) \<and>
    handle_config (ue_floats env) (uq_request q) cfg' = pb"
proof -
  have l: "mp_max_bytes (pb_media_image pb) = up_max_file_size (cf_upload (ue_cfg env))"
    "pb_max_request_bytes pb = up_max_request_size (cf_upload (ue_cfg env))"
    by (simp_all add: assms(2) handle_config_def Let_def)
  from handle_upload_one [OF assms(1)] obtain form uf rd data where h: "parse_upload_form env 0 q = Inr form" "form_file form ''file'' = Some (uf, rd)"
    "read_limited (up_max_file_size (cf_upload (ue_cfg env))) rd = Some data" "int (length data) \<le> up_max_file_size (cf_upload (ue_cfg env))" by blast
  have "int (length (rd_bytes (uq_body q))) \<le> up_max_request_size (cf_upload (ue_cfg env))" if "0 < up_max_request_size (cf_upload (ue_cfg env))"
    using parse_upload_form_bounded [OF h(1)] that by (simp add: form_limit_def Let_def)
  moreover have "handle_config (ue_floats env) (uq_request q) cfg' = pb" using assms(2-5) by (simp add: handle_config_def Let_def)
  ultimately show ?thesis unfolding l using h by blast
qed

theorem announced_limits_enforced_witness:
  "\<exists>st' resp. handle_upload text_env post_request one_node = (st', Upload_one resp) \<and>
    int (length (rd_bytes (uq_body post_request))) \<le> pb_max_request_bytes (handle_config rat_floats (uq_request post_request) small_config)"
proof -
  obtain resp where s: "handle_upload text_env post_request one_node = (one_node\<lparr>st_replicated := [''Qd'']\<rparr>, Upload_one resp)"
    using text_upload_one by blast
  have e: "ue_floats text_env = rat_floats" "ue_cfg text_env = small_config" by (simp_all add: text_env_def)
  have "pb_max_request_bytes (handle_config rat_floats (uq_request post_request) small_config) = 100"
    by (simp add: handle_config_def small_config_def Let_def)
  with announced_limits_enforced [OF s refl refl refl refl] s show ?thesis unfolding e by auto
qed

end
