(* ===== verification/Access_Control.thy ===== *)
theory Access_Control
  imports File_Handlers
begin

text \<open>
  What every request passes before a handler sees it: \<open>internal/middleware\<close>, the routes and the chain of
  \<open>cmd/server/main.go\<close>, and the static key provider of \<open>internal/auth/static\<close>. A handler gets the headers
  set so far, the request with the user of its context, and the state; it answers or panics. The limiter of
  \<open>golang.org/x/time/rate\<close> and the Lua script are parameters. Header names are in the canonical form
  \<open>net/http\<close> gives them, and paths are those of requests that escape nothing.
\<close>

section \<open>Calls and handlers\<close>

text \<open>\<open>ca_cookie\<close> is the media token cookie as \<open>net/http\<close> parses it, \<open>ca_user\<close> the user id of the context.\<close>

record call =
  ca_request :: request
  ca_remote_addr :: string
  ca_cookie :: "string option"
  ca_user :: string

text \<open>\<open>Panicked hs\<close>: a panic before anything was written, with the headers set by then.\<close>

datatype outcome = Answered response | Panicked headers

type_synonym 'w http_handler = "headers \<Rightarrow> call \<Rightarrow> 'w \<Rightarrow> 'w \<times> outcome"

type_synonym 'w middleware = "'w http_handler \<Rightarrow> 'w http_handler"

definition chain :: "'w http_handler \<Rightarrow> 'w middleware list \<Rightarrow> 'w http_handler" where
  "chain h ms = foldr (\<lambda>m h. m h) ms h"

definition user_id_from_context :: "call \<Rightarrow> string" where
  "user_id_from_context c = ca_user c"

section \<open>Panics, security headers, CORS\<close>

definition panic_recovery :: "'w middleware" where
  "panic_recovery next hs c w = (case next hs c w of
      (w1, Answered rs) \<Rightarrow> (w1, Answered rs)
    | (w1, Panicked hs1) \<Rightarrow> (w1, Answered (json_error 500 [(''error'', ''internal server error'')] hs1)))"

definition security_headers :: "'w middleware" where
  "security_headers next hs c w =
     next (gm_put ''X-Xss-Protection'' ''1; mode=block'' (gm_put ''Referrer-Policy'' ''strict-origin-when-cross-origin''
       (gm_put ''X-Frame-Options'' ''DENY'' (gm_put ''X-Content-Type-Options'' ''nosniff'' hs)))) c w"

definition allowed_origin :: "string list \<Rightarrow> string \<Rightarrow> string" where
  "allowed_origin allowed origin =
     (if length allowed = 1 then hd allowed
      else if ''*'' \<in> set allowed then ''*''
      else if \<exists>a \<in> set allowed. origin \<noteq> [] \<and> equal_fold a origin then origin
      else [])"

definition cors_headers :: "string list \<Rightarrow> string list \<Rightarrow> string \<Rightarrow> headers \<Rightarrow> headers" where
  "cors_headers origins allowed_headers origin hs =
     (if origins = [] then hs
      else
        (let o1 = allowed_origin origins origin;
             h1 = (if length origins > 1 then gm_put ''Vary'' ''Origin'' hs else hs);
             h2 = (if o1 \<noteq> [] then gm_put ''Access-Control-Allow-Origin'' o1 h1 else h1)
         in gm_put ''Access-Control-Allow-Methods'' ''GET, POST, DELETE, OPTIONS''
              (gm_put ''Access-Control-Allow-Headers'' (str_join '','' allowed_headers) h2)))"

definition cors :: "string list \<Rightarrow> string list \<Rightarrow> 'w middleware" where
  "cors origins allowed_headers next hs c w =
     (let hs1 = cors_headers origins allowed_headers (header_get (ca_request c) ''Origin'') hs
      in if rq_method (ca_request c) = ''OPTIONS''
         then (w, Answered \<lparr>rs_status = 204, rs_headers = gm_put ''Content-Type'' ''application/json'' hs1, rs_body = Body_none\<rparr>)
         else next hs1 c w)"

section \<open>The rate limit\<close>

text \<open>The loop of \<open>splitByComma\<close>: position, start of the current part, parts so far.\<close>

function split_loop :: "string \<Rightarrow> nat \<Rightarrow> nat \<Rightarrow> string list \<Rightarrow> string list" where
  "split_loop s start i parts =
     (if i < length s then
        (if s ! i = CHR '','' then split_loop s (i + 1) (i + 1) (parts @ [take (i - start) (drop start s)])
         else split_loop s start (i + 1) parts)
      else parts @ [drop start s])"
  by pat_completeness auto
termination by (relation "measure (\<lambda>(s, start, i, parts). length s - i)") auto

declare split_loop.simps [simp del]

definition split_by_comma :: "string \<Rightarrow> string list" where
  "split_by_comma s = split_loop s 0 0 []"

definition trim_blanks :: "string \<Rightarrow> string" where
  "trim_blanks s = rev (dropWhile (\<lambda>c. c = CHR '' '') (rev (dropWhile (\<lambda>c. c = CHR '' '') s)))"

text \<open>The part of an address before its last colon.\<close>

definition host_of_addr :: "string \<Rightarrow> string" where
  "host_of_addr ip =
     (if CHR '':'' \<in> set ip then rev (tl (dropWhile (\<lambda>c. c \<noteq> CHR '':'') (rev ip))) else ip)"

definition extract_ip :: "call \<Rightarrow> string" where
  "extract_ip c =
     (let xff = header_get (ca_request c) ''X-Forwarded-For''
      in if xff \<noteq> [] then trim_blanks (hd (split_by_comma xff)) else host_of_addr (ca_remote_addr c))"

record 'l visitor =
  vi_limiter :: 'l
  vi_last_seen :: int

type_synonym 'l visitors = "(string, 'l visitor) gomap"

text \<open>A limiter as the code uses it: a fresh one, and whether one more request is allowed at a time.\<close>

record 'l rate_limiter =
  rl_new :: 'l
  rl_allow :: "int \<Rightarrow> 'l \<Rightarrow> 'l \<times> bool"

definition get_limiter :: "'l rate_limiter \<Rightarrow> int \<Rightarrow> string \<Rightarrow> 'l visitors \<Rightarrow> 'l visitors \<times> 'l" where
  "get_limiter rl now ip vs = (case map_of vs ip of
      Some v \<Rightarrow> (gm_put ip (v\<lparr>vi_last_seen := now\<rparr>) vs, vi_limiter v)
    | None \<Rightarrow> (gm_put ip \<lparr>vi_limiter = rl_new rl, vi_last_seen = now\<rparr> vs, rl_new rl))"

definition visitor_ttl :: int where "visitor_ttl = 3 * 60 * 1000000000"

definition cleanup_visitors :: "int \<Rightarrow> 'l visitors \<Rightarrow> 'l visitors" where
  "cleanup_visitors now vs = filter (\<lambda>(ip, v). \<not> now - vi_last_seen v > visitor_ttl) vs"

text \<open>\<open>Allow\<close> changes the limiter the map points to.\<close>

definition allow_request :: "'l rate_limiter \<Rightarrow> int \<Rightarrow> string \<Rightarrow> 'l visitors \<Rightarrow> 'l visitors \<times> bool" where
  "allow_request rl now ip vs =
     (let (vs1, l) = get_limiter rl now ip vs; (l1, ok) = rl_allow rl now l
      in (gm_put ip \<lparr>vi_limiter = l1, vi_last_seen = now\<rparr> vs1, ok))"

definition rate_limit :: "'l rate_limiter \<Rightarrow> int \<Rightarrow> ('l visitors \<times> 'w) middleware" where
  "rate_limit rl now next hs c w =
     (case allow_request rl now (extract_ip c) (fst w) of
        (vs, False) \<Rightarrow> ((vs, snd w), Answered (json_error 429 [(''error'', ''rate limit exceeded'')] hs))
      | (vs, True) \<Rightarrow> next hs c (vs, snd w))"

section \<open>Authentication\<close>

definition valid_keys :: "string list \<Rightarrow> string list" where
  "valid_keys keys = filter (\<lambda>k. k \<noteq> []) (map trim_space keys)"

definition extract_token :: "request \<Rightarrow> string" where
  "extract_token r =
     (let auth = header_get r ''Authorization''; key = header_get r ''X-Api-Key'';
          token = query_get (rq_query r) ''token'';
          access = query_get (rq_query r) ''access_token''
      in if has_prefix auth ''Bearer '' then trim_prefix auth ''Bearer ''
         else if key \<noteq> [] then key
         else if token \<noteq> [] then token
         else access)"

text \<open>The cookie is read as the Authorization header, and the handlers see it there.\<close>

definition with_media_cookie :: "call \<Rightarrow> call" where
  "with_media_cookie c =
     (if header_get (ca_request c) ''Authorization'' = [] then
        (case ca_cookie c of
           None \<Rightarrow> c
         | Some v \<Rightarrow>
             if trim_space v = [] then c
             else c\<lparr>ca_request := (ca_request c)\<lparr>rq_headers :=
                    gm_put ''Authorization'' (''Bearer '' @ trim_space v) (rq_headers (ca_request c))\<rparr>\<rparr>)
      else c)"

definition write_auth_error :: "nat \<Rightarrow> string \<Rightarrow> headers \<Rightarrow> outcome" where
  "write_auth_error status msg hs = Answered (json_error status [(''error'', msg)] hs)"

text \<open>\<open>lua\<close> is the script's verdict on a request: an error, or a truth value; \<open>None\<close> when no script is configured.\<close>

definition auth_middleware :: "string list \<Rightarrow> (call \<Rightarrow> bool option) option \<Rightarrow> 'w middleware" where
  "auth_middleware keys lua next hs c w =
     (if rq_method (ca_request c) = ''GET'' \<and> rq_path (ca_request c) = ''/config'' then next hs c w
      else
        (let c1 = with_media_cookie c; token = extract_token (ca_request c1);
             refused = (w, if token \<noteq> [] then write_auth_error 403 ''Authentication failed'' hs
                           else write_auth_error 401 ''Authentication required'' hs)
         in if token \<noteq> [] \<and> token \<in> set (valid_keys keys) then next hs (c1\<lparr>ca_user := ''api-key''\<rparr>) w
            else (case lua of
                None \<Rightarrow> refused
              | Some script \<Rightarrow> (case script c1 of
                    None \<Rightarrow> (w, write_auth_error 401 ''Authentication failed'' hs)
                  | Some True \<Rightarrow> next hs (c1\<lparr>ca_user := ''lua-auth''\<rparr>) w
                  | Some False \<Rightarrow> refused))))"

definition api_key_auth :: "string list \<Rightarrow> 'w middleware" where
  "api_key_auth keys = auth_middleware keys None"

section \<open>The static provider\<close>

text \<open>\<open>Result\<close> of \<open>internal/auth/provider.go\<close>, the answer of a \<open>Provider\<close>.\<close>

record auth_result =
  ar_user_id :: int
  ar_role :: string

datatype static_error = No_token | Invalid_token

definition static_new :: "string list \<Rightarrow> string list" where
  "static_new keys = foldl (\<lambda>m k. if trim_space k \<noteq> [] \<and> trim_space k \<notin> set m then m @ [trim_space k] else m) [] keys"

definition static_extract_token :: "(string, string) gomap \<Rightarrow> string" where
  "static_extract_token hs =
     (let key = (case map_of hs ''X-Api-Key'' of None \<Rightarrow> [] | Some v \<Rightarrow> v);
          auth = (case map_of hs ''Authorization'' of None \<Rightarrow> [] | Some v \<Rightarrow> v)
      in if key \<noteq> [] then key
         else if has_prefix auth ''Bearer '' then trim_prefix auth ''Bearer ''
         else [])"

definition static_authorize :: "string list \<Rightarrow> (string, string) gomap \<Rightarrow> static_error + auth_result" where
  "static_authorize keys hs =
     (let token = static_extract_token hs
      in if token = [] then Inl No_token
         else if token \<in> set keys then Inr \<lparr>ar_user_id = 0, ar_role = ''api-key''\<rparr>
         else Inl Invalid_token)"

section \<open>Routes\<close>

datatype route =
    R_upload | R_upload_multiple | R_file_link | R_file | R_delete | R_refresh_face_masks | R_config
  | R_upload_video | R_stream_link | R_stream_master | R_stream_segment | R_not_found | R_redirect string

text \<open>The patterns of \<open>main\<close>: a method (GET serves HEAD too) and a path, a subtree when it ends in a slash.\<close>

definition patterns :: "(string \<times> string \<times> route) list" where
  "patterns =
     [(''POST'', ''/upload'', R_upload), (''POST'', ''/upload-multiple'', R_upload_multiple),
      (''GET'', ''/file/link/'', R_file_link), (''GET'', ''/file/'', R_file), (''DELETE'', ''/file/'', R_delete),
      (''POST'', ''/admin/face-masks/refresh'', R_refresh_face_masks), (''GET'', ''/config'', R_config),
      (''POST'', ''/upload-video'', R_upload_video), (''GET'', ''/stream/link/'', R_stream_link),
      (''GET'', ''/stream/'', R_stream_master), (''GET'', ''/stream/segment/'', R_stream_segment)]"

definition pattern_matches :: "string \<Rightarrow> string \<Rightarrow> string \<times> string \<times> route \<Rightarrow> bool" where
  "pattern_matches method path p = (case p of (m, pat, _) \<Rightarrow>
     (method = m \<or> method = ''HEAD'' \<and> m = ''GET'') \<and>
     (if last pat = CHR ''/'' then has_prefix path pat else path = pat))"

text \<open>\<open>http.ServeMux\<close> prefers the more specific pattern, here the longer one; \<open>/\<close> takes what is left.\<close>

definition longest_match :: "(string \<times> string \<times> route) list \<Rightarrow> (string \<times> string \<times> route) option" where
  "longest_match ps = foldl (\<lambda>best p. case best of
      None \<Rightarrow> Some p
    | Some b \<Rightarrow> if length (fst (snd p)) > length (fst (snd b)) then Some p else Some b) None ps"

definition match_route :: "string \<Rightarrow> string \<Rightarrow> route" where
  "match_route method path = (case longest_match (filter (pattern_matches method path) patterns) of
      None \<Rightarrow> R_not_found
    | Some (m, pat, r) \<Rightarrow> r)"

text \<open>\<open>cleanPath\<close> of \<open>net/http\<close>.\<close>

definition clean_url_path :: "string \<Rightarrow> string" where
  "clean_url_path p =
     (if p = [] then ''/''
      else
        (let p1 = (if hd p = CHR ''/'' then p else CHR ''/'' # p); np = path_clean p1
         in if last p1 = CHR ''/'' \<and> np \<noteq> ''/'' then np @ ''/'' else np))"

text \<open>
  A path that is not clean is redirected to the clean one, and a subtree named without its slash to the
  subtree, if the method has a handler there.
\<close>

definition subtree_redirect :: "string \<Rightarrow> string \<Rightarrow> bool" where
  "subtree_redirect method path \<longleftrightarrow> match_route method path = R_not_found \<and> last path \<noteq> CHR ''/'' \<and>
     (\<exists>p \<in> set patterns. fst (snd p) = path @ ''/'' \<and> pattern_matches method (path @ ''/'') p)"

definition route_of :: "request \<Rightarrow> route" where
  "route_of r =
     (let path = (if rq_method r = ''CONNECT'' then rq_path r else clean_url_path (rq_path r))
      in if subtree_redirect (rq_method r) path then R_redirect (path @ ''/'')
         else if path \<noteq> rq_path r then R_redirect path
         else match_route (rq_method r) path)"

section \<open>The server\<close>

record ('l, 'w) server_env =
  se_keys :: "string list"
  se_lua :: "(call \<Rightarrow> bool option) option"
  se_origins :: "string list"
  se_headers :: "string list"
  se_limiter :: "'l rate_limiter"
  se_handlers :: "route \<Rightarrow> 'w http_handler"

definition not_found_response :: "headers \<Rightarrow> response" where
  "not_found_response hs = \<lparr>rs_status = 404, rs_headers = hs, rs_body = Body_text (''{'' @ [CHR 0x22] @ ''error'' @ [CHR 0x22] @ '':'' @ [CHR 0x22] @ ''Not found'' @ [CHR 0x22] @ ''}'')\<rparr>"

definition mux :: "('l, 'w) server_env \<Rightarrow> ('l visitors \<times> 'w) http_handler" where
  "mux env hs c w = (case route_of (ca_request c) of
      R_not_found \<Rightarrow> (w, Answered (not_found_response hs))
    | R_redirect path \<Rightarrow> (w, Answered \<lparr>rs_status = 301, rs_headers = gm_put ''Location'' path hs, rs_body = Body_none\<rparr>)
    | r \<Rightarrow> (case se_handlers env r hs c (snd w) of (w1, out) \<Rightarrow> ((fst w, w1), out)))"

definition serve :: "('l, 'w) server_env \<Rightarrow> int \<Rightarrow> call \<Rightarrow> 'l visitors \<times> 'w \<Rightarrow> ('l visitors \<times> 'w) \<times> outcome" where
  "serve env now c w =
     chain (mux env) [cors (se_origins env) (se_headers env), panic_recovery, security_headers, rate_limit (se_limiter env) now,
       auth_middleware (se_keys env) (se_lua env)] [] (c\<lparr>ca_user := []\<rparr>) w"

section \<open>Facts\<close>

lemma static_new_keys: "set (static_new keys) = set (valid_keys keys)"
proof -
  have "set (foldl (\<lambda>m k. if trim_space k \<noteq> [] \<and> trim_space k \<notin> set m then m @ [trim_space k] else m) m keys) =
      set m \<union> set (valid_keys keys)" for m
    by (induction keys arbitrary: m) (auto simp: valid_keys_def)
  then show ?thesis by (simp add: static_new_def)
qed

text \<open>The request as a handler sees it, with its user, if it may see it.\<close>

definition admitted :: "string list \<Rightarrow> (call \<Rightarrow> bool option) option \<Rightarrow> call \<Rightarrow> call option" where
  "admitted keys lua c =
     (if rq_method (ca_request c) = ''GET'' \<and> rq_path (ca_request c) = ''/config'' then Some c
      else
        (let c1 = with_media_cookie c; token = extract_token (ca_request c1)
         in if token \<noteq> [] \<and> token \<in> set (valid_keys keys) then Some (c1\<lparr>ca_user := ''api-key''\<rparr>)
            else if \<exists>script. lua = Some script \<and> script c1 = Some True then Some (c1\<lparr>ca_user := ''lua-auth''\<rparr>)
            else None))"

lemma auth_admitted: "admitted keys lua c = Some c1 \<Longrightarrow> auth_middleware keys lua next hs c w = next hs c1 w"
  by (auto simp: admitted_def auth_middleware_def Let_def split: if_splits)

definition refusal :: "(call \<Rightarrow> bool option) option \<Rightarrow> call \<Rightarrow> headers \<Rightarrow> response" where
  "refusal lua c hs =
     (let c1 = with_media_cookie c
      in if \<exists>script. lua = Some script \<and> script c1 = None then json_error 401 [(''error'', ''Authentication failed'')] hs
         else if extract_token (ca_request c1) \<noteq> [] then json_error 403 [(''error'', ''Authentication failed'')] hs
         else json_error 401 [(''error'', ''Authentication required'')] hs)"

lemma auth_refused: "admitted keys lua c = None \<Longrightarrow> auth_middleware keys lua next hs c w = (w, Answered (refusal lua c hs))"
  by (auto simp: admitted_def auth_middleware_def refusal_def write_auth_error_def Let_def split: if_splits option.splits bool.splits)

text \<open>The static provider and the middleware agree on the requests that name one token, in one header.\<close>

theorem static_provider_agrees:
  assumes "rq_headers (ca_request c) = [(h, v)]" and "h = ''X-Api-Key'' \<or> h = ''Authorization'' \<and> has_prefix v ''Bearer ''"
    and "rq_query (ca_request c) = []" and "ca_cookie c = None" and "rq_path (ca_request c) \<noteq> ''/config''"
  shows "is_ok (static_authorize (static_new keys) (rq_headers (ca_request c))) \<longleftrightarrow> admitted keys None c \<noteq> None"
  using assms by (auto simp: static_authorize_def static_extract_token_def admitted_def with_media_cookie_def extract_token_def
      header_get_def query_get_def static_new_keys has_prefix_def Let_def)

lemma refusal_status: "rs_status (refusal lua c hs) \<in> {401, 403}"
  by (simp add: refusal_def Let_def)

lemma serve_unfold:
  "serve env now c w =
     cors (se_origins env) (se_headers env) (panic_recovery (security_headers (rate_limit (se_limiter env) now
       (auth_middleware (se_keys env) (se_lua env) (mux env))))) [] (c\<lparr>ca_user := []\<rparr>) w"
  by (simp add: serve_def chain_def)

text \<open>The headers a handler starts with.\<close>

definition request_headers :: "('l, 'w) server_env \<Rightarrow> call \<Rightarrow> headers" where
  "request_headers env c =
     gm_put ''X-Xss-Protection'' ''1; mode=block'' (gm_put ''Referrer-Policy'' ''strict-origin-when-cross-origin''
       (gm_put ''X-Frame-Options'' ''DENY'' (gm_put ''X-Content-Type-Options'' ''nosniff''
         (cors_headers (se_origins env) (se_headers env) (header_get (ca_request c) ''Origin'') []))))"

text \<open>The request below CORS: refused by the limiter, refused by authentication, or handled.\<close>

lemma serve_eq:
  assumes "rq_method (ca_request c) \<noteq> ''OPTIONS''" and "allow_request (se_limiter env) now (extract_ip c) (fst w) = (vs, ok)"
  shows "serve env now c w =
      (if \<not> ok then ((vs, snd w), Answered (json_error 429 [(''error'', ''rate limit exceeded'')] (request_headers env c)))
       else (case admitted (se_keys env) (se_lua env) (c\<lparr>ca_user := []\<rparr>) of
          None \<Rightarrow> ((vs, snd w), Answered (refusal (se_lua env) (c\<lparr>ca_user := []\<rparr>) (request_headers env c)))
        | Some c1 \<Rightarrow> panic_recovery (mux env) (request_headers env c) c1 (vs, snd w)))"
proof -
  have ip: "extract_ip (c\<lparr>ca_user := []\<rparr>) = extract_ip c" by (simp add: extract_ip_def Let_def)
  show ?thesis
  proof (cases "admitted (se_keys env) (se_lua env) (c\<lparr>ca_user := []\<rparr>)")
    case None
    with assms show ?thesis
      by (simp add: serve_unfold cors_def panic_recovery_def security_headers_def rate_limit_def ip request_headers_def auth_refused
          Let_def split: bool.splits)
  next
    case (Some c1)
    with assms show ?thesis
      by (simp add: serve_unfold cors_def panic_recovery_def security_headers_def rate_limit_def ip request_headers_def auth_admitted
          Let_def split: bool.splits)
  qed
qed

lemma route_of_options [simp]: "snd (fst (serve env now c w)) = snd w \<and> (\<exists>rs. snd (serve env now c w) = Answered rs \<and> rs_status rs = 204)"
  if "rq_method (ca_request c) = ''OPTIONS''"
  using that by (simp add: serve_unfold cors_def Let_def)

lemma panic_recovery_answers: "\<exists>rs. snd (panic_recovery next hs c w) = Answered rs"
  by (auto simp: panic_recovery_def split: prod.splits outcome.splits)

section \<open>Properties\<close>

text \<open>
  C3: no handler sees an unauthenticated request. Unless the request is \<open>GET /config\<close>, carries a configured
  API key (as a bearer token, in \<open>X-API-Key\<close>, in the query or in the media cookie) or is approved by the
  Lua script, the answer is the same whatever the handlers do, nothing but the visitor table changes, and
  the status is 401, 403, 429 or, to a pre-flight, 204.
\<close>

theorem unauthenticated_isolated:
  assumes "\<not> (rq_method (ca_request c) = ''GET'' \<and> rq_path (ca_request c) = ''/config'')"
    and "extract_token (ca_request (with_media_cookie (c\<lparr>ca_user := []\<rparr>))) \<notin> set (filter (\<lambda>k. k \<noteq> []) (map trim_space (se_keys env)))"
    and "\<And>script. se_lua env = Some script \<Longrightarrow> script (with_media_cookie (c\<lparr>ca_user := []\<rparr>)) \<noteq> Some True"
  shows "serve (env\<lparr>se_handlers := handlers\<rparr>) now c w = serve env now c w \<and> snd (fst (serve env now c w)) = snd w \<and>
    (\<exists>rs. snd (serve env now c w) = Answered rs \<and> rs_status rs \<in> {204, 401, 403, 429})"
proof (cases "rq_method (ca_request c) = ''OPTIONS''")
  case True
  then have "serve (env\<lparr>se_handlers := handlers\<rparr>) now c w = serve env now c w" by (simp add: serve_unfold cors_def Let_def)
  with route_of_options [OF True, of env now w] show ?thesis by auto
next
  case False
  have none: "admitted (se_keys env) (se_lua env) (c\<lparr>ca_user := []\<rparr>) = None"
    using assms by (auto simp: admitted_def valid_keys_def Let_def)
  obtain vs ok where a: "allow_request (se_limiter env) now (extract_ip c) (fst w) = (vs, ok)"
    by (cases "allow_request (se_limiter env) now (extract_ip c) (fst w)")
  then have a': "allow_request (se_limiter (env\<lparr>se_handlers := handlers\<rparr>)) now (extract_ip c) (fst w) = (vs, ok)" by simp
  have "serve (env\<lparr>se_handlers := handlers\<rparr>) now c w = serve env now c w"
    using none by (simp add: serve_eq [OF False a] serve_eq [OF False a'] request_headers_def)
  moreover have "\<exists>rs. serve env now c w = ((vs, snd w), Answered rs) \<and> rs_status rs \<in> {401, 403, 429}"
    using none refusal_status [of "se_lua env" "c\<lparr>ca_user := []\<rparr>" "request_headers env c"] by (auto simp: serve_eq [OF False a])
  ultimately show ?thesis by auto
qed

lemma split_loop_eq:
  "start \<le> i \<Longrightarrow> i \<le> length s \<Longrightarrow> CHR '','' \<notin> set (take (i - start) (drop start s)) \<Longrightarrow>
    split_loop s start i parts = parts @ split_char CHR '','' (drop start s)"
proof (induction s start i parts rule: split_loop.induct)
  case (1 s start i parts)
  show ?case
  proof (cases "i < length s")
    case True
    have d: "drop start s = take (i - start) (drop start s) @ s ! i # drop (i + 1) s"
      using id_take_nth_drop [of "i - start" "drop start s"] True "1.prems"(1) by simp
    show ?thesis
    proof (cases "s ! i = CHR '',''")
      case comma: True
      have "split_char CHR '','' (drop start s) = take (i - start) (drop start s) # split_char CHR '','' (drop (i + 1) s)"
        by (subst d) (simp add: split_char_append "1.prems"(3) comma)
      with 1 True comma show ?thesis by (subst split_loop.simps) simp
    next
      case other: False
      have "take (Suc i - start) (drop start s) = take (i - start) (drop start s) @ [s ! i]"
        using True "1.prems"(1) by (simp add: Suc_diff_le take_Suc_conv_app_nth)
      with 1 True other show ?thesis by (subst split_loop.simps) simp
    qed
  next
    case False
    with "1.prems" have "i = length s" by simp
    with "1.prems" have "CHR '','' \<notin> set (drop start s)" by simp
    with False show ?thesis by (subst split_loop.simps) (simp add: split_char_free)
  qed
qed

text \<open>
  The hand-written \<open>splitByComma\<close> is \<open>strings.Split\<close> at commas.
\<close>

theorem split_by_comma_is_split: "split_by_comma s = split_char CHR '','' s"
  by (simp add: split_by_comma_def split_loop_eq)

lemma file_link_prefix: "has_prefix p ''/file/link/'' \<Longrightarrow> has_prefix p ''/file/''" "has_prefix p ''/stream/link/'' \<Longrightarrow> has_prefix p ''/stream/''"
  "has_prefix p ''/stream/segment/'' \<Longrightarrow> has_prefix p ''/stream/''"
  by (auto simp: has_prefix_iff)

lemma prefix_disjoint: "has_prefix p ''/file/'' \<Longrightarrow> \<not> has_prefix p ''/stream/'' \<and> p \<noteq> ''/config''" "has_prefix p ''/stream/'' \<Longrightarrow> p \<noteq> ''/config''"
  "has_prefix p ''/stream/link/'' \<Longrightarrow> \<not> has_prefix p ''/stream/segment/''"
  by (auto simp: has_prefix_iff)

lemma match_route_GET:
  assumes "m \<in> {''GET'', ''HEAD''}"
  shows "match_route m p =
    (if p = ''/config'' then R_config
     else if has_prefix p ''/file/'' then (if has_prefix p ''/file/link/'' then R_file_link else R_file)
     else if has_prefix p ''/stream/link/'' then R_stream_link
     else if has_prefix p ''/stream/segment/'' then R_stream_segment
     else if has_prefix p ''/stream/'' then R_stream_master
     else R_not_found)"
proof -
  have f: "filter (pattern_matches m p) patterns =
      (if has_prefix p ''/file/link/'' then [(''GET'', ''/file/link/'', R_file_link)] else []) @
      (if has_prefix p ''/file/'' then [(''GET'', ''/file/'', R_file)] else []) @
      (if p = ''/config'' then [(''GET'', ''/config'', R_config)] else []) @
      (if has_prefix p ''/stream/link/'' then [(''GET'', ''/stream/link/'', R_stream_link)] else []) @
      (if has_prefix p ''/stream/'' then [(''GET'', ''/stream/'', R_stream_master)] else []) @
      (if has_prefix p ''/stream/segment/'' then [(''GET'', ''/stream/segment/'', R_stream_segment)] else [])"
    using assms by (auto simp: patterns_def pattern_matches_def)
  show ?thesis
    unfolding match_route_def f longest_match_def
    using file_link_prefix [of p] prefix_disjoint [of p] by simp blast
qed

definition longer_match :: "(string \<times> string \<times> route) option \<Rightarrow> string \<times> string \<times> route \<Rightarrow> (string \<times> string \<times> route) option" where
  "longer_match best p = (case best of None \<Rightarrow> Some p | Some b \<Rightarrow> if length (fst (snd p)) > length (fst (snd b)) then Some p else Some b)"

lemma longest_match_in: "longest_match ps = Some q \<Longrightarrow> q \<in> set ps"
proof -
  have one: "longer_match acc p \<in> {acc, Some p}" for acc p by (simp add: longer_match_def split: option.split)
  have "foldl longer_match acc ps = Some q \<Longrightarrow> acc = Some q \<or> q \<in> set ps" for acc
  proof (induction ps arbitrary: acc)
    case (Cons p ps)
    from Cons.IH [of "longer_match acc p"] Cons.prems one [of acc p] show ?case by auto
  qed simp
  then show "longest_match ps = Some q \<Longrightarrow> q \<in> set ps" by (auto simp: longest_match_def longer_match_def [abs_def])
qed

lemma match_route_delete: "match_route m p = R_delete \<Longrightarrow> m = ''DELETE'' \<and> has_prefix p ''/file/''"
proof -
  assume "match_route m p = R_delete"
  then obtain m' pat where q: "longest_match (filter (pattern_matches m p) patterns) = Some (m', pat, R_delete)"
    by (auto simp: match_route_def split: option.splits)
  from longest_match_in [OF q] have "(m', pat, R_delete) \<in> set patterns" "pattern_matches m p (m', pat, R_delete)" by simp_all
  moreover from this(1) have "m' = ''DELETE'' \<and> pat = ''/file/''" by (simp add: patterns_def)
  ultimately show ?thesis by (simp add: pattern_matches_def)
qed

text \<open>
  C32: each route takes exactly its requests. Reading goes to the file, link and stream handlers by the longest
  prefix; only \<open>DELETE\<close> under \<open>/file/\<close> reaches deletion; the four \<open>POST\<close> routes are exact paths; every
  other method and path ends in the 404 answer.
\<close>

theorem routes_exact:
  "(match_route m p = R_delete \<longleftrightarrow> m = ''DELETE'' \<and> has_prefix p ''/file/'') \<and>
   (match_route m p = R_file_link \<longleftrightarrow> m \<in> {''GET'', ''HEAD''} \<and> has_prefix p ''/file/link/'') \<and>
   (match_route m p = R_file \<longleftrightarrow> m \<in> {''GET'', ''HEAD''} \<and> has_prefix p ''/file/'' \<and> \<not> has_prefix p ''/file/link/'') \<and>
   (match_route m p = R_stream_link \<longleftrightarrow> m \<in> {''GET'', ''HEAD''} \<and> has_prefix p ''/stream/link/'') \<and>
   (match_route m p = R_stream_segment \<longleftrightarrow> m \<in> {''GET'', ''HEAD''} \<and> has_prefix p ''/stream/segment/'') \<and>
   (match_route m p = R_stream_master \<longleftrightarrow> m \<in> {''GET'', ''HEAD''} \<and> has_prefix p ''/stream/'' \<and>
      \<not> has_prefix p ''/stream/link/'' \<and> \<not> has_prefix p ''/stream/segment/'') \<and>
   (match_route m p = R_config \<longleftrightarrow> m \<in> {''GET'', ''HEAD''} \<and> p = ''/config'') \<and>
   (match_route m p = R_upload \<longleftrightarrow> m = ''POST'' \<and> p = ''/upload'') \<and>
   (match_route m p = R_upload_multiple \<longleftrightarrow> m = ''POST'' \<and> p = ''/upload-multiple'') \<and>
   (match_route m p = R_upload_video \<longleftrightarrow> m = ''POST'' \<and> p = ''/upload-video'') \<and>
   (match_route m p = R_refresh_face_masks \<longleftrightarrow> m = ''POST'' \<and> p = ''/admin/face-masks/refresh'') \<and>
   (m \<notin> {''GET'', ''HEAD'', ''POST'', ''DELETE''} \<longrightarrow> match_route m p = R_not_found)"
proof (cases "m \<in> {''GET'', ''HEAD''}")
  case True
  then show ?thesis
    using file_link_prefix [of p] prefix_disjoint [of p] unfolding match_route_GET [OF True] by (auto split: if_splits)
next
  case False
  have d: "filter (pattern_matches m p) patterns =
      (if m = ''POST'' then (if p = ''/upload'' then [(''POST'', ''/upload'', R_upload)] else if p = ''/upload-multiple'' then
          [(''POST'', ''/upload-multiple'', R_upload_multiple)] else if p = ''/admin/face-masks/refresh'' then
          [(''POST'', ''/admin/face-masks/refresh'', R_refresh_face_masks)] else if p = ''/upload-video'' then
          [(''POST'', ''/upload-video'', R_upload_video)] else [])
       else if m = ''DELETE'' \<and> has_prefix p ''/file/'' then [(''DELETE'', ''/file/'', R_delete)] else [])"
    using False by (auto simp: patterns_def pattern_matches_def)
  show ?thesis using False unfolding match_route_def d longest_match_def by auto
qed

section \<open>One limiter per address\<close>

text \<open>The table run on a sequence of requests (time and address), and one limiter on a sequence of times.\<close>

fun run_table :: "'l rate_limiter \<Rightarrow> (int \<times> string) list \<Rightarrow> 'l visitors \<Rightarrow> (string \<times> bool) list" where
  "run_table rl [] vs = []"
| "run_table rl ((now, ip) # reqs) vs = (case allow_request rl now ip vs of (vs1, ok) \<Rightarrow> (ip, ok) # run_table rl reqs vs1)"

fun run_limiter :: "'l rate_limiter \<Rightarrow> int list \<Rightarrow> 'l \<Rightarrow> bool list" where
  "run_limiter rl [] l = []"
| "run_limiter rl (now # ts) l = (case rl_allow rl now l of (l1, ok) \<Rightarrow> ok # run_limiter rl ts l1)"

definition limiter_of :: "'l rate_limiter \<Rightarrow> 'l visitors \<Rightarrow> string \<Rightarrow> 'l" where
  "limiter_of rl vs ip = (case map_of vs ip of None \<Rightarrow> rl_new rl | Some v \<Rightarrow> vi_limiter v)"

lemma limiter_of_allow:
  assumes "allow_request rl now ip vs = (vs1, ok)"
  shows "rl_allow rl now (limiter_of rl vs ip) = (limiter_of rl vs1 ip, ok)" "ip' \<noteq> ip \<Longrightarrow> limiter_of rl vs1 ip' = limiter_of rl vs ip'"
  using assms by (auto simp: allow_request_def get_limiter_def limiter_of_def gomap_simps Let_def split: option.splits prod.splits)


text \<open>A visitor seen within three minutes survives the clean-up.\<close>

lemma cleanup_keeps_recent:
  "wf_gomap vs \<Longrightarrow> map_of vs ip = Some v \<Longrightarrow> now - vi_last_seen v \<le> visitor_ttl \<Longrightarrow> limiter_of rl (cleanup_visitors now vs) ip = limiter_of rl vs ip"
proof (induction vs)
  case (Cons x vs)
  then show ?case by (cases x) (auto simp: cleanup_visitors_def limiter_of_def wf_gomap_def split: if_splits)
qed simp

section \<open>CORS\<close>

text \<open>
  No foreign origin is allowed. The origin a reply allows is the single configured one, \<open>*\<close> if that is
  configured, or, among several, the request's own origin when it is in the list up to case; a request from
  an origin outside the list gets no \<open>Access-Control-Allow-Origin\<close> at all.
\<close>

theorem cors_origin_listed:
  "(case map_of (cors_headers origins allowed_headers origin []) ''Access-Control-Allow-Origin'' of
      None \<Rightarrow> origins = [] \<or> origins = [[]] \<or> (\<forall>a \<in> set origins. a \<noteq> ''*'' \<and> (origin = [] \<or> \<not> equal_fold a origin))
    | Some o1 \<Rightarrow> o1 \<noteq> [] \<and> (origins = [o1] \<or> o1 = ''*'' \<and> ''*'' \<in> set origins \<or>
        length origins > 1 \<and> o1 = origin \<and> (\<exists>a \<in> set origins. equal_fold a origin)))"
proof (cases "length origins = 1")
  case True
  then obtain a where "origins = [a]" by (cases origins) auto
  then show ?thesis by (simp add: cors_headers_def allowed_origin_def gomap_simps Let_def)
next
  case False
  then have "origins = [] \<or> length origins > 1" by (cases origins) auto
  then show ?thesis using False by (auto simp: cors_headers_def allowed_origin_def gomap_simps Let_def)
qed

section \<open>Witnesses\<close>

definition bucket :: "nat rate_limiter" where
  "bucket = \<lparr>rl_new = 1, rl_allow = (\<lambda>now n. (n - 1, 0 < n))\<rparr>"

definition example_env :: "(nat, nat) server_env" where
  "example_env = \<lparr>se_keys = [''secret''], se_lua = None, se_origins = [], se_headers = [], se_limiter = bucket,
     se_handlers = (\<lambda>r hs c n. (Suc n, Panicked hs))\<rparr>"

definition stranger :: call where
  "stranger = \<lparr>ca_request = \<lparr>rq_method = ''DELETE'', rq_path = ''/file/x'', rq_query = [], rq_headers = []\<rparr>, ca_remote_addr = ''1.2.3.4:5'',
     ca_cookie = Some ''wrong'', ca_user = []\<rparr>"

theorem unauthenticated_isolated_witness: "snd (fst (serve example_env 0 stranger ([], 7))) = 7"
proof -
  have t: "extract_token (ca_request (with_media_cookie (stranger\<lparr>ca_user := []\<rparr>))) = ''wrong''"
    by (simp add: stranger_def with_media_cookie_def extract_token_def header_get_def gomap_simps has_prefix_def trim_prefix_def
        trim_space_plain_all plain_char_def ascii_space_def Let_def)
  have "trim_space ''secret'' = ''secret''" by (simp add: trim_space_plain_all plain_char_def ascii_space_def)
  then have "extract_token (ca_request (with_media_cookie (stranger\<lparr>ca_user := []\<rparr>))) \<notin>
      set (filter (\<lambda>k. k \<noteq> []) (map trim_space (se_keys example_env)))" by (simp add: t example_env_def)
  from unauthenticated_isolated [OF _ this, of "se_handlers example_env" 0 "([], 7)"] show ?thesis
    by (simp add: stranger_def example_env_def)
qed

theorem cors_origin_listed_witness:
  "map_of (cors_headers [''http://a'', ''http://b''] [] ''http://B'' []) ''Access-Control-Allow-Origin'' = Some ''http://B'' \<and>
   map_of (cors_headers [''http://a'', ''http://b''] [] ''http://c'' []) ''Access-Control-Allow-Origin'' = None"
proof -
  have f: "equal_fold ''http://b'' ''http://B''" "\<not> equal_fold ''http://a'' ''http://c''" "\<not> equal_fold ''http://b'' ''http://c''"
    by code_simp+
  have "map_of (cors_headers [''http://a'', ''http://b''] [] ''http://B'' []) ''Access-Control-Allow-Origin'' \<noteq> None"
    using cors_origin_listed [where origins = "[''http://a'', ''http://b'']" and allowed_headers = "[]" and origin = "''http://B''"] f(1) by (auto split: option.splits)
  moreover have "map_of (cors_headers [''http://a'', ''http://b''] [] ''http://c'' []) ''Access-Control-Allow-Origin'' = None"
    using cors_origin_listed [where origins = "[''http://a'', ''http://b'']" and allowed_headers = "[]" and origin = "''http://c''"] f(2,3) by (auto split: option.splits)
  ultimately show ?thesis
    using cors_origin_listed [where origins = "[''http://a'', ''http://b'']" and allowed_headers = "[]" and origin = "''http://B''"] by (auto split: option.splits)
qed

theorem routes_exact_witness: "match_route ''PUT'' ''/upload'' = R_not_found"
  using routes_exact [of "''PUT''" "''/upload''"] by simp

end
