(* ===== verification/Lua_Auth.thy ===== *)
theory Lua_Auth
  imports Access_Control
begin

text \<open>
  \<open>internal/auth/lua\<close>: the sandbox a Lua script judges a request in. The Lua machine is \<open>gopher-lua\<close>; of it
  the model keeps the values that cross the border, with a table as the list of its entries in the order
  \<open>ForEach\<close> visits them (a table holds no nil), and the outcome of running the script as a parameter.
  Tables are trees, so a table that contains itself is not modelled. Numbers are floats, DNS and the HTTP
  client are parameters.
\<close>

section \<open>Values\<close>

datatype 'f lua_value =
    L_nil
  | L_bool bool
  | L_number 'f
  | L_string string
  | L_table "('f lua_value \<times> 'f lua_value) list"
  | L_other string

datatype 'f go_value =
    G_nil
  | G_bool bool
  | G_number 'f
  | G_string string
  | G_slice "'f go_value list"
  | G_map "(string \<times> 'f go_value) list"

text \<open>A whole number \<open>n >= 1\<close>, as the loop over the keys recognises it.\<close>

definition array_index :: "'f floats \<Rightarrow> 'f lua_value \<Rightarrow> int option" where
  "array_index fl k = (case k of
      L_number n \<Rightarrow>
        if fl_leq fl n (fl_of_int fl (fl_to_int fl n)) \<and> fl_leq fl (fl_of_int fl (fl_to_int fl n)) n \<and> fl_to_int fl n \<ge> 1
        then Some (fl_to_int fl n) else None
    | _ \<Rightarrow> None)"

text \<open>\<open>lua.LVAsString\<close>; \<open>num_text\<close> prints a number.\<close>

definition lv_as_string :: "('f \<Rightarrow> string) \<Rightarrow> 'f lua_value \<Rightarrow> string" where
  "lv_as_string num_text v = (case v of L_string s \<Rightarrow> s | L_number n \<Rightarrow> num_text n | _ \<Rightarrow> [])"

text \<open>\<open>tableToGo\<close> once the values of the entries have been converted.\<close>

definition table_to_go :: "'f floats \<Rightarrow> ('f \<Rightarrow> string) \<Rightarrow> ('f lua_value \<times> 'f go_value) list \<Rightarrow> 'f go_value" where
  "table_to_go fl num_text entries =
     (let is_array = list_all (\<lambda>e. array_index fl (fst e) \<noteq> None) entries;
          max_idx = foldl (\<lambda>m e. case array_index fl (fst e) of None \<Rightarrow> m | Some n \<Rightarrow> if n > m then n else m) 0 entries
      in if is_array \<and> max_idx > 0
         then G_slice (foldl (\<lambda>xs e. xs[nat (the (array_index fl (fst e)) - 1) := snd e]) (replicate (nat max_idx) G_nil) entries)
         else G_map (foldl (\<lambda>m e. gm_put (lv_as_string num_text (fst e)) (snd e) m) [] entries))"

fun lua_to_go :: "'f floats \<Rightarrow> ('f \<Rightarrow> string) \<Rightarrow> 'f lua_value \<Rightarrow> 'f go_value" where
  "lua_to_go fl num_text L_nil = G_nil"
| "lua_to_go fl num_text (L_bool b) = G_bool b"
| "lua_to_go fl num_text (L_number n) = G_number n"
| "lua_to_go fl num_text (L_string s) = G_string s"
| "lua_to_go fl num_text (L_table entries) = table_to_go fl num_text (map (\<lambda>(k, v). (k, lua_to_go fl num_text v)) entries)"
| "lua_to_go fl num_text (L_other t) = G_nil"

text \<open>Setting a field to nil leaves the table without it.\<close>

definition lua_entry :: "'f lua_value \<Rightarrow> 'f lua_value \<Rightarrow> ('f lua_value \<times> 'f lua_value) list" where
  "lua_entry k v = (if v = L_nil then [] else [(k, v)])"

fun go_to_lua :: "'f floats \<Rightarrow> 'f go_value \<Rightarrow> 'f lua_value" where
  "go_to_lua fl G_nil = L_nil"
| "go_to_lua fl (G_bool b) = L_bool b"
| "go_to_lua fl (G_number n) = L_number n"
| "go_to_lua fl (G_string s) = L_string s"
| "go_to_lua fl (G_slice xs) = L_table (concat (map (\<lambda>(i, v). lua_entry (L_number (fl_of_int fl (int i + 1))) v)
     (zip [0..<length xs] (map (go_to_lua fl) xs))))"
| "go_to_lua fl (G_map m) = L_table (concat (map (\<lambda>(k, v). lua_entry (L_string k) v) (map (\<lambda>(k, v). (k, go_to_lua fl v)) m)))"

section \<open>Environment\<close>

definition env_get :: "(string, string) gomap \<Rightarrow> (string \<Rightarrow> string) \<Rightarrow> string \<Rightarrow> 'f lua_value" where
  "env_get whitelist getenv key = (case map_of whitelist key of
      None \<Rightarrow> L_nil
    | Some val \<Rightarrow> if val \<noteq> [] then L_string val else if getenv key \<noteq> [] then L_string (getenv key) else L_nil)"

text \<open>The whitelist \<open>main\<close> builds from \<open>AUTH_LUA_ENV_WHITELIST\<close>.\<close>

definition env_whitelist :: "(string \<Rightarrow> string) \<Rightarrow> string \<Rightarrow> (string, string) gomap" where
  "env_whitelist getenv names =
     foldl (\<lambda>m key. let k = trim_space key in if k \<noteq> [] then gm_put k (getenv k) m else m) [] (split_char CHR '','' names)"

section \<open>Addresses\<close>

type_synonym ip = bytes

definition to4 :: "ip \<Rightarrow> ip option" where
  "to4 ip = (if length ip = 4 then Some ip
     else if length ip = 16 \<and> take 10 ip = replicate 10 0 \<and> ip ! 10 = 0xFF \<and> ip ! 11 = 0xFF then Some (drop 12 ip)
     else None)"

definition ip_number :: "ip \<Rightarrow> nat" where
  "ip_number ip = foldl (\<lambda>n b. n * 256 + unat b) 0 ip"

text \<open>\<open>IPNet.Contains\<close> for the network of a CIDR: the first \<open>bits\<close> bits agree.\<close>

definition net_contains :: "ip \<times> nat \<Rightarrow> ip \<Rightarrow> bool" where
  "net_contains net ip =
     (let (nn, bits) = net; x = (case to4 ip of Some y \<Rightarrow> y | None \<Rightarrow> ip)
      in length x = length nn \<and>
         ip_number x div 2 ^ (8 * length nn - bits) = ip_number nn div 2 ^ (8 * length nn - bits))"

definition private_ranges :: "(ip \<times> nat) list" where
  "private_ranges =
     [([10, 0, 0, 0], 8), ([172, 16, 0, 0], 12), ([192, 168, 0, 0], 16), ([127, 0, 0, 0], 8), ([169, 254, 0, 0], 16),
      (replicate 15 0 @ [1], 128), (0xFC # replicate 15 0, 7), ([0xFE, 0x80] @ replicate 14 0, 10)]"

definition is_private_ip :: "ip \<Rightarrow> bool" where
  "is_private_ip ip \<longleftrightarrow> list_ex (\<lambda>net. net_contains net ip) private_ranges"

text \<open>\<open>Host\<close> and \<open>Hostname\<close> of \<open>url.Parse\<close>: the authority without user and port, unescaped.\<close>

definition parsed_host :: "string \<Rightarrow> string option" where
  "parsed_host authority =
     (let host = (case last_index_char authority CHR ''@'' of None \<Rightarrow> authority | Some i \<Rightarrow> drop (Suc i) authority)
      in if has_prefix host ''['' then
           (case last_index_char host CHR '']'' of
              None \<Rightarrow> None
            | Some i \<Rightarrow> (case str_index (take i host) ''%25'' of
                  None \<Rightarrow> unescape Mode_host host
                | Some z \<Rightarrow> (case (unescape Mode_host (take z host), unescape Mode_zone (drop z (take i host)), unescape Mode_host (drop i host)) of
                      (Some a, Some b, Some c) \<Rightarrow> Some (a @ b @ c)
                    | _ \<Rightarrow> None)))
         else unescape Mode_host host)"

definition url_authority :: "string \<Rightarrow> string" where
  "url_authority raw =
     (let u = before_char raw CHR ''#''
      in case get_scheme u [] u of
           None \<Rightarrow> []
         | Some (scheme, rest0) \<Rightarrow>
             (let rest = drop_query rest0
              in if u \<noteq> ''*'' \<and> (scheme \<noteq> [] \<or> \<not> has_prefix rest ''///'') \<and> has_prefix rest ''//''
                 then before_char (drop 2 rest) CHR ''/'' else []))"

definition strip_port :: "string \<Rightarrow> string" where
  "strip_port host_port =
     (let host = (case last_index_char host_port CHR '':'' of
                    None \<Rightarrow> host_port
                  | Some i \<Rightarrow> if valid_optional_port (drop i host_port) then take i host_port else host_port)
      in if has_prefix host ''['' \<and> has_suffix host '']'' then butlast (tl host) else host)"

definition url_hostname :: "string \<Rightarrow> string option" where
  "url_hostname raw = (case url_parse_path raw of
      None \<Rightarrow> None
    | Some p \<Rightarrow> map_option strip_port (parsed_host (url_authority raw)))"

section \<open>Requests a script may make\<close>

datatype url_refusal = Invalid_url | Empty_host | Metadata_blocked | Dns_failed | Private_blocked ip

definition metadata_host :: string where "metadata_host = ''169.254.169.254''"

definition is_trusted_auth_host :: "(string, string) gomap option \<Rightarrow> string \<Rightarrow> bool" where
  "is_trusted_auth_host whitelist host = (case whitelist of
      None \<Rightarrow> False
    | Some env \<Rightarrow> (case map_of env ''AUTH_SERVICE_URL'' of
          None \<Rightarrow> False
        | Some auth_url \<Rightarrow> auth_url \<noteq> [] \<and> url_hostname auth_url = Some host))"

definition validate_url ::
    "(string, string) gomap option \<Rightarrow> (string \<Rightarrow> ip list option) \<Rightarrow> string \<Rightarrow> url_refusal option" where
  "validate_url whitelist lookup raw = (case url_hostname raw of
      None \<Rightarrow> Some Invalid_url
    | Some host \<Rightarrow>
        if host = [] then Some Empty_host
        else if host = metadata_host then Some Metadata_blocked
        else if is_trusted_auth_host whitelist host then None
        else (case lookup host of
            None \<Rightarrow> Some Dns_failed
          | Some ips \<Rightarrow> map_option Private_blocked (find is_private_ip ips)))"

record out_request =
  or_method :: string
  or_url :: string
  or_headers :: "(string, string) gomap"
  or_body :: string

text \<open>
  \<open>doRequest\<close> up to the call of the client; a header is set under its canonical name, which \<open>canonical\<close> gives.
\<close>

definition build_request ::
    "(string \<Rightarrow> string) \<Rightarrow> ('f \<Rightarrow> string) \<Rightarrow> string \<Rightarrow> string \<Rightarrow> ('f lua_value \<times> 'f lua_value) list \<Rightarrow> out_request" where
  "build_request canonical num_text method raw opts =
     (let hs = (case map_of opts (L_string ''headers'') of
                  Some (L_table entries) \<Rightarrow>
                    foldl (\<lambda>m e. gm_put (canonical (lv_as_string num_text (fst e))) (lv_as_string num_text (snd e)) m) [] entries
                | _ \<Rightarrow> []);
          body = (case map_of opts (L_string ''body'') of None \<Rightarrow> [] | Some v \<Rightarrow> lv_as_string num_text v)
      in \<lparr>or_method = method, or_url = raw, or_headers = hs, or_body = (if body \<noteq> [] \<and> body \<noteq> ''nil'' then body else [])\<rparr>)"

record http_reply =
  hr_status :: int
  hr_body :: string
  hr_headers :: "(string, string list) gomap"

text \<open>\<open>respToTable\<close>: of a repeated header the last value stays.\<close>

definition header_table :: "(string, string list) gomap \<Rightarrow> ('f lua_value \<times> 'f lua_value) list" where
  "header_table hs = map (\<lambda>(k, vs). (L_string k, L_string (last vs))) (filter (\<lambda>(k, vs). vs \<noteq> []) hs)"

definition resp_to_table :: "'f floats \<Rightarrow> http_reply \<Rightarrow> 'f lua_value" where
  "resp_to_table fl r = L_table
     [(L_string ''status'', L_number (fl_of_int fl (hr_status r))), (L_string ''body'', L_string (hr_body r)),
      (L_string ''headers'', L_table (header_table (hr_headers r)))]"

text \<open>One of \<open>request.get/post/put/del\<close>: \<open>Inl\<close> is the raised error, which ends the script.\<close>

definition lua_request ::
    "(string, string) gomap option \<Rightarrow> (string \<Rightarrow> ip list option) \<Rightarrow> (out_request \<Rightarrow> string + http_reply) \<Rightarrow> 'f floats \<Rightarrow> (string \<Rightarrow> string)
       \<Rightarrow> ('f \<Rightarrow> string) \<Rightarrow> string \<Rightarrow> string \<Rightarrow> ('f lua_value \<times> 'f lua_value) list \<Rightarrow> url_refusal + 'f lua_value list" where
  "lua_request whitelist lookup client fl canonical num_text method raw opts = (case validate_url whitelist lookup raw of
      Some e \<Rightarrow> Inl e
    | None \<Rightarrow> (case client (build_request canonical num_text method raw opts) of
          Inl err \<Rightarrow> Inr [L_nil, L_string err]
        | Inr reply \<Rightarrow> Inr [resp_to_table fl reply]))"

text \<open>The functions of the \<open>request\<close> table, with the methods they send.\<close>

definition request_methods :: "(string \<times> string) list" where
  "request_methods = [(''get'', ''GET''), (''post'', ''POST''), (''put'', ''PUT''), (''del'', ''DELETE'')]"

definition request_lib ::
    "(string, string) gomap option \<Rightarrow> (string \<Rightarrow> ip list option) \<Rightarrow> (out_request \<Rightarrow> string + http_reply) \<Rightarrow> 'f floats \<Rightarrow> (string \<Rightarrow> string)
       \<Rightarrow> ('f \<Rightarrow> string) \<Rightarrow> string \<Rightarrow> string \<Rightarrow> ('f lua_value \<times> 'f lua_value) list option \<Rightarrow> (url_refusal + 'f lua_value list) option" where
  "request_lib whitelist lookup client fl canonical num_text name raw opts =
     map_option (\<lambda>method. lua_request whitelist lookup client fl canonical num_text method raw (case opts of None \<Rightarrow> [] | Some t \<Rightarrow> t))
       (map_of request_methods name)"

text \<open>\<open>json.encode\<close> and \<open>json.decode\<close>: what they push; \<open>encoding/json\<close> fails with a text or gives the result.\<close>

definition json_encode ::
    "'f floats \<Rightarrow> ('f \<Rightarrow> string) \<Rightarrow> ('f go_value \<Rightarrow> string + string) \<Rightarrow> ('f lua_value \<times> 'f lua_value) list \<Rightarrow> 'f lua_value list" where
  "json_encode fl num_text marshal entries = (case marshal (lua_to_go fl num_text (L_table entries)) of
      Inl err \<Rightarrow> [L_nil, L_string err]
    | Inr s \<Rightarrow> [L_string s])"

definition json_decode :: "'f floats \<Rightarrow> (string \<Rightarrow> string + 'f go_value) \<Rightarrow> string \<Rightarrow> 'f lua_value list" where
  "json_decode fl unmarshal s = (case unmarshal s of
      Inl err \<Rightarrow> [L_nil, L_string err]
    | Inr v \<Rightarrow> [go_to_lua fl v])"

text \<open>\<open>luaStringReader.Read\<close> into a buffer of \<open>n\<close> bytes: the bytes read and the new position, \<open>None\<close> at the end.\<close>

definition string_reader_read :: "bytes \<Rightarrow> nat \<Rightarrow> nat \<Rightarrow> (bytes \<times> nat) option" where
  "string_reader_read data pos n =
     (if pos \<ge> length data then None
      else (let chunk = take n (drop pos data) in Some (chunk, pos + length chunk)))"

section \<open>The verdict\<close>

record lua_call =
  lq_method :: string
  lq_path :: string
  lq_headers :: "(string, string list) gomap"
  lq_query :: query
  lq_remote_addr :: string

definition build_req_table :: "lua_call \<Rightarrow> 'f lua_value" where
  "build_req_table r = L_table
     [(L_string ''method'', L_string (lq_method r)), (L_string ''path'', L_string (lq_path r)),
      (L_string ''headers'', L_table (header_table (lq_headers r))), (L_string ''query'', L_table (header_table (lq_query r))),
      (L_string ''remote_addr'', L_string (lq_remote_addr r))]"

text \<open>What running a script on a request ends in.\<close>

datatype 'f script_outcome = Script_failed | No_authorize | Call_failed | Returned "'f lua_value"

record 'f lua_provider =
  lp_script :: string
  lp_timeout_ms :: int
  lp_env_whitelist :: "(string, string) gomap option"
  lp_compiled :: bool

definition new_provider :: "(string \<Rightarrow> bool) \<Rightarrow> string \<Rightarrow> int \<Rightarrow> (string, string) gomap option \<Rightarrow> 'f lua_provider" where
  "new_provider compiles script timeout_ms whitelist =
     \<lparr>lp_script = script, lp_timeout_ms = (if timeout_ms \<le> 0 then 3000 else timeout_ms), lp_env_whitelist = whitelist,
      lp_compiled = (script = [] \<or> compiles script)\<rparr>"

definition provider_enabled :: "'f lua_provider \<Rightarrow> bool" where
  "provider_enabled p \<longleftrightarrow> lp_script p \<noteq> []"

datatype lua_error = Lua_script_error | Lua_no_authorize | Lua_authorize_error | Lua_not_boolean

definition lua_authorize :: "('f lua_provider \<Rightarrow> 'f lua_value \<Rightarrow> 'f script_outcome) \<Rightarrow> 'f lua_provider \<Rightarrow> lua_call \<Rightarrow> lua_error + bool" where
  "lua_authorize run p r =
     (if \<not> provider_enabled p then Inr False
      else if \<not> lp_compiled p then Inl Lua_script_error
      else (case run p (build_req_table r) of
          Script_failed \<Rightarrow> Inl Lua_script_error
        | No_authorize \<Rightarrow> Inl Lua_no_authorize
        | Call_failed \<Rightarrow> Inl Lua_authorize_error
        | Returned (L_bool b) \<Rightarrow> Inr b
        | Returned _ \<Rightarrow> Inl Lua_not_boolean))"

text \<open>How \<open>main\<close> comes to its provider: an unreadable script ends the process.\<close>

definition load_lua_provider ::
    "(string \<Rightarrow> bool) \<Rightarrow> (string \<Rightarrow> string option) \<Rightarrow> (string \<Rightarrow> string) \<Rightarrow> auth_config \<Rightarrow> 'f lua_provider option option" where
  "load_lua_provider compiles read_script getenv cfg =
     (if au_lua_script cfg \<noteq> [] then
        (case read_script (au_lua_script cfg) of
           None \<Rightarrow> None
         | Some script \<Rightarrow>
             Some (Some (new_provider compiles script (au_lua_timeout_ms cfg) (Some (env_whitelist getenv (au_lua_env_whitelist cfg))))))
      else Some None)"

text \<open>The verdict as the middleware of \<open>Access_Control\<close> takes it.\<close>

definition lua_verdict ::
    "('f lua_provider \<Rightarrow> 'f lua_value \<Rightarrow> 'f script_outcome) \<Rightarrow> 'f lua_provider option \<Rightarrow> (call \<Rightarrow> lua_call) \<Rightarrow> (call \<Rightarrow> bool option) option" where
  "lua_verdict run provider view = (case provider of
      None \<Rightarrow> None
    | Some p \<Rightarrow> if provider_enabled p
        then Some (\<lambda>c. case lua_authorize run p (view c) of Inl e \<Rightarrow> None | Inr b \<Rightarrow> Some b) else None)"

section \<open>Facts\<close>

text \<open>Numbers up to \<open>n\<close> survive as floats: true of float64 up to \<open>2 ^ 53\<close>.\<close>

definition whole_floats :: "'f floats \<Rightarrow> nat \<Rightarrow> bool" where
  "whole_floats fl n \<longleftrightarrow> (\<forall>i. 1 \<le> i \<and> i \<le> int n \<longrightarrow> fl_to_int fl (fl_of_int fl i) = i \<and> fl_leq fl (fl_of_int fl i) (fl_of_int fl i))"

text \<open>Values without nil in a container and without empty or over-long slices.\<close>

fun go_plain :: "nat \<Rightarrow> 'f go_value \<Rightarrow> bool" where
  "go_plain n (G_slice xs) \<longleftrightarrow> xs \<noteq> [] \<and> length xs \<le> n \<and> list_all (\<lambda>x. x \<noteq> G_nil \<and> go_plain n x) xs"
| "go_plain n (G_map m) \<longleftrightarrow> distinct (map fst m) \<and> list_all (\<lambda>(k, x). x \<noteq> G_nil \<and> go_plain n x) m"
| "go_plain n x \<longleftrightarrow> True"

lemma go_to_lua_nil [simp]: "go_to_lua fl x = L_nil \<longleftrightarrow> x = G_nil"
  by (cases x) simp_all

lemma foldl_update_upt:
  "n \<le> length ys \<Longrightarrow> foldl (\<lambda>ys i. ys[i := f i]) ys [0..<n] = map f [0..<n] @ drop n ys"
proof (induction n)
  case (Suc n)
  then have "foldl (\<lambda>ys i. ys[i := f i]) ys [0..<Suc n] = (map f [0..<n] @ drop n ys)[n := f n]" by simp
  also have "\<dots> = map f [0..<n] @ (drop n ys)[0 := f n]" by (simp add: list_update_append)
  also have "(drop n ys)[0 := f n] = f n # drop (Suc n) ys" using Suc.prems by (cases "drop n ys") (auto simp: drop_Suc tl_drop [symmetric])
  finally show ?case by simp
qed simp

lemma foldl_max_upt:
  "foldl (\<lambda>m e. case array_index fl (fst e) of None \<Rightarrow> m | Some n \<Rightarrow> if n > m then n else m) 0
     (map (\<lambda>i. (L_number (fl_of_int fl (int i + 1)), f i)) [0..<n]) = int n" if "whole_floats fl n"
  using that
proof (induction n)
  case (Suc n)
  then have "whole_floats fl n" by (simp add: whole_floats_def)
  moreover from Suc.prems have "array_index fl (L_number (fl_of_int fl (int n + 1))) = Some (int n + 1)"
    by (simp add: whole_floats_def array_index_def)
  ultimately show ?case using Suc.IH by simp
qed simp

lemma table_to_go_slice:
  assumes "whole_floats fl (length xs)" "xs \<noteq> []"
  shows "table_to_go fl num_text (map (\<lambda>i. (L_number (fl_of_int fl (int i + 1)), xs ! i)) [0..<length xs]) = G_slice xs"
proof -
  have idx: "array_index fl (L_number (fl_of_int fl (int i + 1))) = Some (int i + 1)" if "i < length xs" for i
    using assms(1) that by (simp add: whole_floats_def array_index_def)
  have "foldl (\<lambda>ys e. ys[nat (the (array_index fl (fst e)) - 1) := snd e]) ys (map (\<lambda>i. (L_number (fl_of_int fl (int i + 1)), xs ! i)) is)
      = foldl (\<lambda>ys i. ys[i := xs ! i]) ys is" if "set is \<subseteq> {0..<length xs}" for ys "is"
    using that idx by (induction "is" arbitrary: ys) auto
  from this [of "[0..<length xs]"] have "foldl (\<lambda>ys e. ys[nat (the (array_index fl (fst e)) - 1) := snd e]) (replicate (length xs) G_nil)
      (map (\<lambda>i. (L_number (fl_of_int fl (int i + 1)), xs ! i)) [0..<length xs]) = xs"
    using foldl_update_upt [of "length xs" "replicate (length xs) G_nil" "\<lambda>i. xs ! i"] by (simp add: map_nth)
  moreover have "list_all (\<lambda>e. array_index fl (fst e) \<noteq> None) (map (\<lambda>i. (L_number (fl_of_int fl (int i + 1)), xs ! i)) [0..<length xs])"
    using idx by (simp add: list_all_iff)
  ultimately show ?thesis using foldl_max_upt [OF assms(1), of "\<lambda>i. xs ! i"] assms(2) by (simp add: table_to_go_def Let_def)
qed

lemma table_to_go_map:
  assumes "distinct (map fst m)"
  shows "table_to_go fl num_text (map (\<lambda>(k, v). (L_string k, v)) m) = G_map m"
proof -
  have "foldl (\<lambda>m e. gm_put (lv_as_string num_text (fst e)) (snd e) m) m0 (map (\<lambda>(k, v). (L_string k, v)) m) = m0 @ m"
    if "distinct (map fst (m0 @ m))" for m0
    using that
  proof (induction m arbitrary: m0)
    case (Cons e m)
    obtain k v where e: "e = (k, v)" by (cases e)
    with Cons.prems have "gm_put k v m0 = m0 @ [(k, v)]" by (intro gm_put_absent) auto
    with Cons.IH [of "m0 @ [(k, v)]"] Cons.prems e show ?case by (simp add: lv_as_string_def)
  qed simp
  from this [of "[]"] assms have "foldl (\<lambda>m e. gm_put (lv_as_string num_text (fst e)) (snd e) m) [] (map (\<lambda>(k, v). (L_string k, v)) m) = m" by simp
  moreover have "\<not> list_all (\<lambda>e. array_index fl (fst e) \<noteq> None) (map (\<lambda>(k, v). (L_string k, v)) m)" if "m \<noteq> []"
    using that by (cases m) (auto simp: array_index_def)
  ultimately show ?thesis by (cases "m = []") (auto simp: table_to_go_def Let_def)
qed

lemma go_lua_go: "whole_floats fl n \<Longrightarrow> go_plain n v \<Longrightarrow> lua_to_go fl num_text (go_to_lua fl v) = v"
proof (induction v)
  case (G_slice xs)
  have IH: "lua_to_go fl num_text (go_to_lua fl x) = x" "x \<noteq> G_nil" if "x \<in> set xs" for x
    using G_slice that by (auto simp: list_all_iff)
  have "concat (map (\<lambda>(i, v). lua_entry (L_number (fl_of_int fl (int i + 1))) v) (zip [0..<length xs] (map (go_to_lua fl) xs))) =
      map (\<lambda>i. (L_number (fl_of_int fl (int i + 1)), go_to_lua fl (xs ! i))) [0..<length xs]"
  proof -
    have z: "zip [0..<length xs] (map (go_to_lua fl) xs) = map (\<lambda>i. (i, go_to_lua fl (xs ! i))) [0..<length xs]"
      by (rule nth_equalityI) simp_all
    have "concat (map (\<lambda>i. lua_entry (L_number (fl_of_int fl (int i + 1))) (go_to_lua fl (xs ! i))) is) =
        map (\<lambda>i. (L_number (fl_of_int fl (int i + 1)), go_to_lua fl (xs ! i))) is" if "set is \<subseteq> {0..<length xs}" for "is"
      using that IH(2) by (induction "is") (auto simp: lua_entry_def)
    then show ?thesis by (simp add: z comp_def)
  qed
  moreover have "map (\<lambda>(k, v). (k, lua_to_go fl num_text v)) (map (\<lambda>i. (L_number (fl_of_int fl (int i + 1)), go_to_lua fl (xs ! i))) [0..<length xs]) =
      map (\<lambda>i. (L_number (fl_of_int fl (int i + 1)), xs ! i)) [0..<length xs]"
    using IH(1) by (simp add: comp_def)
  moreover have "whole_floats fl (length xs)" "xs \<noteq> []" using G_slice.prems by (auto simp: whole_floats_def)
  ultimately show ?case using table_to_go_slice [of fl xs num_text] by (simp only: go_to_lua.simps lua_to_go.simps simp_thms)
next
  case (G_map m)
  have IH: "lua_to_go fl num_text (go_to_lua fl x) = x" "x \<noteq> G_nil" if "(k, x) \<in> set m" for k x
    using G_map that by (auto simp: list_all_iff)
  have "\<forall>e \<in> set m. snd e \<noteq> G_nil" using IH(2) by auto
  then have e1: "concat (map (\<lambda>(k, v). lua_entry (L_string k) v) (map (\<lambda>(k, v). (k, go_to_lua fl v)) m)) = map (\<lambda>(k, v). (L_string k, go_to_lua fl v)) m"
    by (induction m) (auto simp: lua_entry_def)
  have e2: "map (\<lambda>(k, v). (k, lua_to_go fl num_text v)) (map (\<lambda>(k, v). (L_string k, go_to_lua fl v)) m) = map (\<lambda>(k, v). (L_string k, v)) m"
    using IH(1) by auto
  have "lua_to_go fl num_text (go_to_lua fl (G_map m)) = table_to_go fl num_text (map (\<lambda>(k, v). (L_string k, v)) m)"
    unfolding go_to_lua.simps lua_to_go.simps e1 e2 ..
  with table_to_go_map [of m fl num_text] G_map.prems show ?case by simp
qed simp_all

lemma ip_number4: "ip_number [a, b, c, d] = ((unat a * 256 + unat b) * 256 + unat c) * 256 + unat d"
  by (simp add: ip_number_def)

lemma byte_less: "unat (b :: 8 word) < 256"
  using unsigned_less [of b] by simp

lemma number_div:
  fixes a b c d :: nat
  assumes "b < 256" "c < 256" "d < 256"
  shows "(((a * 256 + b) * 256 + c) * 256 + d) div 16777216 = a" "(((a * 256 + b) * 256 + c) * 256 + d) div 1048576 = a * 16 + b div 16"
    "(((a * 256 + b) * 256 + c) * 256 + d) div 65536 = a * 256 + b"
proof -
  obtain q r where b: "b = 16 * q + r" "r < 16" by (metis mod_mult_div_eq add.commute mod_less_divisor zero_less_numeral)
  then have "b div 16 = q" by simp
  moreover have "(((a * 256 + b) * 256 + c) * 256 + d) div 1048576 = a * 16 + q"
    using b assms by (intro div_nat_eqI) (simp_all add: algebra_simps)
  ultimately show "(((a * 256 + b) * 256 + c) * 256 + d) div 1048576 = a * 16 + b div 16" by simp
qed (use assms in \<open>intro div_nat_eqI; simp add: algebra_simps\<close>)+

lemma mixed_radix: "y < n \<Longrightarrow> w < n \<Longrightarrow> x * n + y = z * n + w \<longleftrightarrow> x = z \<and> y = (w :: nat)"
proof
  assume a: "y < n" "w < n" "x * n + y = z * n + w"
  have "(x * n + y) div n = x" "(z * n + w) div n = z" using a(1,2) by simp_all
  with a show "x = z \<and> y = w" by simp
qed simp

lemma net4:
  assumes "bits = 8 \<or> bits = 12 \<or> bits = 16"
  shows "net_contains ([p, q, 0, 0], bits) [a, b, c, d] \<longleftrightarrow>
    (if bits = 8 then a = p else if bits = 12 then a = p \<and> unat b div 16 = unat q div 16 else a = p \<and> b = q)"
proof -
  have e: "x = y \<longleftrightarrow> unat x = unat y" for x y :: "8 word" by (simp add: word_unat_eq_iff)
  have n: "net_contains ([p, q, 0, 0], bits) [a, b, c, d] \<longleftrightarrow> ip_number [a, b, c, d] div 2 ^ (32 - bits) = ip_number [p, q, 0, 0] div 2 ^ (32 - bits)"
    by (simp add: net_contains_def to4_def)
  have v: "ip_number [x, y, z, w] div 16777216 = unat x" "ip_number [x, y, z, w] div 1048576 = unat x * 16 + unat y div 16"
    "ip_number [x, y, z, w] div 65536 = unat x * 256 + unat y" for x y z w
    unfolding ip_number4 using number_div [OF byte_less byte_less byte_less] by simp_all
  from assms consider "bits = 8" | "bits = 12" | "bits = 16" by blast
  then show ?thesis
  proof cases
    case 1
    with n show ?thesis by (simp add: v e)
  next
    case 2
    have "unat a * 16 + unat b div 16 = unat p * 16 + unat q div 16 \<longleftrightarrow> unat a = unat p \<and> unat b div 16 = unat q div 16"
      using byte_less [of b] byte_less [of q] by (intro mixed_radix) simp_all
    with 2 n show ?thesis by (simp add: v e)
  next
    case 3
    have "unat a * 256 + unat b = unat p * 256 + unat q \<longleftrightarrow> unat a = unat p \<and> unat b = unat q"
      using byte_less by (intro mixed_radix)
    with 3 n show ?thesis by (simp add: v e)
  qed
qed

lemma net6: "length n = 16 \<Longrightarrow> \<not> net_contains (n, bits) [a, b, c, d]"
  by (simp add: net_contains_def to4_def Let_def)

section \<open>Properties\<close>

text \<open>
  A JSON document comes back from Lua unchanged. Converting a decoded document to Lua and back is the
  identity when no container holds a null, no array is empty, and arrays are not longer than the floats
  count exactly; an empty array comes back as an empty object.
\<close>

theorem lua_value_roundtrip:
  assumes "whole_floats fl n" and "go_plain n v"
  shows "lua_to_go fl num_text (go_to_lua fl v) = v \<and> lua_to_go fl num_text (go_to_lua fl (G_slice [])) = G_map []"
  using go_lua_go [OF assms, of num_text] by (simp add: table_to_go_def)

text \<open>
  The address check blocks exactly the ranges it lists. An IPv4 address, in its own form or mapped into IPv6,
  is refused iff it lies in 10/8, 172.16/12, 192.168/16, 127/8 or 169.254/16; so the unspecified address
  0.0.0.0, which reaches the local machine, is not refused.
\<close>

theorem private_ipv4_exact:
  "(is_private_ip [a, b, c, d] \<longleftrightarrow>
      a = 10 \<or> a = 172 \<and> 16 \<le> unat b \<and> unat b \<le> 31 \<or> a = 192 \<and> b = 168 \<or> a = 127 \<or> a = 169 \<and> b = 254) \<and>
   is_private_ip (replicate 10 0 @ [0xFF, 0xFF, a, b, c, d]) = is_private_ip [a, b, c, d] \<and> \<not> is_private_ip [0, 0, 0, 0]"
proof -
  have v4: "is_private_ip [a, b, c, d] \<longleftrightarrow>
      a = 10 \<or> a = 172 \<and> 16 \<le> unat b \<and> unat b \<le> 31 \<or> a = 192 \<and> b = 168 \<or> a = 127 \<or> a = 169 \<and> b = 254" for a b c d
  proof -
    have "unat b div 16 = 1 \<longleftrightarrow> 16 \<le> unat b \<and> unat b \<le> 31" by auto
    then show ?thesis by (auto simp: is_private_ip_def private_ranges_def net4 net6)
  qed
  have "net_contains net (replicate 10 0 @ [0xFF, 0xFF, a, b, c, d]) = net_contains net [a, b, c, d]" for net
    by (simp add: net_contains_def to4_def nth_append Let_def)
  with v4 show ?thesis by (simp add: is_private_ip_def)
qed

text \<open>
  A script's own requests are screened. A request is handed to the HTTP client only when its URL has a host
  other than the metadata address that is the configured auth service or resolves to addresses none of
  which is in a listed range; otherwise the script is stopped, whatever the client would answer.
\<close>

theorem lua_requests_screened:
  "(\<exists>e. \<forall>client. lua_request whitelist lookup client fl canonical num_text method raw opts = Inl e) \<or>
   (\<exists>host. url_hostname raw = Some host \<and> host \<noteq> [] \<and> host \<noteq> ''169.254.169.254'' \<and>
      (is_trusted_auth_host whitelist host \<or>
       (\<exists>ips. lookup host = Some ips \<and> list_all (\<lambda>ip. \<not> is_private_ip ip) ips)))"
proof (cases "validate_url whitelist lookup raw")
  case None
  then show ?thesis
    by (auto simp: validate_url_def metadata_host_def list_all_iff find_None_iff split: option.splits if_splits)
qed (auto simp: lua_request_def)

text \<open>
  The Lua check fails closed. A request that brings no configured key passes as \<open>lua-auth\<close> only if a script
  is configured, compiles, runs, defines \<open>authorize\<close> and that returns the boolean true; any other value,
  an error or a timeout refuses it.
\<close>

theorem lua_fails_closed:
  "(\<exists>script. lua_verdict run provider view = Some script \<and> script c = Some True) \<longleftrightarrow>
   (\<exists>p. provider = Some p \<and> lp_script p \<noteq> [] \<and> lp_compiled p \<and> run p (build_req_table (view c)) = Returned (L_bool True))"
  by (auto simp: lua_verdict_def lua_authorize_def provider_enabled_def split: option.splits if_splits script_outcome.splits lua_value.splits sum.splits)

fun read_chunks :: "bytes \<Rightarrow> nat \<Rightarrow> nat list \<Rightarrow> bytes list" where
  "read_chunks data pos [] = []"
| "read_chunks data pos (n # ns) = (case string_reader_read data pos n of None \<Rightarrow> [] | Some (chunk, pos') \<Rightarrow> chunk # read_chunks data pos' ns)"

lemma read_chunks_all:
  "\<forall>n \<in> set ns. 0 < n \<Longrightarrow> pos \<le> length data \<Longrightarrow> length data - pos \<le> length ns \<Longrightarrow> concat (read_chunks data pos ns) = drop pos data"
proof (induction data pos ns rule: read_chunks.induct)
  case (2 data pos n ns)
  show ?case
  proof (cases "pos < length data")
    case True
    let ?c = "take n (drop pos data)"
    have r: "string_reader_read data pos n = Some (?c, pos + length ?c)" using True by (simp add: string_reader_read_def Let_def)
    have "0 < length ?c" using True "2.prems"(1) by simp
    moreover have "pos + length ?c \<le> length data" using True by simp
    ultimately have "concat (read_chunks data (pos + length ?c) ns) = drop (pos + length ?c) data"
      using "2.prems"(1,3) by (intro "2.IH" [OF r refl]) auto
    moreover have "?c @ drop (pos + length ?c) data = drop pos data"
      by (metis append_take_drop_id drop_drop add.commute length_take min.commute min_def take_all_iff drop_eq_Nil append_Nil2 le_cases)
    ultimately show ?thesis using r by simp
  next
    case False
    with "2.prems"(2) show ?thesis by (simp add: string_reader_read_def)
  qed
qed simp

text \<open>
  C29: the body reader hands over every byte once. Read with any buffers that are not empty, it delivers the data
  in order and then ends; the number of reads is at most the number of bytes.
\<close>

theorem string_reader_complete:
  assumes "\<forall>n \<in> set ns. 0 < n" and "length data \<le> length ns"
  shows "concat (read_chunks data 0 ns) = data \<and> length (read_chunks data 0 ns) \<le> length data"
proof -
  have "length (read_chunks data pos ns) \<le> length data - pos" if "\<forall>n \<in> set ns. 0 < n" for pos
    using that
  proof (induction data pos ns rule: read_chunks.induct)
    case (2 data pos n ns)
    show ?case
    proof (cases "pos < length data")
      case True
      let ?c = "take n (drop pos data)"
      have r: "string_reader_read data pos n = Some (?c, pos + length ?c)" using True by (simp add: string_reader_read_def Let_def)
      have "0 < length ?c" using True "2.prems" by simp
      with "2.IH" [OF r refl] "2.prems" r True show ?thesis by simp linarith
    qed (simp add: string_reader_read_def)
  qed simp
  from this [of 0] read_chunks_all [of ns 0 data] assms show ?thesis by simp
qed

section \<open>Witnesses\<close>

theorem lua_value_roundtrip_witness:
  "lua_to_go rat_floats (\<lambda>n. []) (go_to_lua rat_floats (G_map [(''a'', G_slice [G_number 1, G_string ''x'']), (''b'', G_bool True)])) =
    G_map [(''a'', G_slice [G_number 1, G_string ''x'']), (''b'', G_bool True)]"
proof -
  have "whole_floats rat_floats 2" by (simp add: whole_floats_def rat_trunc_def)
  moreover have "go_plain 2 (G_map [(''a'', G_slice [G_number (1 :: rat), G_string ''x'']), (''b'', G_bool True)])" by simp
  ultimately show ?thesis using lua_value_roundtrip by blast
qed

theorem string_reader_complete_witness: "concat (read_chunks [1, 2, 3] 0 [2, 2, 2]) = [1, 2, 3]"
  using string_reader_complete [of "[2, 2, 2]" "[1, 2, 3]"] by simp

end
