(* ===== verification/Application.thy ===== *)
theory Application
  imports Pins Service Face_Masks Video_Upload Public_Config Lua_Auth
begin

text \<open>
  The service as \<open>cmd/server/main.go\<close> puts it together: every route with its handler, on the state the handlers
  share, behind the chain of \<open>Access_Control\<close>. What the surroundings answer to one request is an \<open>app\<close>, so
  that a history of the service is a list of requests, each with its own, of passes of the collector, of the
  goroutines the handlers left behind, which run whenever they get to it, and of restarts.
\<close>

section \<open>Answers\<close>

datatype 'f reply =
    Reply_upload upload_reply
  | Reply_video "'f video_reply"
  | Reply_refresh refresh_reply
  | Reply_config public_config

fun upload_status :: "upload_reply \<Rightarrow> nat" where
  "upload_status (Upload_refused status err details loc) = status"
| "upload_status (Upload_one r) = 200"
| "upload_status (Upload_many rs) = 200"

fun reply_status :: "'f reply \<Rightarrow> nat" where
  "reply_status (Reply_upload r) = upload_status r"
| "reply_status (Reply_video (Video_refused r)) = upload_status r"
| "reply_status (Reply_video (Video_done v)) = 200"
| "reply_status (Reply_refresh (Refresh_error status msg)) = status"
| "reply_status (Reply_refresh (Refresh_results rs)) = 200"
| "reply_status (Reply_config c) = 200"

text \<open>\<open>writeJSON\<close>: \<open>json\<close> is the encoding of a reply by \<open>encoding/json\<close>.\<close>

definition write_json :: "('f reply \<Rightarrow> string) \<Rightarrow> headers \<Rightarrow> 'f reply \<Rightarrow> response" where
  "write_json json hs reply = \<lparr>rs_status = reply_status reply,
     rs_headers = gm_put ''Content-Type'' ''application/json'' hs, rs_body = Body_text (json reply)\<rparr>"

text \<open>A handler's headers go on top of those the chain has set.\<close>

definition on_top :: "headers \<Rightarrow> response \<Rightarrow> response" where
  "on_top hs rs = rs\<lparr>rs_headers := foldr (\<lambda>(k, v) m. gm_put k v m) (rs_headers rs) hs\<rparr>"

lemma on_top_status [simp]: "rs_status (on_top hs rs) = rs_status rs"
  by (simp add: on_top_def)

section \<open>The handlers on their state\<close>

record 's world =
  wd_video :: "'s video_state"
  wd_overrides :: "variant_overrides option"
  wd_tasks :: "task list"

abbreviation wd_unpin :: "'s world \<Rightarrow> unpin_store" where "wd_unpin w \<equiv> vs_unpin (wd_video w)"

abbreviation wd_cluster :: "'s world \<Rightarrow> 's cluster" where "wd_cluster w \<equiv> st_cluster (vs_upload (wd_video w))"

text \<open>The list, the cluster and the goroutines that are still to run.\<close>

definition set_storage :: "unpin_store \<Rightarrow> 's cluster \<Rightarrow> 's world \<Rightarrow> 's world" where
  "set_storage un cl w = w\<lparr>wd_video := (wd_video w)\<lparr>vs_unpin := un, vs_upload := (vs_upload (wd_video w))\<lparr>st_cluster := cl\<rparr>\<rparr>\<rparr>"

definition start_tasks :: "task list \<Rightarrow> 's world \<Rightarrow> 's world" where
  "start_tasks ts w = w\<lparr>wd_tasks := wd_tasks w @ ts\<rparr>"

lemma start_tasks_simps [simp]:
  "start_tasks [] w = w" "wd_video (start_tasks ts w) = wd_video w" "wd_overrides (start_tasks ts w) = wd_overrides w"
  "wd_tasks (start_tasks ts w) = wd_tasks w @ ts"
  by (simp_all add: start_tasks_def)

record ('s, 'e, 'f, 'i, 'l) app =
  ap_server :: "'f server"
  ap_upload :: "('s, 'e, 'f, 'i) upload_env"
  ap_video :: "'f video_tools"
  ap_masks :: "('f, 'i) mask_env"
  ap_upload_request :: "call \<Rightarrow> upload_request"
  ap_refresh_request :: "call \<Rightarrow> face_mask_request option"
  ap_order :: "nat list"
  ap_clock :: int
  ap_written :: write_result
  ap_json :: "'f reply \<Rightarrow> string"
  ap_limiter :: "'l rate_limiter"
  ap_lua :: "(call \<Rightarrow> bool option) option"

text \<open>What an upload handed to \<open>replicateAsync\<close> is started.\<close>

definition with_upload :: "'s upload_state \<Rightarrow> 's world \<Rightarrow> 's world" where
  "with_upload up w = start_tasks (map Replicate (st_replicated up))
     (w\<lparr>wd_video := (wd_video w)\<lparr>vs_upload := up\<lparr>st_replicated := []\<rparr>\<rparr>\<rparr>)"

definition app_handlers :: "'f config \<Rightarrow> ('s, 'e, 'f, 'i, 'l) app \<Rightarrow> route \<Rightarrow> 's world http_handler" where
  "app_handlers cfg app rt hs c w =
     (let sv = with_store (wd_unpin w) (ap_server app); r = ca_request c; ov = wd_overrides w;
          json = (\<lambda>reply. Answered (write_json (ap_json app) hs reply))
      in case rt of
           R_upload \<Rightarrow> (case handle_upload (ap_upload app) (ap_upload_request app c) (vs_upload (wd_video w)) of
             (up, reply) \<Rightarrow> (with_upload up w, json (Reply_upload reply)))
         | R_upload_multiple \<Rightarrow>
             (case handle_upload_multiple (ap_upload app) (ap_order app) (ap_upload_request app c) (vs_upload (wd_video w)) of
                (up, reply) \<Rightarrow> (with_upload up w, json (Reply_upload reply)))
         | R_file \<Rightarrow> (case handle_file sv r ov of (ov1, replicas, rs) \<Rightarrow>
             (start_tasks (map Replicate replicas) (w\<lparr>wd_overrides := ov1\<rparr>), Answered (on_top hs rs)))
         | R_file_link \<Rightarrow> (case handle_file_link sv r ov of (ov1, replicas, rs) \<Rightarrow>
             (start_tasks (map Replicate replicas) (w\<lparr>wd_overrides := ov1\<rparr>), Answered (on_top hs rs)))
         | R_delete \<Rightarrow> (case handle_delete sv (user_id_from_context c) (ap_clock app) (ap_written app) r (wd_unpin w) of
             (un, cids, rs) \<Rightarrow> (start_tasks (if cids = [] then [] else [Unpin cids]) (w\<lparr>wd_video := (wd_video w)\<lparr>vs_unpin := un\<rparr>\<rparr>),
                                Answered (on_top hs rs)))
         | R_refresh_face_masks \<Rightarrow>
             (case handle_refresh_face_masks (ap_masks app) (user_id_from_context c) (ap_refresh_request app c) ov of
                (ov1, reply) \<Rightarrow> (w\<lparr>wd_overrides := ov1\<rparr>, json (Reply_refresh reply)))
         | R_config \<Rightarrow> (w, json (Reply_config (handle_config (sv_floats sv) r cfg)))
         | R_upload_video \<Rightarrow> (case handle_upload_video (ap_upload app) (ap_video app) (ap_upload_request app c) (wd_video w) of
             (vs, reply) \<Rightarrow> (w\<lparr>wd_video := vs\<rparr>, json (Reply_video reply)))
         | R_stream_link \<Rightarrow> (w, Answered (on_top hs (handle_stream_link sv r ov)))
         | R_stream_master \<Rightarrow> (w, Answered (on_top hs (handle_stream_master sv r)))
         | R_stream_segment \<Rightarrow> (w, Answered (on_top hs (handle_stream_segment sv r ov)))
         | _ \<Rightarrow> (w, Answered (not_found_response hs)))"

definition application :: "'f config \<Rightarrow> ('s, 'e, 'f, 'i, 'l) app \<Rightarrow> ('l, 's world) server_env" where
  "application cfg app =
     \<lparr>se_keys = ap_keys (cf_api cfg), se_lua = ap_lua app, se_origins = co_allowed_origins (cf_cors cfg),
      se_headers = co_allowed_headers (cf_cors cfg), se_limiter = ap_limiter app, se_handlers = app_handlers cfg app\<rparr>"

text \<open>
  A new process finds the files as the old one left them and the nodes in their state; \<open>su\<close> and \<open>connect\<close> tell
  what the old one never touched. What was only in memory, goroutines that wait, visitors and the budget, is
  gone. \<open>None\<close>: the process does not come up, or has no list at all.
\<close>

definition left_behind :: "'s world \<Rightarrow> 'f startup \<Rightarrow> 'f startup" where
  "left_behind w su = su\<lparr>
     su_unpin_disk := (\<lambda>p. if p = us_path (wd_unpin w) then us_disk (wd_unpin w) else su_unpin_disk su p),
     su_override_disk := (\<lambda>p. case wd_overrides w of
         None \<Rightarrow> su_override_disk su p
       | Some ov \<Rightarrow> if p = vo_path ov then vo_disk ov else su_override_disk su p)\<rparr>"

definition node_state :: "'s cluster \<Rightarrow> (string \<Rightarrow> 's) \<Rightarrow> string \<Rightarrow> 's" where
  "node_state cl connect url = (case find (\<lambda>n. cn_url n = url) (cl_nodes cl) of Some n \<Rightarrow> cn_state n | None \<Rightarrow> connect url)"

definition restart :: "'f floats \<Rightarrow> 'f startup \<Rightarrow> (string \<Rightarrow> 's) \<Rightarrow> 'f config \<Rightarrow> 's world \<Rightarrow> 's world option" where
  "restart fl su connect cfg w = (case new_handler fl (left_behind w su) (node_state (wd_cluster w) connect) cfg of
      Running s \<Rightarrow> map_option (\<lambda>un.
        \<lparr>wd_video = \<lparr>vs_upload = \<lparr>st_cluster = sr_cluster s, st_budget = sr_uploads s, st_replicated = []\<rparr>, vs_unpin = un\<rparr>,
         wd_overrides = sr_overrides s, wd_tasks = []\<rparr>) (sr_unpin s)
    | _ \<Rightarrow> None)"

text \<open>
  A history: requests, passes of the collector, goroutines left behind by earlier requests, the \<open>i\<close>-th of
  those that wait, each with the nodes as they behave then, and restarts.
\<close>

datatype ('s, 'e, 'f, 'i, 'l) event =
    Visit "('s, 'e, 'f, 'i, 'l) app" int call
  | Sweep int int "('s, 'e) kubo" "string \<Rightarrow> write_result"
  | Background "('s, 'e) kubo" nat
  | Restart "'f floats" "'f startup" "string \<Rightarrow> 's"

definition run_background :: "('s, 'e) kubo \<Rightarrow> pinning_config \<Rightarrow> nat \<Rightarrow> 's world \<Rightarrow> 's world" where
  "run_background kb pn i w =
     (if i < length (wd_tasks w)
      then (set_storage (wd_unpin w) (run_task kb pn (wd_tasks w ! i) (wd_cluster w)) w)
             \<lparr>wd_tasks := take i (wd_tasks w) @ drop (Suc i) (wd_tasks w)\<rparr>
      else w)"

fun app_event :: "'f config \<Rightarrow> ('s, 'e, 'f, 'i, 'l) event \<Rightarrow> 'l visitors \<times> 's world \<Rightarrow> 'l visitors \<times> 's world" where
  "app_event cfg (Visit app now c) w = fst (serve (application cfg app) now c w)"
| "app_event cfg (Sweep now ttl kb wr) w =
     (case gc_pass kb now ttl wr (wd_unpin (snd w), wd_cluster (snd w)) of (un, cl) \<Rightarrow> (fst w, set_storage un cl (snd w)))"
| "app_event cfg (Background kb i) w = (fst w, run_background kb (cf_pinning cfg) i (snd w))"
| "app_event cfg (Restart fl su connect) w = (case restart fl su connect cfg (snd w) of None \<Rightarrow> w | Some w1 \<Rightarrow> ([], w1))"

definition app_run :: "'f config \<Rightarrow> ('s, 'e, 'f, 'i, 'l) event list \<Rightarrow> 'l visitors \<times> 's world \<Rightarrow> 'l visitors \<times> 's world" where
  "app_run cfg events w = foldl (\<lambda>w e. app_event cfg e w) w events"

section \<open>Facts\<close>

text \<open>Only deletion marks; the upload of a video adds to the groups.\<close>

lemma handle_upload_video_marks:
  "handle_upload_video env vt q st = (st', reply) \<Longrightarrow> store_has (vs_unpin st') x = store_has (vs_unpin st) x \<and>
    (store_inv (vs_unpin st) \<longrightarrow> store_inv (vs_unpin st'))"
proof -
  have t: "store_has (store_track_group wr m cids s) x = store_has s x" for wr m cids s
    by (simp add: store_has_def store_track_group_def)
  assume "handle_upload_video env vt q st = (st', reply)"
  then show ?thesis
    by (auto simp: handle_upload_video_def store_video_def t Let_def split: sum.splits option.splits if_splits prod.splits bool.splits)
qed

lemma handle_delete_marks:
  assumes "handle_delete sv user now wr r st = (st', cids, rs)"
  shows "(store_has st x \<longrightarrow> store_has st' x) \<and> (store_has st' x \<and> \<not> store_has st x \<longrightarrow> user = ''api-key'') \<and>
    (store_inv st \<longrightarrow> store_inv st')"
proof (cases "rs_status rs = 200")
  case True
  have "st' = st \<or> (\<exists>m g. st' = store_add_group now wr m g st) \<or> (\<exists>c. st' = store_add now wr c st)"
    using assms by (auto simp: handle_delete_def Let_def split: if_splits option.splits sum.splits)
  then have "store_inv st \<longrightarrow> store_inv st'" by auto
  with handle_delete_ok [OF assms True] show ?thesis by auto
next
  case False
  with assms have "st' = st" by (auto simp: handle_delete_def Let_def split: if_splits option.splits sum.splits)
  then show ?thesis by simp
qed

lemma app_handlers_marks:
  assumes "app_handlers cfg app rt hs c w = (w', out)"
  shows "(store_has (wd_unpin w) x \<longrightarrow> store_has (wd_unpin w') x) \<and>
    (store_has (wd_unpin w') x \<and> \<not> store_has (wd_unpin w) x \<longrightarrow> rt = R_delete \<and> ca_user c = ''api-key'') \<and>
    (store_inv (wd_unpin w) \<longrightarrow> store_inv (wd_unpin w'))"
proof (cases rt)
  case R_delete
  with assms show ?thesis
    by (auto simp: app_handlers_def user_id_from_context_def Let_def split: prod.splits dest!: handle_delete_marks [where x = x])
next
  case R_upload_video
  with assms show ?thesis by (auto simp: app_handlers_def Let_def split: prod.splits dest!: handle_upload_video_marks [where x = x])
qed (use assms in \<open>auto simp: app_handlers_def with_upload_def Let_def split: prod.splits\<close>)

lemma media_cookie_request [simp]:
  "ca_request (with_media_cookie (c\<lparr>ca_user := u\<rparr>)) = ca_request (with_media_cookie c)"
  "rq_method (ca_request (with_media_cookie c)) = rq_method (ca_request c)"
  "rq_path (ca_request (with_media_cookie c)) = rq_path (ca_request c)"
  by (auto simp: with_media_cookie_def split: option.splits)

lemma admitted_request:
  assumes "admitted keys lua c = Some c1"
  shows "rq_method (ca_request c1) = rq_method (ca_request c) \<and> rq_path (ca_request c1) = rq_path (ca_request c)"
  using assms by (auto simp: admitted_def Let_def split: if_splits)

lemma admitted_api_key:
  assumes "admitted keys lua (c\<lparr>ca_user := []\<rparr>) = Some c1" "ca_user c1 = ''api-key''"
  shows "extract_token (ca_request (with_media_cookie c)) \<in> set (filter (\<lambda>k. k \<noteq> []) (map trim_space keys))"
  using assms by (auto simp: admitted_def valid_keys_def Let_def split: if_splits)

text \<open>What a request may do, whatever it is.\<close>

lemma mux_cases:
  "fst (panic_recovery (mux env) hs c w) = w \<or>
   (\<exists>rt w1 out. route_of (ca_request c) = rt \<and> se_handlers env rt hs c (snd w) = (w1, out) \<and>
     fst (panic_recovery (mux env) hs c w) = (fst w, w1))"
  by (cases "route_of (ca_request c)") (auto simp: panic_recovery_def mux_def split: prod.splits outcome.splits)

lemma route_of_delete: "route_of r = R_delete \<Longrightarrow> rq_method r = ''DELETE''"
  by (auto simp: route_of_def Let_def split: if_splits dest: match_route_delete)

lemma serve_marks:
  assumes "serve (application cfg app) now c w = (w', out)"
  shows "(store_has (wd_unpin (snd w)) x \<longrightarrow> store_has (wd_unpin (snd w')) x) \<and>
    (store_has (wd_unpin (snd w')) x \<and> \<not> store_has (wd_unpin (snd w)) x \<longrightarrow>
      rq_method (ca_request c) = ''DELETE'' \<and>
      extract_token (ca_request (with_media_cookie c)) \<in> set (filter (\<lambda>k. k \<noteq> []) (map trim_space (ap_keys (cf_api cfg))))) \<and>
    (store_inv (wd_unpin (snd w)) \<longrightarrow> store_inv (wd_unpin (snd w')))"
proof (cases "snd w' = snd w")
  case False
  let ?env = "application cfg app"
  from False assms have m: "rq_method (ca_request c) \<noteq> ''OPTIONS''" using route_of_options [of c ?env now w] by auto
  obtain vs ok where a: "allow_request (se_limiter ?env) now (extract_ip c) (fst w) = (vs, ok)"
    by (cases "allow_request (se_limiter ?env) now (extract_ip c) (fst w)")
  from assms False obtain c1 where c1: "admitted (se_keys ?env) (se_lua ?env) (c\<lparr>ca_user := []\<rparr>) = Some c1"
    and w': "w' = fst (panic_recovery (mux ?env) (request_headers ?env c) c1 (vs, snd w))"
    by (auto simp: serve_eq [OF m a] split: if_splits option.splits)
  from mux_cases [of ?env "request_headers ?env c" c1 "(vs, snd w)"] w' False obtain rt w1 out1 where
    h: "route_of (ca_request c1) = rt" "app_handlers cfg app rt (request_headers ?env c) c1 (snd w) = (w1, out1)" "snd w' = w1"
    by (auto simp: application_def)
  from app_handlers_marks [OF h(2), of x] h(3) admitted_request [OF c1] route_of_delete [of "ca_request c1"] h(1)
    admitted_api_key [of "se_keys ?env" "se_lua ?env" c c1] c1
  show ?thesis by (auto simp: application_def)
qed simp

text \<open>A file that is marked: the handler says so before it asks any policy.\<close>

lemma app_handlers_deleted:
  assumes "store_has (wd_unpin w) x" "validate_cid x = None" "path_parts ''/file/'' (rq_path (ca_request c)) = x # rest"
  shows "app_handlers cfg app R_file hs c w = (w, Answered (on_top hs file_was_deleted))"
proof -
  have "x \<noteq> []" using assms(2) by (auto simp: validate_cid_def)
  with assms show ?thesis by (simp add: app_handlers_def handle_file_def with_store_def)
qed

lemma route_of_cong: "rq_method r = rq_method r' \<Longrightarrow> rq_path r = rq_path r' \<Longrightarrow> route_of r = route_of r'"
  by (simp add: route_of_def Let_def)

lemma serve_deleted:
  assumes "store_has (wd_unpin (snd w)) x" "validate_cid x = None" "route_of (ca_request c) = R_file"
    "path_parts ''/file/'' (rq_path (ca_request c)) = x # rest"
  shows "\<exists>rs. snd (serve (application cfg app) now c w) = Answered rs \<and> rs_status rs \<in> {401, 403, 404, 429}"
proof -
  let ?env = "application cfg app"
  have m: "rq_method (ca_request c) \<noteq> ''OPTIONS''"
  proof
    assume "rq_method (ca_request c) = ''OPTIONS''"
    with assms(3) have "match_route ''OPTIONS'' (rq_path (ca_request c)) = R_file" by (auto simp: route_of_def Let_def split: if_splits)
    then show False by (simp add: match_route_def patterns_def pattern_matches_def longest_match_def)
  qed
  obtain vs ok where a: "allow_request (se_limiter ?env) now (extract_ip c) (fst w) = (vs, ok)"
    by (cases "allow_request (se_limiter ?env) now (extract_ip c) (fst w)")
  show ?thesis
  proof (cases "ok \<and> admitted (se_keys ?env) (se_lua ?env) (c\<lparr>ca_user := []\<rparr>) \<noteq> None")
    case True
    then obtain c1 where c1: "admitted (se_keys ?env) (se_lua ?env) (c\<lparr>ca_user := []\<rparr>) = Some c1" by blast
    from admitted_request [OF c1] have r: "route_of (ca_request c1) = R_file" "rq_path (ca_request c1) = rq_path (ca_request c)"
      using assms(3) route_of_cong [of "ca_request c1" "ca_request c"] by auto
    with assms(4) have p: "path_parts ''/file/'' (rq_path (ca_request c1)) = x # rest" by simp
    let ?hs = "request_headers ?env c"
    have "app_handlers cfg app R_file ?hs c1 (snd w) = (snd w, Answered (on_top ?hs file_was_deleted))"
      by (rule app_handlers_deleted [OF assms(1,2) p])
    then have "mux ?env ?hs c1 (vs, snd w) = ((vs, snd w), Answered (on_top ?hs file_was_deleted))"
      by (simp add: mux_def r(1)) (simp add: application_def)
    with True c1 have "serve ?env now c w = ((vs, snd w), Answered (on_top ?hs file_was_deleted))"
      by (simp add: serve_eq [OF m a] panic_recovery_def)
    then show ?thesis by (simp add: file_was_deleted_def)
  next
    case False
    then show ?thesis using refusal_status [of "se_lua ?env" "c\<lparr>ca_user := []\<rparr>" "request_headers ?env c"]
      by (auto simp: serve_eq [OF m a])
  qed
qed

text \<open>A pass of the collector that unpins \<open>x\<close> on the nodes.\<close>

definition sweep_unpins :: "('s, 'e, 'f, 'i, 'l) event \<Rightarrow> 'l visitors \<times> 's world \<Rightarrow> string \<Rightarrow> bool" where
  "sweep_unpins e w x \<longleftrightarrow> (case e of
      Sweep now ttl kb wr \<Rightarrow> x \<in> set (unpinned_in kb (store_expired (now - ttl) (wd_unpin (snd w))) (wd_cluster (snd w)))
    | _ \<Rightarrow> False)"

text \<open>A DELETE request with a configured key.\<close>

definition keyed_delete :: "'f config \<Rightarrow> ('s, 'e, 'f, 'i, 'l) event \<Rightarrow> bool" where
  "keyed_delete cfg e \<longleftrightarrow> (case e of
      Visit app now c \<Rightarrow> rq_method (ca_request c) = ''DELETE'' \<and>
        extract_token (ca_request (with_media_cookie c)) \<in> set (filter (\<lambda>k. k \<noteq> []) (map trim_space (ap_keys (cf_api cfg))))
    | _ \<Rightarrow> False)"

text \<open>A restart on a file that does not hold what the old process had in memory, or on another file.\<close>

definition list_saved :: "unpin_store \<Rightarrow> bool" where
  "list_saved un \<longleftrightarrow> us_disk un = Json_v2 (us_entries un) (Some (us_groups un)) \<or>
     us_disk un = No_file \<and> us_entries un = [] \<and> us_groups un = []"

definition stale_restart :: "'f config \<Rightarrow> ('s, 'e, 'f, 'i, 'l) event \<Rightarrow> 'l visitors \<times> 's world \<Rightarrow> bool" where
  "stale_restart cfg e w \<longleftrightarrow> (case e of
      Restart fl su connect \<Rightarrow> us_path (wd_unpin (snd w)) \<noteq> un_store_path (cf_unpin cfg) \<or> \<not> list_saved (wd_unpin (snd w))
    | _ \<Rightarrow> False)"

lemma restart_marks:
  assumes "restart fl su connect cfg w = Some w'" and "store_inv (wd_unpin w)"
  shows "store_inv (wd_unpin w')"
    and "us_path (wd_unpin w) = un_store_path (cf_unpin cfg) \<Longrightarrow> list_saved (wd_unpin w) \<Longrightarrow> store_has (wd_unpin w') x = store_has (wd_unpin w) x"
proof -
  let ?un = "wd_unpin w" and ?su = "left_behind w su"
  from assms(1) obtain s un where s: "new_handler fl ?su (node_state (wd_cluster w) connect) cfg = Running s" "sr_unpin s = Some un"
    and w': "wd_unpin w' = un" by (auto simp: restart_def split: started.splits)
  from new_handler_running [OF s(1)] s(2) have o: "open_unpin_store ?su (un_store_path (cf_unpin cfg)) = Some un" by simp
  then show "store_inv (wd_unpin w')" unfolding w'
    by (auto simp: open_unpin_store_def new_unpin_store_inv split: sum.splits dest: new_unpin_store_inv)
  assume p: "us_path ?un = un_store_path (cf_unpin cfg)" and saved: "list_saved ?un"
  have "\<exists>s'. new_unpin_store (us_path ?un) (us_disk ?un) = Inr s' \<and> store_marks s' = store_marks ?un"
    using saved reload_saved [OF assms(2)]
    by (auto simp: list_saved_def) (auto simp: new_unpin_store_def store_marks_def Let_def)
  then obtain s' where s': "new_unpin_store (us_path ?un) (us_disk ?un) = Inr s'" "store_marks s' = store_marks ?un" by blast
  have "su_unpin_disk ?su (us_path ?un) = us_disk ?un" by (simp add: left_behind_def)
  with s'(1) have "open_unpin_store ?su (us_path ?un) = Some s'" by (simp add: open_unpin_store_def)
  with o p s'(2) have "store_marks un = store_marks ?un" by simp
  then show "store_has (wd_unpin w') x = store_has ?un x" unfolding w' by (simp add: unpin.has_marks)
qed

lemma app_event_marks:
  assumes "store_inv (wd_unpin (snd w))" and "w' = app_event cfg e w"
  shows "store_inv (wd_unpin (snd w'))"
    and "store_has (wd_unpin (snd w)) x \<Longrightarrow> \<not> store_has (wd_unpin (snd w')) x \<Longrightarrow> sweep_unpins e w x \<or> stale_restart cfg e w"
    and "store_has (wd_unpin (snd w')) x \<Longrightarrow> \<not> store_has (wd_unpin (snd w)) x \<Longrightarrow> keyed_delete cfg e \<or> stale_restart cfg e w"
proof -
  have "store_inv (wd_unpin (snd w')) \<and>
    (store_has (wd_unpin (snd w)) x \<and> \<not> store_has (wd_unpin (snd w')) x \<longrightarrow> sweep_unpins e w x \<or> stale_restart cfg e w) \<and>
    (store_has (wd_unpin (snd w')) x \<and> \<not> store_has (wd_unpin (snd w)) x \<longrightarrow> keyed_delete cfg e \<or> stale_restart cfg e w)"
  proof (cases e)
    case (Visit app now c)
    obtain w1 out where s: "serve (application cfg app) now c w = (w1, out)" by fastforce
    from serve_marks [OF s, of x] assms Visit s show ?thesis by (auto simp: keyed_delete_def)
  next
    case (Sweep now ttl kb wr)
    have has: "store_has s x \<longleftrightarrow> store_marks s x \<noteq> None" for s by (simp add: store_has_def store_marks_def)
    from assms Sweep show ?thesis
      by (auto simp: has gc_pass_eq set_storage_def sweep_unpins_def worker_gc_inv worker_gc_marks split: if_splits)
  next
    case (Background kb i)
    with assms show ?thesis by (simp add: run_background_def set_storage_def)
  next
    case (Restart fl su connect)
    with assms show ?thesis
      by (auto simp: stale_restart_def split: option.splits dest: restart_marks(1) [OF _ assms(1)] restart_marks(2) [OF _ assms(1), of fl su connect cfg _ x])
  qed
  then show "store_inv (wd_unpin (snd w'))"
    and "store_has (wd_unpin (snd w)) x \<Longrightarrow> \<not> store_has (wd_unpin (snd w')) x \<Longrightarrow> sweep_unpins e w x \<or> stale_restart cfg e w"
    and "store_has (wd_unpin (snd w')) x \<Longrightarrow> \<not> store_has (wd_unpin (snd w)) x \<Longrightarrow> keyed_delete cfg e \<or> stale_restart cfg e w" by blast+
qed

lemma app_run_simps: "app_run cfg [] w = w" "app_run cfg (e # events) w = app_run cfg events (app_event cfg e w)"
  by (simp_all add: app_run_def)

lemma app_run_inv: "store_inv (wd_unpin (snd w)) \<Longrightarrow> store_inv (wd_unpin (snd (app_run cfg events w)))"
proof (induction events arbitrary: w)
  case (Cons e events)
  from Cons.IH [OF app_event_marks(1) [OF Cons.prems refl, of cfg e]] show ?case by (simp add: app_run_simps)
qed (simp add: app_run_simps)

text \<open>What holds of an event at one moment of a history.\<close>

definition somewhen :: "'f config \<Rightarrow> (('s, 'e, 'f, 'i, 'l) event \<Rightarrow> 'l visitors \<times> 's world \<Rightarrow> bool) \<Rightarrow> ('s, 'e, 'f, 'i, 'l) event list
    \<Rightarrow> 'l visitors \<times> 's world \<Rightarrow> bool" where
  "somewhen cfg P events w \<longleftrightarrow> (\<exists>pre e post. events = pre @ e # post \<and> P e (app_run cfg pre w))"

lemma somewhen_simps [simp]:
  "\<not> somewhen cfg P [] w"
  "somewhen cfg P (e # events) w \<longleftrightarrow> P e w \<or> somewhen cfg P events (app_event cfg e w)"
proof -
  show "somewhen cfg P (e # events) w \<longleftrightarrow> P e w \<or> somewhen cfg P events (app_event cfg e w)"
  proof
    assume "somewhen cfg P (e # events) w"
    then obtain pre e1 post where h: "e # events = pre @ e1 # post" "P e1 (app_run cfg pre w)" by (auto simp: somewhen_def)
    show "P e w \<or> somewhen cfg P events (app_event cfg e w)"
    proof (cases pre)
      case Nil
      with h show ?thesis by (simp add: app_run_simps)
    next
      case (Cons e0 pre0)
      with h have "events = pre0 @ e1 # post \<and> P e1 (app_run cfg pre0 (app_event cfg e w))" by (simp add: app_run_simps)
      then show ?thesis unfolding somewhen_def by blast
    qed
  next
    assume r: "P e w \<or> somewhen cfg P events (app_event cfg e w)"
    have "e # events = [] @ e # events \<and> P e (app_run cfg [] w)" if "P e w" using that by (simp add: app_run_simps)
    moreover have "e # events = (e # pre) @ e1 # post \<and> P e1 (app_run cfg (e # pre) w)"
      if "events = pre @ e1 # post" "P e1 (app_run cfg pre (app_event cfg e w))" for pre e1 post using that by (simp add: app_run_simps)
    ultimately show "somewhen cfg P (e # events) w" using r unfolding somewhen_def by blast
  qed
qed (simp add: somewhen_def)

lemma app_run_marks:
  "store_inv (wd_unpin (snd w)) \<Longrightarrow>
    (store_has (wd_unpin (snd w)) x \<and> \<not> store_has (wd_unpin (snd (app_run cfg events w))) x \<longrightarrow>
      somewhen cfg (\<lambda>e w. sweep_unpins e w x \<or> stale_restart cfg e w) events w) \<and>
    (store_has (wd_unpin (snd (app_run cfg events w))) x \<and> \<not> store_has (wd_unpin (snd w)) x \<longrightarrow>
      somewhen cfg (\<lambda>e w. keyed_delete cfg e \<or> stale_restart cfg e w) events w)"
proof (induction events arbitrary: w)
  case (Cons e events)
  from Cons.IH [OF app_event_marks(1) [OF Cons.prems refl, of cfg e]] app_event_marks(2,3) [OF Cons.prems refl, where cfg = cfg and e = e and x = x]
  show ?case by (simp add: app_run_simps) blast
qed (simp add: app_run_simps)

section \<open>Properties\<close>

text \<open>
  C1: what is deleted stays deleted, and only the platform deletes. Over any history of requests of any clients,
  passes of the collector, goroutines left behind and restarts, in any order and whatever nodes, tools and
  policies answer, the list stays well-formed; a CID loses its mark only in a pass that found it expired and
  unpinned it on every node, or when a restart finds another list than the process had, because the last
  write failed or the list is not the configured one: never by a request, not even by one that uploads the
  same file again. A CID gets marked only by a DELETE request with a configured API key, or by such a
  restart. And whoever asks for a CID that is marked after the history, with any rights, gets no answer but the
  refusals 401, 403, 404 and 429.
\<close>

theorem deletions_final:
  assumes "app_run cfg events w = w'" and "store_inv (wd_unpin (snd w))"
  shows "store_inv (wd_unpin (snd w')) \<and>
    (store_has (wd_unpin (snd w)) x \<and> \<not> store_has (wd_unpin (snd w')) x \<longrightarrow>
      somewhen cfg (\<lambda>e w. sweep_unpins e w x \<or> stale_restart cfg e w) events w) \<and>
    (store_has (wd_unpin (snd w')) x \<and> \<not> store_has (wd_unpin (snd w)) x \<longrightarrow>
      somewhen cfg (\<lambda>e w. keyed_delete cfg e \<or> stale_restart cfg e w) events w) \<and>
    (store_has (wd_unpin (snd w')) x \<and> route_of (ca_request c) = R_file \<and> validate_cid x = None \<and>
      path_parts ''/file/'' (rq_path (ca_request c)) = x # rest \<longrightarrow>
      (\<exists>rs. snd (serve (application cfg app) now c w') = Answered rs \<and> rs_status rs \<in> {401, 403, 404, 429}))"
  using app_run_inv [OF assms(2), of cfg events] app_run_marks [OF assms(2), of x cfg events] serve_deleted [of w' x c rest cfg app now] assms(1)
  by blast

section \<open>A witness\<close>

definition keyed_config :: "rat config" where
  "keyed_config = small_config\<lparr>cf_api := \<lparr>ap_keys = [''secret'']\<rparr>, cf_cors := \<lparr>co_allowed_origins = [], co_allowed_headers = []\<rparr>\<rparr>"

definition example_app :: "(unit, unit, rat, nrgba, nat) app" where
  "example_app = \<lparr>ap_server = mask_server, ap_upload = clip_env ''jpeg'', ap_video = clip_tools, ap_masks = example_masks,
     ap_upload_request = (\<lambda>c. post_request), ap_refresh_request = (\<lambda>c. None), ap_order = [], ap_clock = 5, ap_written = Written,
     ap_json = (\<lambda>r. []), ap_limiter = bucket, ap_lua = None\<rparr>"

definition example_world :: "unit world" where
  "example_world = \<lparr>wd_video = clip_state, wd_overrides = None, wd_tasks = []\<rparr>"

definition platform_delete :: call where
  "platform_delete = \<lparr>ca_request = \<lparr>rq_method = ''DELETE'', rq_path = ''/file/'' @ example_cid, rq_query = [],
       rq_headers = [(''X-Api-Key'', ''secret'')]\<rparr>, ca_remote_addr = ''1.2.3.4:5'', ca_cookie = None, ca_user = []\<rparr>"

lemma platform_delete_admitted:
  "admitted [''secret''] None (platform_delete\<lparr>ca_user := []\<rparr>) = Some (platform_delete\<lparr>ca_user := ''api-key''\<rparr>)"
proof -
  have "trim_space ''secret'' = ''secret''" by (simp add: trim_space_plain_all plain_char_def ascii_space_def)
  then show ?thesis
    by (simp add: admitted_def platform_delete_def with_media_cookie_def extract_token_def header_get_def query_get_def valid_keys_def
        has_prefix_def Let_def)
qed

lemma example_cid_clean: "clean_url_path (''/file/'' @ example_cid) = ''/file/'' @ example_cid"
  by code_simp

lemma example_routes:
  "route_of (example_request (''/file/'' @ example_cid) []) = R_file"
  "route_of (ca_request (platform_delete\<lparr>ca_user := u\<rparr>)) = R_delete"
proof -
  have p: "has_prefix (''/file/'' @ example_cid) ''/file/''" by (rule has_prefix_append)
  have l: "\<not> has_prefix (''/file/'' @ example_cid) ''/file/link/''" "\<not> has_prefix (''/file/'' @ example_cid) ''/stream/''"
    "''/file/'' @ example_cid \<noteq> ''/config''"
    by (simp_all add: example_cid_def has_prefix_def)
  have m: "match_route ''GET'' (''/file/'' @ example_cid) = R_file" by (simp add: match_route_GET p l(1,3) del: append_Cons)
  have d: "match_route ''DELETE'' (''/file/'' @ example_cid) = R_delete"
    using p by (simp add: match_route_def patterns_def pattern_matches_def longest_match_def)
  show "route_of (example_request (''/file/'' @ example_cid) []) = R_file"
    unfolding route_of_def Let_def example_request_def request.simps example_cid_clean subtree_redirect_def by (simp add: m del: append_Cons)
  show "route_of (ca_request (platform_delete\<lparr>ca_user := u\<rparr>)) = R_delete"
    unfolding route_of_def Let_def platform_delete_def call.simps request.simps example_cid_clean subtree_redirect_def
    by (simp add: d del: append_Cons)
qed

lemma example_deletion:
  "store_has (wd_unpin (snd (app_run keyed_config [Visit example_app 0 platform_delete] ([], example_world)))) example_cid"
proof -
  let ?env = "application keyed_config example_app" and ?c1 = "platform_delete\<lparr>ca_user := ''api-key''\<rparr>"
  have m: "rq_method (ca_request platform_delete) \<noteq> ''OPTIONS''" by (simp add: platform_delete_def)
  have "se_limiter ?env = bucket" by (simp add: application_def example_app_def)
  then obtain vs where a: "allow_request (se_limiter ?env) 0 (extract_ip platform_delete) (fst ([], example_world)) = (vs, True)"
    by (simp add: allow_request_def get_limiter_def bucket_def)
  have adm: "admitted (se_keys ?env) (se_lua ?env) (platform_delete\<lparr>ca_user := []\<rparr>) = Some ?c1"
    using platform_delete_admitted by (simp add: application_def example_app_def keyed_config_def)
  have sv: "sv_codec mask_server = None" by (simp add: mask_server_def)
  have t: "trim_prefix (rq_path (ca_request ?c1)) ''/file/'' = example_cid" by (simp add: platform_delete_def trim_prefix_append del: append_Cons)
  have "\<exists>st cids rs. handle_delete (with_store (wd_unpin example_world) mask_server) ''api-key'' 5 Written (ca_request ?c1) (wd_unpin example_world) =
      (st, cids, rs) \<and> store_has st example_cid"
    unfolding handle_delete_def t
    by (simp add: example_cid_valid with_store_def sv example_world_def clip_state_def store_get_group_def store_add_def store_has_def gomap_simps)
  then obtain st cids rs where h: "handle_delete (with_store (wd_unpin example_world) mask_server) ''api-key'' 5 Written (ca_request ?c1)
      (wd_unpin example_world) = (st, cids, rs)" "store_has st example_cid" by blast
  let ?w1 = "start_tasks (if cids = [] then [] else [Unpin cids]) (example_world\<lparr>wd_video := (wd_video example_world)\<lparr>vs_unpin := st\<rparr>\<rparr>)" and ?hs = "request_headers ?env platform_delete"
  have "app_handlers keyed_config example_app R_delete ?hs ?c1 example_world = (?w1, Answered (on_top ?hs rs))"
    using h(1) by (simp add: app_handlers_def user_id_from_context_def example_app_def)
  moreover have "se_handlers ?env = app_handlers keyed_config example_app" by (simp add: application_def)
  ultimately have "panic_recovery (mux ?env) ?hs ?c1 (vs, example_world) = ((vs, ?w1), Answered (on_top ?hs rs))"
    unfolding panic_recovery_def mux_def example_routes(2) by simp
  then have "serve ?env 0 platform_delete ([], example_world) = ((vs, ?w1), Answered (on_top ?hs rs))"
    unfolding serve_eq [OF m a] adm by simp
  with h(2) show ?thesis by (simp add: app_run_simps)
qed

theorem deletions_final_witness:
  "\<exists>rs. snd (serve (application keyed_config example_app) 0 (stranger\<lparr>ca_request := example_request (''/file/'' @ example_cid) []\<rparr>)
      (app_run keyed_config ([Background (ue_kubo (ap_upload example_app)) 0] :: (unit, unit, rat, nrgba, nat) event list)
        (app_run keyed_config [Visit example_app 0 platform_delete] ([], example_world)))) = Answered rs \<and> rs_status rs \<in> {401, 403, 404, 429}"
proof -
  let ?c = "stranger\<lparr>ca_request := example_request (''/file/'' @ example_cid) []\<rparr>"
  let ?w0 = "([], example_world) :: nat visitors \<times> unit world"
  let ?w1 = "app_run keyed_config [Visit example_app 0 platform_delete] ?w0"
  let ?e = "[Background (ue_kubo (ap_upload example_app)) 0] :: (unit, unit, rat, nrgba, nat) event list"
  have "store_inv (wd_unpin (snd ?w0))" by (simp add: example_world_def clip_state_def store_inv_def wf_gomap_def)
  from deletions_final [OF refl this] have inv: "store_inv (wd_unpin (snd ?w1))" by blast
  note d = deletions_final [OF refl inv, where cfg = keyed_config and events = ?e and x = example_cid and c = ?c and app = example_app and now = 0 and rest = "[]"]
  have only: "\<not> somewhen keyed_config (\<lambda>e w. sweep_unpins e w example_cid \<or> stale_restart keyed_config e w) ?e ?w1"
    by (simp add: sweep_unpins_def stale_restart_def)
  from d [THEN conjunct2, THEN conjunct1] only example_deletion have "store_has (wd_unpin (snd (app_run keyed_config ?e ?w1))) example_cid" by blast
  moreover have "route_of (ca_request ?c) = R_file" "path_parts ''/file/'' (rq_path (ca_request ?c)) = [example_cid]"
    using example_routes(1) example_cid_path by (simp_all add: example_request_def del: append_Cons)
  ultimately show ?thesis
    using example_cid_valid by (intro d [THEN conjunct2, THEN conjunct2, THEN conjunct2, THEN mp] conjI)
qed

end
