(* ===== verification/Spec2Isabelle.thy ===== *)
theory Spec2Isabelle
  imports Upload_Budget Manifest_Cache File_Cache Stream_Handlers Application
begin

text \<open>
  A verification library of the IPFS file storage service (Go, \<open>src/cmd\<close> and \<open>src/internal\<close>): an HTTP
  server that stores pictures, files and videos on a cluster of IPFS nodes and delivers them under a policy
  that may demand a blurred rendition, a rendition with masked faces, or nothing at all.

  \<^bold>\<open>The program and how its parts interact.\<close> \<open>cmd/server/main.go\<close> loads the configuration, brings the
  handlers up and puts them behind a chain: CORS, panic recovery, security headers, rate limit,
  authentication, then the routes. An upload passes form limits, the session's daily budget, conversion,
  metadata stripping and image processing, and becomes one directory (a bundle with a manifest) added to every
  node; a video passes validation, transcoding and the private posters, and its files and rewritten playlists
  are added one by one and remembered as a group. A read resolves a policy or a sealed grant to a decision,
  picks the rendition the decision allows, goes through the disk and manifest caches and fails over between the
  nodes. A deletion marks the CID and its group, revokes grants, and leaves the unpinning to a goroutine; a
  collector goes over the marks.

  \<^bold>\<open>The theories.\<close> Each models the files it names; definitions carry the names of the Go functions.
  \<^item> \<open>Prelude\<close>, \<open>Go_Strings\<close>, \<open>Go_Url\<close>, \<open>Base64\<close>, \<open>Go_Floats\<close>: what the code uses of Go and its standard
    library: wrapping \<open>int\<close>, maps as association lists (\<open>gomap\<close>), results as sums, \<open>strings\<close>, \<open>strconv\<close>,
    \<open>path\<close>, \<open>net/url\<close>, \<open>encoding/base64\<close>, and \<open>float64\<close> as a record of operations.
  \<^item> \<open>Config\<close>: \<open>internal/config\<close>. Every record, and \<open>Load\<close> over an environment.
  \<^item> \<open>Unpin_Store\<close>, \<open>Variant_Overrides\<close>: \<open>internal/store\<close>. The soft-delete list and the replaced variants,
    in memory and on disk. \<open>Unpin_Worker\<close>: \<open>internal/unpin\<close>, the collector on the list and its life cycle.
  \<^item> \<open>Cluster\<close>: \<open>internal/ipfs\<close>, the client of a node and the cluster. \<open>Pins\<close>: what the cluster operations do
    to the pins, the collector on the nodes, and the goroutines the handlers leave behind.
  \<^item> \<open>Media_Grant\<close>, \<open>Grant_State\<close>: \<open>internal/mediagrant\<close>, sealed grants and their revocation
    in Redis, whose contents are data and whose scripts are steps.
  \<^item> \<open>Bundle\<close>: \<open>internal/bundle\<close>. \<open>Manifest_Cache\<close>, \<open>File_Cache\<close>, \<open>Upload_Budget\<close>: the files of the same name
    in \<open>internal/handler\<close>; the slots of transcoding are in \<open>Upload_Budget\<close>.
  \<^item> \<open>Image_Blur\<close>, \<open>Face_Blur\<close>, \<open>Image_Processor\<close>, \<open>Metadata_Strip\<close>: \<open>internal/imageproc\<close>: pixels, faces,
    renditions, and the metadata of JPEG, PNG and WebP on byte lists.
  \<^item> \<open>Transcoder\<close>, \<open>Video_Uploader\<close>: \<open>internal/video\<close>: probing, validation, the ladder of renditions, the
    command lines of ffmpeg, and the upload of the output directory with its playlists.
  \<^item> \<open>Playlists\<close>, \<open>Delivery_Crop\<close>, \<open>Media_Access\<close>, \<open>File_Handlers\<close>, \<open>Stream_Handlers\<close>, \<open>Upload_Handlers\<close>,
    \<open>Video_Upload\<close>, \<open>Face_Masks\<close>, \<open>Public_Config\<close>, \<open>Service\<close>: the rest of \<open>internal/handler\<close>: playlists, crops,
    policy and grants, every route of \<open>handler.go\<close> and \<open>video_handler.go\<close>, the refresh of face masks, the
    public configuration with the messages of both languages, and \<open>NewHandler\<close>.
  \<^item> \<open>Access_Control\<close>, \<open>Lua_Auth\<close>: \<open>internal/middleware\<close>, \<open>internal/auth\<close>, and the routing of \<open>main\<close>.
  \<^item> \<open>Application\<close>: every route with its handler on the shared state (\<open>world\<close>) behind the chain, and histories
    (\<open>app_run\<close>) of requests, collector passes and background goroutines in any order. This theory adds what
    holds of a video from its upload to its deletion.

  \<^bold>\<open>State and errors.\<close> A Go struct is a record, its methods are functions that return it updated; errors are
  the left side of a sum or \<open>None\<close>, and every early return is a branch. A panic is a value: \<open>Panicked\<close> of a
  handler, \<open>None\<close> of a cache eviction or of a worker's step, \<open>Crashed\<close> of the start. What runs concurrently
  and shares state is a list of events (\<open>File_Cache\<close>, \<open>Grant_State\<close>, \<open>Upload_Budget\<close>, \<open>Application\<close>) or an order
  passed as an argument (the parts of \<open>HandleUploadMultiple\<close>); the nodes of a cluster do not share state, so one
  operation on all of them is pointwise. Integers that can wrap are words or pass through \<open>int64\<close>; where a
  theory uses unbounded integers it says why nothing wraps.

  \<^bold>\<open>Interfaces\<close> are locales, interpreted on the model: \<open>soft_delete_list\<close>, \<open>replacement_map\<close>,
  \<open>immutable_cache\<close>, \<open>failover_read\<close>, \<open>content_adder\<close> (Go's \<open>IPFSAdder\<close>) and \<open>unpin_service\<close>.

  \<^bold>\<open>Parameters.\<close> Code that is not in the repository is an argument: the kubo RPC library and the nodes
  (\<open>kubo\<close>), the policy service, AES-GCM, SHA-256 and the JSON
  codecs, image codecs, resampling and the neural network (\<open>imaging\<close>, \<open>detector\<close>), ffmpeg, ffprobe, jpegtran
  and heif-convert, multipart parsing and content sniffing, the token bucket, the Lua interpreter, DNS, the
  outcomes of file operations, clocks and random numbers. What a theorem needs of them is a named hypothesis:
  \<open>pin_laws\<close>, \<open>add_laws\<close>, \<open>unpin_laws\<close>, \<open>unpin_answered\<close> (kubo's documented pins), \<open>aead_laws\<close>,
  \<open>float_order\<close>, \<open>whole_floats\<close>, \<open>accepts\<close>; each has a witness with a concrete function.

  \<^bold>\<open>What the lemmas show.\<close> Per component: the invariant of its state and that every operation keeps it
  (caches, store, budget, grants); what each operation does on every branch; the optimised code against a
  reference (sliding-window blur and window mean, the shared visitor table and one limiter per address, the
  collector on the nodes and on the list); round trips between writer and reader (store and restart, grant seal
  and open, playlists built and served, configuration written and parsed); and across components: nothing but
  protected renditions of protected media, deletions that stay, uploads that are pinned everywhere.

  \<^bold>\<open>Termination.\<close> No definition uses fuel or is partial: loops recurse on data or on a measure
  (\<open>split_loop\<close> on the rest of the string, the marker loops of \<open>Metadata_Strip\<close> on the rest of the bytes,
  \<open>retry_loop\<close> on the attempts left), so every handler returns. \<open>string_reader_complete\<close> shows the same of a
  loop its caller drives.

  \<^bold>\<open>Not modelled\<close>, and why: the pprof listener and \<open>ListenAndServe\<close> of \<open>main\<close>, logging, and the settings of HTTP
  transports (no behaviour of this code); deadlines and the heap limit of a script (they only choose between
  outcomes the parameters already have); \<open>named_reader.go\<close>, \<open>probeDuration\<close>, \<open>pngChunk\<close> and \<open>Client.URL\<close> (nothing
  calls them); closing and initialising the face detector (calls of gocv); goroutines inside one call of the
  standard library. Two requests do not interleave inside a handler: the state they share is behind the locks
  of its components, whose own steps are modelled, except between the calls of one handler.
\<close>

section \<open>The life of a video\<close>

text \<open>Every CID the answer to a video upload names.\<close>

definition video_cids :: "'f video_response \<Rightarrow> string set" where
  "video_cids v = {vr_master_cid v} \<union> ran (map_of (vr_variant_cids v)) \<union> ran (map_of (vr_poster_cids v)) \<union>
     (\<Union>m \<in> ran (map_of (vr_privacy_poster_cids v)). ran (map_of m)) \<union> set (vr_stream_cids v)"

lemma uploaded_video_group:
  assumes "handle_upload_video env vt q st = (st1, Video_done v)" and "\<And>cmds. wf_gomap (vt_written vt cmds)"
  shows "store_get_group (vs_unpin st1) (vr_master_cid v) = vr_stream_cids v \<and> vr_stream_cids v \<noteq> [] \<and>
    video_cids v \<subseteq> set (vr_stream_cids v) \<and>
    (\<forall>c \<in> set (vr_stream_cids v). add_laws (ue_kubo env) pinned \<longrightarrow> everywhere pinned (st_cluster (vs_upload st1)) c)"
proof -
  from handle_upload_video_done [OF assms(1)] obtain out cmds d t cl u where
    b: "build_video_privacy_posters env vt out (vt_written vt cmds) = Some t"
    and u: "upload_dir (Some (cluster_adder (ue_kubo env))) (walk_tree vt t) (st_cluster (vs_upload st)) = (cl, Inr u)"
    and v: "v = video_response_of u d"
    and s: "vs_unpin st1 = store_track_group (vt_track vt) (ur_master_cid u) (ur_all_cids u) (vs_unpin st)"
    and cl: "st_cluster (vs_upload st1) = cl" by blast
  from build_video_privacy_posters_Some [OF b] assms(2) have "wf_gomap t" by blast
  from upload_dir_cids [OF walk_tree_keys(2) [OF this] u]
  have c: "insert (ur_master_cid u) (ran (map_of (ur_variant_cids u)) \<union> result_values u) \<subseteq> set (ur_all_cids u)" by blast
  then have "ur_all_cids u \<noteq> []" by auto
  moreover have "store_get_group (vs_unpin st1) (ur_master_cid u) = ur_all_cids u"
    unfolding s by (cases "vt_track vt") (simp_all add: store_get_group_def store_track_group_def gomap_simps)
  moreover have "video_cids v \<subseteq> set (ur_all_cids u)"
    using c unfolding v by (auto simp: video_cids_def video_response_of_def result_values_def)
  moreover have "\<forall>c \<in> set (ur_all_cids u). add_laws (ue_kubo env) pinned \<longrightarrow> everywhere pinned cl c"
    using cluster_content.upload_dir_kept [OF u] by blast
  ultimately show ?thesis unfolding v cl by (simp add: video_response_of_def)
qed

lemma uploaded_file_pinned:
  assumes "handle_upload env q st = (st1, Upload_one r)" and "add_laws (ue_kubo env) pinned"
  shows "everywhere pinned (st_cluster st1) (fr_cid r)"
  using handle_upload_one [OF assms(1)] cluster_add_dir_pins [OF assms(2)] by fastforce

text \<open>
  C38: what an upload answers is safe on every node. Let adding pin what it stored and leave the other pins.
  After a video upload that succeeds, every CID the answer names and every CID remembered for the deletion of
  the video, segments, playlists and posters in every rendition, is pinned on every node; after a file upload
  that succeeds, its bundle is; and there is a node.
\<close>

theorem uploads_pinned_everywhere:
  assumes "add_laws (ue_kubo env) pinned" and "\<And>cmds. wf_gomap (vt_written vt cmds)"
  shows "(handle_upload_video env vt q vst = (vst1, Video_done v) \<and> c \<in> video_cids v \<union> set (vr_stream_cids v) \<longrightarrow>
      everywhere pinned (st_cluster (vs_upload vst1)) c) \<and>
    (handle_upload env q st = (st1, Upload_one r) \<longrightarrow> everywhere pinned (st_cluster st1) (fr_cid r))"
  using uploaded_video_group [of env vt q vst vst1 v pinned, OF _ assms(2)] uploaded_file_pinned [OF _ assms(1)] assms(1) by blast

definition clip_pins :: "unit \<Rightarrow> string \<Rightarrow> bool" where
  "clip_pins s p \<longleftrightarrow> p = ipfs_path example_cid \<or> p = ipfs_path ''Qd''"

theorem uploads_pinned_everywhere_witness:
  "\<exists>st v. handle_upload_video (clip_env ''jpeg'') clip_tools post_request clip_state = (st, Video_done v) \<and>
    everywhere clip_pins (st_cluster (vs_upload st)) (vr_master_cid v)"
proof -
  have "add_laws (ue_kubo (clip_env ''jpeg'')) clip_pins"
    by (auto simp: add_laws_def clip_pins_def) (auto simp: clip_env_def text_env_def)
  moreover have "wf_gomap (vt_written clip_tools cmds)" for cmds by (simp add: wf_gomap_def)
  ultimately show ?thesis using clip_uploaded uploads_pinned_everywhere [of "clip_env ''jpeg''" clip_pins clip_tools]
    by (fastforce simp: video_cids_def)
qed

text \<open>
  C2: a deleted video is deleted whole. After the platform deletes the master playlist of a video that was
  uploaded, with answer 200, the CIDs that are unpinned are the remembered group of the video, and every CID
  the upload's answer named, master, variant, segment, poster and privacy poster alike, is refused from then
  on by the file route, by the stream route and by the segment route, whatever the policy would say; and once
  the goroutine of the delete route has run and the nodes answered it for a CID, no node has that CID pinned.
\<close>

theorem video_deleted_whole:
  assumes "handle_upload_video env vt q st = (st1, Video_done v)" and "\<And>cmds. wf_gomap (vt_written vt cmds)"
    and "rq_path r = ''/file/'' @ vr_master_cid v"
    and "handle_delete sv user now wr r (vs_unpin st1) = (un, cids, rs)" and "rs_status rs = 200"
    and "c \<in> video_cids v" and "validate_cid c = None"
  shows "cids = vr_stream_cids v \<and> c \<in> set cids \<and>
    (path_parts ''/file/'' (rq_path p) = c # rest \<longrightarrow> handle_file (with_store un sv) p ov = (ov, [], file_was_deleted)) \<and>
    (segment_cid (trim_prefix (rq_path p) ''/stream/segment/'') = c \<longrightarrow>
      handle_stream_segment (with_store un sv) p ov = not_found ''Segment not found'' initial_headers) \<and>
    (split_char CHR ''/'' (trim_prefix (rq_path p) ''/stream/'') = c # x # xs \<longrightarrow>
      handle_stream_master (with_store un sv) p = not_found ''Video not found'' initial_headers) \<and>
    (unpin_laws kb pinned \<and> unpin_answered kb pinned c \<longrightarrow> nowhere pinned (run_task kb pn (Unpin cids) cl) c)"
proof -
  have t: "trim_prefix (rq_path r) ''/file/'' = vr_master_cid v" unfolding assms(3) by (rule trim_prefix_append)
  note g = uploaded_video_group [OF assms(1,2), of "\<lambda>s p. True"]
  from handle_delete_ok [OF assms(4,5)] g have c: "cids = vr_stream_cids v" "\<And>c. c \<in> set cids \<Longrightarrow> store_has un c" unfolding t by auto
  with g assms(6) have "c \<in> set cids" "store_has un c" by auto
  moreover from assms(7) have "c \<noteq> []" by (auto simp: validate_cid_def)
  moreover from c(1) \<open>c \<in> set cids\<close> have "unpin_laws kb pinned \<and> unpin_answered kb pinned c \<longrightarrow> nowhere pinned (run_task kb pn (Unpin cids) cl) c"
    using pins.unpin_list_gone [of kb pinned c cids cl] by (auto simp: unpin_async_def)
  ultimately show ?thesis
    using c(1) assms(7) by (simp add: handle_file_def handle_stream_segment_def handle_stream_master_def with_store_def)
qed

theorem video_deleted_whole_witness:
  "\<exists>st v un cids rs. handle_upload_video (clip_env ''jpeg'') clip_tools post_request clip_state = (st, Video_done v) \<and>
    handle_delete mask_server ''api-key'' 0 Written (example_request (''/file/'' @ vr_master_cid v) []) (vs_unpin st) = (un, cids, rs) \<and>
    handle_file (with_store un mask_server) (example_request (''/file/'' @ example_cid) []) None = (None, [], file_was_deleted)"
proof -
  obtain st v where u: "handle_upload_video (clip_env ''jpeg'') clip_tools post_request clip_state = (st, Video_done v)"
    using clip_uploaded by blast
  have wf: "wf_gomap (vt_written clip_tools cmds)" for cmds by (simp add: wf_gomap_def)
  have m: "vr_master_cid v = example_cid" using u by (rule clip_master)
  have t: "trim_prefix (rq_path (example_request (''/file/'' @ vr_master_cid v) [])) ''/file/'' = example_cid"
    by (simp add: m example_request_def trim_prefix_append del: append_Cons)
  have "sv_codec mask_server = None" by (simp add: mask_server_def)
  then obtain un cids rs where d: "handle_delete mask_server ''api-key'' 0 Written (example_request (''/file/'' @ vr_master_cid v) []) (vs_unpin st) =
      (un, cids, rs)" "rs_status rs = 200"
    unfolding handle_delete_def t by (cases "store_get_group (vs_unpin st) example_cid = []") (simp_all add: example_cid_valid Let_def)
  have "example_cid \<in> video_cids v" by (simp add: video_cids_def m)
  note whole = video_deleted_whole [OF u wf _ d this example_cid_valid, where p = "example_request (''/file/'' @ example_cid) []" and
      rest = "[]" and kb = strict_kubo and ov = None and xs = "[]"]
  have "path_parts ''/file/'' (rq_path (example_request (''/file/'' @ example_cid) [])) = [example_cid]"
    using example_cid_path by (simp add: example_request_def del: append_Cons)
  with whole have "handle_file (with_store un mask_server) (example_request (''/file/'' @ example_cid) []) None = (None, [], file_was_deleted)"
    by (simp add: example_request_def del: append_Cons)
  with u d(1) show ?thesis by blast
qed

end
